(* ===== verification/WPDK_Prelude.thy ===== *)
theory WPDK_Prelude
  imports Main "HOL-Library.Word"
begin

text \<open>
  Shared vocabulary of the development.

  \<^item> The POSIX error numbers as the Windows C runtime numbers them, together with the ones that
    \<^verbatim>\<open>inc/errno.h\<close> adds.
  \<^item> The record \<open>sys\<close>: the \<^verbatim>\<open>errno\<close> of the calling thread, a flag for invalid memory accesses,
    and the state \<open>world\<close> of everything that is reached through the Windows API only. Components extend this record by their own
    static variables. A Windows call is a function parameter on \<open>world\<close>.
  \<^item> The scanning loop \<^verbatim>\<open>for (i = 0; i < n; i++) if (P(i)) break;\<close> that the tables of the
    library share, the C integer ranges and the C string functions.
\<close>

named_theorems errno_simps \<open>values of the error numbers and other numeric macros\<close>
named_theorems wpdk_defs \<open>definitions unfolded by the functional lemmas\<close>

section \<open>Error numbers\<close>

text \<open>
  The values of \<^verbatim>\<open>ucrt/errno.h\<close>.
\<close>

definition EPERM :: int where [errno_simps]: "EPERM = 1"
definition ENOENT :: int where [errno_simps]: "ENOENT = 2"
definition ESRCH :: int where [errno_simps]: "ESRCH = 3"
definition EINTR :: int where [errno_simps]: "EINTR = 4"
definition EIO :: int where [errno_simps]: "EIO = 5"
definition ENXIO :: int where [errno_simps]: "ENXIO = 6"
definition ENOEXEC :: int where [errno_simps]: "ENOEXEC = 8"
definition EBADF :: int where [errno_simps]: "EBADF = 9"
definition ECHILD :: int where [errno_simps]: "ECHILD = 10"
definition EAGAIN :: int where [errno_simps]: "EAGAIN = 11"
definition ENOMEM :: int where [errno_simps]: "ENOMEM = 12"
definition EACCES :: int where [errno_simps]: "EACCES = 13"
definition EFAULT :: int where [errno_simps]: "EFAULT = 14"
definition EBUSY :: int where [errno_simps]: "EBUSY = 16"
definition EEXIST :: int where [errno_simps]: "EEXIST = 17"
definition EXDEV :: int where [errno_simps]: "EXDEV = 18"
definition ENODEV :: int where [errno_simps]: "ENODEV = 19"
definition EINVAL :: int where [errno_simps]: "EINVAL = 22"
definition ENFILE :: int where [errno_simps]: "ENFILE = 23"
definition EMFILE :: int where [errno_simps]: "EMFILE = 24"
definition ENOTTY :: int where [errno_simps]: "ENOTTY = 25"
definition ENOSPC :: int where [errno_simps]: "ENOSPC = 28"
definition EPIPE :: int where [errno_simps]: "EPIPE = 32"
definition ERANGE :: int where [errno_simps]: "ERANGE = 34"
definition ENAMETOOLONG :: int where [errno_simps]: "ENAMETOOLONG = 38"
definition ENOLCK :: int where [errno_simps]: "ENOLCK = 39"
definition ENOSYS :: int where [errno_simps]: "ENOSYS = 40"
definition ENOTEMPTY :: int where [errno_simps]: "ENOTEMPTY = 41"
definition EADDRINUSE :: int where [errno_simps]: "EADDRINUSE = 100"
definition EADDRNOTAVAIL :: int where [errno_simps]: "EADDRNOTAVAIL = 101"
definition EAFNOSUPPORT :: int where [errno_simps]: "EAFNOSUPPORT = 102"
definition EALREADY :: int where [errno_simps]: "EALREADY = 103"
definition ECANCELED :: int where [errno_simps]: "ECANCELED = 105"
definition ECONNABORTED :: int where [errno_simps]: "ECONNABORTED = 106"
definition ECONNREFUSED :: int where [errno_simps]: "ECONNREFUSED = 107"
definition ECONNRESET :: int where [errno_simps]: "ECONNRESET = 108"
definition EDESTADDRREQ :: int where [errno_simps]: "EDESTADDRREQ = 109"
definition EHOSTUNREACH :: int where [errno_simps]: "EHOSTUNREACH = 110"
definition EINPROGRESS :: int where [errno_simps]: "EINPROGRESS = 112"
definition EISCONN :: int where [errno_simps]: "EISCONN = 113"
definition ELOOP :: int where [errno_simps]: "ELOOP = 114"
definition EMSGSIZE :: int where [errno_simps]: "EMSGSIZE = 115"
definition ENETDOWN :: int where [errno_simps]: "ENETDOWN = 116"
definition ENETRESET :: int where [errno_simps]: "ENETRESET = 117"
definition ENETUNREACH :: int where [errno_simps]: "ENETUNREACH = 118"
definition ENOBUFS :: int where [errno_simps]: "ENOBUFS = 119"
definition ENODATA :: int where [errno_simps]: "ENODATA = 120"
definition ENOPROTOOPT :: int where [errno_simps]: "ENOPROTOOPT = 123"
definition ENOTCONN :: int where [errno_simps]: "ENOTCONN = 126"
definition ENOTSOCK :: int where [errno_simps]: "ENOTSOCK = 128"
definition ENOTSUP :: int where [errno_simps]: "ENOTSUP = 129"
definition EOWNERDEAD :: int where [errno_simps]: "EOWNERDEAD = 133"
definition EPROTONOSUPPORT :: int where [errno_simps]: "EPROTONOSUPPORT = 135"
definition EPROTOTYPE :: int where [errno_simps]: "EPROTOTYPE = 136"
definition ETIMEDOUT :: int where [errno_simps]: "ETIMEDOUT = 138"
definition EWOULDBLOCK :: int where [errno_simps]: "EWOULDBLOCK = 140"

text \<open>
  The values added by \<^verbatim>\<open>inc/errno.h\<close>.
\<close>

definition ESHUTDOWN :: int where [errno_simps]: "ESHUTDOWN = 200"
definition EHOSTDOWN :: int where [errno_simps]: "EHOSTDOWN = 202"
definition EUSERS :: int where [errno_simps]: "EUSERS = 203"
definition EDQUOT :: int where [errno_simps]: "EDQUOT = 204"
definition ESTALE :: int where [errno_simps]: "ESTALE = 205"
definition EREMOTE :: int where [errno_simps]: "EREMOTE = 206"
definition EPROCLIM :: int where [errno_simps]: "EPROCLIM = 207"
definition ETOOMANYREFS :: int where [errno_simps]: "ETOOMANYREFS = 10059"

section \<open>The process state seen by a call\<close>

text \<open>
  \<open>fault\<close> records that the code has made an invalid memory access; what the state holds after
  that means nothing.
\<close>

record 'w sys =
  errno :: int
  fault :: bool
  world :: 'w

text \<open>
  \<^verbatim>\<open>_set_errno\<close> of the C runtime, and \<^verbatim>\<open>wpdk_posix_error\<close> of \<^verbatim>\<open>src/error.c\<close>: record the error
  and return \<open>-1\<close>.
\<close>

definition set_errno :: "int \<Rightarrow> ('w, 'z) sys_scheme \<Rightarrow> ('w, 'z) sys_scheme" where
  [wpdk_defs]: "set_errno e s = s\<lparr>errno := e\<rparr>"

definition wpdk_posix_error :: "int \<Rightarrow> ('w, 'z) sys_scheme \<Rightarrow> int \<times> ('w, 'z) sys_scheme" where
  [wpdk_defs]: "wpdk_posix_error e s = (- 1, set_errno e s)"

definition set_fault :: "('w, 'z) sys_scheme \<Rightarrow> ('w, 'z) sys_scheme" where
  "set_fault s = s\<lparr>fault := True\<rparr>"

text \<open>
  A call of the Windows API: \<open>os_call f s\<close> runs \<open>f\<close> on the world.
\<close>

definition os_call :: "('w \<Rightarrow> 'a \<times> 'w) \<Rightarrow> ('w, 'z) sys_scheme \<Rightarrow> 'a \<times> ('w, 'z) sys_scheme" where
  "os_call f s = (let (r, w) = f (world s) in (r, s\<lparr>world := w\<rparr>))"

lemma fst_posix_error [simp]: "fst (wpdk_posix_error e s) = - 1"
  by (simp add: wpdk_posix_error_def)

lemma snd_posix_error [simp]: "snd (wpdk_posix_error e s) = s\<lparr>errno := e\<rparr>"
  by (simp add: wpdk_posix_error_def set_errno_def)

lemma os_call_eq:
  "os_call f s = (fst (f (world s)), s\<lparr>world := snd (f (world s))\<rparr>)"
  by (simp add: os_call_def split_beta)

section \<open>Memory that the caller passes\<close>

text \<open>
  The address of a buffer is opaque; an element of a scatter/gather array is a buffer and its
  length, a \<^verbatim>\<open>size_t\<close>.
\<close>

type_synonym ptr = nat

record iovec =
  iov_base :: ptr
  iov_len :: int

section \<open>Scanning loops\<close>

text \<open>
  \<open>scan P i n\<close> is the value of \<open>i\<close> after
  \<^verbatim>\<open>for (; i < n; i++) if (P(i)) break;\<close>
\<close>

function scan :: "(nat \<Rightarrow> bool) \<Rightarrow> nat \<Rightarrow> nat \<Rightarrow> nat" where
  "scan P i n = (if i < n then if P i then i else scan P (Suc i) n else i)"
  by pat_completeness auto
termination
  by (relation "measure (\<lambda>(P, i, n). n - i)") auto

declare scan.simps [simp del]

lemma scan_stop [simp]: "\<not> i < n \<Longrightarrow> scan P i n = i"
  by (simp add: scan.simps)

lemma scan_hit [simp]: "P i \<Longrightarrow> scan P i n = i"
  by (simp add: scan.simps)

lemma scan_step: "i < n \<Longrightarrow> \<not> P i \<Longrightarrow> scan P i n = scan P (Suc i) n"
  by (simp add: scan.simps [of P i n])

lemma scan_bounds: "i \<le> n \<Longrightarrow> i \<le> scan P i n \<and> scan P i n \<le> n"
proof (induction P i n rule: scan.induct)
  case (1 P i n)
  then show ?case by (cases "i < n \<and> \<not> P i") (auto simp: scan.simps [of P i n])
qed

lemma scan_le: "i \<le> n \<Longrightarrow> scan P i n \<le> n"
  using scan_bounds by blast

lemma scan_found: "scan P i n < n \<Longrightarrow> P (scan P i n)"
proof (induction P i n rule: scan.induct)
  case (1 P i n)
  then show ?case by (cases "i < n"; cases "P i") (auto simp: scan_step)
qed

lemma scan_before: "i \<le> k \<Longrightarrow> k < scan P i n \<Longrightarrow> k < n \<Longrightarrow> \<not> P k"
proof (induction P i n rule: scan.induct)
  case (1 P i n)
  then show ?case
    by (cases "i < n"; cases "P i"; cases "k = i") (auto simp: scan_step)
qed

text \<open>The scan from \<open>0\<close> fails exactly when no index qualifies.\<close>

lemma scan_full_iff: "scan P 0 n = n \<longleftrightarrow> (\<forall>k<n. \<not> P k)"
proof
  assume "scan P 0 n = n"
  then show "\<forall>k<n. \<not> P k" using scan_before [of 0 _ P n] by auto
next
  assume none: "\<forall>k<n. \<not> P k"
  have "scan P 0 n \<le> n" by (rule scan_le) simp
  moreover have "\<not> scan P 0 n < n" using scan_found [of P 0 n] none by blast
  ultimately show "scan P 0 n = n" by simp
qed

lemma scan_lt_iff: "scan P 0 n < n \<longleftrightarrow> (\<exists>k<n. P k)"
  using scan_full_iff [of P n] scan_le [of 0 n P] by (auto simp: le_less)

lemma scan_unique:
  assumes "i < n" "P i" "\<And>k. k < n \<Longrightarrow> P k \<Longrightarrow> k = i"
  shows "scan P 0 n = i"
proof -
  have "scan P 0 n < n" using assms(1,2) scan_lt_iff by blast
  then show ?thesis using scan_found [of P 0 n] assms(3) by blast
qed

lemma scan_cong: "(\<And>k. k < n \<Longrightarrow> P k = Q k) \<Longrightarrow> scan P i n = scan Q i n"
proof (induction P i n rule: scan.induct)
  case (1 P i n)
  then show ?case by (cases "i < n") (auto simp: scan.simps [of _ i n])
qed

section \<open>C integers\<close>

definition INT_MAX :: int where [errno_simps]: "INT_MAX = 2 ^ 31 - 1"
definition UINT_MAX :: int where [errno_simps]: "UINT_MAX = 2 ^ 32 - 1"
definition ULONG_MAX :: int where [errno_simps]: "ULONG_MAX = 2 ^ 32 - 1"
definition LONG_MAX :: int where [errno_simps]: "LONG_MAX = 2 ^ 31 - 1"
definition INT64_MAX :: int where [errno_simps]: "INT64_MAX = 2 ^ 63 - 1"
definition INT64_MIN :: int where [errno_simps]: "INT64_MIN = - (2 ^ 63)"
definition SSIZE_MAX :: int where [errno_simps]: "SSIZE_MAX = 2 ^ 63 - 1"

text \<open>Conversions to \<^verbatim>\<open>int\<close>, \<^verbatim>\<open>DWORD\<close> and \<^verbatim>\<open>int64_t\<close>.\<close>

definition to_int32 :: "int \<Rightarrow> int" where "to_int32 n = (n + 2 ^ 31) mod 2 ^ 32 - 2 ^ 31"
definition to_uint32 :: "int \<Rightarrow> int" where "to_uint32 n = n mod 2 ^ 32"
definition to_int64 :: "int \<Rightarrow> int" where "to_int64 n = (n + 2 ^ 63) mod 2 ^ 64 - 2 ^ 63"
definition to_uint64 :: "int \<Rightarrow> int" where "to_uint64 n = n mod 2 ^ 64"

lemma to_int32_id: "- (2 ^ 31) \<le> n \<Longrightarrow> n < 2 ^ 31 \<Longrightarrow> to_int32 n = n"
  by (simp add: to_int32_def)

lemma to_int64_id: "- (2 ^ 63) \<le> n \<Longrightarrow> n < 2 ^ 63 \<Longrightarrow> to_int64 n = n"
  by (simp add: to_int64_def)

lemma to_uint32_id: "0 \<le> n \<Longrightarrow> n < 2 ^ 32 \<Longrightarrow> to_uint32 n = n"
  by (simp add: to_uint32_def)

text \<open>Division and remainder of C truncate towards zero.\<close>

definition c_div :: "int \<Rightarrow> int \<Rightarrow> int" where
  "c_div a b = sgn a * sgn b * (\<bar>a\<bar> div \<bar>b\<bar>)"

definition c_mod :: "int \<Rightarrow> int \<Rightarrow> int" where
  "c_mod a b = a - c_div a b * b"

lemma c_div_nonneg: "0 \<le> a \<Longrightarrow> 0 < b \<Longrightarrow> c_div a b = a div b"
  by (cases "a = 0") (auto simp: c_div_def)

lemma c_mod_nonneg: "0 \<le> a \<Longrightarrow> 0 < b \<Longrightarrow> c_mod a b = a mod b"
  by (simp add: c_mod_def c_div_nonneg minus_div_mult_eq_mod)

end
