(* ===== verification/Error_Map.thy ===== *)
theory Error_Map
  imports WPDK_Prelude
begin

text \<open>
  \<^verbatim>\<open>src/error.c\<close>: the translation of Windows and Winsock error codes to \<^verbatim>\<open>errno\<close> values and the
  functions through which every component reports a failure.

  The Windows codes are the symbolic macros of the Windows SDK, one constructor per \<^verbatim>\<open>case\<close> label
  of \<^verbatim>\<open>wpdk_convert_to_posix\<close>. The switch is cut into seven consecutive runs of its labels
  (\<open>convert1\<close> to \<open>convert7\<close>), and \<open>Werr_other\<close> stands for every code without a label.
\<close>

section \<open>The conversion table\<close>

datatype (plugins only: code) werr1 =
    ERROR_SUCCESS
  | ERROR_ACCESS_DENIED
  | ERROR_ADAP_HDW_ERR
  | ERROR_ALERTED
  | ERROR_ALREADY_EXISTS
  | ERROR_ARENA_TRASHED
  | ERROR_BAD_ARGUMENTS
  | ERROR_BAD_COMMAND
  | ERROR_BAD_DEVICE
  | ERROR_BAD_DEVICE_PATH
  | ERROR_BAD_DRIVER_LEVEL
  | ERROR_BAD_ENVIRONMENT
  | ERROR_BAD_EXE_FORMAT
  | ERROR_BAD_FORMAT
  | ERROR_BAD_LENGTH
  | ERROR_BAD_NETPATH
  | ERROR_BAD_NET_NAME
  | ERROR_BAD_NET_RESP
  | ERROR_BAD_PATHNAME
  | ERROR_BAD_UNIT
  | ERROR_BROKEN_PIPE
  | ERROR_BUFFER_OVERFLOW
  | ERROR_BUS_RESET
  | ERROR_BUSY
  | ERROR_CALL_NOT_IMPLEMENTED
  | ERROR_CAN_NOT_COMPLETE
  | ERROR_CANCELLED
  | ERROR_CANNOT_MAKE
  | ERROR_CANT_TERMINATE_SELF
  | ERROR_CANT_WAIT
  | ERROR_COMMITMENT_LIMIT
  | ERROR_CONNECTION_ABORTED
  | ERROR_CONNECTION_ACTIVE
  | ERROR_CONNECTION_REFUSED
  | ERROR_CRC

datatype (plugins only: code) werr2 =
    ERROR_CURRENT_DIRECTORY
  | ERROR_DATA_CHECKSUM_ERROR
  | ERROR_DELETE_PENDING
  | ERROR_DEV_NOT_EXIST
  | ERROR_DEVICE_ALREADY_ATTACHED
  | ERROR_DEVICE_NO_RESOURCES
  | ERROR_DEVICE_NOT_CONNECTED
  | ERROR_DEVICE_UNREACHABLE
  | ERROR_DIR_NOT_EMPTY
  | ERROR_DIR_NOT_ROOT
  | ERROR_DIRECT_ACCESS_HANDLE
  | ERROR_DIRECTORY_NOT_SUPPORTED
  | ERROR_DISK_FULL
  | ERROR_DUP_NAME
  | ERROR_ELEVATION_REQUIRED
  | ERROR_ERRORS_ENCOUNTERED
  | ERROR_EXCL_SEM_ALREADY_OWNED
  | ERROR_FILE_EXISTS
  | ERROR_FILE_LEVEL_TRIM_NOT_SUPPORTED
  | ERROR_FILE_NOT_FOUND
  | ERROR_FILENAME_EXCED_RANGE
  | ERROR_GEN_FAILURE
  | ERROR_GRACEFUL_DISCONNECT
  | ERROR_INCORRECT_SIZE
  | ERROR_INVALID_ACCESS
  | ERROR_INVALID_BLOCK
  | ERROR_INVALID_FUNCTION
  | ERROR_INVALID_HANDLE
  | ERROR_INVALID_LOCK_RANGE
  | ERROR_INVALID_NAME

datatype (plugins only: code) werr3 =
    ERROR_INVALID_USER_BUFFER
  | ERROR_HANDLE_DISK_FULL
  | ERROR_HANDLE_EOF
  | ERROR_HOST_DOWN
  | ERROR_HOST_UNREACHABLE
  | ERROR_INSUFFICIENT_BUFFER
  | ERROR_INTERNAL_ERROR
  | ERROR_INVALID_ADDRESS
  | ERROR_INVALID_DATA
  | ERROR_INVALID_DRIVE
  | ERROR_INVALID_EXCEPTION_HANDLER
  | ERROR_INVALID_FIELD_IN_PARAMETER_LIST
  | ERROR_INVALID_FLAGS
  | ERROR_INVALID_NETNAME
  | ERROR_INVALID_PARAMETER
  | ERROR_IO_DEVICE
  | ERROR_IO_INCOMPLETE
  | ERROR_IO_PENDING
  | ERROR_LOCK_FAILED
  | ERROR_LOCK_VIOLATION
  | ERROR_LOST_WRITEBEHIND_DATA
  | ERROR_MAX_THRDS_REACHED
  | ERROR_MEMORY_HARDWARE
  | ERROR_MORE_DATA
  | ERROR_MULTIPLE_FAULT_VIOLATION
  | ERROR_NEGATIVE_SEEK
  | ERROR_NETNAME_DELETED
  | ERROR_NETWORK_ACCESS_DENIED
  | ERROR_NETWORK_UNREACHABLE
  | ERROR_NETWORK_BUSY
  | ERROR_NO_MORE_ITEMS
  | ERROR_NOACCESS
  | ERROR_NOINTERFACE

datatype (plugins only: code) werr4 =
    ERROR_NOT_CAPABLE
  | ERROR_NOT_ENOUGH_MEMORY
  | ERROR_NOT_ENOUGH_QUOTA
  | ERROR_NOT_FOUND
  | ERROR_NOT_LOCKED
  | ERROR_NOT_READY
  | ERROR_NOT_SAME_DEVICE
  | ERROR_NOT_SUPPORTED
  | ERROR_NO_MORE_FILES
  | ERROR_NO_MORE_USER_HANDLES
  | ERROR_NO_NETWORK
  | ERROR_NO_PROC_SLOTS
  | ERROR_NO_SYSTEM_RESOURCES
  | ERROR_NONPAGED_SYSTEM_RESOURCES
  | ERROR_NOT_DOS_DISK
  | ERROR_OBJECT_NAME_EXISTS
  | ERROR_OFFSET_ALIGNMENT_VIOLATION
  | ERROR_OPERATION_IN_PROGRESS
  | ERROR_OUT_OF_STRUCTURES
  | ERROR_PAGED_SYSTEM_RESOURCES
  | ERROR_POSSIBLE_DEADLOCK
  | ERROR_PAGEFILE_QUOTA
  | ERROR_OPEN_FAILED
  | ERROR_OPERATION_ABORTED
  | ERROR_OUTOFMEMORY
  | ERROR_OUT_OF_PAPER
  | ERROR_PAGEFILE_QUOTA_EXCEEDED
  | ERROR_PATH_NOT_FOUND
  | ERROR_PIPE_NOT_CONNECTED
  | ERROR_PROTOCOL_UNREACHABLE
  | ERROR_PORT_UNREACHABLE
  | ERROR_READ_FAULT
  | ERROR_RECEIVE_EXPEDITED

datatype (plugins only: code) werr5 =
    ERROR_RECEIVE_PARTIAL
  | ERROR_RECEIVE_PARTIAL_EXPEDITED
  | ERROR_REM_NOT_LIST
  | ERROR_REPARSE
  | ERROR_REQ_NOT_ACCEP
  | ERROR_REQUEST_ABORTED
  | ERROR_RETRY
  | ERROR_SECTOR_NOT_FOUND
  | ERROR_SEEK
  | ERROR_SEEK_ON_DEVICE
  | ERROR_SEM_IS_SET
  | ERROR_SEM_NOT_FOUND
  | ERROR_SEM_OWNER_DIED
  | ERROR_SEM_TIMEOUT
  | ERROR_SEM_USER_LIMIT
  | ERROR_SHARING_BUFFER_EXCEEDED
  | ERROR_SHARING_VIOLATION
  | ERROR_TIMEOUT
  | ERROR_TOO_MANY_DESCRIPTORS
  | ERROR_TOO_MANY_NAMES
  | ERROR_TOO_MANY_OPEN_FILES
  | ERROR_TOO_MANY_POSTS
  | ERROR_TOO_MANY_SEM_REQUESTS
  | ERROR_TOO_MANY_SEMAPHORES
  | ERROR_TOO_MANY_TCBS
  | ERROR_TOO_MANY_THREADS
  | ERROR_UNEXP_NET_ERR
  | ERROR_USER_MAPPED_FILE
  | ERROR_WAIT_NO_CHILDREN
  | ERROR_WRITE_FAULT
  | ERROR_WRITE_PROTECT
  | ERROR_WRONG_DISK
  | ERROR_WORKING_SET_QUOTA
  | WAIT_TIMEOUT

datatype (plugins only: code) werr6 =
    WSAEINTR
  | WSAEBADF
  | WSAEACCES
  | WSAEFAULT
  | WSAEINVAL
  | WSAEMFILE
  | WSAEWOULDBLOCK
  | WSAEINPROGRESS
  | WSAEALREADY
  | WSAENOTSOCK
  | WSAEDESTADDRREQ
  | WSAEMSGSIZE
  | WSAEPROTOTYPE
  | WSAENOPROTOOPT
  | WSAEPROTONOSUPPORT
  | WSAESOCKTNOSUPPORT
  | WSAEOPNOTSUPP
  | WSAEPFNOSUPPORT
  | WSAEAFNOSUPPORT
  | WSAEADDRINUSE
  | WSAEADDRNOTAVAIL
  | WSAENETDOWN
  | WSAENETUNREACH
  | WSAENETRESET
  | WSAECONNABORTED
  | WSAECONNRESET
  | WSAENOBUFS
  | WSAEISCONN
  | WSAENOTCONN
  | WSAESHUTDOWN
  | WSAETOOMANYREFS
  | WSAETIMEDOUT
  | WSAECONNREFUSED
  | WSAELOOP
  | WSAENAMETOOLONG
  | WSAEHOSTDOWN
  | WSAEHOSTUNREACH

datatype (plugins only: code) werr7 =
    WSAENOTEMPTY
  | WSAEPROCLIM
  | WSAEUSERS
  | WSAEDQUOT
  | WSAESTALE
  | WSAEREMOTE
  | WSASYSNOTREADY
  | WSAVERNOTSUPPORTED
  | WSANOTINITIALISED
  | WSAEDISCON
  | WSAENOMORE
  | WSAECANCELLED
  | WSAEINVALIDPROCTABLE
  | WSAEINVALIDPROVIDER
  | WSAEPROVIDERFAILEDINIT
  | WSASYSCALLFAILURE
  | WSASERVICE_NOT_FOUND
  | WSATYPE_NOT_FOUND
  | WSA_E_NO_MORE
  | WSA_E_CANCELLED
  | WSAEREFUSED
  | WSAHOST_NOT_FOUND
  | WSATRY_AGAIN
  | WSANO_RECOVERY
  | WSANO_DATA
  | WSA_SECURE_HOST_NOT_FOUND
  | WSA_IPSEC_NAME_POLICY_ERROR

datatype win_error =
    Werr1 werr1
  | Werr2 werr2
  | Werr3 werr3
  | Werr4 werr4
  | Werr5 werr5
  | Werr6 werr6
  | Werr7 werr7
  | Werr_other int

primrec convert1 :: "werr1 \<Rightarrow> int" where
    "convert1 ERROR_SUCCESS = 0"
  | "convert1 ERROR_ACCESS_DENIED = EACCES"
  | "convert1 ERROR_ADAP_HDW_ERR = EIO"
  | "convert1 ERROR_ALERTED = EINTR"
  | "convert1 ERROR_ALREADY_EXISTS = EEXIST"
  | "convert1 ERROR_ARENA_TRASHED = EFAULT"
  | "convert1 ERROR_BAD_ARGUMENTS = EINVAL"
  | "convert1 ERROR_BAD_COMMAND = EIO"
  | "convert1 ERROR_BAD_DEVICE = ENXIO"
  | "convert1 ERROR_BAD_DEVICE_PATH = EINVAL"
  | "convert1 ERROR_BAD_DRIVER_LEVEL = ENOSYS"
  | "convert1 ERROR_BAD_ENVIRONMENT = EFAULT"
  | "convert1 ERROR_BAD_EXE_FORMAT = ENOEXEC"
  | "convert1 ERROR_BAD_FORMAT = ENOEXEC"
  | "convert1 ERROR_BAD_LENGTH = EIO"
  | "convert1 ERROR_BAD_NETPATH = ENOENT"
  | "convert1 ERROR_BAD_NET_NAME = ENOENT"
  | "convert1 ERROR_BAD_NET_RESP = ENOTSUP"
  | "convert1 ERROR_BAD_PATHNAME = ENOENT"
  | "convert1 ERROR_BAD_UNIT = ENODEV"
  | "convert1 ERROR_BROKEN_PIPE = EPIPE"
  | "convert1 ERROR_BUFFER_OVERFLOW = ENAMETOOLONG"
  | "convert1 ERROR_BUS_RESET = EIO"
  | "convert1 ERROR_BUSY = EBUSY"
  | "convert1 ERROR_CALL_NOT_IMPLEMENTED = ENOSYS"
  | "convert1 ERROR_CAN_NOT_COMPLETE = EINVAL"
  | "convert1 ERROR_CANCELLED = ECANCELED"
  | "convert1 ERROR_CANNOT_MAKE = EPERM"
  | "convert1 ERROR_CANT_TERMINATE_SELF = EPERM"
  | "convert1 ERROR_CANT_WAIT = EWOULDBLOCK"
  | "convert1 ERROR_COMMITMENT_LIMIT = ENOMEM"
  | "convert1 ERROR_CONNECTION_ABORTED = ECONNABORTED"
  | "convert1 ERROR_CONNECTION_ACTIVE = EISCONN"
  | "convert1 ERROR_CONNECTION_REFUSED = ECONNREFUSED"
  | "convert1 ERROR_CRC = EIO"

primrec convert2 :: "werr2 \<Rightarrow> int" where
    "convert2 ERROR_CURRENT_DIRECTORY = EPERM"
  | "convert2 ERROR_DATA_CHECKSUM_ERROR = EIO"
  | "convert2 ERROR_DELETE_PENDING = EBUSY"
  | "convert2 ERROR_DEV_NOT_EXIST = ENOENT"
  | "convert2 ERROR_DEVICE_ALREADY_ATTACHED = EBUSY"
  | "convert2 ERROR_DEVICE_NO_RESOURCES = ENOMEM"
  | "convert2 ERROR_DEVICE_NOT_CONNECTED = ENXIO"
  | "convert2 ERROR_DEVICE_UNREACHABLE = ENXIO"
  | "convert2 ERROR_DIR_NOT_EMPTY = ENOTEMPTY"
  | "convert2 ERROR_DIR_NOT_ROOT = EINVAL"
  | "convert2 ERROR_DIRECT_ACCESS_HANDLE = EIO"
  | "convert2 ERROR_DIRECTORY_NOT_SUPPORTED = EPERM"
  | "convert2 ERROR_DISK_FULL = ENOSPC"
  | "convert2 ERROR_DUP_NAME = EADDRINUSE"
  | "convert2 ERROR_ELEVATION_REQUIRED = EPERM"
  | "convert2 ERROR_ERRORS_ENCOUNTERED = EINVAL"
  | "convert2 ERROR_EXCL_SEM_ALREADY_OWNED = EBUSY"
  | "convert2 ERROR_FILE_EXISTS = EEXIST"
  | "convert2 ERROR_FILE_LEVEL_TRIM_NOT_SUPPORTED = ENOSYS"
  | "convert2 ERROR_FILE_NOT_FOUND = ENOENT"
  | "convert2 ERROR_FILENAME_EXCED_RANGE = ENAMETOOLONG"
  | "convert2 ERROR_GEN_FAILURE = EIO"
  | "convert2 ERROR_GRACEFUL_DISCONNECT = ESHUTDOWN"
  | "convert2 ERROR_INCORRECT_SIZE = EINVAL"
  | "convert2 ERROR_INVALID_ACCESS = EACCES"
  | "convert2 ERROR_INVALID_BLOCK = EFAULT"
  | "convert2 ERROR_INVALID_FUNCTION = EINVAL"
  | "convert2 ERROR_INVALID_HANDLE = EBADF"
  | "convert2 ERROR_INVALID_LOCK_RANGE = EINVAL"
  | "convert2 ERROR_INVALID_NAME = ENOENT"

primrec convert3 :: "werr3 \<Rightarrow> int" where
    "convert3 ERROR_INVALID_USER_BUFFER = EINVAL"
  | "convert3 ERROR_HANDLE_DISK_FULL = ENOSPC"
  | "convert3 ERROR_HANDLE_EOF = ENODATA"
  | "convert3 ERROR_HOST_DOWN = EHOSTUNREACH"
  | "convert3 ERROR_HOST_UNREACHABLE = EHOSTUNREACH"
  | "convert3 ERROR_INSUFFICIENT_BUFFER = EINVAL"
  | "convert3 ERROR_INTERNAL_ERROR = EFAULT"
  | "convert3 ERROR_INVALID_ADDRESS = EFAULT"
  | "convert3 ERROR_INVALID_DATA = EINVAL"
  | "convert3 ERROR_INVALID_DRIVE = ENODEV"
  | "convert3 ERROR_INVALID_EXCEPTION_HANDLER = EFAULT"
  | "convert3 ERROR_INVALID_FIELD_IN_PARAMETER_LIST = EINVAL"
  | "convert3 ERROR_INVALID_FLAGS = EINVAL"
  | "convert3 ERROR_INVALID_NETNAME = EADDRNOTAVAIL"
  | "convert3 ERROR_INVALID_PARAMETER = EINVAL"
  | "convert3 ERROR_IO_DEVICE = EIO"
  | "convert3 ERROR_IO_INCOMPLETE = EINPROGRESS"
  | "convert3 ERROR_IO_PENDING = EINPROGRESS"
  | "convert3 ERROR_LOCK_FAILED = EBUSY"
  | "convert3 ERROR_LOCK_VIOLATION = EACCES"
  | "convert3 ERROR_LOST_WRITEBEHIND_DATA = EIO"
  | "convert3 ERROR_MAX_THRDS_REACHED = ENOMEM"
  | "convert3 ERROR_MEMORY_HARDWARE = EFAULT"
  | "convert3 ERROR_MORE_DATA = EMSGSIZE"
  | "convert3 ERROR_MULTIPLE_FAULT_VIOLATION = EFAULT"
  | "convert3 ERROR_NEGATIVE_SEEK = EINVAL"
  | "convert3 ERROR_NETNAME_DELETED = ECONNABORTED"
  | "convert3 ERROR_NETWORK_ACCESS_DENIED = EACCES"
  | "convert3 ERROR_NETWORK_UNREACHABLE = ENETUNREACH"
  | "convert3 ERROR_NETWORK_BUSY = EAGAIN"
  | "convert3 ERROR_NO_MORE_ITEMS = ENODATA"
  | "convert3 ERROR_NOACCESS = EFAULT"
  | "convert3 ERROR_NOINTERFACE = ENOSYS"

primrec convert4 :: "werr4 \<Rightarrow> int" where
    "convert4 ERROR_NOT_CAPABLE = ENOSYS"
  | "convert4 ERROR_NOT_ENOUGH_MEMORY = ENOMEM"
  | "convert4 ERROR_NOT_ENOUGH_QUOTA = ENOMEM"
  | "convert4 ERROR_NOT_FOUND = ENOENT"
  | "convert4 ERROR_NOT_LOCKED = EINVAL"
  | "convert4 ERROR_NOT_READY = ENXIO"
  | "convert4 ERROR_NOT_SAME_DEVICE = EXDEV"
  | "convert4 ERROR_NOT_SUPPORTED = ENOTSUP"
  | "convert4 ERROR_NO_MORE_FILES = ENFILE"
  | "convert4 ERROR_NO_MORE_USER_HANDLES = ENOMEM"
  | "convert4 ERROR_NO_NETWORK = ENETDOWN"
  | "convert4 ERROR_NO_PROC_SLOTS = ENOMEM"
  | "convert4 ERROR_NO_SYSTEM_RESOURCES = ENOMEM"
  | "convert4 ERROR_NONPAGED_SYSTEM_RESOURCES = ENOMEM"
  | "convert4 ERROR_NOT_DOS_DISK = ENODEV"
  | "convert4 ERROR_OBJECT_NAME_EXISTS = EEXIST"
  | "convert4 ERROR_OFFSET_ALIGNMENT_VIOLATION = EINVAL"
  | "convert4 ERROR_OPERATION_IN_PROGRESS = EINPROGRESS"
  | "convert4 ERROR_OUT_OF_STRUCTURES = ENOMEM"
  | "convert4 ERROR_PAGED_SYSTEM_RESOURCES = EINVAL"
  | "convert4 ERROR_POSSIBLE_DEADLOCK = EWOULDBLOCK"
  | "convert4 ERROR_PAGEFILE_QUOTA = ENOMEM"
  | "convert4 ERROR_OPEN_FAILED = ENOENT"
  | "convert4 ERROR_OPERATION_ABORTED = ECANCELED"
  | "convert4 ERROR_OUTOFMEMORY = ENOMEM"
  | "convert4 ERROR_OUT_OF_PAPER = EIO"
  | "convert4 ERROR_PAGEFILE_QUOTA_EXCEEDED = ENOMEM"
  | "convert4 ERROR_PATH_NOT_FOUND = ENOENT"
  | "convert4 ERROR_PIPE_NOT_CONNECTED = EPIPE"
  | "convert4 ERROR_PROTOCOL_UNREACHABLE = ENETUNREACH"
  | "convert4 ERROR_PORT_UNREACHABLE = ECONNRESET"
  | "convert4 ERROR_READ_FAULT = EIO"
  | "convert4 ERROR_RECEIVE_EXPEDITED = EMSGSIZE"

primrec convert5 :: "werr5 \<Rightarrow> int" where
    "convert5 ERROR_RECEIVE_PARTIAL = EMSGSIZE"
  | "convert5 ERROR_RECEIVE_PARTIAL_EXPEDITED = EMSGSIZE"
  | "convert5 ERROR_REM_NOT_LIST = ENETUNREACH"
  | "convert5 ERROR_REPARSE = EAGAIN"
  | "convert5 ERROR_REQ_NOT_ACCEP = EAGAIN"
  | "convert5 ERROR_REQUEST_ABORTED = ECANCELED"
  | "convert5 ERROR_RETRY = EAGAIN"
  | "convert5 ERROR_SECTOR_NOT_FOUND = EINVAL"
  | "convert5 ERROR_SEEK = EINVAL"
  | "convert5 ERROR_SEEK_ON_DEVICE = EINVAL"
  | "convert5 ERROR_SEM_IS_SET = EBUSY"
  | "convert5 ERROR_SEM_NOT_FOUND = ENOENT"
  | "convert5 ERROR_SEM_OWNER_DIED = EOWNERDEAD"
  | "convert5 ERROR_SEM_TIMEOUT = ETIMEDOUT"
  | "convert5 ERROR_SEM_USER_LIMIT = EAGAIN"
  | "convert5 ERROR_SHARING_BUFFER_EXCEEDED = ENOLCK"
  | "convert5 ERROR_SHARING_VIOLATION = EBUSY"
  | "convert5 ERROR_TIMEOUT = ETIMEDOUT"
  | "convert5 ERROR_TOO_MANY_DESCRIPTORS = ENOMEM"
  | "convert5 ERROR_TOO_MANY_NAMES = ENOSPC"
  | "convert5 ERROR_TOO_MANY_OPEN_FILES = EMFILE"
  | "convert5 ERROR_TOO_MANY_POSTS = EINVAL"
  | "convert5 ERROR_TOO_MANY_SEM_REQUESTS = EBUSY"
  | "convert5 ERROR_TOO_MANY_SEMAPHORES = ENOMEM"
  | "convert5 ERROR_TOO_MANY_TCBS = ENOMEM"
  | "convert5 ERROR_TOO_MANY_THREADS = ENOMEM"
  | "convert5 ERROR_UNEXP_NET_ERR = EIO"
  | "convert5 ERROR_USER_MAPPED_FILE = EINVAL"
  | "convert5 ERROR_WAIT_NO_CHILDREN = ECHILD"
  | "convert5 ERROR_WRITE_FAULT = EIO"
  | "convert5 ERROR_WRITE_PROTECT = EACCES"
  | "convert5 ERROR_WRONG_DISK = EIO"
  | "convert5 ERROR_WORKING_SET_QUOTA = ENOMEM"
  | "convert5 WAIT_TIMEOUT = ETIMEDOUT"

primrec convert6 :: "werr6 \<Rightarrow> int" where
    "convert6 WSAEINTR = EINTR"
  | "convert6 WSAEBADF = EBADF"
  | "convert6 WSAEACCES = EACCES"
  | "convert6 WSAEFAULT = EFAULT"
  | "convert6 WSAEINVAL = EINVAL"
  | "convert6 WSAEMFILE = EMFILE"
  | "convert6 WSAEWOULDBLOCK = EWOULDBLOCK"
  | "convert6 WSAEINPROGRESS = EINPROGRESS"
  | "convert6 WSAEALREADY = EALREADY"
  | "convert6 WSAENOTSOCK = ENOTSOCK"
  | "convert6 WSAEDESTADDRREQ = EDESTADDRREQ"
  | "convert6 WSAEMSGSIZE = EMSGSIZE"
  | "convert6 WSAEPROTOTYPE = EPROTOTYPE"
  | "convert6 WSAENOPROTOOPT = ENOPROTOOPT"
  | "convert6 WSAEPROTONOSUPPORT = EPROTONOSUPPORT"
  | "convert6 WSAESOCKTNOSUPPORT = EAFNOSUPPORT"
  | "convert6 WSAEOPNOTSUPP = ENOTSUP"
  | "convert6 WSAEPFNOSUPPORT = EPROTONOSUPPORT"
  | "convert6 WSAEAFNOSUPPORT = EAFNOSUPPORT"
  | "convert6 WSAEADDRINUSE = EADDRINUSE"
  | "convert6 WSAEADDRNOTAVAIL = EADDRNOTAVAIL"
  | "convert6 WSAENETDOWN = ENETDOWN"
  | "convert6 WSAENETUNREACH = ENETUNREACH"
  | "convert6 WSAENETRESET = ENETRESET"
  | "convert6 WSAECONNABORTED = ECONNABORTED"
  | "convert6 WSAECONNRESET = ECONNRESET"
  | "convert6 WSAENOBUFS = ENOBUFS"
  | "convert6 WSAEISCONN = EISCONN"
  | "convert6 WSAENOTCONN = ENOTCONN"
  | "convert6 WSAESHUTDOWN = ESHUTDOWN"
  | "convert6 WSAETOOMANYREFS = ETOOMANYREFS"
  | "convert6 WSAETIMEDOUT = ETIMEDOUT"
  | "convert6 WSAECONNREFUSED = ECONNREFUSED"
  | "convert6 WSAELOOP = ELOOP"
  | "convert6 WSAENAMETOOLONG = ENAMETOOLONG"
  | "convert6 WSAEHOSTDOWN = EHOSTDOWN"
  | "convert6 WSAEHOSTUNREACH = EHOSTUNREACH"

primrec convert7 :: "werr7 \<Rightarrow> int" where
    "convert7 WSAENOTEMPTY = ENOTEMPTY"
  | "convert7 WSAEPROCLIM = EPROCLIM"
  | "convert7 WSAEUSERS = EUSERS"
  | "convert7 WSAEDQUOT = EDQUOT"
  | "convert7 WSAESTALE = ESTALE"
  | "convert7 WSAEREMOTE = EREMOTE"
  | "convert7 WSASYSNOTREADY = EAGAIN"
  | "convert7 WSAVERNOTSUPPORTED = ENOSYS"
  | "convert7 WSANOTINITIALISED = ENOSYS"
  | "convert7 WSAEDISCON = ECONNRESET"
  | "convert7 WSAENOMORE = ENOSYS"
  | "convert7 WSAECANCELLED = ECANCELED"
  | "convert7 WSAEINVALIDPROCTABLE = EINVAL"
  | "convert7 WSAEINVALIDPROVIDER = EINVAL"
  | "convert7 WSAEPROVIDERFAILEDINIT = ENOSYS"
  | "convert7 WSASYSCALLFAILURE = ENOSYS"
  | "convert7 WSASERVICE_NOT_FOUND = ENOSYS"
  | "convert7 WSATYPE_NOT_FOUND = ENOSYS"
  | "convert7 WSA_E_NO_MORE = EINVAL"
  | "convert7 WSA_E_CANCELLED = ECANCELED"
  | "convert7 WSAEREFUSED = EINVAL"
  | "convert7 WSAHOST_NOT_FOUND = EHOSTDOWN"
  | "convert7 WSATRY_AGAIN = EAGAIN"
  | "convert7 WSANO_RECOVERY = ENOSYS"
  | "convert7 WSANO_DATA = ENOSYS"
  | "convert7 WSA_SECURE_HOST_NOT_FOUND = EHOSTDOWN"
  | "convert7 WSA_IPSEC_NAME_POLICY_ERROR = ENOSYS"

definition wpdk_convert_to_posix :: "win_error \<Rightarrow> int" where
  "wpdk_convert_to_posix e =
     (case e of
        Werr1 c \<Rightarrow> convert1 c | Werr2 c \<Rightarrow> convert2 c | Werr3 c \<Rightarrow> convert3 c
      | Werr4 c \<Rightarrow> convert4 c | Werr5 c \<Rightarrow> convert5 c | Werr6 c \<Rightarrow> convert6 c
      | Werr7 c \<Rightarrow> convert7 c
      | Werr_other _ \<Rightarrow> EINVAL)"

section \<open>Reporting an error\<close>

text \<open>
  \<open>gle\<close> stands for \<^verbatim>\<open>GetLastError\<close> (or \<^verbatim>\<open>WSAGetLastError\<close>), which reads the last error of the
  calling thread without changing it.
\<close>

definition wpdk_windows_error ::
  "win_error \<Rightarrow> ('w, 'z) sys_scheme \<Rightarrow> int \<times> ('w, 'z) sys_scheme" where
  "wpdk_windows_error e s = (- 1, set_errno (wpdk_convert_to_posix e) s)"

definition wpdk_last_error ::
  "('w \<Rightarrow> win_error) \<Rightarrow> ('w, 'z) sys_scheme \<Rightarrow> int \<times> ('w, 'z) sys_scheme" where
  "wpdk_last_error gle s = wpdk_windows_error (gle (world s)) s"

definition wpdk_last_wsa_error ::
  "('w \<Rightarrow> win_error) \<Rightarrow> ('w, 'z) sys_scheme \<Rightarrow> int \<times> ('w, 'z) sys_scheme" where
  "wpdk_last_wsa_error wgle s = wpdk_windows_error (wgle (world s)) s"

lemma fst_windows_error [simp]:
  "fst (wpdk_windows_error e s) = - 1"
  "fst (wpdk_last_error gle s) = - 1"
  "fst (wpdk_last_wsa_error gle s) = - 1"
  by (simp_all add: wpdk_windows_error_def wpdk_last_error_def wpdk_last_wsa_error_def)

lemma snd_windows_error [simp]:
  "snd (wpdk_windows_error e s) = s\<lparr>errno := wpdk_convert_to_posix e\<rparr>"
  "snd (wpdk_last_error gle s) = s\<lparr>errno := wpdk_convert_to_posix (gle (world s))\<rparr>"
  "snd (wpdk_last_wsa_error gle s) = s\<lparr>errno := wpdk_convert_to_posix (gle (world s))\<rparr>"
  by (simp_all add: wpdk_windows_error_def wpdk_last_error_def wpdk_last_wsa_error_def
      set_errno_def)

section \<open>Every failure has a positive error number\<close>

lemma convert1_pos: "c \<noteq> ERROR_SUCCESS \<Longrightarrow> 0 < convert1 c"
  by (cases c) (simp_all add: errno_simps)

lemma convert2_pos: "0 < convert2 c"
  by (cases c) (simp_all add: errno_simps)

lemma convert3_pos: "0 < convert3 c"
  by (cases c) (simp_all add: errno_simps)

lemma convert4_pos: "0 < convert4 c"
  by (cases c) (simp_all add: errno_simps)

lemma convert5_pos: "0 < convert5 c"
  by (cases c) (simp_all add: errno_simps)

lemma convert6_pos: "0 < convert6 c"
  by (cases c) (simp_all add: errno_simps)

lemma convert7_pos: "0 < convert7 c"
  by (cases c) (simp_all add: errno_simps)

lemmas convert_pos =
  convert2_pos convert3_pos convert4_pos convert5_pos convert6_pos convert7_pos

lemma convert_to_posix_pos:
  "e \<noteq> Werr1 ERROR_SUCCESS \<Longrightarrow> 0 < wpdk_convert_to_posix e"
  using convert_pos
  by (cases e) (auto simp: wpdk_convert_to_posix_def convert1_pos errno_simps)

lemma convert_to_posix_success [simp]: "wpdk_convert_to_posix (Werr1 ERROR_SUCCESS) = 0"
  by (simp add: wpdk_convert_to_posix_def)

lemma convert_to_posix_nonneg: "0 \<le> wpdk_convert_to_posix e"
  by (cases "e = Werr1 ERROR_SUCCESS") (auto dest: convert_to_posix_pos)

text \<open>
  The error numbers of the C runtime and of \<^verbatim>\<open>inc/errno.h\<close>.
\<close>

definition posix_errnos :: "int list" where
  "posix_errnos = [
    EPERM, ENOENT, ESRCH, EINTR, EIO, ENXIO, ENOEXEC, EBADF, ECHILD, EAGAIN, ENOMEM, EACCES,
    EFAULT, EBUSY, EEXIST, EXDEV, ENODEV, EINVAL, ENFILE, EMFILE, ENOTTY, ENOSPC, EPIPE, ERANGE,
    ENAMETOOLONG, ENOLCK, ENOSYS, ENOTEMPTY, EADDRINUSE, EADDRNOTAVAIL, EAFNOSUPPORT, EALREADY,
    ECANCELED, ECONNABORTED, ECONNREFUSED, ECONNRESET, EDESTADDRREQ, EHOSTUNREACH, EINPROGRESS,
    EISCONN, ELOOP, EMSGSIZE, ENETDOWN, ENETRESET, ENETUNREACH, ENOBUFS, ENODATA, ENOPROTOOPT,
    ENOTCONN, ENOTSOCK, ENOTSUP, EOWNERDEAD, EPROTONOSUPPORT, EPROTOTYPE, ETIMEDOUT,
    EWOULDBLOCK, ESHUTDOWN, EHOSTDOWN, EUSERS, EDQUOT, ESTALE, EREMOTE, EPROCLIM, ETOOMANYREFS]"

lemma posix_errnos_pos: "e \<in> set posix_errnos \<Longrightarrow> 0 < e"
  by (auto simp: posix_errnos_def errno_simps)

lemma convert1_errno: "c \<noteq> ERROR_SUCCESS \<Longrightarrow> convert1 c \<in> set posix_errnos"
  by (cases c) (simp_all add: posix_errnos_def)

lemma convert2_errno: "convert2 c \<in> set posix_errnos"
  by (cases c) (simp_all add: posix_errnos_def)

lemma convert3_errno: "convert3 c \<in> set posix_errnos"
  by (cases c) (simp_all add: posix_errnos_def)

lemma convert4_errno: "convert4 c \<in> set posix_errnos"
  by (cases c) (simp_all add: posix_errnos_def)

lemma convert5_errno: "convert5 c \<in> set posix_errnos"
  by (cases c) (simp_all add: posix_errnos_def)

lemma convert6_errno: "convert6 c \<in> set posix_errnos"
  by (cases c) (simp_all add: posix_errnos_def)

lemma convert7_errno: "convert7 c \<in> set posix_errnos"
  by (cases c) (simp_all add: posix_errnos_def)

text \<open>
  Whatever error Windows reports, \<^verbatim>\<open>errno\<close> is set to one of the error numbers that
  \<^verbatim>\<open>errno.h\<close> defines, and to \<open>0\<close> for the success code only; the call returns \<open>-1\<close>.
\<close>

theorem convert_to_posix_errno:
  "(if e = Werr1 ERROR_SUCCESS then wpdk_convert_to_posix e = 0
    else wpdk_convert_to_posix e \<in> set posix_errnos \<and> 0 < wpdk_convert_to_posix e)
   \<and> wpdk_windows_error e s = (- 1, s\<lparr>errno := wpdk_convert_to_posix e\<rparr>)"
proof -
  have "wpdk_convert_to_posix e \<in> set posix_errnos" if "e \<noteq> Werr1 ERROR_SUCCESS"
    using that convert1_errno convert2_errno convert3_errno convert4_errno convert5_errno convert6_errno
      convert7_errno
    by (cases e) (auto simp: wpdk_convert_to_posix_def posix_errnos_def)
  then show ?thesis using posix_errnos_pos by (auto simp: wpdk_windows_error_def set_errno_def)
qed

end
