(* ===== verification/Slot_Table.thy ===== *)
theory Slot_Table
  imports WPDK_Prelude
begin

text \<open>
  The library keeps its sockets, its epoll sets and its threads in static arrays of fixed size.
  Each array is searched from index \<open>0\<close> for a free element, the element is claimed, and a later
  call frees it again. This theory states that contract once, as the locale \<open>slot_table\<close>, proves
  what its clients rely on, and gives the claiming loop (\<open>slot_alloc\<close>) that the three components
  instantiate with their own test for a free element.
\<close>

section \<open>The contract\<close>

locale slot_table =
  fixes alloc :: "'a \<Rightarrow> 't \<Rightarrow> nat option \<times> 't"
    and release :: "nat \<Rightarrow> 't \<Rightarrow> 't"
    and entry :: "'t \<Rightarrow> nat \<Rightarrow> 'a option"
    and cap :: nat
    and storable :: "'a \<Rightarrow> bool"
  assumes entry_cap: "cap \<le> i \<Longrightarrow> entry t i = None"
    and alloc_Some: "storable x \<Longrightarrow> alloc x t = (Some i, t') \<Longrightarrow>
          i < cap \<and> entry t i = None \<and> entry t' = (entry t)(i := Some x)"
    and alloc_first: "alloc x t = (Some i, t') \<Longrightarrow> j < i \<Longrightarrow> entry t j \<noteq> None"
    and alloc_None: "alloc x t = (None, t') \<Longrightarrow> t' = t \<and> (\<forall>i<cap. entry t i \<noteq> None)"
    and release_entry: "entry (release i t) = (entry t)(i := None)"
begin

definition used :: "'t \<Rightarrow> nat set" where
  "used t = dom (entry t)"

lemma used_bound: "used t \<subseteq> {..<cap}"
proof
  fix i assume "i \<in> used t"
  then have "entry t i \<noteq> None" by (simp add: used_def domIff)
  then have "i < cap" using entry_cap [of i t] by (cases "cap \<le> i") simp_all
  then show "i \<in> {..<cap}" by simp
qed

lemma finite_used: "finite (used t)"
  using used_bound by (rule finite_subset) simp

text \<open>A claimed index was not in use, holds the new element, and no other index changed.\<close>

lemma alloc_fresh:
  assumes "storable x" "alloc x t = (Some i, t')"
  shows "i \<notin> used t" "used t' = insert i (used t)" "entry t' i = Some x"
    "j \<noteq> i \<Longrightarrow> entry t' j = entry t j"
  using alloc_Some [OF assms] by (auto simp: used_def)

text \<open>Claiming fails exactly when the table is full.\<close>

lemma alloc_fails_iff:
  assumes "storable x"
  shows "fst (alloc x t) = None \<longleftrightarrow> card (used t) = cap"
proof
  assume "fst (alloc x t) = None"
  then have "alloc x t = (None, snd (alloc x t))" by (simp add: prod_eq_iff)
  then have "\<forall>i<cap. entry t i \<noteq> None" using alloc_None by blast
  then have "{..<cap} \<subseteq> used t" by (auto simp: used_def)
  then have "used t = {..<cap}" using used_bound by (rule subset_antisym [rotated])
  then show "card (used t) = cap" by simp
next
  assume full: "card (used t) = cap"
  show "fst (alloc x t) = None"
  proof (rule ccontr)
    assume "fst (alloc x t) \<noteq> None"
    then obtain i where "alloc x t = (Some i, snd (alloc x t))"
      by (metis option.exhaust prod.collapse)
    from alloc_Some [OF assms this] have "i < cap" "i \<notin> used t" by (simp_all add: used_def domIff)
    then have "used t \<subset> {..<cap}" using used_bound by blast
    then have "card (used t) < card {..<cap}" by (rule psubset_card_mono [rotated]) simp
    then show False using full by simp
  qed
qed

text \<open>The smallest free index is the one that is claimed.\<close>

lemma alloc_least:
  assumes "storable x" "alloc x t = (Some i, t')"
  shows "i = (LEAST j. j \<notin> used t)"
proof (rule Least_equality [symmetric])
  show "i \<notin> used t" using alloc_fresh [OF assms] by blast
next
  fix j assume "j \<notin> used t"
  then have "entry t j = None" by (auto simp: used_def)
  then show "i \<le> j" using alloc_first [OF assms(2), of j] by (cases "j < i") simp_all
qed

text \<open>Freeing an index that was just claimed restores the view of the table.\<close>

lemma release_alloc:
  "storable x \<Longrightarrow> alloc x t = (Some i, t') \<Longrightarrow> entry (release i t') = entry t"
  using alloc_Some [of x t i t'] by (auto simp: release_entry fun_eq_iff)

lemma card_used_alloc:
  "storable x \<Longrightarrow> alloc x t = (Some i, t') \<Longrightarrow> card (used t') = Suc (card (used t))"
  using alloc_fresh [of x t i t'] finite_used by simp

lemma used_release: "used (release i t) = used t - {i}"
  by (auto simp: used_def release_entry)

end

section \<open>The claiming loop\<close>

text \<open>
  The loop \<^verbatim>\<open>for (i = 0; i < n; i++) if (free(tbl[i])) { tbl[i] = x; ... }\<close> and the view of the
  table that it maintains. A table is a function on the indices; only those below \<open>n\<close> exist.
\<close>

definition slot_alloc ::
  "('a \<Rightarrow> bool) \<Rightarrow> nat \<Rightarrow> 'a \<Rightarrow> (nat \<Rightarrow> 'a) \<Rightarrow> nat option \<times> (nat \<Rightarrow> 'a)" where
  "slot_alloc free n x tbl =
     (let i = scan (\<lambda>k. free (tbl k)) 0 n
      in if i < n then (Some i, tbl(i := x)) else (None, tbl))"

definition slot_entry :: "('a \<Rightarrow> bool) \<Rightarrow> nat \<Rightarrow> (nat \<Rightarrow> 'a) \<Rightarrow> nat \<Rightarrow> 'a option" where
  "slot_entry free n tbl i = (if i < n \<and> \<not> free (tbl i) then Some (tbl i) else None)"

lemma slot_alloc_Some:
  assumes "slot_alloc free n x tbl = (Some i, tbl')"
  shows "i < n" "free (tbl i)" "tbl' = tbl(i := x)" "\<And>j. j < i \<Longrightarrow> \<not> free (tbl j)"
proof -
  have i: "i = scan (\<lambda>k. free (tbl k)) 0 n" "i < n" "tbl' = tbl(i := x)"
    using assms by (auto simp: slot_alloc_def Let_def split: if_splits)
  show "i < n" "tbl' = tbl(i := x)" by fact+
  show "free (tbl i)" using scan_found [of "\<lambda>k. free (tbl k)" 0 n] i by simp
  fix j assume "j < i"
  then show "\<not> free (tbl j)"
    using scan_before [of 0 j "\<lambda>k. free (tbl k)" n] i(1,2) by simp
qed

lemma slot_alloc_None:
  assumes "slot_alloc free n x tbl = (None, tbl')"
  shows "tbl' = tbl" "\<And>j. j < n \<Longrightarrow> \<not> free (tbl j)"
proof -
  have full: "\<not> scan (\<lambda>k. free (tbl k)) 0 n < n" and "tbl' = tbl"
    using assms by (auto simp: slot_alloc_def Let_def split: if_splits)
  show "tbl' = tbl" by fact
  show "\<And>j. j < n \<Longrightarrow> \<not> free (tbl j)"
    using full scan_lt_iff by blast
qed

lemma slot_entry_upd [simp]:
  "i < n \<Longrightarrow> slot_entry free n (tbl(i := x)) =
     (slot_entry free n tbl)(i := (if free x then None else Some x))"
  by (auto simp: slot_entry_def fun_eq_iff)

text \<open>
  Any such array is a slot table: freeing overwrites an element \<open>x\<close> by a free element \<open>rel x\<close>.
\<close>

lemma slot_alloc_slot_table:
  assumes "\<And>x. free (rel x)"
  shows "slot_table (slot_alloc free n) (\<lambda>i tbl. if i < n then tbl(i := rel (tbl i)) else tbl)
           (slot_entry free n) n (\<lambda>x. \<not> free x)"
proof
  fix i t assume "n \<le> i"
  then show "slot_entry free n t i = None" by (simp add: slot_entry_def)
next
  fix x t i t' assume "\<not> free x" "slot_alloc free n x t = (Some i, t')"
  from slot_alloc_Some [OF this(2)] this(1)
  show "i < n \<and> slot_entry free n t i = None
      \<and> slot_entry free n t' = (slot_entry free n t)(i := Some x)"
    by (auto simp: slot_entry_def)
next
  fix x t i t' j assume "slot_alloc free n x t = (Some i, t')" "j < i"
  from slot_alloc_Some [OF this(1)] this(2)
  show "slot_entry free n t j \<noteq> None" by (auto simp: slot_entry_def)
next
  fix x t t' assume "slot_alloc free n x t = (None, t')"
  from slot_alloc_None [OF this]
  show "t' = t \<and> (\<forall>i<n. slot_entry free n t i \<noteq> None)" by (auto simp: slot_entry_def)
next
  fix i t
  show "slot_entry free n (if i < n then t(i := rel (t i)) else t) = (slot_entry free n t)(i := None)"
    using assms by (auto simp: slot_entry_def)
qed

end
