(* ===== verification/C_String.thy ===== *)
theory C_String
  imports WPDK_Prelude
begin

text \<open>
  The string functions of the C runtime that the library calls. A C string is the list of its
  characters without the terminating NUL; \<open>char_at\<close> reads one character and distinguishes the
  terminator from a read beyond it.
\<close>

abbreviation NUL :: char where "NUL \<equiv> CHR 0x00"

definition cstring :: "string \<Rightarrow> bool" where
  "cstring s \<longleftrightarrow> NUL \<notin> set s"

text \<open>\<^verbatim>\<open>s[i]\<close>: the terminator is at index \<^verbatim>\<open>strlen(s)\<close>; \<open>None\<close> is a read out of bounds.\<close>

definition char_at :: "string \<Rightarrow> nat \<Rightarrow> char option" where
  "char_at s i = (if i < length s then Some (s ! i) else if i = length s then Some NUL else None)"

text \<open>\<^verbatim>\<open>strcpy_s\<close> and \<^verbatim>\<open>strcat_s\<close> succeed when the result and its terminator fit.\<close>

definition strcpy_s :: "nat \<Rightarrow> string \<Rightarrow> string option" where
  "strcpy_s n src = (if length src < n then Some src else None)"

definition strcat_s :: "nat \<Rightarrow> string \<Rightarrow> string \<Rightarrow> string option" where
  "strcat_s n dst src = (if length dst + length src < n then Some (dst @ src) else None)"

text \<open>
  A call whose result is not looked at leaves the empty string behind when it fails.
\<close>

definition str_or_empty :: "string option \<Rightarrow> string" where
  "str_or_empty r = (case r of None \<Rightarrow> [] | Some s \<Rightarrow> s)"

text \<open>\<^verbatim>\<open>strncmp(a, b, n) == 0\<close>: the comparison stops at the first terminator.\<close>

definition strncmp_eq :: "string \<Rightarrow> string \<Rightarrow> nat \<Rightarrow> bool" where
  "strncmp_eq a b n \<longleftrightarrow> take n (a @ [NUL]) = take n (b @ [NUL])"

definition starts_with :: "string \<Rightarrow> string \<Rightarrow> bool" where
  "starts_with n s \<longleftrightarrow> take (length n) s = n"

text \<open>\<^verbatim>\<open>strchr\<close>, \<^verbatim>\<open>strrchr\<close> and \<^verbatim>\<open>strstr\<close> as the offset of the match.\<close>

fun strchr :: "char \<Rightarrow> string \<Rightarrow> nat option" where
  "strchr c [] = None"
| "strchr c (d # s) = (if d = c then Some 0 else map_option Suc (strchr c s))"

fun strrchr :: "char \<Rightarrow> string \<Rightarrow> nat option" where
  "strrchr c [] = None"
| "strrchr c (d # s) =
     (case strrchr c s of Some k \<Rightarrow> Some (Suc k) | None \<Rightarrow> if d = c then Some 0 else None)"

fun strstr :: "string \<Rightarrow> string \<Rightarrow> nat option" where
  "strstr n [] = (if n = [] then Some 0 else None)"
| "strstr n (c # s) = (if starts_with n (c # s) then Some 0 else map_option Suc (strstr n s))"

text \<open>\<^verbatim>\<open>tolower\<close> in the C locale.\<close>

definition c_tolower :: "char \<Rightarrow> char" where
  "c_tolower c = (if 65 \<le> (of_char c :: nat) \<and> (of_char c :: nat) \<le> 90
                  then char_of ((of_char c :: nat) + 32) else c)"

lemma tolower_NUL: "c_tolower c = NUL \<longleftrightarrow> c = NUL"
  by (auto simp: c_tolower_def dest: arg_cong [where f = "of_char :: char \<Rightarrow> nat"])

lemma of_char_nonneg: "0 \<le> (of_char c :: int)"
  by (metis of_nat_of_char of_nat_0_le_iff)

lemma strcpy_s_Some [simp]: "strcpy_s n s = Some t \<longleftrightarrow> t = s \<and> length s < n"
  by (auto simp: strcpy_s_def)

lemma strcpy_s_None [simp]: "strcpy_s n s = None \<longleftrightarrow> n \<le> length s"
  by (auto simp: strcpy_s_def)

lemma strcat_s_Some [simp]:
  "strcat_s n s t = Some u \<longleftrightarrow> u = s @ t \<and> length s + length t < n"
  by (auto simp: strcat_s_def)

lemma strcat_s_None [simp]: "strcat_s n s t = None \<longleftrightarrow> n \<le> length s + length t"
  by (auto simp: strcat_s_def)

lemma strchr_Some:
  "strchr c s = Some k \<Longrightarrow> k < length s \<and> s ! k = c \<and> (\<forall>j<k. s ! j \<noteq> c)"
proof (induction s arbitrary: k)
  case Nil
  then show ?case by simp
next
  case (Cons d s)
  show ?case
  proof (cases "d = c")
    case True
    with Cons.prems show ?thesis by simp
  next
    case False
    with Cons.prems obtain m where "k = Suc m" "strchr c s = Some m" by auto
    with Cons.IH [of m] False show ?thesis by (auto simp: less_Suc_eq_0_disj)
  qed
qed

lemma strchr_None: "strchr c s = None \<longleftrightarrow> c \<notin> set s"
  by (induction s) auto

lemma strrchr_None: "strrchr c s = None \<longleftrightarrow> c \<notin> set s"
  by (induction s) (auto split: option.splits)

lemma strrchr_append:
  "strrchr c (s @ t) = (case strrchr c t of Some k \<Rightarrow> Some (length s + k) | None \<Rightarrow> strrchr c s)"
  by (induction s) (auto split: option.splits)

text \<open>
  With a count equal to the length of a terminator-free second string, \<^verbatim>\<open>strncmp\<close> is a prefix
  test; with a larger count it is equality.
\<close>

lemma strncmp_eq_prefix:
  assumes "cstring b" "n = length b"
  shows "strncmp_eq a b n \<longleftrightarrow> starts_with b a"
proof (cases "length b \<le> length a")
  case True
  then show ?thesis using assms by (simp add: strncmp_eq_def starts_with_def)
next
  case False
  have "\<not> strncmp_eq a b n"
  proof
    assume "strncmp_eq a b n"
    then have "take n (a @ [NUL]) = b" using assms by (simp add: strncmp_eq_def)
    moreover have "take n (a @ [NUL]) = a @ [NUL]" using False assms by simp
    ultimately show False using assms(1) by (auto simp: cstring_def)
  qed
  moreover have "\<not> starts_with b a"
    using False by (auto simp: starts_with_def dest: arg_cong [where f = length])
  ultimately show ?thesis by simp
qed

lemma strncmp_eq_long:
  assumes "cstring a" "cstring b" "length b < n"
  shows "strncmp_eq a b n \<longleftrightarrow> a = b"
proof
  assume eq: "strncmp_eq a b n"
  then have *: "take n (a @ [NUL]) = b @ [NUL]" using assms(3) by (simp add: strncmp_eq_def)
  show "a = b"
  proof (cases "length a < n")
    case True
    then show ?thesis using * by simp
  next
    case False
    then have "take n a = b @ [NUL]" using * by simp
    then have "NUL \<in> set (take n a)" by simp
    then show ?thesis using assms(1) by (auto simp: cstring_def dest: in_set_takeD)
  qed
qed (simp add: strncmp_eq_def)

end
