(* ===== verification/Path_Map.thy ===== *)
theory Path_Map
  imports C_String
begin

text \<open>
  \<^verbatim>\<open>src/fcntl.c\<close>, first half: the table that maps POSIX directories to Windows directories, its
  initialisation from the environment, and the lookup \<^verbatim>\<open>wpdk_get_path\<close> through which every call
  that takes a file name goes.

  The table \<^verbatim>\<open>map\<close> with its counter \<^verbatim>\<open>map_count\<close> is the list \<open>path_map\<close> of its used elements. What
  \<^verbatim>\<open>wpdk_get_path\<close> returns is a pointer, and its callers compare it with their argument, so the
  result says which object the pointer refers to.
\<close>

section \<open>State and environment\<close>

record path_mapping =
  pm_dir :: string
  pm_dest :: string
  pm_len :: nat

record 'w path_sys = "'w sys" +
  map_init :: bool
  path_map :: "path_mapping list"

text \<open>
  The calls that leave the library: \<^verbatim>\<open>getenv\<close>, \<^verbatim>\<open>_access(path, F_OK) != -1\<close>, the success of the
  allocation in \<^verbatim>\<open>wpdk_strdup\<close>, and \<^verbatim>\<open>GetCurrentDirectory\<close> (\<open>None\<close> is a return value of \<open>0\<close>).
\<close>

record 'w path_api =
  pa_getenv :: "string \<Rightarrow> 'w \<Rightarrow> string option"
  pa_access :: "string \<Rightarrow> 'w \<Rightarrow> bool"
  pa_strdup :: "string \<Rightarrow> 'w \<Rightarrow> bool \<times> 'w"
  pa_curdir :: "'w \<Rightarrow> string option"

definition MAX_PATH :: nat where [errno_simps]: "MAX_PATH = 260"
definition PATH_MAX :: nat where [errno_simps]: "PATH_MAX = 260"
definition map_size :: nat where [errno_simps]: "map_size = 20"

section \<open>Adding a mapping\<close>

text \<open>
  The loop that removes duplicated slashes: \<^verbatim>\<open>strstr\<close> finds the next pair from the current
  position, \<^verbatim>\<open>memmove\<close> closes the gap, and the search goes on at the same position.
\<close>

definition slash_pair :: "string \<Rightarrow> nat \<Rightarrow> bool" where
  "slash_pair s k \<longleftrightarrow> s ! k = CHR ''/'' \<and> s ! Suc k = CHR ''/''"

function remove_dup_slashes :: "nat \<Rightarrow> string \<Rightarrow> string" where
  "remove_dup_slashes i s =
     (let k = scan (slash_pair s) i (length s - 1)
      in if k < length s - 1 then remove_dup_slashes k (take k s @ drop (Suc k) s) else s)"
  by pat_completeness auto
termination
  by (relation "measure (\<lambda>(i, s). length s)") auto

declare remove_dup_slashes.simps [simp del]

definition insert_mapping :: "path_mapping \<Rightarrow> path_mapping list \<Rightarrow> path_mapping list" where
  "insert_mapping e m =
     (let i = scan (\<lambda>k. length (pm_dir (m ! k)) < length (pm_dir e)) 0 (length m)
      in take i m @ e # drop i m)"

definition wpdk_add_mapping ::
  "'w path_api \<Rightarrow> string \<Rightarrow> string option \<Rightarrow> bool \<Rightarrow> ('w, 'z) path_sys_scheme
    \<Rightarrow> ('w, 'z) path_sys_scheme" where
  "wpdk_add_mapping api dir dest prefix s =
     (case dest of
        None \<Rightarrow> s
      | Some d \<Rightarrow>
          if map_size \<le> length (path_map s) then s
          else if \<exists>e \<in> set (path_map s). pm_dir e = dir then s
          else
            (case Option.bind (strcpy_s MAX_PATH d)
                    (\<lambda>b. if prefix then strcat_s MAX_PATH b dir else Some b) of
               None \<Rightarrow> s
             | Some buf \<Rightarrow>
                 (let (ok, s1) = os_call (pa_strdup api buf) s
                  in if \<not> ok then s1
                     else if \<not> pa_access api buf (world s1) then s1
                     else
                       (let (ok2, s2) = os_call (pa_strdup api dir) s1
                        in if \<not> ok2 then s2
                           else
                             (let f = remove_dup_slashes 0 dir;
                                  from = (if f = ''/'' then [] else f)
                              in s2\<lparr>path_map := insert_mapping
                                      \<lparr>pm_dir = from, pm_dest = buf, pm_len = length dir\<rparr>
                                      (path_map s2)\<rparr>)))))"

section \<open>Collecting the mappings\<close>

function pathmap_loop ::
  "'w path_api \<Rightarrow> string \<Rightarrow> ('w, 'z) path_sys_scheme \<Rightarrow> ('w, 'z) path_sys_scheme" where
  "pathmap_loop api cp s =
     (case strchr (CHR ''='') cp of
        None \<Rightarrow> s
      | Some k \<Rightarrow>
          (let dir = str_or_empty (strcpy_s MAX_PATH (take k cp));
               rest = drop (Suc k) cp
           in case strchr (CHR '';'') rest of
                Some m \<Rightarrow>
                  pathmap_loop api (drop (Suc m) rest)
                    (wpdk_add_mapping api dir
                       (Some (str_or_empty (strcpy_s MAX_PATH (take m rest)))) False s)
              | None \<Rightarrow>
                  wpdk_add_mapping api dir (Some (str_or_empty (strcpy_s MAX_PATH rest))) False s))"
  by pat_completeness auto
termination
  by (relation "measure (\<lambda>(api, cp, s). length cp)") (auto dest: strchr_Some)

declare pathmap_loop.simps [simp del]

definition wpdk_add_pathmap ::
  "'w path_api \<Rightarrow> ('w, 'z) path_sys_scheme \<Rightarrow> ('w, 'z) path_sys_scheme" where
  "wpdk_add_pathmap api s =
     (case pa_getenv api ''WPDKPATHMAP'' (world s) of
        None \<Rightarrow> s
      | Some cp \<Rightarrow> pathmap_loop api cp s)"

definition wpdk_add_system_drive ::
  "'w path_api \<Rightarrow> string \<Rightarrow> ('w, 'z) path_sys_scheme \<Rightarrow> ('w, 'z) path_sys_scheme" where
  "wpdk_add_system_drive api prefix s =
     (case pa_getenv api ''SystemDrive'' (world s) of
        None \<Rightarrow> s
      | Some cp \<Rightarrow>
          wpdk_add_mapping api
            (prefix @ ''/'' @ (case cp of [] \<Rightarrow> [] | c # _ \<Rightarrow> [c_tolower c])) (Some cp) False s)"

text \<open>\<^verbatim>\<open>GetCurrentDirectory\<close> returns a size beyond the buffer when the name does not fit.\<close>

definition wsl_prefix :: string where
  "wsl_prefix = [CHR 0x5C, CHR 0x5C] @ ''wsl$'' @ [CHR 0x5C]"

definition wpdk_add_wsl_paths ::
  "'w path_api \<Rightarrow> ('w, 'z) path_sys_scheme \<Rightarrow> bool \<times> ('w, 'z) path_sys_scheme" where
  "wpdk_add_wsl_paths api s =
     (case pa_curdir api (world s) of
        None \<Rightarrow> (False, s)
      | Some path \<Rightarrow>
          if MAX_PATH < length path + 1 then (False, s)
          else if \<not> strncmp_eq path wsl_prefix 7 then (False, s)
          else
            (case strchr (CHR 0x5C) (drop 7 path) of
               None \<Rightarrow> (False, s)
             | Some k \<Rightarrow>
                 (True, wpdk_add_system_drive api ''/mnt''
                          (wpdk_add_mapping api ''/home'' (Some (take (7 + k) path)) True s))))"

definition wpdk_add_msys_paths ::
  "'w path_api \<Rightarrow> string option \<Rightarrow> ('w, 'z) path_sys_scheme \<Rightarrow> ('w, 'z) path_sys_scheme" where
  "wpdk_add_msys_paths api dir s =
     (case dir of
        None \<Rightarrow> s
      | Some d \<Rightarrow>
          if strstr ''msys'' d = None then s
          else if strcpy_s MAX_PATH d = None then s
          else
            (case (case strstr (CHR 0x5C # ''tmp'') d of
                     Some k \<Rightarrow> Some (take k d)
                   | None \<Rightarrow> map_option (\<lambda>k. take k d) (strstr ''/usr'' d)) of
               None \<Rightarrow> s
             | Some path \<Rightarrow>
                 wpdk_add_system_drive api []
                   (wpdk_add_mapping api ''/home'' (Some path) True
                     (wpdk_add_mapping api ''/var/tmp'' (Some path) True
                       (wpdk_add_mapping api ''/tmp'' (Some path) True s)))))"

definition wpdk_init_map ::
  "'w path_api \<Rightarrow> ('w, 'z) path_sys_scheme \<Rightarrow> ('w, 'z) path_sys_scheme" where
  "wpdk_init_map api s =
     (if map_init s then s
      else
        (let s1 = wpdk_add_pathmap api s;
             (wsl, s2) = wpdk_add_wsl_paths api s1;
             s3 = (if wsl then s2
                   else
                     (let t = wpdk_add_msys_paths api (pa_getenv api ''MSYSTEM_PREFIX'' (world s2)) s2
                      in wpdk_add_msys_paths api (pa_getenv api ''TMP'' (world t)) t));
             tmp = pa_getenv api ''TMP'' (world s3);
             s4 = wpdk_add_mapping api ''/tmp'' tmp False s3;
             s5 = wpdk_add_mapping api ''/var/tmp'' tmp False s4
         in s5\<lparr>map_init := True\<rparr>))"

section \<open>Looking a path up\<close>

text \<open>
  The pointer that \<^verbatim>\<open>wpdk_get_path\<close> returns: NULL (with what has been written to the caller's
  buffer, if anything), the argument itself, the caller's buffer with its contents, or the local
  array of \<^verbatim>\<open>wpdk_remap_root_file\<close>, which no longer exists when the caller looks at it.
  \<open>PFault\<close> is a read beyond the terminator of the path.
\<close>

datatype path_result =
    PNull "string option"
  | PArg
  | PBuf string
  | PDangling string
  | PFault

text \<open>The test of one table element: \<open>None\<close> is a read out of bounds.\<close>

definition mapping_matches :: "string \<Rightarrow> path_mapping \<Rightarrow> bool option" where
  "mapping_matches p e =
     (if strncmp_eq p (pm_dir e) (pm_len e)
      then map_option (\<lambda>c. c = CHR ''/'') (char_at p (pm_len e))
      else Some False)"

fun lookup_mapping :: "string \<Rightarrow> nat \<Rightarrow> path_mapping list \<Rightarrow> path_result" where
  "lookup_mapping p n [] = PArg"
| "lookup_mapping p n (e # m) =
     (case mapping_matches p e of
        None \<Rightarrow> PFault
      | Some True \<Rightarrow>
          (case strcpy_s n (pm_dest e) of
             None \<Rightarrow> PNull (Some [])
           | Some b \<Rightarrow>
               (case strcat_s n b (drop (pm_len e) p) of
                  None \<Rightarrow> PNull (Some [])
                | Some c \<Rightarrow> PBuf c))
      | Some False \<Rightarrow> lookup_mapping p n m)"

text \<open>\<^verbatim>\<open>strrchr(path, '/') == path && path[1] != '\0'\<close>: a file in the root directory.\<close>

definition is_root_file :: "string \<Rightarrow> bool" where
  "is_root_file p \<longleftrightarrow> strrchr (CHR ''/'') p = Some 0 \<and> 1 < length p"

lemma is_root_file_tmp:
  assumes "is_root_file p"
  shows "\<not> is_root_file (''/tmp'' @ p)"
  using assms unfolding is_root_file_def strrchr_append by simp

text \<open>
  \<^verbatim>\<open>wpdk_get_path\<close> and \<^verbatim>\<open>wpdk_remap_root_file\<close> call each other; the second call is never for a
  file in the root directory again. The caller's buffer has size \<open>n\<close>; \<open>None\<close> is a NULL path.
\<close>

function wpdk_get_path ::
  "'w path_api \<Rightarrow> string option \<Rightarrow> nat \<Rightarrow> ('w, 'z) path_sys_scheme
    \<Rightarrow> path_result \<times> ('w, 'z) path_sys_scheme" where
  "wpdk_get_path api path n s =
     (case path of
        None \<Rightarrow> (PNull None, s)
      | Some p \<Rightarrow>
          if p = [] then (PArg, s)
          else if PATH_MAX \<le> length p then (PNull None, s)
          else
            (let s1 = (if map_init s then s else wpdk_init_map api s)
             in if is_root_file p
                then
                  (case Option.bind (strcpy_s MAX_PATH ''/tmp'') (\<lambda>b. strcat_s MAX_PATH b p) of
                     None \<Rightarrow> (PNull None, s1)
                   | Some buf \<Rightarrow>
                       (case wpdk_get_path api (Some buf) n s1 of
                          (PArg, s2) \<Rightarrow> (PDangling buf, s2)
                        | r \<Rightarrow> r))
                else (lookup_mapping p n (path_map s1), s1)))"
  by pat_completeness auto
termination
proof (relation "measure (\<lambda>(api, path, n, s). case path of Some p \<Rightarrow> if is_root_file p then 1 else 0 | None \<Rightarrow> 0)", goal_cases)
  case 1
  show ?case by simp
next
  case (2 api path n s p s1 buf)
  then have "buf = ''/tmp'' @ p" by (auto simp: bind_eq_Some_conv)
  then have "\<not> is_root_file buf" using 2 is_root_file_tmp by blast
  then show ?case using 2 by simp
qed

declare wpdk_get_path.simps [simp del]

text \<open>
  \<^verbatim>\<open>wpdk_copy_path\<close> returns NULL or the caller's buffer, whose contents are \<open>None\<close> when nothing
  was written to it.
\<close>

datatype copy_result =
    CNull
  | CBuf "string option"
  | CFault

definition wpdk_copy_path ::
  "'w path_api \<Rightarrow> nat \<Rightarrow> string option \<Rightarrow> ('w, 'z) path_sys_scheme
    \<Rightarrow> copy_result \<times> ('w, 'z) path_sys_scheme" where
  "wpdk_copy_path api n path s =
     (let (r, s') = wpdk_get_path api path n s
      in case r of
           PArg \<Rightarrow>
             (case Option.bind path (strcpy_s n) of
                None \<Rightarrow> (CNull, s')
              | Some b \<Rightarrow> (CBuf (Some b), s'))
         | PBuf b \<Rightarrow> (CBuf (Some b), s')
         | PNull b \<Rightarrow> (CBuf b, s')
         | PDangling _ \<Rightarrow> (CBuf None, s')
         | PFault \<Rightarrow> (CFault, s'))"

section \<open>Duplicated slashes\<close>

text \<open>The directory names stored in the table have no empty component.\<close>

fun squeeze :: "string \<Rightarrow> string" where
  "squeeze (a # b # s) =
     (if a = CHR ''/'' \<and> b = CHR ''/'' then squeeze (b # s) else a # squeeze (b # s))"
| "squeeze s = s"

fun squeezed :: "string \<Rightarrow> bool" where
  "squeezed (a # b # s) \<longleftrightarrow> \<not> (a = CHR ''/'' \<and> b = CHR ''/'') \<and> squeezed (b # s)"
| "squeezed s \<longleftrightarrow> True"

lemma slash_pair_Suc [simp]: "slash_pair (a # s) (Suc k) = slash_pair s k"
  by (simp add: slash_pair_def)

lemma squeezed_iff: "squeezed s \<longleftrightarrow> (\<forall>k<length s - 1. \<not> slash_pair s k)"
proof (induction s rule: squeezed.induct)
  case (1 a b s)
  then show ?case by (auto simp: All_less_Suc2) (simp_all add: slash_pair_def)
qed simp_all

lemma squeeze_head: "\<exists>r. squeeze (b # s) = b # r"
  by (induction s arbitrary: b) auto

lemma squeezed_squeeze: "squeezed (squeeze s)"
proof (induction s rule: squeeze.induct)
  case (1 a b s)
  obtain r where "squeeze (b # s) = b # r" using squeeze_head by blast
  with 1 show ?case by (cases "a = CHR ''/'' \<and> b = CHR ''/''") auto
qed simp_all

lemma squeeze_id: "squeezed s \<Longrightarrow> squeeze s = s"
  by (induction s rule: squeeze.induct) auto

lemma squeeze_remove:
  "k < length s - 1 \<Longrightarrow> slash_pair s k \<Longrightarrow> squeeze (take k s @ drop (Suc k) s) = squeeze s"
proof (induction s arbitrary: k rule: squeeze.induct)
  case (1 a b s)
  show ?case
  proof (cases k)
    case 0
    with "1.prems" show ?thesis by (simp add: slash_pair_def)
  next
    case (Suc m)
    with "1.prems" have m: "m < length (b # s) - 1" "slash_pair (b # s) m" by simp_all
    obtain c r where cr: "take m (b # s) @ drop (Suc m) (b # s) = c # r" "c = b"
      using m by (cases m; cases s) (auto simp: slash_pair_def)
    show ?thesis
    proof (cases "a = CHR ''/'' \<and> b = CHR ''/''")
      case True
      with "1.IH"(1) [OF True m] cr Suc show ?thesis by simp
    next
      case False
      with "1.IH"(2) [OF False m] cr Suc show ?thesis by auto
    qed
  qed
qed simp_all

lemma slash_pair_remove:
  assumes "k < length s - 1" "slash_pair s k" "j < k"
  shows "slash_pair (take k s @ drop (Suc k) s) j = slash_pair s j"
proof (cases "Suc j = k")
  case True
  with assms show ?thesis by (auto simp: slash_pair_def nth_append)
next
  case False
  with assms show ?thesis by (auto simp: slash_pair_def nth_append)
qed

lemma remove_dup_slashes_from:
  "\<forall>j<i. \<not> slash_pair s j \<Longrightarrow> remove_dup_slashes i s = squeeze s"
proof (induction i s rule: remove_dup_slashes.induct)
  case (1 i s)
  let ?k = "scan (slash_pair s) i (length s - 1)"
  let ?t = "take ?k s @ drop (Suc ?k) s"
  show ?case
  proof (cases "?k < length s - 1")
    case True
    then have pair: "slash_pair s ?k" by (rule scan_found)
    have "\<not> slash_pair s j" if "j < ?k" for j
      using that True "1.prems" scan_before [of i j "slash_pair s" "length s - 1"]
      by (cases "j < i") auto
    then have "\<forall>j< ?k. \<not> slash_pair ?t j"
      using slash_pair_remove [OF True pair] by blast
    then have "remove_dup_slashes ?k ?t = squeeze ?t" by (rule "1.IH" [OF refl True])
    then show ?thesis
      using True squeeze_remove [OF True pair]
      by (simp add: remove_dup_slashes.simps [of i s])
  next
    case False
    have "\<not> slash_pair s j" if "j < length s - 1" for j
      using that False "1.prems" scan_before [of i j "slash_pair s" "length s - 1"]
      by (cases "j < i") auto
    then have "squeezed s" by (simp add: squeezed_iff)
    then show ?thesis using False by (simp add: remove_dup_slashes.simps [of i s] squeeze_id)
  qed
qed

lemma remove_dup_slashes_squeeze: "remove_dup_slashes 0 s = squeeze s"
  by (rule remove_dup_slashes_from) simp

lemma length_squeeze: "length (squeeze s) \<le> length s"
  by (induction s rule: squeeze.induct) auto

lemma length_squeeze_less: "\<not> squeezed s \<Longrightarrow> length (squeeze s) < length s"
proof (induction s rule: squeeze.induct)
  case (1 a b s)
  then show ?case
    using length_squeeze [of "b # s"] by (cases "a = CHR ''/'' \<and> b = CHR ''/''") auto
qed simp_all

lemma set_squeeze: "set (squeeze s) \<subseteq> set s"
  by (induction s rule: squeeze.induct) auto

section \<open>The table invariant\<close>

text \<open>
  At most \<open>map_size\<close> elements, the longest directory first, every directory in normal form (the
  root directory is stored as the empty string) and every destination short enough for a buffer of
  \<open>MAX_PATH\<close> characters.
\<close>

definition mapping_ok :: "path_mapping \<Rightarrow> bool" where
  "mapping_ok e \<longleftrightarrow> squeezed (pm_dir e) \<and> pm_dir e \<noteq> ''/'' \<and> length (pm_dest e) < MAX_PATH
     \<and> length (pm_dir e) \<le> pm_len e"

definition path_map_wf :: "path_mapping list \<Rightarrow> bool" where
  "path_map_wf m \<longleftrightarrow> length m \<le> map_size \<and>
     sorted_wrt (\<lambda>a b. length (pm_dir b) \<le> length (pm_dir a)) m \<and> (\<forall>e \<in> set m. mapping_ok e)"

lemma length_insert_mapping [simp]: "length (insert_mapping e m) = Suc (length m)"
proof -
  have "scan (\<lambda>k. length (pm_dir (m ! k)) < length (pm_dir e)) 0 (length m) \<le> length m"
    by (rule scan_le) simp
  then show ?thesis by (simp add: insert_mapping_def Let_def)
qed

lemma set_insert_mapping [simp]: "set (insert_mapping e m) = insert e (set m)"
proof -
  have "set (take i m) \<union> set (drop i m) = set m" for i
    by (simp flip: set_append)
  then show ?thesis by (auto simp: insert_mapping_def Let_def)
qed

lemma sorted_insert_mapping:
  assumes "sorted_wrt (\<lambda>a b. length (pm_dir b) \<le> length (pm_dir a)) m"
  shows "sorted_wrt (\<lambda>a b. length (pm_dir b) \<le> length (pm_dir a)) (insert_mapping e m)"
proof -
  let ?R = "\<lambda>a b. length (pm_dir b) \<le> length (pm_dir a)"
  let ?P = "\<lambda>k. length (pm_dir (m ! k)) < length (pm_dir e)"
  let ?i = "scan ?P 0 (length m)"
  have before: "?R a e" if a: "a \<in> set (take ?i m)" for a
  proof -
    obtain k where "k < length (take ?i m)" "a = take ?i m ! k"
      using a unfolding in_set_conv_nth by blast
    then have "k < ?i" "k < length m" "a = m ! k" by simp_all
    then show ?thesis using scan_before [of 0 k ?P "length m"] by simp
  qed
  have after: "?R e b" if b: "b \<in> set (drop ?i m)" for b
  proof -
    obtain k where "k < length (drop ?i m)" "b = drop ?i m ! k"
      using b unfolding in_set_conv_nth by blast
    then have k: "k < length m - ?i" "b = m ! (?i + k)" by simp_all
    have hit: "?P ?i" using k scan_found [of ?P 0 "length m"] by simp
    have "?R (m ! ?i) b"
      using assms k by (cases k) (auto simp: sorted_wrt_iff_nth_less)
    then show ?thesis using hit by simp
  qed
  have "sorted_wrt ?R (take ?i m @ drop ?i m)" using assms by simp
  then have "sorted_wrt ?R (take ?i m)" "sorted_wrt ?R (drop ?i m)"
      "\<forall>a \<in> set (take ?i m). \<forall>b \<in> set (drop ?i m). ?R a b"
    unfolding sorted_wrt_append by blast+
  then show ?thesis
    using before after by (auto simp: insert_mapping_def Let_def sorted_wrt_append)
qed

lemma insert_mapping_wf:
  "path_map_wf m \<Longrightarrow> mapping_ok e \<Longrightarrow> length m < map_size \<Longrightarrow> path_map_wf (insert_mapping e m)"
  using sorted_insert_mapping by (auto simp: path_map_wf_def)

text \<open>What \<^verbatim>\<open>wpdk_add_mapping\<close> stores.\<close>

definition stored_mapping :: "string \<Rightarrow> string \<Rightarrow> path_mapping" where
  "stored_mapping dir buf =
     \<lparr>pm_dir = (if squeeze dir = ''/'' then [] else squeeze dir), pm_dest = buf,
      pm_len = length dir\<rparr>"

lemma stored_mapping_ok: "length buf < MAX_PATH \<Longrightarrow> mapping_ok (stored_mapping dir buf)"
  using length_squeeze [of dir]
  by (auto simp: mapping_ok_def stored_mapping_def squeezed_squeeze)

lemma add_mapping_result:
  "path_map (wpdk_add_mapping api dir dest prefix s) = path_map s \<or>
   (\<exists>buf. path_map (wpdk_add_mapping api dir dest prefix s)
            = insert_mapping (stored_mapping dir buf) (path_map s)
        \<and> length buf < MAX_PATH \<and> length (path_map s) < map_size)"
proof (cases dest)
  case None
  then show ?thesis by (simp add: wpdk_add_mapping_def)
next
  case (Some d)
  define r where "r = Option.bind (strcpy_s MAX_PATH d)
                    (\<lambda>b. if prefix then strcat_s MAX_PATH b dir else Some b)"
  have "length buf < MAX_PATH" if "r = Some buf" for buf
    using that by (auto simp: r_def bind_eq_Some_conv split: if_splits)
  then show ?thesis
    unfolding wpdk_add_mapping_def Some option.case r_def [symmetric]
    by (cases r) (auto simp: os_call_eq Let_def remove_dup_slashes_squeeze stored_mapping_def not_le)
qed

text \<open>
  The table is filled by successful allocations and by storing new mappings only, so that whatever
  these two keep is kept by every lookup.
\<close>

locale path_invariant =
  fixes api :: "'w path_api"
    and P :: "('w, 'z) path_sys_scheme \<Rightarrow> bool"
  assumes inv_init: "P s \<Longrightarrow> P (s\<lparr>map_init := b\<rparr>)"
    and inv_strdup: "P s \<Longrightarrow> P (snd (os_call (pa_strdup api d) s))"
    and inv_insert: "P s \<Longrightarrow> length (path_map s) < map_size \<Longrightarrow> length buf < MAX_PATH \<Longrightarrow>
          P (s\<lparr>path_map := insert_mapping (stored_mapping dir buf) (path_map s)\<rparr>)"
begin

lemma add_mapping: "P s \<Longrightarrow> P (wpdk_add_mapping api dir dest prefix s)"
proof (cases dest)
  case None
  then show "P s \<Longrightarrow> ?thesis" by (simp add: wpdk_add_mapping_def)
next
  case (Some d)
  assume P: "P s"
  define r where "r = Option.bind (strcpy_s MAX_PATH d)
                    (\<lambda>b. if prefix then strcat_s MAX_PATH b dir else Some b)"
  show ?thesis
  proof (cases r)
    case None
    then show ?thesis using P
      unfolding wpdk_add_mapping_def Some option.case r_def [symmetric] by simp
  next
    case (Some buf)
    then have buf: "length buf < MAX_PATH"
      by (auto simp: r_def bind_eq_Some_conv split: if_splits)
    define s1 where "s1 = snd (os_call (pa_strdup api buf) s)"
    define s2 where "s2 = snd (os_call (pa_strdup api dir) s1)"
    have "P s1" "P s2" using P by (simp_all add: s1_def s2_def inv_strdup)
    moreover have "path_map s2 = path_map s" by (simp add: s1_def s2_def os_call_eq)
    ultimately show ?thesis
      using inv_insert [of s2 buf dir] buf P
      unfolding wpdk_add_mapping_def \<open>dest = Some d\<close> option.case r_def [symmetric] Some
      by (auto simp: Let_def split_beta remove_dup_slashes_squeeze stored_mapping_def not_le
          s1_def [symmetric] s2_def [symmetric])
  qed
qed

lemma add_pathmap_loop: "P s \<Longrightarrow> P (pathmap_loop api cp s)"
proof (induction cp arbitrary: s rule: length_induct)
  case (1 cp)
  show ?case
  proof (cases "strchr (CHR ''='') cp")
    case None
    then show ?thesis using "1.prems" by (simp add: pathmap_loop.simps [of api cp s])
  next
    case (Some k)
    define rest where "rest = drop (Suc k) cp"
    have "P (pathmap_loop api (drop (Suc m) rest) t)" if "P t" for m t
      using "1.IH" [rule_format, of "drop (Suc m) rest" t] that strchr_Some [OF Some]
      by (auto simp: rest_def)
    then show ?thesis using "1.prems" Some
      by (auto simp: pathmap_loop.simps [of api cp s] rest_def [symmetric] add_mapping Let_def
          split: option.splits)
  qed
qed

lemma add_system_drive: "P s \<Longrightarrow> P (wpdk_add_system_drive api prefix s)"
  by (auto simp: wpdk_add_system_drive_def add_mapping split: option.splits)

lemma add_wsl_paths: "P s \<Longrightarrow> P (snd (wpdk_add_wsl_paths api s))"
  by (auto simp: wpdk_add_wsl_paths_def add_mapping add_system_drive split: option.splits)

lemma add_msys_paths: "P s \<Longrightarrow> P (wpdk_add_msys_paths api dir s)"
  by (auto simp: wpdk_add_msys_paths_def add_mapping add_system_drive split: option.splits)

lemma add_pathmap: "P s \<Longrightarrow> P (wpdk_add_pathmap api s)"
  by (auto simp: wpdk_add_pathmap_def add_pathmap_loop split: option.splits)

lemma init_map: "P s \<Longrightarrow> P (wpdk_init_map api s)"
  by (simp add: wpdk_init_map_def Let_def split_beta add_mapping add_pathmap add_wsl_paths
      add_msys_paths inv_init)

lemma get_path_not_root:
  "P s \<Longrightarrow> \<not> is_root_file p \<Longrightarrow> P (snd (wpdk_get_path api (Some p) n s))"
  using init_map [of s] by (simp add: wpdk_get_path.simps [of api "Some p"] Let_def)

lemma get_path: "P s \<Longrightarrow> P (snd (wpdk_get_path api path n s))"
proof (cases path)
  case None
  then show "P s \<Longrightarrow> ?thesis" by (simp add: wpdk_get_path.simps)
next
  case (Some p)
  assume P: "P s"
  have sel: "snd (case x of (PArg, y) \<Rightarrow> (PDangling b, y) | r \<Rightarrow> r) = snd x" for b x
    by (auto split: prod.splits path_result.splits)
  have "P (snd (wpdk_get_path api (Some (''/tmp'' @ p)) n t))" if "P t" "is_root_file p" for t
    using that is_root_file_tmp by (intro get_path_not_root) blast+
  then show ?thesis
    using P init_map [OF P] get_path_not_root [OF P, of p] Some
    by (auto simp: wpdk_get_path.simps [of api "Some p" n s] sel Let_def bind_eq_Some_conv
        split: option.splits)
qed

lemma copy_path: "P s \<Longrightarrow> P (snd (wpdk_copy_path api n path s))"
  using get_path [of s path n]
  by (auto simp: wpdk_copy_path_def Let_def split_beta split: path_result.splits option.splits)

end

interpretation path_wf: path_invariant api "\<lambda>s. path_map_wf (path_map s)" for api
  by unfold_locales (simp_all add: os_call_eq insert_mapping_wf stored_mapping_ok)

text \<open>What lies beyond the path table is out of reach of a lookup.\<close>

interpretation path_more: path_invariant api "\<lambda>s. path_sys.more s = m" for api m
  by unfold_locales (simp_all add: os_call_eq)

lemma init_map_done [simp]: "map_init (wpdk_init_map api s)"
  by (simp add: wpdk_init_map_def Let_def split_beta)

section \<open>What a lookup returns\<close>

lemma lookup_mapping_PBuf:
  assumes "lookup_mapping p n m = PBuf b"
  obtains m1 e m2 where "m = m1 @ e # m2" "mapping_matches p e = Some True"
    "\<forall>x \<in> set m1. mapping_matches p x = Some False"
    "b = pm_dest e @ drop (pm_len e) p" "length b < n"
  using assms
proof (induction m arbitrary: thesis)
  case Nil
  then show ?case by simp
next
  case (Cons x m)
  show ?case
  proof (cases "mapping_matches p x = Some True")
    case True
    with Cons.prems(2) show ?thesis
      by (intro Cons.prems(1) [of "[]" x m]) (auto split: option.splits)
  next
    case False
    then have F: "mapping_matches p x = Some False"
      using Cons.prems(2) by (auto split: option.splits bool.splits)
    then have "lookup_mapping p n m = PBuf b" using Cons.prems(2) by simp
    then show ?thesis
    proof (rule Cons.IH [rotated])
      fix m1 e m2
      assume *: "m = m1 @ e # m2" "mapping_matches p e = Some True"
        "\<forall>x \<in> set m1. mapping_matches p x = Some False"
        "b = pm_dest e @ drop (pm_len e) p" "length b < n"
      show ?thesis by (rule Cons.prems(1) [of "x # m1" e m2]) (use * F in auto)
    qed
  qed
qed

text \<open>Of the directories that match a path, the lookup uses a longest one.\<close>

lemma lookup_mapping_longest:
  assumes "sorted_wrt (\<lambda>a b. length (pm_dir b) \<le> length (pm_dir a)) m"
    and "lookup_mapping p n m = PBuf b"
  obtains e where "e \<in> set m" "mapping_matches p e = Some True"
    "b = pm_dest e @ drop (pm_len e) p"
    "\<forall>x \<in> set m. mapping_matches p x = Some True \<longrightarrow> length (pm_dir x) \<le> length (pm_dir e)"
proof -
  obtain m1 e m2 where *: "m = m1 @ e # m2" "mapping_matches p e = Some True"
    "\<forall>x \<in> set m1. mapping_matches p x = Some False"
    "b = pm_dest e @ drop (pm_len e) p"
    using assms(2) by (rule lookup_mapping_PBuf)
  have "\<forall>x \<in> set m. mapping_matches p x = Some True \<longrightarrow> length (pm_dir x) \<le> length (pm_dir e)"
    using * assms(1) by (auto simp: sorted_wrt_append)
  then show thesis using * by (intro that [of e]) auto
qed

lemma mapping_matches_normal:
  assumes "cstring (pm_dir e)" "pm_len e = length (pm_dir e)"
  shows "mapping_matches p e = Some (\<exists>r. p = pm_dir e @ CHR ''/'' # r)"
proof -
  have *: "strncmp_eq p (pm_dir e) (pm_len e) \<longleftrightarrow> starts_with (pm_dir e) p"
    using assms by (rule strncmp_eq_prefix)
  show ?thesis
  proof (cases "starts_with (pm_dir e) p")
    case True
    then obtain q where q: "p = pm_dir e @ q"
      unfolding starts_with_def by (metis append_take_drop_id)
    then show ?thesis using assms * True
      by (cases q) (auto simp: mapping_matches_def char_at_def nth_append)
  next
    case False
    then show ?thesis using * by (auto simp: mapping_matches_def starts_with_def)
  qed
qed

text \<open>
  A mapping whose directory was shortened when it was stored (it was the root directory, or had
  duplicated slashes) keeps the old length and matches no path at all.
\<close>

lemma mapping_matches_shortened:
  assumes "cstring p" "cstring (pm_dir e)" "length (pm_dir e) < pm_len e"
  shows "mapping_matches p e = (if p = pm_dir e then None else Some False)"
  using assms strncmp_eq_long [OF assms] by (auto simp: mapping_matches_def char_at_def)

lemma stored_mapping_shortened:
  assumes "\<not> squeezed dir \<or> dir = ''/''"
  shows "length (pm_dir (stored_mapping dir buf)) < pm_len (stored_mapping dir buf)"
  using assms length_squeeze_less [of dir]
  by (cases "squeezed dir") (auto simp: stored_mapping_def squeeze_id)

lemma get_path_file:
  assumes "map_init s" "p \<noteq> []" "length p < PATH_MAX" "\<not> is_root_file p"
  shows "wpdk_get_path api (Some p) n s = (lookup_mapping p n (path_map s), s)"
  using assms by (simp add: wpdk_get_path.simps [of api "Some p" n s])

lemma get_path_root_file:
  assumes "map_init s" "is_root_file p" "length p + 4 < MAX_PATH"
  shows "fst (wpdk_get_path api (Some p) n s)
           = (case lookup_mapping (''/tmp'' @ p) n (path_map s) of
                PArg \<Rightarrow> PDangling (''/tmp'' @ p) | r \<Rightarrow> r)"
proof -
  let ?q = "''/tmp'' @ p"
  have "p \<noteq> []" using assms(2) by (auto simp: is_root_file_def)
  have "wpdk_get_path api (Some ?q) n s = (lookup_mapping ?q n (path_map s), s)"
    using assms is_root_file_tmp [OF assms(2)] by (intro get_path_file) (auto simp: errno_simps)
  then show ?thesis
    using assms \<open>p \<noteq> []\<close>
    by (simp add: wpdk_get_path.simps [of api "Some p" n s] errno_simps strcpy_s_def strcat_s_def
        split: path_result.splits)
qed

lemma lookup_mapping_skip:
  "\<forall>x \<in> set m1. mapping_matches p x = Some False \<Longrightarrow>
   lookup_mapping p n (m1 @ m2) = lookup_mapping p n m2"
  by (induction m1) auto

lemma lookup_mapping_unmatched:
  "mapping_matches p e = Some False \<Longrightarrow>
   lookup_mapping p n (take i m @ e # drop i m) = lookup_mapping p n m"
proof (induction m arbitrary: i)
  case Nil
  then show ?case by simp
next
  case (Cons x m)
  then show ?case by (cases i) (auto split: option.splits bool.splits)
qed

section \<open>Properties\<close>

text \<open>
  C8. The path table stays well formed: whatever the environment holds, the lookup, which fills the
  table on first use, leaves at most \<open>map_size\<close> mappings, longest directory first, all of them
  normalised and with destinations that fit a path buffer.
\<close>

theorem get_path_keeps_wf:
  "path_map_wf (path_map s) \<Longrightarrow> path_map_wf (path_map (snd (wpdk_get_path api path n s)))"
  by (rule path_wf.get_path)

definition demo_api :: "unit path_api" where
  "demo_api = \<lparr>pa_getenv = (\<lambda>v w. if v = ''TMP'' then Some ''C:/T'' else None),
     pa_access = (\<lambda>p w. True), pa_strdup = (\<lambda>x w. (True, w)), pa_curdir = (\<lambda>w. None)\<rparr>"

definition demo_sys :: "unit path_sys" where
  "demo_sys = \<lparr>errno = 0, fault = False, world = (), map_init = False, path_map = []\<rparr>"

theorem get_path_keeps_wf_witness:
  "path_map_wf (path_map demo_sys)
   \<and> path_map_wf (path_map (snd (wpdk_get_path demo_api (Some ''/tmp/a'') 260 demo_sys)))"
proof -
  have "path_map_wf (path_map demo_sys)" by (simp add: path_map_wf_def demo_sys_def)
  then show ?thesis using get_path_keeps_wf by blast
qed


definition demo_mapped :: "unit path_sys" where
  "demo_mapped = \<lparr>errno = 0, fault = False, world = (), map_init = True,
     path_map = [\<lparr>pm_dir = ''/var/tmp'', pm_dest = ''D:'', pm_len = 8\<rparr>,
                 \<lparr>pm_dir = ''/var'', pm_dest = ''E:'', pm_len = 4\<rparr>]\<rparr>"

lemma demo_mapped_lookup:
  "wpdk_get_path demo_api (Some ''/var/tmp/a'') 260 demo_mapped = (PBuf ''D:/a'', demo_mapped)"
  by (simp add: wpdk_get_path.simps demo_mapped_def is_root_file_def mapping_matches_def
      strncmp_eq_def char_at_def errno_simps strcpy_s_def strcat_s_def)


text \<open>
  Adding a mapping for a normalised directory takes effect: every path below the directory
  that no longer directory of the table covers is afterwards translated to the destination.
\<close>

theorem add_mapping_lookup:
  assumes "map_init s" "squeezed dir" "dir \<noteq> ''/''" "dir \<noteq> []" "cstring dir"
    and "length (path_map s) < map_size" "\<forall>e \<in> set (path_map s). pm_dir e \<noteq> dir"
    and "\<forall>x w. fst (pa_strdup api x w)" "\<forall>w. pa_access api dest w" "length dest < MAX_PATH"
    and "\<forall>e \<in> set (path_map s). mapping_matches (dir @ CHR ''/'' # r) e = Some False
            \<or> mapping_matches (dir @ CHR ''/'' # r) e = Some True \<and> length (pm_dir e) < length dir"
    and "length (dir @ CHR ''/'' # r) < PATH_MAX" "length (dest @ CHR ''/'' # r) < n"
  shows "fst (wpdk_get_path api (Some (dir @ CHR ''/'' # r)) n
                (wpdk_add_mapping api dir (Some dest) False s))
           = PBuf (dest @ CHR ''/'' # r)"
proof -
  let ?p = "dir @ CHR ''/'' # r"
  let ?e = "\<lparr>pm_dir = dir, pm_dest = dest, pm_len = length dir\<rparr>"
  let ?t = "wpdk_add_mapping api dir (Some dest) False s"
  let ?P = "\<lambda>k. length (pm_dir (path_map s ! k)) < length dir"
  let ?i = "scan ?P 0 (length (path_map s))"
  have t: "map_init ?t" "path_map ?t = insert_mapping ?e (path_map s)"
    using assms by (auto simp: wpdk_add_mapping_def os_call_eq Let_def strcpy_s_def
        remove_dup_slashes_squeeze squeeze_id not_le)
  have "strrchr (CHR ''/'') ?p \<noteq> Some 0"
    using assms(4) by (auto simp: strrchr_append split: option.splits)
  then have nroot: "\<not> is_root_file ?p" by (simp add: is_root_file_def)
  have skip: "\<forall>x \<in> set (take ?i (path_map s)). mapping_matches ?p x = Some False"
  proof
    fix x assume x: "x \<in> set (take ?i (path_map s))"
    then obtain k where "k < length (take ?i (path_map s))" "x = take ?i (path_map s) ! k"
      unfolding in_set_conv_nth by blast
    then have "\<not> length (pm_dir x) < length dir"
      using scan_before [of 0 k ?P "length (path_map s)"] by simp
    then show "mapping_matches ?p x = Some False"
      using assms(11) x by (auto dest: in_set_takeD)
  qed
  have "mapping_matches ?p ?e = Some True"
    using assms(5) mapping_matches_normal [of ?e ?p] by simp
  then have "lookup_mapping ?p n (path_map ?t) = PBuf (dest @ CHR ''/'' # r)"
    using assms(13)
    by (simp add: t(2) insert_mapping_def Let_def lookup_mapping_skip [OF skip] strcpy_s_def
        strcat_s_def)
  then show ?thesis using get_path_file [OF t(1) _ assms(12) nroot] by simp
qed

theorem add_mapping_lookup_witness:
  "fst (wpdk_get_path demo_api (Some (''/var/log'' @ CHR ''/'' # ''x'')) 260
          (wpdk_add_mapping demo_api ''/var/log'' (Some ''F:'') False demo_mapped))
     = PBuf (''F:'' @ CHR ''/'' # ''x'')"
  by (rule add_mapping_lookup)
    (simp_all add: demo_mapped_def demo_api_def errno_simps cstring_def mapping_matches_def
      strncmp_eq_def char_at_def)

text \<open>
  A mapping for the root directory, or one whose directory has duplicated slashes, never
  translates a path: the table keeps the length of the directory as it was given, while the stored
  name is shorter, so that the comparison cannot succeed. Lookups of all paths other than the
  stored name itself are those of the table without the mapping.
\<close>

theorem shortened_mapping_ignored:
  assumes "map_init s" "\<not> squeezed dir \<or> dir = ''/''" "cstring dir" "cstring p"
    and "\<not> is_root_file p" "p \<noteq> squeeze dir"
  shows "fst (wpdk_get_path api (Some p) n (wpdk_add_mapping api dir dest prefix s))
           = fst (wpdk_get_path api (Some p) n s)"
proof (cases "p = [] \<or> PATH_MAX \<le> length p")
  case True
  then show ?thesis by (auto simp: wpdk_get_path.simps)
next
  case False
  let ?t = "wpdk_add_mapping api dir dest prefix s"
  have init: "map_init ?t"
    using assms(1) by (auto simp: wpdk_add_mapping_def os_call_eq Let_def split: option.splits)
  have "lookup_mapping p n (path_map ?t) = lookup_mapping p n (path_map s)"
  proof -
    have "mapping_matches p (stored_mapping dir buf) = Some False" for buf
    proof -
      have "cstring (pm_dir (stored_mapping dir buf))"
        using assms(3) set_squeeze [of dir] by (auto simp: cstring_def stored_mapping_def)
      from mapping_matches_shortened [OF assms(4) this stored_mapping_shortened [OF assms(2)]]
      show ?thesis using False assms(6) by (auto simp: stored_mapping_def split: if_splits)
    qed
    then show ?thesis
      using add_mapping_result [of api dir dest prefix s]
      by (auto simp: insert_mapping_def Let_def lookup_mapping_unmatched)
  qed
  then show ?thesis
    using get_path_file [OF init, of p] get_path_file [OF assms(1), of p] False assms(5) by simp
qed

theorem shortened_mapping_ignored_witness:
  "fst (wpdk_get_path demo_api (Some ''/etc/x'') 260
          (wpdk_add_mapping demo_api ''/'' (Some ''R:'') False demo_mapped))
     = fst (wpdk_get_path demo_api (Some ''/etc/x'') 260 demo_mapped)"
  by (rule shortened_mapping_ignored)
    (simp_all add: demo_mapped_def cstring_def is_root_file_def)

text \<open>
  A file of the root directory is looked up below \<^verbatim>\<open>/tmp\<close>. When no mapping covers \<^verbatim>\<open>/tmp\<close>
  the pointer that is returned refers to the local array of \<^verbatim>\<open>wpdk_remap_root_file\<close>, and
  \<^verbatim>\<open>wpdk_copy_path\<close> reports success without having written the caller's buffer.
\<close>

theorem root_file_dangling:
  assumes "map_init s" "is_root_file p" "length p + 4 < MAX_PATH"
    and "\<forall>e \<in> set (path_map s). mapping_matches (''/tmp'' @ p) e = Some False"
  shows "fst (wpdk_get_path api (Some p) n s) = PDangling (''/tmp'' @ p)
         \<and> fst (wpdk_copy_path api n (Some p) s) = CBuf None"
proof -
  have "lookup_mapping (''/tmp'' @ p) n (path_map s) = PArg"
    using lookup_mapping_skip [OF assms(4), of n "[]"] by simp
  then have "fst (wpdk_get_path api (Some p) n s) = PDangling (''/tmp'' @ p)"
    using get_path_root_file [OF assms(1-3)] by simp
  then show ?thesis by (simp add: wpdk_copy_path_def split_beta)
qed

theorem root_file_dangling_witness:
  "fst (wpdk_get_path demo_api (Some ''/x'') 260 demo_mapped) = PDangling ''/tmp/x''
   \<and> fst (wpdk_copy_path demo_api 260 (Some ''/x'') demo_mapped) = CBuf None"
  using root_file_dangling [of demo_mapped "''/x''" demo_api 260]
  by (simp add: demo_mapped_def is_root_file_def errno_simps mapping_matches_def strncmp_eq_def)

lemma copy_path_overlong:
  "PATH_MAX \<le> length p \<Longrightarrow> p \<noteq> [] \<Longrightarrow> fst (wpdk_copy_path api n (Some p) s) = CBuf None"
  by (simp add: wpdk_copy_path_def wpdk_get_path.simps)

end
