(* ===== verification/Sockets.thy ===== *)
theory Sockets
  imports Error_Map Slot_Table Path_Map
begin

unbundle bit_operations_syntax

text \<open>
  \<^verbatim>\<open>src/socket.c\<close>: the table that gives Winsock sockets the file descriptors
  \<open>socketbase .. socketbase + maxsockets - 1\<close>, and the POSIX socket calls on top of it.

  The static variables \<^verbatim>\<open>wpdk_socket_ready\<close> and \<^verbatim>\<open>wpdk_socket_fds\<close> extend the state of the path
  table. Winsock is the record \<open>winsock\<close> of functions on \<open>world\<close>, with the arguments that the code
  passes; a buffer or address pointer is passed on as it is.
\<close>

section \<open>Types, constants and Winsock\<close>

type_synonym SOCKET = "64 word"

definition INVALID_SOCKET :: SOCKET where [errno_simps]: "INVALID_SOCKET = - 1"
definition SOCKET_ERROR :: int where [errno_simps]: "SOCKET_ERROR = - 1"
definition maxsockets :: nat where [errno_simps]: "maxsockets = 512"
definition socketbase :: int where [errno_simps]: "socketbase = 0x10000"
definition AF_UNIX :: int where [errno_simps]: "AF_UNIX = 1"
definition SO_REUSEADDR :: int where [errno_simps]: "SO_REUSEADDR = 4"
definition SO_RCVLOWAT :: int where [errno_simps]: "SO_RCVLOWAT = 0x1004"
definition O_NONBLOCK :: int where [errno_simps]: "O_NONBLOCK = 4"
definition SOCK_NONBLOCK :: int where [errno_simps]: "SOCK_NONBLOCK = 0x1000"
definition IOV_MAX :: int where [errno_simps]: "IOV_MAX = 1024"
definition F_GETFL :: int where [errno_simps]: "F_GETFL = 3"
definition F_SETFL :: int where [errno_simps]: "F_SETFL = 4"
definition sizeof_sockaddr_un :: int where [errno_simps]: "sizeof_sockaddr_un = 110"
definition sizeof_sun_path :: nat where [errno_simps]: "sizeof_sun_path = 108"

record socket_fd =
  fd_socket :: SOCKET
  fd_domain :: int
  fd_flags :: int

record 'w sock_sys = "'w path_sys" +
  socket_ready :: int
  socket_fds :: "(nat \<Rightarrow> socket_fd) option"

text \<open>
  A socket address as the caller passes it: the family, the bytes behind it read as the path of a
  \<^verbatim>\<open>sockaddr_un\<close>, and read as an opaque value. What is handed to Winsock is either that address or
  the local \<^verbatim>\<open>sockaddr_un\<close>, whose path is \<open>None\<close> when it has never been written.
\<close>

record sockaddr =
  sa_family :: int
  sun_path :: string
  sa_data :: nat

datatype sockaddr_arg =
    Addr_caller sockaddr
  | Addr_un int "string option"

record wsabuf =
  wb_buf :: ptr
  wb_len :: int

record 'w winsock =
  ws_calloc :: "'w \<Rightarrow> bool \<times> 'w"
  ws_startup :: "'w \<Rightarrow> win_error option \<times> 'w"
  ws_cleanup :: "'w \<Rightarrow> int \<times> 'w"
  ws_set_last_error :: "win_error \<Rightarrow> 'w \<Rightarrow> 'w"
  ws_last_error :: "'w \<Rightarrow> win_error"
  ws_socket :: "int \<Rightarrow> int \<Rightarrow> int \<Rightarrow> 'w \<Rightarrow> SOCKET \<times> 'w"
  ws_closesocket :: "SOCKET \<Rightarrow> 'w \<Rightarrow> int \<times> 'w"
  ws_fionbio :: "SOCKET \<Rightarrow> bool \<Rightarrow> 'w \<Rightarrow> int \<times> 'w"
  ws_accept :: "SOCKET \<Rightarrow> ptr \<Rightarrow> ptr \<Rightarrow> 'w \<Rightarrow> SOCKET \<times> 'w"
  ws_bind :: "SOCKET \<Rightarrow> sockaddr_arg \<Rightarrow> int \<Rightarrow> 'w \<Rightarrow> int \<times> 'w"
  ws_connect :: "SOCKET \<Rightarrow> sockaddr_arg \<Rightarrow> int \<Rightarrow> 'w \<Rightarrow> int \<times> 'w"
  ws_getpeername :: "SOCKET \<Rightarrow> ptr \<Rightarrow> ptr \<Rightarrow> 'w \<Rightarrow> int \<times> 'w"
  ws_getsockname :: "SOCKET \<Rightarrow> ptr \<Rightarrow> ptr \<Rightarrow> 'w \<Rightarrow> int \<times> 'w"
  ws_getsockopt :: "SOCKET \<Rightarrow> int \<Rightarrow> int \<Rightarrow> ptr \<Rightarrow> ptr \<Rightarrow> 'w \<Rightarrow> int \<times> 'w"
  ws_setsockopt :: "SOCKET \<Rightarrow> int \<Rightarrow> int \<Rightarrow> ptr \<Rightarrow> int \<Rightarrow> 'w \<Rightarrow> int \<times> 'w"
  ws_listen :: "SOCKET \<Rightarrow> int \<Rightarrow> 'w \<Rightarrow> int \<times> 'w"
  ws_recv :: "SOCKET \<Rightarrow> ptr \<Rightarrow> int \<Rightarrow> int \<Rightarrow> 'w \<Rightarrow> int \<times> 'w"
  ws_recvfrom :: "SOCKET \<Rightarrow> ptr \<Rightarrow> int \<Rightarrow> int \<Rightarrow> ptr \<Rightarrow> ptr \<Rightarrow> 'w \<Rightarrow> int \<times> 'w"
  ws_send :: "SOCKET \<Rightarrow> ptr \<Rightarrow> int \<Rightarrow> int \<Rightarrow> 'w \<Rightarrow> int \<times> 'w"
  ws_sendto :: "SOCKET \<Rightarrow> ptr \<Rightarrow> int \<Rightarrow> int \<Rightarrow> ptr \<Rightarrow> int \<Rightarrow> 'w \<Rightarrow> int \<times> 'w"
  ws_shutdown :: "SOCKET \<Rightarrow> int \<Rightarrow> 'w \<Rightarrow> int \<times> 'w"
  ws_wsarecv :: "SOCKET \<Rightarrow> wsabuf list \<Rightarrow> int \<Rightarrow> 'w \<Rightarrow> (int \<times> int \<times> int) \<times> 'w"
  ws_wsasend :: "SOCKET \<Rightarrow> wsabuf list \<Rightarrow> int \<Rightarrow> 'w \<Rightarrow> (int \<times> int) \<times> 'w"
  ws_select :: "int \<Rightarrow> SOCKET list option \<Rightarrow> SOCKET list option \<Rightarrow> SOCKET list option
    \<Rightarrow> (int \<times> int) option \<Rightarrow> 'w
    \<Rightarrow> (int \<times> SOCKET list option \<times> SOCKET list option \<times> SOCKET list option) \<times> 'w"

section \<open>Startup and cleanup\<close>

text \<open>
  The two compare-and-exchange operations keep a table and a startup that another caller has
  published; the surplus ones are undone.
\<close>

definition empty_fds :: "nat \<Rightarrow> socket_fd" where
  "empty_fds = (\<lambda>i. \<lparr>fd_socket = INVALID_SOCKET, fd_domain = 0, fd_flags = 0\<rparr>)"

definition wpdk_socket_startup ::
  "'w winsock \<Rightarrow> ('w, 'z) sock_sys_scheme \<Rightarrow> bool \<times> ('w, 'z) sock_sys_scheme" where
  "wpdk_socket_startup ws s =
     (let (ok, s1) = os_call (ws_calloc ws) s
      in if \<not> ok
         then (False, s1\<lparr>world := ws_set_last_error ws (Werr4 ERROR_NOT_ENOUGH_MEMORY) (world s1)\<rparr>)
         else
           (let (err, s2) = os_call (ws_startup ws) s1
            in case err of
                 Some e \<Rightarrow> (False, s2\<lparr>world := ws_set_last_error ws e (world s2)\<rparr>)
               | None \<Rightarrow>
                   (let s3 = (case socket_fds s2 of
                                None \<Rightarrow> s2\<lparr>socket_fds := Some empty_fds\<rparr>
                              | Some _ \<Rightarrow> s2)
                    in if socket_ready s3 = 0
                       then (True, s3\<lparr>socket_ready := 1\<rparr>)
                       else (True, snd (os_call (ws_cleanup ws) s3)))))"

definition wpdk_socket_cleanup ::
  "'w winsock \<Rightarrow> ('w, 'z) sock_sys_scheme \<Rightarrow> int \<times> ('w, 'z) sock_sys_scheme" where
  "wpdk_socket_cleanup ws s =
     (let (rc, s1) = os_call (ws_cleanup ws) s
      in if rc = SOCKET_ERROR then wpdk_last_wsa_error (ws_last_error ws) s1
         else (0, s1\<lparr>socket_fds := None, socket_ready := 0\<rparr>))"

section \<open>Descriptors\<close>

definition fd_free :: "socket_fd \<Rightarrow> bool" where
  "fd_free f \<longleftrightarrow> fd_socket f = INVALID_SOCKET"

definition wpdk_is_socket :: "int \<Rightarrow> bool" where
  "wpdk_is_socket fd \<longleftrightarrow> socketbase \<le> fd \<and> fd < socketbase + int maxsockets"

definition socket_index :: "int \<Rightarrow> nat" where
  "socket_index fd = nat (fd - socketbase)"

text \<open>The claiming loop runs on the table that startup has published; without one it faults.\<close>

definition wpdk_allocate_socket ::
  "'w winsock \<Rightarrow> SOCKET \<Rightarrow> int \<Rightarrow> int \<Rightarrow> ('w, 'z) sock_sys_scheme
    \<Rightarrow> int \<times> ('w, 'z) sock_sys_scheme" where
  "wpdk_allocate_socket ws sk domain flags s =
     (let (rc, s1) = os_call (ws_fionbio ws sk (flags AND O_NONBLOCK \<noteq> 0)) s
      in if rc = SOCKET_ERROR
         then
           (let (r, s2) = wpdk_last_wsa_error (ws_last_error ws) s1
            in (- 1, snd (os_call (ws_closesocket ws sk) s2)))
         else
           (case socket_fds s1 of
              None \<Rightarrow> (- 1, set_fault s1)
            | Some tbl \<Rightarrow>
                (case slot_alloc fd_free maxsockets
                        \<lparr>fd_socket = sk, fd_domain = domain, fd_flags = flags\<rparr> tbl of
                   (Some i, tbl') \<Rightarrow> (socketbase + int i, s1\<lparr>socket_fds := Some tbl'\<rparr>)
                 | (None, _) \<Rightarrow>
                     wpdk_posix_error EMFILE (snd (os_call (ws_closesocket ws sk) s1)))))"

definition fd_lookup :: "('w, 'z) sock_sys_scheme \<Rightarrow> int \<Rightarrow> SOCKET" where
  "fd_lookup s fd =
     (case socket_fds s of
        Some tbl \<Rightarrow> if wpdk_is_socket fd then fd_socket (tbl (socket_index fd)) else INVALID_SOCKET
      | None \<Rightarrow> INVALID_SOCKET)"

definition wpdk_get_socket ::
  "int \<Rightarrow> ('w, 'z) sock_sys_scheme \<Rightarrow> SOCKET \<times> ('w, 'z) sock_sys_scheme" where
  "wpdk_get_socket fd s =
     (let sk = fd_lookup s fd
      in (sk, if sk = INVALID_SOCKET then set_errno EBADF s else s))"

text \<open>
  Nearly every call starts by resolving its descriptor, and ends by turning \<^verbatim>\<open>SOCKET_ERROR\<close> into
  the last Winsock error.
\<close>

definition with_socket ::
  "int \<Rightarrow> (SOCKET \<Rightarrow> ('w, 'z) sock_sys_scheme \<Rightarrow> int \<times> ('w, 'z) sock_sys_scheme)
    \<Rightarrow> ('w, 'z) sock_sys_scheme \<Rightarrow> int \<times> ('w, 'z) sock_sys_scheme" where
  "with_socket fd f s =
     (let (sk, s1) = wpdk_get_socket fd s
      in if sk = INVALID_SOCKET then wpdk_posix_error EBADF s1 else f sk s1)"

definition ws_value ::
  "'w winsock \<Rightarrow> ('w \<Rightarrow> int \<times> 'w) \<Rightarrow> ('w, 'z) sock_sys_scheme
    \<Rightarrow> int \<times> ('w, 'z) sock_sys_scheme" where
  "ws_value ws f s =
     (let (rc, s1) = os_call f s
      in if rc = SOCKET_ERROR then wpdk_last_wsa_error (ws_last_error ws) s1 else (rc, s1))"

definition ws_status ::
  "'w winsock \<Rightarrow> ('w \<Rightarrow> int \<times> 'w) \<Rightarrow> ('w, 'z) sock_sys_scheme
    \<Rightarrow> int \<times> ('w, 'z) sock_sys_scheme" where
  "ws_status ws f s =
     (let (rc, s1) = os_call f s
      in if rc = SOCKET_ERROR then wpdk_last_wsa_error (ws_last_error ws) s1 else (0, s1))"

text \<open>The element of a descriptor that \<^verbatim>\<open>wpdk_get_socket\<close> has resolved.\<close>

definition socket_slot :: "('w, 'z) sock_sys_scheme \<Rightarrow> int \<Rightarrow> socket_fd" where
  "socket_slot s fd =
     (case socket_fds s of Some tbl \<Rightarrow> tbl (socket_index fd) | None \<Rightarrow> empty_fds 0)"

definition set_socket_slot ::
  "int \<Rightarrow> socket_fd \<Rightarrow> ('w, 'z) sock_sys_scheme \<Rightarrow> ('w, 'z) sock_sys_scheme" where
  "set_socket_slot fd f s =
     s\<lparr>socket_fds := map_option (\<lambda>tbl. tbl(socket_index fd := f)) (socket_fds s)\<rparr>"

definition wpdk_socket ::
  "'w winsock \<Rightarrow> int \<Rightarrow> int \<Rightarrow> int \<Rightarrow> ('w, 'z) sock_sys_scheme
    \<Rightarrow> int \<times> ('w, 'z) sock_sys_scheme" where
  "wpdk_socket ws domain type protocol s =
     (let (ok, s1) = (if socket_ready s \<noteq> 0 then (True, s) else wpdk_socket_startup ws s)
      in if \<not> ok then wpdk_last_wsa_error (ws_last_error ws) s1
         else
           (let (sk, s2) = os_call (ws_socket ws domain (type AND NOT SOCK_NONBLOCK) protocol) s1
            in if sk = INVALID_SOCKET then wpdk_last_wsa_error (ws_last_error ws) s2
               else
                 wpdk_allocate_socket ws sk domain
                   (if type AND SOCK_NONBLOCK \<noteq> 0 then O_NONBLOCK else 0) s2))"

text \<open>
  The exchange finds the value that \<^verbatim>\<open>wpdk_get_socket\<close> has just read, unless another thread has
  closed the descriptor in between.
\<close>

definition wpdk_close_socket ::
  "'w winsock \<Rightarrow> int \<Rightarrow> ('w, 'z) sock_sys_scheme \<Rightarrow> int \<times> ('w, 'z) sock_sys_scheme" where
  "wpdk_close_socket ws fd = with_socket fd (\<lambda>sk s.
     if fd_socket (socket_slot s fd) \<noteq> sk then wpdk_posix_error EBADF s
     else
       ws_status ws (ws_closesocket ws sk)
         (set_socket_slot fd ((socket_slot s fd)\<lparr>fd_socket := INVALID_SOCKET\<rparr>) s))"

definition wpdk_accept ::
  "'w winsock \<Rightarrow> int \<Rightarrow> ptr \<Rightarrow> ptr \<Rightarrow> ('w, 'z) sock_sys_scheme
    \<Rightarrow> int \<times> ('w, 'z) sock_sys_scheme" where
  "wpdk_accept ws fd address address_len = with_socket fd (\<lambda>sk s.
     let domain = fd_domain (socket_slot s fd);
         flags = fd_flags (socket_slot s fd);
         (sk', s1) = os_call (ws_accept ws sk address address_len) s
     in if sk' = INVALID_SOCKET then wpdk_last_wsa_error (ws_last_error ws) s1
        else wpdk_allocate_socket ws sk' domain flags s1)"

definition wpdk_accept4 ::
  "'w winsock \<Rightarrow> int \<Rightarrow> ptr \<Rightarrow> ptr \<Rightarrow> int \<Rightarrow> ('w, 'z) sock_sys_scheme
    \<Rightarrow> int \<times> ('w, 'z) sock_sys_scheme" where
  "wpdk_accept4 ws fd address address_len sflags = with_socket fd (\<lambda>sk s.
     let domain = fd_domain (socket_slot s fd);
         (sk', s1) = os_call (ws_accept ws sk address address_len) s
     in if sk' = INVALID_SOCKET then wpdk_last_wsa_error (ws_last_error ws) s1
        else wpdk_allocate_socket ws sk' domain
               (if sflags AND SOCK_NONBLOCK \<noteq> 0 then O_NONBLOCK else 0) s1)"

section \<open>Addresses and options\<close>

definition with_unix_path ::
  "'w path_api \<Rightarrow> sockaddr \<Rightarrow> int
    \<Rightarrow> (sockaddr_arg \<Rightarrow> int \<Rightarrow> ('w, 'z) sock_sys_scheme \<Rightarrow> int \<times> ('w, 'z) sock_sys_scheme)
    \<Rightarrow> ('w, 'z) sock_sys_scheme \<Rightarrow> int \<times> ('w, 'z) sock_sys_scheme" where
  "with_unix_path api address address_len f s =
     (if sa_family address = AF_UNIX
      then
        if sizeof_sockaddr_un < address_len then wpdk_posix_error EINVAL s
        else
          (case wpdk_copy_path api sizeof_sun_path (Some (sun_path address)) s of
             (CNull, s1) \<Rightarrow> wpdk_posix_error EINVAL s1
           | (CBuf b, s1) \<Rightarrow> f (Addr_un (sa_family address) b) sizeof_sockaddr_un s1
           | (CFault, s1) \<Rightarrow> (- 1, set_fault s1))
      else f (Addr_caller address) address_len s)"

definition wpdk_bind ::
  "'w winsock \<Rightarrow> 'w path_api \<Rightarrow> int \<Rightarrow> sockaddr \<Rightarrow> int \<Rightarrow> ('w, 'z) sock_sys_scheme
    \<Rightarrow> int \<times> ('w, 'z) sock_sys_scheme" where
  "wpdk_bind ws api fd address address_len = with_socket fd (\<lambda>sk.
     with_unix_path api address address_len (\<lambda>addr len. ws_status ws (ws_bind ws sk addr len)))"

definition wpdk_connect ::
  "'w winsock \<Rightarrow> 'w path_api \<Rightarrow> int \<Rightarrow> sockaddr \<Rightarrow> int \<Rightarrow> ('w, 'z) sock_sys_scheme
    \<Rightarrow> int \<times> ('w, 'z) sock_sys_scheme" where
  "wpdk_connect ws api fd address address_len = with_socket fd (\<lambda>sk.
     with_unix_path api address address_len (\<lambda>addr len s.
       let (rc, s1) = os_call (ws_connect ws sk addr len) s
       in if rc = SOCKET_ERROR \<and> ws_last_error ws (world s1) \<noteq> Werr6 WSAEWOULDBLOCK
          then wpdk_last_wsa_error (ws_last_error ws) s1
          else (0, s1)))"

definition wpdk_getpeername ::
  "'w winsock \<Rightarrow> int \<Rightarrow> ptr \<Rightarrow> ptr \<Rightarrow> ('w, 'z) sock_sys_scheme
    \<Rightarrow> int \<times> ('w, 'z) sock_sys_scheme" where
  "wpdk_getpeername ws fd address address_len =
     with_socket fd (\<lambda>sk. ws_status ws (ws_getpeername ws sk address address_len))"

definition wpdk_getsockname ::
  "'w winsock \<Rightarrow> int \<Rightarrow> ptr \<Rightarrow> ptr \<Rightarrow> ('w, 'z) sock_sys_scheme
    \<Rightarrow> int \<times> ('w, 'z) sock_sys_scheme" where
  "wpdk_getsockname ws fd address address_len =
     with_socket fd (\<lambda>sk. ws_status ws (ws_getsockname ws sk address address_len))"

definition wpdk_getsockopt ::
  "'w winsock \<Rightarrow> int \<Rightarrow> int \<Rightarrow> int \<Rightarrow> ptr \<Rightarrow> ptr \<Rightarrow> ('w, 'z) sock_sys_scheme
    \<Rightarrow> int \<times> ('w, 'z) sock_sys_scheme" where
  "wpdk_getsockopt ws fd level option_name option_value option_len =
     with_socket fd (\<lambda>sk.
       ws_status ws (ws_getsockopt ws sk level option_name option_value option_len))"

definition wpdk_listen ::
  "'w winsock \<Rightarrow> int \<Rightarrow> int \<Rightarrow> ('w, 'z) sock_sys_scheme
    \<Rightarrow> int \<times> ('w, 'z) sock_sys_scheme" where
  "wpdk_listen ws fd backlog = with_socket fd (\<lambda>sk. ws_status ws (ws_listen ws sk backlog))"

definition wpdk_setsockopt ::
  "'w winsock \<Rightarrow> int \<Rightarrow> int \<Rightarrow> int \<Rightarrow> ptr \<Rightarrow> int \<Rightarrow> ('w, 'z) sock_sys_scheme
    \<Rightarrow> int \<times> ('w, 'z) sock_sys_scheme" where
  "wpdk_setsockopt ws fd level option_name option_value option_len =
     with_socket fd (\<lambda>sk s.
       if option_name = SO_REUSEADDR \<and> fd_domain (socket_slot s fd) = AF_UNIX then (0, s)
       else if option_name = SO_RCVLOWAT then (0, s)
       else ws_status ws (ws_setsockopt ws sk level option_name option_value option_len) s)"

text \<open>\<^verbatim>\<open>shutdown\<close> is given the descriptor, not the socket that it stands for.\<close>

definition wpdk_shutdown ::
  "'w winsock \<Rightarrow> int \<Rightarrow> int \<Rightarrow> ('w, 'z) sock_sys_scheme
    \<Rightarrow> int \<times> ('w, 'z) sock_sys_scheme" where
  "wpdk_shutdown ws fd how =
     with_socket fd (\<lambda>sk. ws_status ws (ws_shutdown ws (word_of_int fd) how))"

definition wpdk_sockatmark ::
  "int \<Rightarrow> ('w, 'z) sock_sys_scheme \<Rightarrow> int \<times> ('w, 'z) sock_sys_scheme" where
  "wpdk_sockatmark fd s = wpdk_posix_error ENOSYS s"

definition wpdk_socketpair ::
  "int \<Rightarrow> int \<Rightarrow> int \<Rightarrow> ptr \<Rightarrow> ('w, 'z) sock_sys_scheme
    \<Rightarrow> int \<times> ('w, 'z) sock_sys_scheme" where
  "wpdk_socketpair domain type protocol vec s = wpdk_posix_error ENOSYS s"

definition wpdk_socket_fcntl ::
  "'w winsock \<Rightarrow> int \<Rightarrow> int \<Rightarrow> int \<Rightarrow> ('w, 'z) sock_sys_scheme
    \<Rightarrow> int \<times> ('w, 'z) sock_sys_scheme" where
  "wpdk_socket_fcntl ws fd cmd arg = with_socket fd (\<lambda>sk s.
     if cmd = F_GETFL then (fd_flags (socket_slot s fd), s)
     else if cmd = F_SETFL
     then
       (let mode = (arg AND O_NONBLOCK \<noteq> 0);
            (rc, s1) = os_call (ws_fionbio ws sk mode) s
        in if rc = SOCKET_ERROR then wpdk_last_wsa_error (ws_last_error ws) s1
           else
             (let f = socket_slot s1 fd
              in (0, set_socket_slot fd
                       (f\<lparr>fd_flags := (if mode then fd_flags f OR O_NONBLOCK
                                       else fd_flags f AND NOT O_NONBLOCK)\<rparr>) s1)))
     else wpdk_posix_error EINVAL s)"

section \<open>Transfers\<close>

definition wpdk_recv ::
  "'w winsock \<Rightarrow> int \<Rightarrow> ptr \<Rightarrow> int \<Rightarrow> int \<Rightarrow> ('w, 'z) sock_sys_scheme
    \<Rightarrow> int \<times> ('w, 'z) sock_sys_scheme" where
  "wpdk_recv ws fd buffer len flags = with_socket fd (\<lambda>sk s.
     if INT_MAX < len then wpdk_posix_error EINVAL s
     else ws_value ws (ws_recv ws sk buffer len flags) s)"

definition wpdk_recvfrom ::
  "'w winsock \<Rightarrow> int \<Rightarrow> ptr \<Rightarrow> int \<Rightarrow> int \<Rightarrow> ptr \<Rightarrow> ptr \<Rightarrow> ('w, 'z) sock_sys_scheme
    \<Rightarrow> int \<times> ('w, 'z) sock_sys_scheme" where
  "wpdk_recvfrom ws fd buffer len flags address address_len = with_socket fd (\<lambda>sk s.
     if INT_MAX < len then wpdk_posix_error EINVAL s
     else ws_value ws (ws_recvfrom ws sk buffer len flags address address_len) s)"

definition wpdk_send ::
  "'w winsock \<Rightarrow> int \<Rightarrow> ptr \<Rightarrow> int \<Rightarrow> int \<Rightarrow> ('w, 'z) sock_sys_scheme
    \<Rightarrow> int \<times> ('w, 'z) sock_sys_scheme" where
  "wpdk_send ws fd buffer len flags = with_socket fd (\<lambda>sk s.
     if INT_MAX < len then wpdk_posix_error EINVAL s
     else ws_value ws (ws_send ws sk buffer len flags) s)"

definition wpdk_sendto ::
  "'w winsock \<Rightarrow> int \<Rightarrow> ptr \<Rightarrow> int \<Rightarrow> int \<Rightarrow> ptr \<Rightarrow> int \<Rightarrow> ('w, 'z) sock_sys_scheme
    \<Rightarrow> int \<times> ('w, 'z) sock_sys_scheme" where
  "wpdk_sendto ws fd message len flags dest_addr dest_len = with_socket fd (\<lambda>sk s.
     if INT_MAX < len then wpdk_posix_error EINVAL s
     else ws_value ws (ws_sendto ws sk message len flags dest_addr dest_len) s)"

text \<open>
  The conversion of an \<^verbatim>\<open>iovec\<close> array: a length that does not fit a \<^verbatim>\<open>ULONG\<close>, or a total beyond
  \<^verbatim>\<open>SSIZE_MAX\<close>, is invalid; an array with fewer elements than announced is read out of bounds.
\<close>

datatype fill_result =
    Filled "wsabuf list"
  | Invalid_length
  | Out_of_bounds

fun fill_wsabuf :: "nat \<Rightarrow> iovec list \<Rightarrow> int \<Rightarrow> fill_result" where
  "fill_wsabuf 0 vs len = Filled []"
| "fill_wsabuf (Suc n) [] len = Out_of_bounds"
| "fill_wsabuf (Suc n) (v # vs) len =
     (if ULONG_MAX < iov_len v \<or> SSIZE_MAX - len < iov_len v then Invalid_length
      else
        (case fill_wsabuf n vs (len + iov_len v) of
           Filled bs \<Rightarrow> Filled (\<lparr>wb_buf = iov_base v, wb_len = iov_len v\<rparr> # bs)
         | r \<Rightarrow> r))"

definition wpdk_get_wsabuf ::
  "'w winsock \<Rightarrow> int \<Rightarrow> iovec list option \<Rightarrow> int \<Rightarrow> ('w, 'z) sock_sys_scheme
    \<Rightarrow> wsabuf list option \<times> ('w, 'z) sock_sys_scheme" where
  "wpdk_get_wsabuf ws count iov iovlen s =
     (case iov of
        None \<Rightarrow> (None, set_errno EINVAL s)
      | Some vs \<Rightarrow>
          if iovlen < 0 \<or> IOV_MAX < iovlen then (None, set_errno EINVAL s)
          else
            (let (ok, s1) = (if count < iovlen then os_call (ws_calloc ws) s else (True, s))
             in if \<not> ok then (None, set_errno ENOMEM s1)
                else
                  (case fill_wsabuf (nat iovlen) vs 0 of
                     Filled bs \<Rightarrow> (Some bs, s1)
                   | Invalid_length \<Rightarrow> (None, set_errno EINVAL s1)
                   | Out_of_bounds \<Rightarrow> (None, set_fault s1))))"

definition wpdk_socket_readv ::
  "'w winsock \<Rightarrow> int \<Rightarrow> iovec list option \<Rightarrow> int \<Rightarrow> ('w, 'z) sock_sys_scheme
    \<Rightarrow> int \<times> ('w, 'z) sock_sys_scheme" where
  "wpdk_socket_readv ws fd iov iovcnt = with_socket fd (\<lambda>sk s.
     case wpdk_get_wsabuf ws 10 iov iovcnt s of
       (None, s1) \<Rightarrow> (- 1, s1)
     | (Some bs, s1) \<Rightarrow>
         (let ((rc, nbytes, _), s2) = os_call (ws_wsarecv ws sk bs 0) s1
          in if rc = SOCKET_ERROR then wpdk_last_wsa_error (ws_last_error ws) s2
             else (nbytes, s2)))"

definition wpdk_socket_read ::
  "'w winsock \<Rightarrow> int \<Rightarrow> ptr \<Rightarrow> int \<Rightarrow> ('w, 'z) sock_sys_scheme
    \<Rightarrow> int \<times> ('w, 'z) sock_sys_scheme" where
  "wpdk_socket_read ws fd buf nbyte =
     wpdk_socket_readv ws fd (Some [\<lparr>iov_base = buf, iov_len = nbyte\<rparr>]) 1"

definition wpdk_socket_writev ::
  "'w winsock \<Rightarrow> int \<Rightarrow> iovec list option \<Rightarrow> int \<Rightarrow> ('w, 'z) sock_sys_scheme
    \<Rightarrow> int \<times> ('w, 'z) sock_sys_scheme" where
  "wpdk_socket_writev ws fd iov iovcnt = with_socket fd (\<lambda>sk s.
     case wpdk_get_wsabuf ws 10 iov iovcnt s of
       (None, s1) \<Rightarrow> (- 1, s1)
     | (Some bs, s1) \<Rightarrow>
         (let ((rc, nbytes), s2) = os_call (ws_wsasend ws sk bs 0) s1
          in if rc = SOCKET_ERROR then wpdk_last_wsa_error (ws_last_error ws) s2
             else (nbytes, s2)))"

definition wpdk_socket_write ::
  "'w winsock \<Rightarrow> int \<Rightarrow> ptr \<Rightarrow> int \<Rightarrow> ('w, 'z) sock_sys_scheme
    \<Rightarrow> int \<times> ('w, 'z) sock_sys_scheme" where
  "wpdk_socket_write ws fd buf nbyte =
     wpdk_socket_writev ws fd (Some [\<lparr>iov_base = buf, iov_len = nbyte\<rparr>]) 1"

record msghdr =
  msg_name :: ptr
  msg_namelen :: int
  msg_iov :: "iovec list option"
  msg_iovlen :: int
  msg_control :: ptr
  msg_controllen :: int
  msg_flags :: int

text \<open>
  \<^verbatim>\<open>wpdk_recvmsg\<close> also returns the message, in which the flags have been replaced; \<^verbatim>\<open>flags\<close> is
  ignored by both calls, and the name and control data are not used for the transfer.
\<close>

definition wpdk_recvmsg ::
  "'w winsock \<Rightarrow> int \<Rightarrow> msghdr \<Rightarrow> int \<Rightarrow> ('w, 'z) sock_sys_scheme
    \<Rightarrow> int \<times> msghdr \<times> ('w, 'z) sock_sys_scheme" where
  "wpdk_recvmsg ws fd m flags s =
     (let (sk, s1) = wpdk_get_socket fd s
      in if sk = INVALID_SOCKET
         then (- 1, m, snd (wpdk_posix_error EBADF s1))
         else
           (case wpdk_get_wsabuf ws 10 (msg_iov m) (msg_iovlen m) s1 of
              (None, s2) \<Rightarrow> (- 1, m, s2)
            | (Some bs, s2) \<Rightarrow>
                (let ((rc, nbytes, dwflags), s3) = os_call (ws_wsarecv ws sk bs (msg_flags m)) s2
                 in if rc = SOCKET_ERROR
                    then (- 1, m, snd (wpdk_last_wsa_error (ws_last_error ws) s3))
                    else (nbytes, m\<lparr>msg_flags := dwflags\<rparr>, s3))))"

definition wpdk_sendmsg ::
  "'w winsock \<Rightarrow> int \<Rightarrow> msghdr \<Rightarrow> int \<Rightarrow> ('w, 'z) sock_sys_scheme
    \<Rightarrow> int \<times> ('w, 'z) sock_sys_scheme" where
  "wpdk_sendmsg ws fd m flags = with_socket fd (\<lambda>sk s.
     case wpdk_get_wsabuf ws 10 (msg_iov m) (msg_iovlen m) s of
       (None, s1) \<Rightarrow> (- 1, s1)
     | (Some bs, s1) \<Rightarrow>
         (let ((rc, nbytes), s2) = os_call (ws_wsasend ws sk bs (msg_flags m)) s1
          in if rc = SOCKET_ERROR then wpdk_last_wsa_error (ws_last_error ws) s2
             else (nbytes, s2)))"

section \<open>The descriptor table\<close>

definition release_fd :: "nat \<Rightarrow> (nat \<Rightarrow> socket_fd) \<Rightarrow> nat \<Rightarrow> socket_fd" where
  "release_fd i tbl =
     (if i < maxsockets then tbl(i := (tbl i)\<lparr>fd_socket := INVALID_SOCKET\<rparr>) else tbl)"

interpretation socket_slots: slot_table "slot_alloc fd_free maxsockets" release_fd
  "slot_entry fd_free maxsockets" maxsockets "\<lambda>x. \<not> fd_free x"
  using slot_alloc_slot_table [of fd_free "\<lambda>x. x\<lparr>fd_socket := INVALID_SOCKET\<rparr>" maxsockets]
  by (simp add: fd_free_def release_fd_def [abs_def])

text \<open>What a descriptor stands for, as a partial map: the abstract view of the table.\<close>

definition fd_view :: "('w, 'z) sock_sys_scheme \<Rightarrow> nat \<Rightarrow> socket_fd option" where
  "fd_view s =
     (case socket_fds s of
        None \<Rightarrow> Map.empty
      | Some tbl \<Rightarrow> slot_entry fd_free maxsockets tbl)"

lemma fd_view_None [simp]: "socket_fds s = None \<Longrightarrow> fd_view s = Map.empty"
  by (simp add: fd_view_def)

lemma fd_view_Some [simp]:
  "socket_fds s = Some tbl \<Longrightarrow> fd_view s = slot_entry fd_free maxsockets tbl"
  by (simp add: fd_view_def)

lemma socket_index_bound: "wpdk_is_socket fd \<Longrightarrow> socket_index fd < maxsockets"
  by (auto simp: wpdk_is_socket_def socket_index_def errno_simps)

lemma fd_of_index [simp]:
  "i < maxsockets \<Longrightarrow> wpdk_is_socket (socketbase + int i)"
  "socket_index (socketbase + int i) = i"
  by (auto simp: wpdk_is_socket_def socket_index_def)

lemma fd_lookup_view:
  "fd_lookup s fd =
     (if wpdk_is_socket fd
      then (case fd_view s (socket_index fd) of Some f \<Rightarrow> fd_socket f | None \<Rightarrow> INVALID_SOCKET)
      else INVALID_SOCKET)"
  using socket_index_bound [of fd]
  by (auto simp: fd_lookup_def fd_view_def slot_entry_def fd_free_def split: option.split)

text \<open>A call on a descriptor that is not open fails with \<open>EBADF\<close> and does nothing else.\<close>

lemma with_socket_bad:
  "fd_lookup s fd = INVALID_SOCKET \<Longrightarrow> with_socket fd f s = (- 1, s\<lparr>errno := EBADF\<rparr>)"
  by (simp add: with_socket_def wpdk_get_socket_def wpdk_posix_error_def set_errno_def)

lemma with_socket_good:
  "fd_lookup s fd \<noteq> INVALID_SOCKET \<Longrightarrow> with_socket fd f s = f (fd_lookup s fd) s"
  by (simp add: with_socket_def wpdk_get_socket_def)

lemma fd_lookup_open:
  assumes "fd_lookup s fd \<noteq> INVALID_SOCKET"
  obtains tbl where "socket_fds s = Some tbl" "wpdk_is_socket fd" "socket_index fd < maxsockets"
    "fd_lookup s fd = fd_socket (tbl (socket_index fd))" "\<not> fd_free (tbl (socket_index fd))"
    "socket_slot s fd = tbl (socket_index fd)"
  using assms socket_index_bound [of fd]
  by (auto simp: fd_lookup_def socket_slot_def fd_free_def split: option.splits if_splits)

section \<open>Effects on the table\<close>

lemma os_call_sock [simp]:
  "socket_fds (snd (os_call f s)) = socket_fds s"
  "socket_ready (snd (os_call f s)) = socket_ready s"
  "world (snd (os_call f s)) = snd (f (world s))"
  "fst (os_call f s) = fst (f (world s))"
  "fault (snd (os_call f s)) = fault s"
  by (simp_all add: os_call_eq)

lemma allocate_socket_cases:
  assumes "wpdk_allocate_socket ws sk domain flags s = (fd, s')" "sk \<noteq> INVALID_SOCKET"
    "socket_fds s = Some tbl"
  obtains
    (claimed) i tbl' where "fd = socketbase + int i" "i < maxsockets"
      "slot_alloc fd_free maxsockets \<lparr>fd_socket = sk, fd_domain = domain, fd_flags = flags\<rparr> tbl
         = (Some i, tbl')"
      "s' = s\<lparr>socket_fds := Some tbl',
               world := snd (ws_fionbio ws sk (flags AND O_NONBLOCK \<noteq> 0) (world s))\<rparr>"
  | (closed) e where "fd = - 1"
      "s' = s\<lparr>errno := e,
               world := snd (ws_closesocket ws sk
                 (snd (ws_fionbio ws sk (flags AND O_NONBLOCK \<noteq> 0) (world s))))\<rparr>"
proof -
  define a where "a = slot_alloc fd_free maxsockets
    \<lparr>fd_socket = sk, fd_domain = domain, fd_flags = flags\<rparr> tbl"
  define r where "r = ws_fionbio ws sk (flags AND O_NONBLOCK \<noteq> 0) (world s)"
  show thesis
  proof (cases "fst r = SOCKET_ERROR")
    case True
    then show thesis
      using assms
      by (intro closed [of "wpdk_convert_to_posix (ws_last_error ws (snd r))"])
        (auto simp: wpdk_allocate_socket_def os_call_eq wpdk_last_wsa_error_def
          wpdk_windows_error_def set_errno_def Let_def r_def [symmetric])
  next
    case False
    show thesis
    proof (cases "fst a")
      case None
      then show thesis
        using assms False
        by (intro closed [of EMFILE])
          (auto simp: wpdk_allocate_socket_def os_call_eq wpdk_posix_error_def
            set_errno_def Let_def r_def [symmetric] a_def [symmetric] split: prod.splits)
    next
      case (Some i)
      then have "a = (Some i, snd a)" by (simp add: prod_eq_iff)
      moreover from this have "i < maxsockets" using slot_alloc_Some(1) a_def by metis
      ultimately show thesis
        using assms False
        by (intro claimed [of i "snd a"])
          (auto simp: wpdk_allocate_socket_def os_call_eq Let_def r_def [symmetric]
            a_def [symmetric] split: prod.splits)
    qed
  qed
qed

section \<open>Which Windows sockets are open\<close>

text \<open>
  \<open>L w\<close> is the set of the Windows socket handles that are open in the world \<open>w\<close>. Winsock documents
  that \<^verbatim>\<open>socket\<close> and \<^verbatim>\<open>accept\<close> return a new handle or \<^verbatim>\<open>INVALID_SOCKET\<close>, that \<^verbatim>\<open>closesocket\<close>
  releases the handle that it is given, and that the other calls open and close nothing.
\<close>

definition keeps :: "('w \<Rightarrow> 'b) \<Rightarrow> ('w \<Rightarrow> 'a \<times> 'w) \<Rightarrow> bool" where
  "keeps L f \<longleftrightarrow> (\<forall>w. L (snd (f w)) = L w)"

definition opens :: "('w \<Rightarrow> SOCKET set) \<Rightarrow> ('w \<Rightarrow> SOCKET \<times> 'w) \<Rightarrow> bool" where
  "opens L f \<longleftrightarrow>
     (\<forall>w. if fst (f w) = INVALID_SOCKET then L (snd (f w)) = L w
          else fst (f w) \<notin> L w \<and> L (snd (f w)) = insert (fst (f w)) (L w))"

definition winsock_handles :: "'w winsock \<Rightarrow> 'w path_api \<Rightarrow> ('w \<Rightarrow> SOCKET set) \<Rightarrow> bool" where
  "winsock_handles ws api L \<longleftrightarrow>
     (\<forall>d t p. opens L (ws_socket ws d t p)) \<and>
     (\<forall>sk a l. opens L (ws_accept ws sk a l)) \<and>
     (\<forall>sk w. L (snd (ws_closesocket ws sk w)) = L w - {sk}) \<and>
     (\<forall>e w. L (ws_set_last_error ws e w) = L w) \<and>
     keeps L (ws_calloc ws) \<and> keeps L (ws_startup ws) \<and>
     (\<forall>sk m. keeps L (ws_fionbio ws sk m)) \<and>
     (\<forall>sk a l. keeps L (ws_bind ws sk a l)) \<and>
     (\<forall>sk a l. keeps L (ws_connect ws sk a l)) \<and>
     (\<forall>sk a l. keeps L (ws_getpeername ws sk a l)) \<and>
     (\<forall>sk a l. keeps L (ws_getsockname ws sk a l)) \<and>
     (\<forall>sk v n a l. keeps L (ws_getsockopt ws sk v n a l)) \<and>
     (\<forall>sk v n a l. keeps L (ws_setsockopt ws sk v n a l)) \<and>
     (\<forall>sk b. keeps L (ws_listen ws sk b)) \<and>
     (\<forall>sk b n f. keeps L (ws_recv ws sk b n f)) \<and>
     (\<forall>sk b n f a l. keeps L (ws_recvfrom ws sk b n f a l)) \<and>
     (\<forall>sk b n f. keeps L (ws_send ws sk b n f)) \<and>
     (\<forall>sk b n f a l. keeps L (ws_sendto ws sk b n f a l)) \<and>
     (\<forall>sk h. keeps L (ws_shutdown ws sk h)) \<and>
     (\<forall>sk b f. keeps L (ws_wsarecv ws sk b f)) \<and>
     (\<forall>sk b f. keeps L (ws_wsasend ws sk b f)) \<and>
     (\<forall>d. keeps L (pa_strdup api d))"

text \<open>
  The descriptors in use and the open Windows sockets correspond one to one, and a startup that
  has been announced has published a table.
\<close>

definition fd_sock :: "('w, 'z) sock_sys_scheme \<Rightarrow> nat \<Rightarrow> SOCKET" where
  "fd_sock s i = fd_lookup s (socketbase + int i)"

definition sockets_owned :: "('w \<Rightarrow> SOCKET set) \<Rightarrow> ('w, 'z) sock_sys_scheme \<Rightarrow> bool" where
  "sockets_owned L s \<longleftrightarrow>
     (socket_ready s \<noteq> 0 \<longrightarrow> socket_fds s \<noteq> None) \<and>
     bij_betw (fd_sock s) (dom (fd_view s)) (L (world s))"

lemma fd_view_bound: "dom (fd_view s) \<subseteq> {..<maxsockets}"
  by (cases "socket_fds s") (auto simp: slot_entry_def split: if_splits)

lemma fd_sock_view: "fd_view s i = Some f \<Longrightarrow> fd_sock s i = fd_socket f"
  using fd_view_bound [of s] by (auto simp: fd_sock_def fd_lookup_view)

lemma fd_sock_open: "i \<in> dom (fd_view s) \<Longrightarrow> fd_sock s i \<noteq> INVALID_SOCKET"
  by (cases "socket_fds s") (auto simp: fd_sock_view slot_entry_def fd_free_def split: if_splits)

lemma fd_sock_closed: "i \<notin> dom (fd_view s) \<Longrightarrow> fd_sock s i = INVALID_SOCKET"
  by (auto simp: fd_sock_def fd_lookup_view domIff)

text \<open>The table changes only by claiming, by releasing, and in the flags of an element.\<close>

lemma sockets_owned_same:
  assumes "sockets_owned L s" "socket_fds s' = socket_fds s"
    "socket_ready s' = socket_ready s" "L (world s') = L (world s)"
  shows "sockets_owned L s'"
proof -
  have "fd_sock s' = fd_sock s" "fd_view s' = fd_view s"
    using assms(2) by (simp_all add: fun_eq_iff fd_sock_def fd_lookup_def fd_view_def)
  with assms show ?thesis by (simp add: sockets_owned_def)
qed

lemma sockets_owned_insert:
  assumes "sockets_owned L0 s" "i \<notin> dom (fd_view s)" "fd_socket f \<notin> L0 (world s)"
    "fd_view s' = (fd_view s)(i := Some f)" "socket_fds s' \<noteq> None"
    "L (world s') = insert (fd_socket f) (L0 (world s))"
  shows "sockets_owned L s'"
proof -
  have "fd_sock s' j = fd_sock s j" if "j \<in> dom (fd_view s)" for j
  proof -
    from that obtain g where "fd_view s j = Some g" by blast
    moreover from this have "fd_view s' j = Some g" using assms(2,4) by auto
    ultimately show ?thesis by (simp add: fd_sock_view)
  qed
  then have "bij_betw (fd_sock s') (dom (fd_view s)) (L0 (world s))"
    using assms(1) bij_betw_cong [of "dom (fd_view s)" "fd_sock s'" "fd_sock s"]
    by (simp add: sockets_owned_def)
  moreover have "fd_sock s' i = fd_socket f" using assms(4) by (simp add: fd_sock_view)
  ultimately have "bij_betw (fd_sock s') (dom (fd_view s) \<union> {i}) (L0 (world s) \<union> {fd_socket f})"
    using notIn_Un_bij_betw [of i "dom (fd_view s)" "fd_sock s'" "L0 (world s)"] assms(2,3) by simp
  then show ?thesis using assms(4-6) by (simp add: sockets_owned_def)
qed

lemma sockets_owned_remove:
  assumes "sockets_owned L s" "i \<in> dom (fd_view s)"
    "fd_view s' = (fd_view s)(i := None)" "socket_fds s' \<noteq> None"
    "L (world s') = L (world s) - {fd_sock s i}"
  shows "sockets_owned L s'"
proof -
  have "bij_betw (fd_sock s) (dom (fd_view s) - {i}) (L (world s) - {fd_sock s i})"
    using assms(1,2) by (intro bij_betw_DiffI) (auto simp: sockets_owned_def bij_betw_def)
  moreover have "fd_sock s' j = fd_sock s j" if "j \<in> dom (fd_view s) - {i}" for j
  proof -
    from that obtain g where "fd_view s j = Some g" by blast
    moreover from this have "fd_view s' j = Some g" using assms(3) that by auto
    ultimately show ?thesis by (simp add: fd_sock_view)
  qed
  ultimately show ?thesis
    using assms(3-5) bij_betw_cong [of "dom (fd_view s) - {i}" "fd_sock s'" "fd_sock s"]
    by (simp add: sockets_owned_def)
qed

text \<open>A handle that is open but not in the table yet is stored, or closed again.\<close>

lemma allocate_socket_owned:
  assumes "winsock_handles ws api L" "sockets_owned (\<lambda>w. L w - {sk}) s"
    "sk \<noteq> INVALID_SOCKET" "sk \<in> L (world s)" "socket_fds s = Some tbl"
  shows "sockets_owned L (snd (wpdk_allocate_socket ws sk domain flags s))"
proof -
  define fd where "fd = fst (wpdk_allocate_socket ws sk domain flags s)"
  define s' where "s' = snd (wpdk_allocate_socket ws sk domain flags s)"
  have run: "wpdk_allocate_socket ws sk domain flags s = (fd, s')" by (simp add: fd_def s'_def)
  have nb: "L (snd (ws_fionbio ws sk m w)) = L w" for m w
    using assms(1) by (simp add: winsock_handles_def keeps_def)
  have cl: "L (snd (ws_closesocket ws sk w)) = L w - {sk}" for w
    using assms(1) by (simp add: winsock_handles_def)
  let ?f = "\<lparr>fd_socket = sk, fd_domain = domain, fd_flags = flags\<rparr>"
  from run assms(3,5) have "sockets_owned L s'"
  proof (cases rule: allocate_socket_cases)
    case (claimed i tbl')
    have "\<not> fd_free ?f" using assms(3) by (simp add: fd_free_def)
    note fresh = socket_slots.alloc_Some [OF this claimed(3)]
    have "fd_view s i = None" "fd_view s' = (fd_view s)(i := Some ?f)"
      using fresh assms(5) claimed(4) by simp_all
    then show ?thesis
      using claimed(4) assms(4)
      by (intro sockets_owned_insert [OF assms(2), of i ?f]) (auto simp: nb)
  next
    case (closed e)
    have "sockets_owned (\<lambda>w. L w - {sk}) s'"
      using closed(2) by (intro sockets_owned_same [OF assms(2)]) (simp_all add: nb cl)
    then show ?thesis using closed(2) by (simp add: sockets_owned_def cl)
  qed
  then show ?thesis by (simp add: s'_def)
qed

lemma opened_not_stored:
  assumes "sockets_owned L s" "opens L f" "fst (f (world s)) \<noteq> INVALID_SOCKET"
  shows "sockets_owned (\<lambda>w. L w - {fst (f (world s))}) (snd (os_call f s))"
    "fst (f (world s)) \<in> L (world (snd (os_call f s)))"
proof -
  have fresh: "fst (f (world s)) \<notin> L (world s)"
    "L (snd (f (world s))) = insert (fst (f (world s))) (L (world s))"
    using assms(2,3) by (simp_all add: opens_def)
  have "sockets_owned (\<lambda>w. L w - {fst (f (world s))}) s"
    using assms(1) fresh(1) by (simp add: sockets_owned_def)
  then show "sockets_owned (\<lambda>w. L w - {fst (f (world s))}) (snd (os_call f s))"
    by (rule sockets_owned_same) (use fresh in auto)
  show "fst (f (world s)) \<in> L (world (snd (os_call f s)))" using fresh by simp
qed

lemma failed_open_owned:
  assumes "sockets_owned L s" "opens L f" "fst (f (world s)) = INVALID_SOCKET"
  shows "sockets_owned L (snd (wpdk_last_wsa_error g (snd (os_call f s))))"
  using assms(2,3) by (intro sockets_owned_same [OF assms(1)]) (simp_all add: opens_def)

lemma socket_startup_owned:
  assumes "winsock_handles ws api L" "sockets_owned L s" "socket_ready s = 0"
  shows "sockets_owned L (snd (wpdk_socket_startup ws s))"
    "fst (wpdk_socket_startup ws s) \<Longrightarrow> socket_fds (snd (wpdk_socket_startup ws s)) \<noteq> None"
proof -
  have keep: "L (snd (ws_calloc ws w)) = L w" "L (snd (ws_startup ws w)) = L w"
    "L (ws_set_last_error ws e w) = L w" for e w
    using assms(1) by (simp_all add: winsock_handles_def keeps_def)
  have none: "slot_entry fd_free maxsockets empty_fds = Map.empty" "bij_betw f {} A \<longleftrightarrow> A = {}"
    for f :: "nat \<Rightarrow> SOCKET" and A
    by (auto simp: fun_eq_iff slot_entry_def empty_fds_def fd_free_def bij_betw_def)
  have view: "fd_view (t\<lparr>socket_ready := 1\<rparr>) = fd_view t"
    "fd_sock (t\<lparr>socket_ready := 1\<rparr>) = fd_sock t" for t :: "('a, 'b) sock_sys_scheme"
    by (simp_all add: fun_eq_iff fd_view_def fd_sock_def fd_lookup_def)
  have world: "fd_view (t\<lparr>world := w\<rparr>) = fd_view t" "fd_sock (t\<lparr>world := w\<rparr>) = fd_sock t"
    for t :: "('a, 'b) sock_sys_scheme" and w
    by (simp_all add: fun_eq_iff fd_view_def fd_sock_def fd_lookup_def)
  show "sockets_owned L (snd (wpdk_socket_startup ws s))"
    using assms(2,3)
    by (auto simp: wpdk_socket_startup_def os_call_eq Let_def sockets_owned_def keep view world none
        split: option.splits)
  show "fst (wpdk_socket_startup ws s) \<Longrightarrow> socket_fds (snd (wpdk_socket_startup ws s)) \<noteq> None"
    by (auto simp: wpdk_socket_startup_def os_call_eq Let_def split: option.splits if_splits)
qed

lemma socket_owned:
  assumes "winsock_handles ws api L" "sockets_owned L s"
  shows "sockets_owned L (snd (wpdk_socket ws domain type protocol s))"
proof -
  define r where "r = (if socket_ready s \<noteq> 0 then (True, s) else wpdk_socket_startup ws s)"
  define f where "f = ws_socket ws domain (type AND NOT SOCK_NONBLOCK) protocol"
  have op: "opens L f" using assms(1) by (simp add: winsock_handles_def f_def)
  have r: "sockets_owned L (snd r)" "fst r \<Longrightarrow> socket_fds (snd r) \<noteq> None"
    using assms(2) socket_startup_owned [OF assms] by (auto simp: r_def sockets_owned_def)
  show ?thesis
  proof (cases "fst r \<and> fst (f (world (snd r))) \<noteq> INVALID_SOCKET")
    case True
    then obtain tbl where "socket_fds (snd r) = Some tbl" using r(2) by auto
    then show ?thesis
      using allocate_socket_owned [OF assms(1) opened_not_stored(1) [OF r(1) op]
          _ opened_not_stored(2) [OF r(1) op]] True
      by (simp add: wpdk_socket_def Let_def split_beta r_def [symmetric] f_def [symmetric])
  next
    case False
    have "sockets_owned L (snd (wpdk_last_wsa_error (ws_last_error ws) (snd r)))"
      by (intro sockets_owned_same [OF r(1)]) simp_all
    with False show ?thesis
      using failed_open_owned [OF r(1) op]
      by (auto simp: wpdk_socket_def Let_def split_beta r_def [symmetric] f_def [symmetric])
  qed
qed

text \<open>The common part of the two forms of \<^verbatim>\<open>accept\<close>, with the flags of the new descriptor.\<close>

lemma accept_owned_aux:
  assumes "winsock_handles ws api L" "sockets_owned L s" "fd_lookup s fd \<noteq> INVALID_SOCKET"
    "f = ws_accept ws (fd_lookup s fd) a l"
  shows "sockets_owned L (snd (let (sk', s1) = os_call f s
           in if sk' = INVALID_SOCKET then wpdk_last_wsa_error (ws_last_error ws) s1
              else wpdk_allocate_socket ws sk' domain flags s1))"
proof -
  have op: "opens L f" using assms(1,4) by (simp add: winsock_handles_def)
  obtain tbl where tbl: "socket_fds s = Some tbl" using assms(3) by (rule fd_lookup_open)
  show ?thesis
    using failed_open_owned [OF assms(2) op] tbl
      allocate_socket_owned [OF assms(1) opened_not_stored(1) [OF assms(2) op]
          _ opened_not_stored(2) [OF assms(2) op]]
    by (auto simp: split_beta Let_def)
qed

lemma bad_fd_owned: "sockets_owned L s \<Longrightarrow> sockets_owned L (s\<lparr>errno := e\<rparr>)"
  by (rule sockets_owned_same) simp_all

lemma with_socket_owned:
  assumes "sockets_owned L s"
    "fd_lookup s fd \<noteq> INVALID_SOCKET \<Longrightarrow> sockets_owned L (snd (f (fd_lookup s fd) s))"
  shows "sockets_owned L (snd (with_socket fd f s))"
  using assms bad_fd_owned [OF assms(1)]
  by (cases "fd_lookup s fd = INVALID_SOCKET") (simp_all add: with_socket_bad with_socket_good)

lemma accept_owned:
  assumes "winsock_handles ws api L" "sockets_owned L s"
  shows "sockets_owned L (snd (wpdk_accept ws fd a l s))"
    "sockets_owned L (snd (wpdk_accept4 ws fd a l sflags s))"
  using accept_owned_aux [OF assms]
  by (auto simp: wpdk_accept_def wpdk_accept4_def Let_def intro!: with_socket_owned assms(2))

lemma ws_status_simps [simp]:
  "socket_fds (snd (ws_status ws f s)) = socket_fds s"
  "socket_ready (snd (ws_status ws f s)) = socket_ready s"
  "world (snd (ws_status ws f s)) = snd (f (world s))"
  "fault (snd (ws_status ws f s)) = fault s"
  "socket_fds (snd (ws_value ws f s)) = socket_fds s"
  "socket_ready (snd (ws_value ws f s)) = socket_ready s"
  "world (snd (ws_value ws f s)) = snd (f (world s))"
  by (simp_all add: ws_status_def ws_value_def Let_def split_beta)

lemma set_socket_slot_view:
  assumes "fd_lookup s fd \<noteq> INVALID_SOCKET"
  shows "fd_view (set_socket_slot fd f s) =
           (fd_view s)(socket_index fd := (if fd_free f then None else Some f))"
    "socket_fds (set_socket_slot fd f s) \<noteq> None"
    "world (set_socket_slot fd f s) = world s"
    "socket_ready (set_socket_slot fd f s) = socket_ready s"
    "fd_view s (socket_index fd) = Some (socket_slot s fd)"
    "fd_sock s (socket_index fd) = fd_lookup s fd"
proof -
  obtain tbl where tbl: "socket_fds s = Some tbl" "wpdk_is_socket fd" "socket_index fd < maxsockets"
    "fd_lookup s fd = fd_socket (tbl (socket_index fd))" "\<not> fd_free (tbl (socket_index fd))"
    "socket_slot s fd = tbl (socket_index fd)"
    using assms by (rule fd_lookup_open)
  show "fd_view (set_socket_slot fd f s) =
      (fd_view s)(socket_index fd := (if fd_free f then None else Some f))"
    "socket_fds (set_socket_slot fd f s) \<noteq> None"
    "world (set_socket_slot fd f s) = world s"
    "socket_ready (set_socket_slot fd f s) = socket_ready s"
    "fd_view s (socket_index fd) = Some (socket_slot s fd)"
    using tbl by (simp_all add: set_socket_slot_def slot_entry_def)
  then show "fd_sock s (socket_index fd) = fd_lookup s fd" using tbl by (simp add: fd_sock_view)
qed

lemma close_socket_owned:
  assumes "winsock_handles ws api L" "sockets_owned L s"
  shows "sockets_owned L (snd (wpdk_close_socket ws fd s))"
  unfolding wpdk_close_socket_def
proof (rule with_socket_owned [OF assms(2)])
  assume fd: "fd_lookup s fd \<noteq> INVALID_SOCKET"
  let ?t = "set_socket_slot fd ((socket_slot s fd)\<lparr>fd_socket := INVALID_SOCKET\<rparr>) s"
  let ?u = "snd (ws_status ws (ws_closesocket ws (fd_lookup s fd)) ?t)"
  have "fd_view ?u = fd_view ?t" by (simp add: fd_view_def)
  moreover have "L (snd (ws_closesocket ws sk w)) = L w - {sk}" for sk w
    using assms(1) by (simp add: winsock_handles_def)
  ultimately have "sockets_owned L ?u"
    using set_socket_slot_view [OF fd]
    by (intro sockets_owned_remove [OF assms(2), of "socket_index fd"]) (auto simp: fd_free_def)
  then show "sockets_owned L (snd (if fd_socket (socket_slot s fd) \<noteq> fd_lookup s fd
       then wpdk_posix_error EBADF s else ws_status ws (ws_closesocket ws (fd_lookup s fd)) ?t))"
    using bad_fd_owned [OF assms(2)] by simp
qed

text \<open>Calls that leave the table alone and open or close nothing.\<close>

definition same_sockets ::
  "('w \<Rightarrow> SOCKET set) \<Rightarrow> ('w, 'z) sock_sys_scheme \<Rightarrow> ('w, 'z) sock_sys_scheme \<Rightarrow> bool" where
  "same_sockets L s s' \<longleftrightarrow> socket_fds s' = socket_fds s \<and> socket_ready s' = socket_ready s
     \<and> L (world s') = L (world s)"

lemma same_sockets_owned: "sockets_owned L s \<Longrightarrow> same_sockets L s s' \<Longrightarrow> sockets_owned L s'"
  by (auto simp: same_sockets_def intro: sockets_owned_same)

lemma same_sockets_refl [simp]: "same_sockets L s s" "same_sockets L s (s\<lparr>errno := e\<rparr>)"
  "same_sockets L s (set_errno e s)" "same_sockets L s (set_fault s)"
  "same_sockets L s (s\<lparr>map_init := b\<rparr>)" "same_sockets L s (s\<lparr>path_map := m\<rparr>)"
  by (simp_all add: same_sockets_def set_errno_def set_fault_def)

lemma same_sockets_trans [trans]:
  "same_sockets L a b \<Longrightarrow> same_sockets L b c \<Longrightarrow> same_sockets L a c"
  by (simp add: same_sockets_def)

lemma keeps_same:
  "keeps L h \<Longrightarrow> same_sockets L s (snd (os_call h s))"
  "keeps L f \<Longrightarrow> same_sockets L s (snd (ws_status ws f s))"
  "keeps L f \<Longrightarrow> same_sockets L s (snd (ws_value ws f s))"
  by (simp_all add: same_sockets_def keeps_def)

lemma with_socket_same:
  "(\<And>sk. sk \<noteq> INVALID_SOCKET \<Longrightarrow> same_sockets L s (snd (f sk s)))
    \<Longrightarrow> same_sockets L s (snd (with_socket fd f s))"
  by (cases "fd_lookup s fd = INVALID_SOCKET") (simp_all add: with_socket_bad with_socket_good)

lemma copy_path_same:
  assumes "winsock_handles ws api L"
  shows "same_sockets L s (snd (wpdk_copy_path api n path s))"
proof -
  have "path_invariant api (same_sockets L s)"
  proof
    fix t d assume "same_sockets L s t"
    moreover have "keeps L (pa_strdup api d)" using assms by (simp add: winsock_handles_def)
    ultimately show "same_sockets L s (snd (os_call (pa_strdup api d) t))"
      using keeps_same(1) same_sockets_trans by blast
  qed (simp_all add: same_sockets_def)
  then show ?thesis by (rule path_invariant.copy_path) simp
qed

lemma with_unix_path_same:
  assumes "winsock_handles ws api L" "\<And>addr len t. same_sockets L t (snd (f addr len t))"
  shows "same_sockets L s (snd (with_unix_path api address address_len f s))"
proof -
  define r where "r = wpdk_copy_path api sizeof_sun_path (Some (sun_path address)) s"
  have same: "same_sockets L s (snd r)" unfolding r_def by (rule copy_path_same [OF assms(1)])
  obtain c t where r: "r = (c, t)" by fastforce
  have "same_sockets L s (t\<lparr>errno := e\<rparr>)" "same_sockets L s (set_fault t)"
    "same_sockets L s (snd (f addr len t))" for e addr len
    using same assms(2) [of t addr len] unfolding r same_sockets_def by (simp_all add: set_fault_def)
  then show ?thesis
    using assms(2) unfolding with_unix_path_def r_def [symmetric] r
    by (cases c) simp_all
qed

lemma get_wsabuf_same:
  assumes "winsock_handles ws api L" "wpdk_get_wsabuf ws count iov iovlen s = (r, s')"
  shows "same_sockets L s s'"
proof -
  have "L (snd (ws_calloc ws w)) = L w" for w
    using assms(1) by (simp add: winsock_handles_def keeps_def)
  then show ?thesis
    using assms(2)
    by (auto simp: wpdk_get_wsabuf_def Let_def split_beta same_sockets_def set_errno_def
        set_fault_def split: option.splits if_splits fill_result.splits)
qed

lemma transferv_same:
  assumes "winsock_handles ws api L" "\<And>bs. keeps L (f bs)"
  shows "same_sockets L s (snd (case wpdk_get_wsabuf ws n iov iovlen s of
       (None, s1) \<Rightarrow> (- 1, s1)
     | (Some bs, s1) \<Rightarrow>
         (let (r, s2) = os_call (f bs) s1
          in if P r then wpdk_last_wsa_error (ws_last_error ws) s2 else (g r, s2))))"
proof -
  obtain r t where r: "wpdk_get_wsabuf ws n iov iovlen s = (r, t)" by fastforce
  have "same_sockets L s (snd (os_call (f bs) t))" for bs
    using get_wsabuf_same [OF assms(1) r] keeps_same(1) [OF assms(2)] by (rule same_sockets_trans)
  then show ?thesis
    using get_wsabuf_same [OF assms(1) r]
    by (cases r) (auto simp: \<open>wpdk_get_wsabuf ws n iov iovlen s = (r, t)\<close> split_beta Let_def
      same_sockets_def)
qed

lemma socket_io_same:
  assumes "winsock_handles ws api L"
  shows "same_sockets L s (snd (wpdk_bind ws api fd address len s))"
    "same_sockets L s (snd (wpdk_connect ws api fd address len s))"
    "same_sockets L s (snd (wpdk_getpeername ws fd a l s))"
    "same_sockets L s (snd (wpdk_getsockname ws fd a l s))"
    "same_sockets L s (snd (wpdk_getsockopt ws fd level name a l s))"
    "same_sockets L s (snd (wpdk_setsockopt ws fd level name a n s))"
    "same_sockets L s (snd (wpdk_listen ws fd backlog s))"
    "same_sockets L s (snd (wpdk_shutdown ws fd how s))"
    "same_sockets L s (snd (wpdk_recv ws fd a n flags s))"
    "same_sockets L s (snd (wpdk_recvfrom ws fd a n flags l m s))"
    "same_sockets L s (snd (wpdk_send ws fd a n flags s))"
    "same_sockets L s (snd (wpdk_sendto ws fd a n flags l n' s))"
    "same_sockets L s (snd (wpdk_socket_readv ws fd iov n s))"
    "same_sockets L s (snd (wpdk_socket_writev ws fd iov n s))"
    "same_sockets L s (snd (wpdk_sendmsg ws fd msg flags s))"
proof -
  note spec = assms [unfolded winsock_handles_def]
  show "same_sockets L s (snd (wpdk_bind ws api fd address len s))"
    unfolding wpdk_bind_def
    by (intro with_socket_same with_unix_path_same [OF assms] keeps_same) (simp add: spec)
  show "same_sockets L s (snd (wpdk_connect ws api fd address len s))"
    unfolding wpdk_connect_def
  proof (intro with_socket_same with_unix_path_same [OF assms])
    fix sk addr len and t :: "('a, 'b) sock_sys_scheme"
    have "same_sockets L t (snd (os_call (ws_connect ws sk addr len) t))"
      by (rule keeps_same) (simp add: spec)
    then show "same_sockets L t (snd (let (rc, s1) = os_call (ws_connect ws sk addr len) t
       in if rc = SOCKET_ERROR \<and> ws_last_error ws (world s1) \<noteq> Werr6 WSAEWOULDBLOCK
          then wpdk_last_wsa_error (ws_last_error ws) s1 else (0, s1)))"
      by (simp add: same_sockets_def split_beta Let_def)
  qed
  show "same_sockets L s (snd (wpdk_getpeername ws fd a l s))"
    "same_sockets L s (snd (wpdk_getsockname ws fd a l s))"
    "same_sockets L s (snd (wpdk_getsockopt ws fd level name a l s))"
    "same_sockets L s (snd (wpdk_listen ws fd backlog s))"
    "same_sockets L s (snd (wpdk_shutdown ws fd how s))"
    unfolding wpdk_getpeername_def wpdk_getsockname_def wpdk_getsockopt_def wpdk_listen_def
      wpdk_shutdown_def
    by (intro with_socket_same keeps_same; simp add: spec)+
  show "same_sockets L s (snd (wpdk_setsockopt ws fd level name a n s))"
    "same_sockets L s (snd (wpdk_recv ws fd a n flags s))"
    "same_sockets L s (snd (wpdk_recvfrom ws fd a n flags l m s))"
    "same_sockets L s (snd (wpdk_send ws fd a n flags s))"
    "same_sockets L s (snd (wpdk_sendto ws fd a n flags l n' s))"
    unfolding wpdk_setsockopt_def wpdk_recv_def wpdk_recvfrom_def wpdk_send_def wpdk_sendto_def
    by (rule with_socket_same; simp add: keeps_same spec)+
  have case3: "(let ((rc, nbytes, x), s2) = p in h rc nbytes s2)
      = (let (r, s2) = p in h (fst r) (fst (snd r)) s2)"
    "(let ((rc, nbytes), s2) = q in h rc nbytes s2) = (let (r, s2) = q in h (fst r) (snd r) s2)"
    for p q and h :: "int \<Rightarrow> int \<Rightarrow> ('a, 'b) sock_sys_scheme \<Rightarrow> int \<times> ('a, 'b) sock_sys_scheme"
    by (simp_all add: split_beta)
  show "same_sockets L s (snd (wpdk_socket_readv ws fd iov n s))"
    unfolding wpdk_socket_readv_def case3
    by (intro with_socket_same transferv_same [OF assms]) (simp add: spec)
  show "same_sockets L s (snd (wpdk_socket_writev ws fd iov n s))"
    "same_sockets L s (snd (wpdk_sendmsg ws fd msg flags s))"
    unfolding wpdk_socket_writev_def wpdk_sendmsg_def case3
    by (intro with_socket_same transferv_same [OF assms]; simp add: spec)+
qed

lemma recvmsg_same:
  assumes "winsock_handles ws api L"
  shows "same_sockets L s (snd (snd (wpdk_recvmsg ws fd msg flags s)))"
proof -
  obtain r t where r: "wpdk_get_wsabuf ws 10 (msg_iov msg) (msg_iovlen msg) s = (r, t)"
    by fastforce
  have "same_sockets L s (snd (os_call (ws_wsarecv ws sk bs f) t))" for sk bs f
    using get_wsabuf_same [OF assms r]
    by (rule same_sockets_trans) (intro keeps_same, use assms in \<open>simp add: winsock_handles_def\<close>)
  then show ?thesis
    using get_wsabuf_same [OF assms r]
    by (cases r; cases "fd_lookup s fd = INVALID_SOCKET")
      (auto simp: wpdk_recvmsg_def wpdk_get_socket_def r split_beta Let_def same_sockets_def
        set_errno_def)
qed

lemma socket_fcntl_owned:
  assumes "winsock_handles ws api L" "sockets_owned L s"
  shows "sockets_owned L (snd (wpdk_socket_fcntl ws fd cmd arg s))"
  unfolding wpdk_socket_fcntl_def
proof (rule with_socket_owned [OF assms(2)])
  assume fd: "fd_lookup s fd \<noteq> INVALID_SOCKET"
  define r where "r = os_call (ws_fionbio ws (fd_lookup s fd) (arg AND O_NONBLOCK \<noteq> 0)) s"
  have "same_sockets L s (snd r)"
    unfolding r_def by (rule keeps_same) (use assms in \<open>simp add: winsock_handles_def\<close>)
  then have own: "sockets_owned L (snd r)" and same: "socket_fds (snd r) = socket_fds s"
    using assms(2) same_sockets_owned by (auto simp: same_sockets_def)
  then have fd1: "fd_lookup (snd r) fd = fd_lookup s fd" by (simp add: fd_lookup_def)
  have slot: "sockets_owned L (set_socket_slot fd ((socket_slot (snd r) fd)\<lparr>fd_flags := x\<rparr>) (snd r))"
    for x
  proof -
    let ?t = "set_socket_slot fd ((socket_slot (snd r) fd)\<lparr>fd_flags := x\<rparr>) (snd r)"
    have v: "fd_view (snd r) (socket_index fd) = Some (socket_slot (snd r) fd)"
      using fd fd1 by (intro set_socket_slot_view) simp
    have "\<not> fd_free (socket_slot (snd r) fd)"
      using fd1 fd fd_lookup_open [of "snd r" fd] by metis
    then have view: "fd_view ?t = (fd_view (snd r))(socket_index fd :=
        Some ((socket_slot (snd r) fd)\<lparr>fd_flags := x\<rparr>))"
      using fd fd1 by (simp add: set_socket_slot_view fd_free_def)
    then have "dom (fd_view ?t) = dom (fd_view (snd r))" using v by auto
    moreover have "fd_sock ?t i = fd_sock (snd r) i" if i: "i \<in> dom (fd_view (snd r))" for i
    proof (cases "i = socket_index fd")
      case True
      then show ?thesis using v view by (simp add: fd_sock_view)
    next
      case False
      from i obtain g where "fd_view (snd r) i = Some g" by blast
      with False view show ?thesis by (simp add: fd_sock_view)
    qed
    ultimately show ?thesis
      using own fd fd1 bij_betw_cong [of "dom (fd_view (snd r))" "fd_sock ?t" "fd_sock (snd r)"]
      by (simp add: sockets_owned_def set_socket_slot_view)
  qed
  have rc: "sockets_owned L (snd (wpdk_last_wsa_error (ws_last_error ws) (snd r)))"
    using bad_fd_owned [OF own] by simp
  show "sockets_owned L (snd (if cmd = F_GETFL then (fd_flags (socket_slot s fd), s)
     else if cmd = F_SETFL
     then
       (let mode = (arg AND O_NONBLOCK \<noteq> 0);
            (rc, s1) = os_call (ws_fionbio ws (fd_lookup s fd) mode) s
        in if rc = SOCKET_ERROR then wpdk_last_wsa_error (ws_last_error ws) s1
           else
             (let f = socket_slot s1 fd
              in (0, set_socket_slot fd
                       (f\<lparr>fd_flags := (if mode then fd_flags f OR O_NONBLOCK
                                       else fd_flags f AND NOT O_NONBLOCK)\<rparr>) s1)))
     else wpdk_posix_error EINVAL s))"
    using assms(2) bad_fd_owned [OF assms(2)] rc slot
    by (simp add: Let_def split_beta r_def [symmetric])
qed

section \<open>Sequences of calls\<close>

text \<open>Any call of the interface, on any arguments.\<close>

inductive sock_step ::
  "'w winsock \<Rightarrow> 'w path_api \<Rightarrow> ('w, 'z) sock_sys_scheme \<Rightarrow> ('w, 'z) sock_sys_scheme \<Rightarrow> bool"
  for ws api where
  "sock_step ws api s (snd (wpdk_socket ws domain type protocol s))"
| "sock_step ws api s (snd (wpdk_close_socket ws fd s))"
| "sock_step ws api s (snd (wpdk_accept ws fd a l s))"
| "sock_step ws api s (snd (wpdk_accept4 ws fd a l flags s))"
| "sock_step ws api s (snd (wpdk_bind ws api fd address n s))"
| "sock_step ws api s (snd (wpdk_connect ws api fd address n s))"
| "sock_step ws api s (snd (wpdk_getpeername ws fd a l s))"
| "sock_step ws api s (snd (wpdk_getsockname ws fd a l s))"
| "sock_step ws api s (snd (wpdk_getsockopt ws fd level name a l s))"
| "sock_step ws api s (snd (wpdk_setsockopt ws fd level name a n s))"
| "sock_step ws api s (snd (wpdk_listen ws fd backlog s))"
| "sock_step ws api s (snd (wpdk_shutdown ws fd how s))"
| "sock_step ws api s (snd (wpdk_recv ws fd a n flags s))"
| "sock_step ws api s (snd (wpdk_recvfrom ws fd a n flags l m s))"
| "sock_step ws api s (snd (wpdk_send ws fd a n flags s))"
| "sock_step ws api s (snd (wpdk_sendto ws fd a n flags l n' s))"
| "sock_step ws api s (snd (wpdk_socket_read ws fd a n s))"
| "sock_step ws api s (snd (wpdk_socket_write ws fd a n s))"
| "sock_step ws api s (snd (wpdk_socket_readv ws fd iov n s))"
| "sock_step ws api s (snd (wpdk_socket_writev ws fd iov n s))"
| "sock_step ws api s (snd (wpdk_sendmsg ws fd msg flags s))"
| "sock_step ws api s (snd (snd (wpdk_recvmsg ws fd msg flags s)))"
| "sock_step ws api s (snd (wpdk_socket_fcntl ws fd cmd arg s))"

lemma sock_step_owned:
  assumes "sock_step ws api s s'" "winsock_handles ws api L" "sockets_owned L s"
  shows "sockets_owned L s'"
  using assms(1)
  by cases (auto intro: socket_owned close_socket_owned accept_owned socket_fcntl_owned assms(2,3)
      same_sockets_owned [OF assms(3)] socket_io_same [OF assms(2)] recvmsg_same [OF assms(2)]
      simp: wpdk_socket_read_def wpdk_socket_write_def)

lemma sock_steps_owned:
  assumes "(sock_step ws api)\<^sup>*\<^sup>* s s'" "winsock_handles ws api L" "sockets_owned L s"
  shows "sockets_owned L s'"
  using assms(1,3)
  by (induction rule: rtranclp_induct) (auto intro: sock_step_owned assms(2))

section \<open>Properties\<close>


text \<open>A Winsock that hands out consecutive handles; its world is the next one and those in use.\<close>

definition demo_open :: "nat \<times> SOCKET list \<Rightarrow> SOCKET \<times> nat \<times> SOCKET list" where
  "demo_open w =
     (let sk = word_of_nat (fst w)
      in if sk = INVALID_SOCKET \<or> sk \<in> set (snd w) then (INVALID_SOCKET, w)
         else (sk, Suc (fst w), sk # snd w))"

definition demo_shutdown :: "SOCKET \<Rightarrow> nat \<times> SOCKET list \<Rightarrow> int \<times> nat \<times> SOCKET list" where
  "demo_shutdown sk w = (if sk \<in> set (snd w) then 0 else SOCKET_ERROR, w)"

definition opt_list :: "'a list option \<Rightarrow> 'a list" where
  "opt_list x = (case x of Some l \<Rightarrow> l | None \<Rightarrow> [])"

definition demo_winsock :: "(nat \<times> SOCKET list) winsock" where
  "demo_winsock =
     \<lparr>ws_calloc = Pair True, ws_startup = Pair None, ws_cleanup = Pair 0,
      ws_set_last_error = (\<lambda>e w. w), ws_last_error = (\<lambda>w. Werr6 WSAENOTSOCK),
      ws_socket = (\<lambda>d t p. demo_open),
      ws_closesocket = (\<lambda>sk w. (0, fst w, removeAll sk (snd w))),
      ws_fionbio = (\<lambda>sk m. Pair 0), ws_accept = (\<lambda>sk a l. demo_open),
      ws_bind = (\<lambda>sk a l. Pair 0), ws_connect = (\<lambda>sk a l. Pair 0),
      ws_getpeername = (\<lambda>sk a l. Pair 0), ws_getsockname = (\<lambda>sk a l. Pair 0),
      ws_getsockopt = (\<lambda>sk v n a l. Pair 0), ws_setsockopt = (\<lambda>sk v n a l. Pair 0),
      ws_listen = (\<lambda>sk b. Pair 0), ws_recv = (\<lambda>sk b n f. Pair n),
      ws_recvfrom = (\<lambda>sk b n f a l. Pair n), ws_send = (\<lambda>sk b n f. Pair n),
      ws_sendto = (\<lambda>sk b n f a l. Pair n), ws_shutdown = (\<lambda>sk h. demo_shutdown sk),
      ws_wsarecv = (\<lambda>sk b f. Pair (0, sum_list (map wb_len b), 0)),
      ws_wsasend = (\<lambda>sk b f. Pair (0, sum_list (map wb_len b))),
      ws_select = (\<lambda>n r w e t. Pair
        (int (length (opt_list r) + length (opt_list w) + length (opt_list e)), r, w, e))\<rparr>"

definition demo_path_api :: "'w path_api" where
  "demo_path_api = \<lparr>pa_getenv = (\<lambda>v w. None), pa_access = (\<lambda>p w. True),
     pa_strdup = (\<lambda>x w. (True, w)), pa_curdir = (\<lambda>w. None)\<rparr>"

definition demo_sock_sys :: "(nat \<times> SOCKET list) sock_sys" where
  "demo_sock_sys = \<lparr>errno = 0, fault = False, world = (7, []), map_init = False, path_map = [],
     socket_ready = 0, socket_fds = None\<rparr>"

lemma demo_handles: "winsock_handles demo_winsock demo_path_api (\<lambda>w. set (snd w))"
  by (auto simp: winsock_handles_def opens_def keeps_def demo_winsock_def demo_path_api_def
      demo_open_def Let_def demo_shutdown_def)

definition demo_sock_sys1 :: "(nat \<times> SOCKET list) sock_sys" where
  "demo_sock_sys1 = snd (wpdk_socket demo_winsock 2 1 0 demo_sock_sys)"


lemma allocate_socket_effect:
  assumes "wpdk_allocate_socket ws sk domain flags s = (fd, s')" "sk \<noteq> INVALID_SOCKET" "fd \<noteq> - 1"
  shows "fd_lookup s fd = INVALID_SOCKET" "fd_lookup s' fd = sk"
    "socket_slot s' fd = \<lparr>fd_socket = sk, fd_domain = domain, fd_flags = flags\<rparr>"
    "fd' \<noteq> fd \<Longrightarrow> fd_lookup s' fd' = fd_lookup s fd'"
proof -
  obtain tbl where tbl: "socket_fds s = Some tbl"
    using assms(1,3)
    by (cases "socket_fds s")
      (auto simp: wpdk_allocate_socket_def os_call_eq Let_def split: if_splits prod.splits)
  from assms(1,2) tbl obtain i tbl' where c: "fd = socketbase + int i" "i < maxsockets"
    "slot_alloc fd_free maxsockets \<lparr>fd_socket = sk, fd_domain = domain, fd_flags = flags\<rparr> tbl
       = (Some i, tbl')" "socket_fds s' = Some tbl'"
    using assms(3) by (cases rule: allocate_socket_cases) auto
  note sa = slot_alloc_Some [OF c(3)]
  show "fd_lookup s fd = INVALID_SOCKET" "fd_lookup s' fd = sk"
    "socket_slot s' fd = \<lparr>fd_socket = sk, fd_domain = domain, fd_flags = flags\<rparr>"
    using c tbl sa by (simp_all add: fd_lookup_def socket_slot_def fd_free_def)
  assume "fd' \<noteq> fd"
  then have "socket_index fd' \<noteq> i" if "wpdk_is_socket fd'"
    using that c(1) by (auto simp: wpdk_is_socket_def socket_index_def)
  then show "fd_lookup s' fd' = fd_lookup s fd'" using c tbl sa(3) by (simp add: fd_lookup_def)
qed


lemma demo_socket_eval:
  "wpdk_socket demo_winsock 2 1 0 demo_sock_sys =
    (socketbase, \<lparr>errno = 0, fault = False, world = (8, [7]), map_init = False, path_map = [],
       socket_ready = 1, socket_fds = Some (empty_fds(0 :=
         \<lparr>fd_socket = 7, fd_domain = 2, fd_flags = 0\<rparr>))\<rparr>)"
  by (simp add: wpdk_socket_def wpdk_socket_startup_def wpdk_allocate_socket_def os_call_eq
      demo_winsock_def demo_sock_sys_def demo_open_def slot_alloc_def empty_fds_def fd_free_def
      errno_simps Let_def)

lemmas demo_sock_sys1_eq = demo_sock_sys1_def [unfolded demo_socket_eval snd_conv]

lemma demo_socket_run:
  "wpdk_socket demo_winsock 2 1 0 demo_sock_sys = (socketbase, demo_sock_sys1)"
  "fd_lookup demo_sock_sys1 socketbase = 7" "world demo_sock_sys1 = (8, [7])"
  unfolding demo_socket_eval demo_sock_sys1_eq
  by (simp_all add: fd_lookup_def wpdk_is_socket_def socket_index_def errno_simps)


text \<open>
  C29. Closing an open descriptor closes the Windows socket that it stands for, and no other; the
  descriptor is free afterwards, whatever \<^verbatim>\<open>closesocket\<close> reports, and a second close fails with
  \<open>EBADF\<close>.
\<close>

theorem close_socket_frees:
  assumes "fd_lookup s fd \<noteq> INVALID_SOCKET" "wpdk_close_socket ws fd s = (rc, s')"
  shows "world s' = snd (ws_closesocket ws (fd_lookup s fd) (world s))
    \<and> rc = (if fst (ws_closesocket ws (fd_lookup s fd) (world s)) = SOCKET_ERROR then - 1 else 0)
    \<and> fd_lookup s' fd = INVALID_SOCKET
    \<and> (\<forall>fd'. fd' \<noteq> fd \<longrightarrow> fd_lookup s' fd' = fd_lookup s fd')
    \<and> wpdk_close_socket ws fd s' = (- 1, s'\<lparr>errno := EBADF\<rparr>)"
proof -
  obtain tbl where tbl: "socket_fds s = Some tbl" "wpdk_is_socket fd"
    "fd_lookup s fd = fd_socket (tbl (socket_index fd))"
    "socket_slot s fd = tbl (socket_index fd)"
    using assms(1) by (rule fd_lookup_open)
  let ?tbl' = "tbl(socket_index fd := (tbl (socket_index fd))\<lparr>fd_socket := INVALID_SOCKET\<rparr>)"
  have run: "(rc, s') = ws_status ws (ws_closesocket ws (fd_lookup s fd))
      (s\<lparr>socket_fds := Some ?tbl'\<rparr>)"
    using assms tbl by (simp add: wpdk_close_socket_def with_socket_good set_socket_slot_def)
  have "s' = snd (rc, s')" "rc = fst (rc, s')" by simp_all
  note s' = this [unfolded run]
  have fds: "socket_fds s' = Some ?tbl'" "world s' = snd (ws_closesocket ws (fd_lookup s fd) (world s))"
    using s'(1) by simp_all
  have rc: "rc = (if fst (ws_closesocket ws (fd_lookup s fd) (world s)) = SOCKET_ERROR then - 1 else 0)"
    using s'(2) by (simp add: ws_status_def Let_def split_beta)
  have gone: "fd_lookup s' fd = INVALID_SOCKET" using fds tbl by (simp add: fd_lookup_def)
  have "fd_lookup s' fd' = fd_lookup s fd'" if "fd' \<noteq> fd" for fd'
  proof -
    have "socket_index fd' \<noteq> socket_index fd" if "wpdk_is_socket fd'"
      using that \<open>fd' \<noteq> fd\<close> tbl(2) by (auto simp: wpdk_is_socket_def socket_index_def)
    then show ?thesis using fds tbl by (simp add: fd_lookup_def)
  qed
  with fds rc gone show ?thesis by (simp add: wpdk_close_socket_def with_socket_bad)
qed

theorem close_socket_frees_witness:
  "fd_lookup (snd (wpdk_close_socket demo_winsock socketbase demo_sock_sys1)) socketbase
     = INVALID_SOCKET"
proof -
  have "fd_lookup demo_sock_sys1 socketbase \<noteq> INVALID_SOCKET"
    unfolding demo_socket_run by (simp add: errno_simps)
  from close_socket_frees [OF this prod.collapse [symmetric]] show ?thesis by blast
qed

definition to_wsabuf :: "iovec \<Rightarrow> wsabuf" where
  "to_wsabuf v = \<lparr>wb_buf = iov_base v, wb_len = iov_len v\<rparr>"

lemma fill_wsabuf_eq:
  assumes "n \<le> length vs" "\<forall>v \<in> set vs. 0 \<le> iov_len v" "0 \<le> len"
    "len + int n * ULONG_MAX \<le> SSIZE_MAX"
  shows "fill_wsabuf n vs len =
     (if \<forall>v \<in> set (take n vs). iov_len v \<le> ULONG_MAX then Filled (map to_wsabuf (take n vs))
      else Invalid_length)"
  using assms
proof (induction n vs len rule: fill_wsabuf.induct)
  case (3 n v vs len)
  show ?case
  proof (cases "iov_len v \<le> ULONG_MAX")
    case True
    with 3 have "len + iov_len v + int n * ULONG_MAX \<le> SSIZE_MAX" "0 \<le> len + iov_len v"
      by (simp_all add: algebra_simps)
    moreover have "0 \<le> int n * ULONG_MAX" by (simp add: errno_simps)
    ultimately have "\<not> SSIZE_MAX - len < iov_len v" "0 \<le> len + iov_len v"
      "len + iov_len v + int n * ULONG_MAX \<le> SSIZE_MAX" by linarith+
    then show ?thesis using True "3.prems"(1,2) "3.IH" by (simp add: to_wsabuf_def)
  next
    case False
    then show ?thesis by simp
  qed
qed simp_all

text \<open>
  The scatter/gather array is converted without loss, in order, for every length up to
  \<open>IOV_MAX\<close>; the only valid input that is refused is one with a buffer that a \<^verbatim>\<open>ULONG\<close> cannot
  describe, and then \<open>errno\<close> is \<open>EINVAL\<close>.
\<close>

theorem get_wsabuf_exact:
  assumes "0 \<le> iovlen" "iovlen \<le> IOV_MAX" "iovlen \<le> int (length vs)"
    and "\<forall>v \<in> set vs. 0 \<le> iov_len v"
    and "count < iovlen \<longrightarrow> fst (ws_calloc ws (world s))"
  shows "fst (wpdk_get_wsabuf ws count (Some vs) iovlen s) =
      (if \<forall>v \<in> set (take (nat iovlen) vs). iov_len v \<le> ULONG_MAX
       then Some (map to_wsabuf (take (nat iovlen) vs)) else None)
    \<and> fault (snd (wpdk_get_wsabuf ws count (Some vs) iovlen s)) = fault s
    \<and> ((\<exists>v \<in> set (take (nat iovlen) vs). ULONG_MAX < iov_len v) \<longrightarrow>
         errno (snd (wpdk_get_wsabuf ws count (Some vs) iovlen s)) = EINVAL)"
proof -
  have "int (nat iovlen) * ULONG_MAX \<le> IOV_MAX * ULONG_MAX"
    using assms(1,2) by (simp add: errno_simps)
  then have "0 + int (nat iovlen) * ULONG_MAX \<le> SSIZE_MAX" by (simp add: errno_simps)
  note fill = fill_wsabuf_eq [OF _ assms(4) order_refl this]
  have n: "nat iovlen \<le> length vs" using assms(1,3) by linarith
  show ?thesis
    using assms(1,2,5) fill [OF n]
    by (cases "count < iovlen"; cases "\<forall>v \<in> set (take (nat iovlen) vs). iov_len v \<le> ULONG_MAX")
      (auto simp: wpdk_get_wsabuf_def Let_def split_beta set_errno_def not_le)
qed

theorem get_wsabuf_exact_witness:
  "fst (wpdk_get_wsabuf demo_winsock 1 (Some [\<lparr>iov_base = 1, iov_len = 5\<rparr>, \<lparr>iov_base = 9, iov_len = 0\<rparr>])
          2 demo_sock_sys) = Some [\<lparr>wb_buf = 1, wb_len = 5\<rparr>, \<lparr>wb_buf = 9, wb_len = 0\<rparr>]"
  using get_wsabuf_exact [of 2 "[\<lparr>iov_base = 1, iov_len = 5\<rparr>, \<lparr>iov_base = 9, iov_len = 0\<rparr>]"
      1 demo_winsock demo_sock_sys]
  by (simp add: errno_simps demo_winsock_def to_wsabuf_def)

text \<open>
  Calls on a descriptor that is not open do not reach Windows: they return \<open>-1\<close> with
  \<open>EBADF\<close>, and nothing else changes.
\<close>

theorem closed_descriptor_EBADF:
  assumes "fd_lookup s fd = INVALID_SOCKET"
  shows "\<forall>r \<in> {wpdk_close_socket ws fd s, wpdk_accept ws fd a l s, wpdk_accept4 ws fd a l flags s,
      wpdk_bind ws api fd address n s, wpdk_connect ws api fd address n s,
      wpdk_getpeername ws fd a l s, wpdk_getsockname ws fd a l s,
      wpdk_getsockopt ws fd level name a l s, wpdk_setsockopt ws fd level name a n s,
      wpdk_listen ws fd backlog s, wpdk_shutdown ws fd how s, wpdk_recv ws fd a n flags s,
      wpdk_recvfrom ws fd a n flags l m s, wpdk_send ws fd a n flags s,
      wpdk_sendto ws fd a n flags l n' s, wpdk_socket_read ws fd a n s,
      wpdk_socket_write ws fd a n s, wpdk_socket_readv ws fd iov n s,
      wpdk_socket_writev ws fd iov n s, wpdk_sendmsg ws fd msg flags s,
      wpdk_socket_fcntl ws fd cmd arg s}. r = (- 1, s\<lparr>errno := EBADF\<rparr>)"
  unfolding wpdk_close_socket_def wpdk_accept_def wpdk_accept4_def wpdk_bind_def wpdk_connect_def
    wpdk_getpeername_def wpdk_getsockname_def wpdk_getsockopt_def wpdk_setsockopt_def
    wpdk_listen_def wpdk_shutdown_def wpdk_recv_def wpdk_recvfrom_def wpdk_send_def
    wpdk_sendto_def wpdk_socket_read_def wpdk_socket_write_def wpdk_socket_readv_def
    wpdk_socket_writev_def wpdk_sendmsg_def wpdk_socket_fcntl_def
  by (simp add: with_socket_bad [OF assms])

theorem closed_descriptor_EBADF_witness:
  "wpdk_close_socket demo_winsock 3 demo_sock_sys = (- 1, demo_sock_sys\<lparr>errno := EBADF\<rparr>)"
proof -
  have "fd_lookup demo_sock_sys 3 = INVALID_SOCKET" by (simp add: fd_lookup_def demo_sock_sys_def)
  from closed_descriptor_EBADF [OF this, of demo_winsock] show ?thesis by blast
qed

text \<open>
  \<^verbatim>\<open>wpdk_shutdown\<close> hands the descriptor number to Winsock, where the socket is expected. With
  a Winsock that rejects a handle that is not open, it fails on every descriptor whose number is
  not by chance an open handle too, although the descriptor itself is open.
\<close>

theorem shutdown_wrong_handle:
  assumes "\<forall>sk how w. sk \<notin> L w \<longrightarrow> ws_shutdown ws sk how w = (SOCKET_ERROR, w)
                       \<and> ws_last_error ws w = Werr6 WSAENOTSOCK"
    and "fd_lookup s fd \<noteq> INVALID_SOCKET" "word_of_int fd \<notin> L (world s)"
  shows "wpdk_shutdown ws fd how s = (- 1, s\<lparr>errno := ENOTSOCK\<rparr>)"
  using assms
  by (simp add: wpdk_shutdown_def with_socket_good ws_status_def os_call_eq
      wpdk_last_wsa_error_def wpdk_windows_error_def wpdk_convert_to_posix_def set_errno_def)

theorem shutdown_wrong_handle_witness:
  "wpdk_shutdown demo_winsock socketbase 0 demo_sock_sys1 = (- 1, demo_sock_sys1\<lparr>errno := ENOTSOCK\<rparr>)"
proof (rule shutdown_wrong_handle [of "\<lambda>w. set (snd w)"])
  show "fd_lookup demo_sock_sys1 socketbase \<noteq> INVALID_SOCKET"
    "word_of_int socketbase \<notin> set (snd (world demo_sock_sys1))"
    unfolding demo_socket_run by (simp_all add: errno_simps)
qed (simp add: demo_winsock_def demo_shutdown_def)

end
