(* ===== verification/Set_Interface.thy ===== *)
theory Set_Interface
  imports WPDK_Prelude
begin

text \<open>
  Three components keep a set of small keys in a C structure: \<^verbatim>\<open>fd_set\<close> (an array of sockets),
  \<^verbatim>\<open>sigset_t\<close> (a bit mask of signals) and \<^verbatim>\<open>cpuset_t\<close> (an array of bit masks). The locale
  \<open>set_impl\<close> states what their clients rely on, and derives that the structure behaves like the
  set of its members.
\<close>

locale set_impl =
  fixes empty :: 's
    and ins :: "'k \<Rightarrow> 's \<Rightarrow> 's"
    and del :: "'k \<Rightarrow> 's \<Rightarrow> 's"
    and mem :: "'k \<Rightarrow> 's \<Rightarrow> bool"
    and room :: "'k \<Rightarrow> 's \<Rightarrow> bool"
    and inv :: "'s \<Rightarrow> bool"
  assumes inv_empty: "inv empty"
    and inv_ins: "inv s \<Longrightarrow> inv (ins x s)"
    and inv_del: "inv s \<Longrightarrow> inv (del x s)"
    and mem_empty: "\<not> mem x empty"
    and mem_ins: "inv s \<Longrightarrow> room x s \<Longrightarrow> mem y (ins x s) \<longleftrightarrow> y = x \<or> mem y s"
    and mem_del: "inv s \<Longrightarrow> mem y (del x s) \<longleftrightarrow> y \<noteq> x \<and> mem y s"
begin

definition members :: "'s \<Rightarrow> 'k set" where
  "members s = {x. mem x s}"

lemma members_empty [simp]: "members empty = {}"
  by (simp add: members_def mem_empty)

lemma members_ins: "inv s \<Longrightarrow> room x s \<Longrightarrow> members (ins x s) = insert x (members s)"
  by (auto simp: members_def mem_ins)

lemma members_del: "inv s \<Longrightarrow> members (del x s) = members s - {x}"
  by (auto simp: members_def mem_del)

lemma del_ins: "inv s \<Longrightarrow> room x s \<Longrightarrow> members (del x (ins x s)) = members s - {x}"
  by (simp add: members_del members_ins inv_ins)

lemma inv_fold_ins: "inv s \<Longrightarrow> inv (fold ins xs s)"
  by (induction xs arbitrary: s) (simp_all add: inv_ins)

lemma members_fold_ins:
  assumes "inv s" "\<And>t x. x \<in> set xs \<Longrightarrow> inv t \<Longrightarrow> members t \<subseteq> members s \<union> set xs \<Longrightarrow> room x t"
  shows "members (fold ins xs s) = set xs \<union> members s"
  using assms
proof (induction xs arbitrary: s)
  case (Cons x xs)
  have room: "room x s" using Cons.prems by auto
  have "members (fold ins xs (ins x s)) = set xs \<union> members (ins x s)"
  proof (rule Cons.IH)
    show "inv (ins x s)" using Cons.prems(1) by (rule inv_ins)
    fix t y assume "y \<in> set xs" "inv t" "members t \<subseteq> members (ins x s) \<union> set xs"
    then show "room y t" using Cons.prems room by (intro Cons.prems(2)) (auto simp: members_ins)
  qed
  then show ?case using Cons.prems(1) room by (auto simp: members_ins)
qed simp

end

end
