(* ===== verification/Poll_Select.thy ===== *)
theory Poll_Select
  imports Sockets Set_Interface
begin

unbundle bit_operations_syntax

text \<open>
  \<^verbatim>\<open>src/select.c\<close> and \<^verbatim>\<open>src/poll.c\<close>: the descriptor sets, \<^verbatim>\<open>wpdk_select\<close> and \<^verbatim>\<open>wpdk_poll\<close> on top of
  \<^verbatim>\<open>select\<close> of Winsock. A Windows \<^verbatim>\<open>fd_set\<close> is an array of at most \<^verbatim>\<open>FD_SETSIZE\<close> sockets with a
  counter, here the list of its used elements.
\<close>

section \<open>Descriptor sets\<close>

definition FD_SETSIZE :: nat where [errno_simps]: "FD_SETSIZE = 64"

definition FD_SET :: "SOCKET \<Rightarrow> SOCKET list \<Rightarrow> SOCKET list" where
  "FD_SET sk l = (if sk \<in> set l \<or> FD_SETSIZE \<le> length l then l else l @ [sk])"

definition FD_CLR :: "SOCKET \<Rightarrow> SOCKET list \<Rightarrow> SOCKET list" where
  "FD_CLR sk l = remove1 sk l"

definition FD_ISSET :: "SOCKET \<Rightarrow> SOCKET list \<Rightarrow> bool" where
  "FD_ISSET sk l \<longleftrightarrow> sk \<in> set l"

definition fd_set_wf :: "SOCKET list \<Rightarrow> bool" where
  "fd_set_wf l \<longleftrightarrow> distinct l \<and> length l \<le> FD_SETSIZE"

definition fd_set_room :: "SOCKET \<Rightarrow> SOCKET list \<Rightarrow> bool" where
  "fd_set_room sk l \<longleftrightarrow> sk \<in> set l \<or> length l < FD_SETSIZE"

interpretation fdset: set_impl "[]" FD_SET FD_CLR FD_ISSET fd_set_room fd_set_wf
proof
  fix s x assume "fd_set_wf s"
  then show "fd_set_wf (FD_CLR x s)"
    by (simp add: fd_set_wf_def FD_CLR_def length_remove1 le_diff_conv)
qed (auto simp: fd_set_wf_def FD_SET_def FD_CLR_def FD_ISSET_def fd_set_room_def)

definition wpdk_fd_zero :: "SOCKET list \<Rightarrow> SOCKET list" where
  "wpdk_fd_zero l = []"

definition wpdk_fd_set ::
  "int \<Rightarrow> SOCKET list \<Rightarrow> ('w, 'z) sock_sys_scheme \<Rightarrow> SOCKET list \<times> ('w, 'z) sock_sys_scheme" where
  "wpdk_fd_set fd l s =
     (let (sk, s1) = wpdk_get_socket fd s in (if sk \<noteq> INVALID_SOCKET then FD_SET sk l else l, s1))"

definition wpdk_fd_clr ::
  "int \<Rightarrow> SOCKET list \<Rightarrow> ('w, 'z) sock_sys_scheme \<Rightarrow> SOCKET list \<times> ('w, 'z) sock_sys_scheme" where
  "wpdk_fd_clr fd l s =
     (let (sk, s1) = wpdk_get_socket fd s in (if sk \<noteq> INVALID_SOCKET then FD_CLR sk l else l, s1))"

definition wpdk_fd_isset ::
  "int \<Rightarrow> SOCKET list \<Rightarrow> ('w, 'z) sock_sys_scheme \<Rightarrow> bool \<times> ('w, 'z) sock_sys_scheme" where
  "wpdk_fd_isset fd l s =
     (let (sk, s1) = wpdk_get_socket fd s in (sk \<noteq> INVALID_SOCKET \<and> FD_ISSET sk l, s1))"

text \<open>The sets that \<^verbatim>\<open>select\<close> returns replace those of the caller.\<close>

definition wpdk_select ::
  "'w winsock \<Rightarrow> int \<Rightarrow> SOCKET list option \<Rightarrow> SOCKET list option \<Rightarrow> SOCKET list option
    \<Rightarrow> (int \<times> int) option \<Rightarrow> ('w, 'z) sock_sys_scheme
    \<Rightarrow> (int \<times> SOCKET list option \<times> SOCKET list option \<times> SOCKET list option)
        \<times> ('w, 'z) sock_sys_scheme" where
  "wpdk_select ws nfds readfds writefds exceptfds timeout s =
     (let delay = map_option (\<lambda>(sec, usec). (if LONG_MAX < sec then LONG_MAX else sec, usec)) timeout;
          ((rc, sets), s1) = os_call (ws_select ws nfds readfds writefds exceptfds delay) s
      in if rc = SOCKET_ERROR
         then (let (r, s2) = wpdk_last_wsa_error (ws_last_error ws) s1 in ((r, sets), s2))
         else ((rc, sets), s1))"

section \<open>Polling\<close>

definition POLLRDNORM :: int where [errno_simps]: "POLLRDNORM = 0x0100"
definition POLLRDBAND :: int where [errno_simps]: "POLLRDBAND = 0x0200"
definition POLLIN :: int where [errno_simps]: "POLLIN = 0x0300"
definition POLLPRI :: int where [errno_simps]: "POLLPRI = 0x0400"
definition POLLOUT :: int where [errno_simps]: "POLLOUT = 0x0010"
definition POLLERR :: int where [errno_simps]: "POLLERR = 0x0001"
definition POLLHUP :: int where [errno_simps]: "POLLHUP = 0x0002"
definition POLLNVAL :: int where [errno_simps]: "POLLNVAL = 0x0004"

record pollfd =
  poll_fd :: int
  poll_events :: int
  poll_revents :: int

record poll_sets =
  readfds :: "SOCKET list"
  writefds :: "SOCKET list"
  exceptfds :: "SOCKET list"
  worktodo :: bool

text \<open>The first loop: what one element asks for.\<close>

definition poll_request :: "int \<Rightarrow> SOCKET \<Rightarrow> poll_sets \<Rightarrow> poll_sets" where
  "poll_request events sk q =
     (let q1 = (if events AND POLLIN \<noteq> 0
                then q\<lparr>readfds := FD_SET sk (readfds q), worktodo := True\<rparr> else q);
          q2 = (if events AND POLLOUT \<noteq> 0
                then q1\<lparr>writefds := FD_SET sk (writefds q1), worktodo := True\<rparr> else q1)
      in if events AND POLLPRI \<noteq> 0
         then q2\<lparr>exceptfds := FD_SET sk (exceptfds q2), worktodo := True\<rparr> else q2)"

fun poll_collect ::
  "pollfd list \<Rightarrow> poll_sets \<Rightarrow> ('w, 'z) sock_sys_scheme
    \<Rightarrow> pollfd list \<times> poll_sets \<times> ('w, 'z) sock_sys_scheme" where
  "poll_collect [] q s = ([], q, s)"
| "poll_collect (p # ps) q s =
     (if poll_fd p < 0
      then (let (ps', q', s') = poll_collect ps q s in (p\<lparr>poll_revents := 0\<rparr> # ps', q', s'))
      else
        (let (sk, s1) = wpdk_get_socket (poll_fd p) s
         in if sk = INVALID_SOCKET
            then (let (ps', q', s') = poll_collect ps q s1
                  in (p\<lparr>poll_revents := 0 OR POLLNVAL\<rparr> # ps', q', s'))
            else (let (ps', q', s') = poll_collect ps (poll_request (poll_events p) sk q) s1
                  in (p\<lparr>poll_revents := 0\<rparr> # ps', q', s'))))"

text \<open>The second loop: what one element receives, and the number of elements with an event.\<close>

definition poll_result :: "SOCKET list \<Rightarrow> SOCKET list \<Rightarrow> SOCKET list \<Rightarrow> SOCKET \<Rightarrow> int \<Rightarrow> int" where
  "poll_result rd wr ex sk revents =
     (let r1 = (if FD_ISSET sk rd then revents OR POLLIN else revents);
          r2 = (if FD_ISSET sk wr then r1 OR POLLOUT else r1)
      in if FD_ISSET sk ex then r2 OR (POLLERR OR POLLHUP OR POLLPRI) else r2)"

fun poll_report ::
  "SOCKET list \<Rightarrow> SOCKET list \<Rightarrow> SOCKET list \<Rightarrow> pollfd list \<Rightarrow> int \<Rightarrow> ('w, 'z) sock_sys_scheme
    \<Rightarrow> int \<times> pollfd list \<times> ('w, 'z) sock_sys_scheme" where
  "poll_report rd wr ex [] n s = (n, [], s)"
| "poll_report rd wr ex (p # ps) n s =
     (if poll_fd p < 0
      then (let (n', ps', s') = poll_report rd wr ex ps n s in (n', p # ps', s'))
      else
        (let (sk, s1) = wpdk_get_socket (poll_fd p) s;
             p' = (if sk \<noteq> INVALID_SOCKET
                   then p\<lparr>poll_revents := poll_result rd wr ex sk (poll_revents p)\<rparr> else p);
             (n', ps', s') = poll_report rd wr ex ps
                               (if poll_revents p' \<noteq> 0 then n + 1 else n) s1
         in (n', p' # ps', s')))"

text \<open>
  The whole call. The caller's array is a list with at least \<open>nfds\<close> elements, and comes back with
  the events; \<open>timeout\<close> is divided as C does, towards zero.
\<close>

definition wpdk_poll ::
  "'w winsock \<Rightarrow> pollfd list option \<Rightarrow> nat \<Rightarrow> int \<Rightarrow> ('w, 'z) sock_sys_scheme
    \<Rightarrow> int \<times> pollfd list option \<times> ('w, 'z) sock_sys_scheme" where
  "wpdk_poll ws fds nfds timeout s =
     (case fds of
        None \<Rightarrow> (let (rc, s1) = wpdk_posix_error EINVAL s in (rc, None, s1))
      | Some ps \<Rightarrow>
          if FD_SETSIZE \<le> nfds then (let (rc, s1) = wpdk_posix_error EINVAL s in (rc, Some ps, s1))
          else if length ps < nfds then (- 1, Some ps, set_fault s)
          else
            (let delay = (c_div timeout 1000, c_mod timeout 1000 * 1000);
                 (ps1, q, s1) = poll_collect (take nfds ps)
                   \<lparr>readfds = [], writefds = [], exceptfds = [], worktodo = False\<rparr> s;
                 ((rc, rd, wr, ex), s2) =
                   (if worktodo q
                    then os_call (ws_select ws (int nfds) (Some (readfds q)) (Some (writefds q))
                           (Some (exceptfds q)) (if timeout \<noteq> - 1 then Some delay else None)) s1
                    else ((0, Some (readfds q), Some (writefds q), Some (exceptfds q)), s1))
             in if rc = SOCKET_ERROR
                then (let (r, s3) = wpdk_last_wsa_error (ws_last_error ws) s2
                      in (r, Some (ps1 @ drop nfds ps), s3))
                else (let (n, ps2, s3) = poll_report (opt_list rd) (opt_list wr) (opt_list ex) ps1 0 s2
                      in (n, Some (ps2 @ drop nfds ps), s3))))"

section \<open>What polling asks for and answers\<close>

definition poll_sk :: "('w, 'z) sock_sys_scheme \<Rightarrow> pollfd \<Rightarrow> SOCKET" where
  "poll_sk s p = (if poll_fd p < 0 then INVALID_SOCKET else fd_lookup s (poll_fd p))"

definition poll_wants :: "('w, 'z) sock_sys_scheme \<Rightarrow> pollfd list \<Rightarrow> int \<Rightarrow> SOCKET set" where
  "poll_wants s ps ev =
     {sk. sk \<noteq> INVALID_SOCKET \<and> (\<exists>p \<in> set ps. poll_sk s p = sk \<and> poll_events p AND ev \<noteq> 0)}"

definition poll_answer ::
  "('w, 'z) sock_sys_scheme \<Rightarrow> SOCKET list \<Rightarrow> SOCKET list \<Rightarrow> SOCKET list \<Rightarrow> pollfd \<Rightarrow> int" where
  "poll_answer s rd wr ex p =
     (if poll_fd p < 0 then 0
      else if fd_lookup s (poll_fd p) = INVALID_SOCKET then POLLNVAL
      else poll_result rd wr ex (fd_lookup s (poll_fd p)) 0)"

definition poll_requests :: "('w, 'z) sock_sys_scheme \<Rightarrow> pollfd list \<Rightarrow> poll_sets \<Rightarrow> poll_sets" where
  "poll_requests s ps q =
     fold (\<lambda>p q. if poll_sk s p = INVALID_SOCKET then q
                  else poll_request (poll_events p) (poll_sk s p) q) ps q"

definition errno_only :: "('w, 'z) sock_sys_scheme \<Rightarrow> ('w, 'z) sock_sys_scheme \<Rightarrow> bool" where
  "errno_only s s' \<longleftrightarrow> s' = s \<or> s' = s\<lparr>errno := EBADF\<rparr>"

lemma errno_only_refl [simp]: "errno_only s s"
  by (simp add: errno_only_def)

lemma errno_only_same:
  "errno_only s s' \<Longrightarrow> fd_lookup s' fd = fd_lookup s fd"
  "errno_only s s' \<Longrightarrow> world s' = world s"
  "errno_only s s' \<Longrightarrow> poll_sk s' p = poll_sk s p"
  by (auto simp: errno_only_def fd_lookup_def poll_sk_def)

lemma errno_only_trans: "errno_only a b \<Longrightarrow> errno_only b c \<Longrightarrow> errno_only a c"
  by (auto simp: errno_only_def)

lemma errno_only_get: "errno_only s (snd (wpdk_get_socket fd s))"
  "fst (wpdk_get_socket fd s) = fd_lookup s fd"
  by (simp_all add: wpdk_get_socket_def errno_only_def set_errno_def Let_def)

definition poll_cleared :: "('w, 'z) sock_sys_scheme \<Rightarrow> pollfd \<Rightarrow> pollfd" where
  "poll_cleared s p =
     p\<lparr>poll_revents := if 0 \<le> poll_fd p \<and> poll_sk s p = INVALID_SOCKET then POLLNVAL else 0\<rparr>"

lemma get_socket_frame [simp]:
  "poll_sk (snd (wpdk_get_socket fd s)) = poll_sk s"
  "poll_requests (snd (wpdk_get_socket fd s)) = poll_requests s"
  "poll_cleared (snd (wpdk_get_socket fd s)) = poll_cleared s"
proof -
  show sk: "poll_sk (snd (wpdk_get_socket fd s)) = poll_sk s"
    using errno_only_same [OF errno_only_get(1) [of s fd]] by (simp add: fun_eq_iff)
  show "poll_requests (snd (wpdk_get_socket fd s)) = poll_requests s"
    "poll_cleared (snd (wpdk_get_socket fd s)) = poll_cleared s"
    unfolding poll_requests_def [abs_def] poll_cleared_def [abs_def] sk by simp_all
qed

lemma poll_collect_eq:
  "fst (poll_collect ps q s) = map (poll_cleared s) ps
   \<and> fst (snd (poll_collect ps q s)) = poll_requests s ps q
   \<and> errno_only s (snd (snd (poll_collect ps q s)))"
proof (induction ps arbitrary: q s)
  case (Cons p ps)
  have *: "errno_only s (snd (snd (poll_collect ps q' (snd (wpdk_get_socket fd s)))))" for q' fd
    using Cons [of q' "snd (wpdk_get_socket fd s)"] errno_only_get(1) [of s fd] errno_only_trans
    by blast
  show ?case
  proof (cases "poll_fd p < 0")
    case True
    then show ?thesis
      using Cons by (simp add: split_beta Let_def poll_requests_def poll_cleared_def poll_sk_def)
  next
    case False
    then show ?thesis
      using Cons [of _ "snd (wpdk_get_socket (poll_fd p) s)"] *
      by (simp add: split_beta Let_def errno_only_get(2))
        (simp add: poll_requests_def poll_cleared_def poll_sk_def)
  qed
qed (simp add: poll_requests_def)

definition poll_final ::
  "('w, 'z) sock_sys_scheme \<Rightarrow> SOCKET list \<Rightarrow> SOCKET list \<Rightarrow> SOCKET list \<Rightarrow> pollfd \<Rightarrow> pollfd" where
  "poll_final s rd wr ex p =
     (if poll_sk s p = INVALID_SOCKET then p
      else p\<lparr>poll_revents := poll_result rd wr ex (poll_sk s p) (poll_revents p)\<rparr>)"

lemma get_socket_final [simp]:
  "poll_final (snd (wpdk_get_socket fd s)) = poll_final s"
  by (simp add: fun_eq_iff poll_final_def)

lemma poll_report_eq:
  "fst (snd (poll_report rd wr ex ps n s)) = map (poll_final s rd wr ex) ps
   \<and> fst (poll_report rd wr ex ps n s) =
       n + int (length (filter (\<lambda>p. 0 \<le> poll_fd p \<and> poll_revents (poll_final s rd wr ex p) \<noteq> 0) ps))"
proof (induction ps arbitrary: n s)
  case (Cons p ps)
  show ?case
  proof (cases "poll_fd p < 0")
    case True
    then show ?thesis
      using Cons by (simp add: split_beta Let_def poll_final_def poll_sk_def)
  next
    case False
    then show ?thesis
      using Cons [of _ "snd (wpdk_get_socket (poll_fd p) s)"]
      by (simp add: split_beta Let_def errno_only_get(2))
        (auto simp: poll_final_def poll_sk_def)
  qed
qed simp

lemma poll_request_sets:
  "readfds (poll_request ev sk q) = (if ev AND POLLIN \<noteq> 0 then FD_SET sk (readfds q) else readfds q)"
  "writefds (poll_request ev sk q) = (if ev AND POLLOUT \<noteq> 0 then FD_SET sk (writefds q) else writefds q)"
  "exceptfds (poll_request ev sk q) = (if ev AND POLLPRI \<noteq> 0 then FD_SET sk (exceptfds q) else exceptfds q)"
  "worktodo (poll_request ev sk q) \<longleftrightarrow>
     worktodo q \<or> ev AND POLLIN \<noteq> 0 \<or> ev AND POLLOUT \<noteq> 0 \<or> ev AND POLLPRI \<noteq> 0"
  by (simp_all add: poll_request_def Let_def)

lemma poll_wants_Cons:
  "poll_wants s (p # ps) ev =
     (if poll_sk s p \<noteq> INVALID_SOCKET \<and> poll_events p AND ev \<noteq> 0 then {poll_sk s p} else {})
     \<union> poll_wants s ps ev"
  by (auto simp: poll_wants_def)

text \<open>With at most \<open>FD_SETSIZE\<close> elements no request is lost.\<close>

lemma poll_requests_set:
  assumes "\<And>ev' sk q. sel (poll_request ev' sk q) = (if ev' AND ev \<noteq> 0 then FD_SET sk (sel q) else sel q)"
    "length (sel q) + length ps \<le> FD_SETSIZE"
  shows "set (sel (poll_requests s ps q)) = set (sel q) \<union> poll_wants s ps ev"
  using assms(2)
proof (induction ps arbitrary: q)
  case Nil
  then show ?case by (simp add: poll_requests_def poll_wants_def)
next
  case (Cons p ps)
  define q' where "q' = (if poll_sk s p = INVALID_SOCKET then q
                         else poll_request (poll_events p) (poll_sk s p) q)"
  have "length (sel q') \<le> Suc (length (sel q))"
    by (simp add: q'_def assms(1) FD_SET_def)
  then have "set (sel (poll_requests s ps q')) = set (sel q') \<union> poll_wants s ps ev"
    using Cons.prems by (intro Cons.IH) simp
  moreover have "poll_requests s (p # ps) q = poll_requests s ps q'"
    by (simp add: poll_requests_def q'_def)
  moreover have "set (sel q') = set (sel q) \<union>
     (if poll_sk s p \<noteq> INVALID_SOCKET \<and> poll_events p AND ev \<noteq> 0 then {poll_sk s p} else {})"
    using Cons.prems by (auto simp: q'_def assms(1) FD_SET_def)
  ultimately show ?case by (simp add: poll_wants_Cons Un_ac)
qed

lemma poll_requests_work:
  "worktodo (poll_requests s ps q) \<longleftrightarrow> worktodo q \<or> poll_wants s ps POLLIN \<noteq> {}
     \<or> poll_wants s ps POLLOUT \<noteq> {} \<or> poll_wants s ps POLLPRI \<noteq> {}"
proof (induction ps arbitrary: q)
  case Nil
  then show ?case by (simp add: poll_requests_def poll_wants_def)
next
  case (Cons p ps)
  have "poll_requests s (p # ps) q = poll_requests s ps (if poll_sk s p = INVALID_SOCKET then q
          else poll_request (poll_events p) (poll_sk s p) q)"
    by (simp add: poll_requests_def)
  then show ?case by (auto simp: Cons poll_wants_Cons poll_request_sets)
qed

lemma poll_final_cleared:
  "poll_final s rd wr ex (poll_cleared s p) = p\<lparr>poll_revents := poll_answer s rd wr ex p\<rparr>"
  "poll_fd (poll_cleared s p) = poll_fd p"
  by (auto simp: poll_final_def poll_cleared_def poll_answer_def poll_sk_def)

section \<open>Properties\<close>


definition demo_polls :: "pollfd list" where
  "demo_polls = [\<lparr>poll_fd = socketbase, poll_events = POLLIN, poll_revents = 9\<rparr>,
                 \<lparr>poll_fd = 5, poll_events = POLLIN, poll_revents = 9\<rparr>,
                 \<lparr>poll_fd = - 1, poll_events = POLLIN, poll_revents = 9\<rparr>]"

lemma demo_poll_run:
  "wpdk_poll demo_winsock (Some demo_polls) (length demo_polls) 0 demo_sock_sys1 =
     (2, Some [\<lparr>poll_fd = socketbase, poll_events = POLLIN, poll_revents = POLLIN\<rparr>,
               \<lparr>poll_fd = 5, poll_events = POLLIN, poll_revents = POLLNVAL\<rparr>,
               \<lparr>poll_fd = - 1, poll_events = POLLIN, poll_revents = 0\<rparr>], demo_sock_sys1\<lparr>errno := EBADF\<rparr>)"
  by (simp add: wpdk_poll_def demo_polls_def demo_sock_sys1_eq wpdk_get_socket_def fd_lookup_def
      wpdk_is_socket_def socket_index_def set_errno_def poll_request_def poll_result_def errno_simps
      FD_SET_def FD_ISSET_def os_call_eq demo_winsock_def opt_list_def Let_def)


text \<open>
  An array with exactly \<open>FD_SETSIZE\<close> elements would fit the descriptor sets, and is refused
  all the same.
\<close>

theorem poll_refuses_full_array:
  assumes "length ps = FD_SETSIZE"
  shows "wpdk_poll ws (Some ps) (length ps) timeout s = (- 1, Some ps, s\<lparr>errno := EINVAL\<rparr>)
       \<and> fd_set_wf (fold FD_SET (map (\<lambda>p. fd_lookup s (poll_fd p)) ps) [])
       \<and> set (fold FD_SET (map (\<lambda>p. fd_lookup s (poll_fd p)) ps) [])
           = (\<lambda>p. fd_lookup s (poll_fd p)) ` set ps"
proof -
  let ?xs = "map (\<lambda>p. fd_lookup s (poll_fd p)) ps"
  have mem: "fdset.members l = set l" for l by (simp add: fdset.members_def FD_ISSET_def)
  have wf: "fd_set_wf (fold FD_SET ?xs [])" by (rule fdset.inv_fold_ins [OF fdset.inv_empty])
  have "fdset.members (fold FD_SET ?xs []) = set ?xs \<union> fdset.members []"
  proof (rule fdset.members_fold_ins [OF fdset.inv_empty])
    fix t x assume *: "x \<in> set ?xs" "fd_set_wf t" "fdset.members t \<subseteq> fdset.members [] \<union> set ?xs"
    show "fd_set_room x t"
    proof (rule ccontr)
      assume no: "\<not> fd_set_room x t"
      then have "set t \<subset> set ?xs" using * by (auto simp: mem fd_set_room_def)
      then have "card (set t) < card (set ?xs)" by (intro psubset_card_mono) simp
      also have "\<dots> \<le> FD_SETSIZE" using assms card_length [of ?xs] by simp
      finally show False using * no by (simp add: fd_set_wf_def fd_set_room_def distinct_card)
    qed
  qed
  with wf show ?thesis using assms by (simp add: mem wpdk_poll_def wpdk_posix_error_def set_errno_def)
qed

theorem poll_refuses_full_array_witness:
  "fst (wpdk_poll demo_winsock (Some (replicate 64 \<lparr>poll_fd = 3, poll_events = 0, poll_revents = 0\<rparr>))
     64 0 demo_sock_sys) = - 1"
  using poll_refuses_full_array [of "replicate 64 \<lparr>poll_fd = 3, poll_events = 0, poll_revents = 0\<rparr>"
      demo_winsock 0 demo_sock_sys] by (simp add: errno_simps)

end
