(* ===== verification/Epoll.thy ===== *)
theory Epoll
  imports Poll_Select "HOL-Library.Multiset"
begin

unbundle bit_operations_syntax

text \<open>
  \<^verbatim>\<open>src/epoll.c\<close>: the table of epoll instances and the interest list of each of them. An instance is
  a block of its own that the table owns, so the table holds the blocks themselves. The arrays
  \<^verbatim>\<open>socket\<close> and \<^verbatim>\<open>event\<close> of an instance are functions on the indices below \<^verbatim>\<open>FD_SETSIZE\<close>; an access
  beyond that bound is a fault.
\<close>

section \<open>State\<close>

record epoll_event =
  ev_events :: int
  ev_data :: nat

record epoll =
  ep_flags :: int
  ep_start :: nat
  ep_maxcount :: nat
  ep_socket :: "nat \<Rightarrow> SOCKET"
  ep_event :: "nat \<Rightarrow> epoll_event"

record 'w epoll_sys = "'w sock_sys" +
  epoll_fds :: "(nat \<Rightarrow> epoll option) option"

definition maxepolls :: nat where [errno_simps]: "maxepolls = 512"
definition epollbase :: int where [errno_simps]: "epollbase = 0x20000"
definition EPOLL_CTL_ADD :: int where [errno_simps]: "EPOLL_CTL_ADD = 1"
definition EPOLL_CTL_DEL :: int where [errno_simps]: "EPOLL_CTL_DEL = 2"
definition EPOLLIN :: int where [errno_simps]: "EPOLLIN = 1"
definition EPOLLERR :: int where [errno_simps]: "EPOLLERR = 4"

section \<open>The table of instances\<close>

definition wpdk_is_epoll :: "int \<Rightarrow> bool" where
  "wpdk_is_epoll fd \<longleftrightarrow> epollbase \<le> fd \<and> fd < epollbase + int maxepolls"

definition epoll_index :: "int \<Rightarrow> nat" where
  "epoll_index fd = nat (fd - epollbase)"

text \<open>\<open>None\<close> is the result \<open>-1\<close>; otherwise the index and the instance that the table has there.\<close>

definition wpdk_get_epoll :: "int \<Rightarrow> ('w, 'z) epoll_sys_scheme \<Rightarrow> (nat \<times> epoll) option" where
  "wpdk_get_epoll fd s =
     (case epoll_fds s of
        None \<Rightarrow> None
      | Some tbl \<Rightarrow>
          if wpdk_is_epoll fd then map_option (Pair (epoll_index fd)) (tbl (epoll_index fd))
          else None)"

definition set_epoll :: "nat \<Rightarrow> epoll option \<Rightarrow> ('w, 'z) epoll_sys_scheme \<Rightarrow> ('w, 'z) epoll_sys_scheme" where
  "set_epoll eid ep s = s\<lparr>epoll_fds := map_option (\<lambda>tbl. tbl(eid := ep)) (epoll_fds s)\<rparr>"

definition new_epoll :: epoll where
  "new_epoll = \<lparr>ep_flags = 0, ep_start = 0, ep_maxcount = 0, ep_socket = (\<lambda>i. INVALID_SOCKET),
     ep_event = (\<lambda>i. \<lparr>ev_events = 0, ev_data = 0\<rparr>)\<rparr>"

definition ep_free :: "epoll option \<Rightarrow> bool" where
  "ep_free e \<longleftrightarrow> e = None"

definition wpdk_allocate_epoll ::
  "'w winsock \<Rightarrow> ('w, 'z) epoll_sys_scheme \<Rightarrow> int \<times> ('w, 'z) epoll_sys_scheme" where
  "wpdk_allocate_epoll ws s =
     (let (ok, s1) =
        (case epoll_fds s of
           Some _ \<Rightarrow> (True, s)
         | None \<Rightarrow>
             (let (ok, s0) = os_call (ws_calloc ws) s
              in (ok, if ok then s0\<lparr>epoll_fds := Some (\<lambda>i. None)\<rparr> else s0)))
      in if \<not> ok then wpdk_posix_error ENOMEM s1
         else
           (let (ok2, s2) = os_call (ws_calloc ws) s1
            in if \<not> ok2 then wpdk_posix_error ENOMEM s2
               else
                 (case epoll_fds s2 of
                    None \<Rightarrow> (- 1, set_fault s2)
                  | Some tbl \<Rightarrow>
                      (case slot_alloc ep_free maxepolls (Some new_epoll) tbl of
                         (Some i, tbl') \<Rightarrow> (epollbase + int i, s2\<lparr>epoll_fds := Some tbl'\<rparr>)
                       | (None, _) \<Rightarrow> wpdk_posix_error EMFILE s2))))"

text \<open>
  \<^verbatim>\<open>wpdk_epoll_create1\<close> tells failure from success by the value \<open>-1\<close>, and then writes the flags
  into the new instance.
\<close>

definition wpdk_epoll_create1 ::
  "'w winsock \<Rightarrow> int \<Rightarrow> ('w, 'z) epoll_sys_scheme \<Rightarrow> int \<times> ('w, 'z) epoll_sys_scheme" where
  "wpdk_epoll_create1 ws flags s =
     (let (eid, s1) = wpdk_allocate_epoll ws s
      in if eid = - 1 then (- 1, s1)
         else
           (case Option.bind (epoll_fds s1) (\<lambda>tbl. tbl (epoll_index eid)) of
              None \<Rightarrow> (- 1, set_fault s1)
            | Some ep \<Rightarrow> (eid, set_epoll (epoll_index eid) (Some (ep\<lparr>ep_flags := flags\<rparr>)) s1)))"

definition wpdk_close_epoll ::
  "int \<Rightarrow> ('w, 'z) epoll_sys_scheme \<Rightarrow> int \<times> ('w, 'z) epoll_sys_scheme" where
  "wpdk_close_epoll fd s =
     (case wpdk_get_epoll fd s of
        None \<Rightarrow> wpdk_posix_error EBADF s
      | Some (eid, ep) \<Rightarrow> (0, set_epoll eid None s))"

section \<open>Changing the interest list\<close>

text \<open>\<^verbatim>\<open>EPOLL_CTL_ADD\<close> and \<^verbatim>\<open>EPOLL_CTL_DEL\<close> on one instance: an error number, or the new instance.\<close>

definition epoll_add :: "SOCKET \<Rightarrow> epoll_event \<Rightarrow> epoll \<Rightarrow> int + epoll" where
  "epoll_add sk ev ep =
     (if scan (\<lambda>i. ep_socket ep i = sk) 0 (ep_maxcount ep) < ep_maxcount ep then Inl EEXIST
      else
        (let i = scan (\<lambda>i. ep_socket ep i = INVALID_SOCKET) 0 FD_SETSIZE
         in if FD_SETSIZE \<le> i then Inl ENOSPC
            else
              (let ep1 = (if ep_maxcount ep \<le> i then ep\<lparr>ep_maxcount := i + 1\<rparr> else ep)
               in Inr (ep1\<lparr>ep_socket := (ep_socket ep1)(i := sk),
                           ep_event := (ep_event ep1)(i := ev)\<rparr>))))"

definition epoll_del :: "SOCKET \<Rightarrow> epoll \<Rightarrow> int + epoll" where
  "epoll_del sk ep =
     (let i = scan (\<lambda>i. ep_socket ep i = sk) 0 (ep_maxcount ep)
      in if ep_maxcount ep \<le> i then Inl ENOENT
         else
           (let ep1 = (if i = ep_maxcount ep - 1 then ep\<lparr>ep_maxcount := ep_maxcount ep - 1\<rparr> else ep)
            in Inr (ep1\<lparr>ep_socket := (ep_socket ep1)(i := INVALID_SOCKET)\<rparr>)))"

definition epoll_update ::
  "nat \<Rightarrow> int + epoll \<Rightarrow> ('w, 'z) epoll_sys_scheme \<Rightarrow> int \<times> ('w, 'z) epoll_sys_scheme" where
  "epoll_update eid r s =
     (case r of Inl e \<Rightarrow> wpdk_posix_error e s | Inr ep \<Rightarrow> (0, set_epoll eid (Some ep) s))"

definition wpdk_epoll_ctl ::
  "int \<Rightarrow> int \<Rightarrow> int \<Rightarrow> epoll_event option \<Rightarrow> ('w, 'z) epoll_sys_scheme
    \<Rightarrow> int \<times> ('w, 'z) epoll_sys_scheme" where
  "wpdk_epoll_ctl epfd op fd event s =
     (let (sk, s1) = wpdk_get_socket fd s
      in case wpdk_get_epoll epfd s1 of
           None \<Rightarrow> wpdk_posix_error EBADF s1
         | Some (eid, ep) \<Rightarrow>
             if sk = INVALID_SOCKET then wpdk_posix_error EBADF s1
             else if op = EPOLL_CTL_ADD
             then
               (case event of
                  None \<Rightarrow> wpdk_posix_error EINVAL s1
                | Some ev \<Rightarrow> epoll_update eid (epoll_add sk ev ep) s1)
             else if op = EPOLL_CTL_DEL then epoll_update eid (epoll_del sk ep) s1
             else wpdk_posix_error EINVAL s1)"

section \<open>Waiting\<close>

text \<open>The first loop fills the sets; \<^verbatim>\<open>worktodo\<close> is set when one of them is not empty.\<close>

fun epoll_collect :: "epoll \<Rightarrow> nat list \<Rightarrow> SOCKET list \<times> SOCKET list \<times> bool \<Rightarrow> SOCKET list \<times> SOCKET list \<times> bool" where
  "epoll_collect ep [] acc = acc"
| "epoll_collect ep (i # is) (rd, ex, work) =
     (if ep_socket ep i = INVALID_SOCKET then epoll_collect ep is (rd, ex, work)
      else
        (let (rd', work') = (if ev_events (ep_event ep i) AND EPOLLIN \<noteq> 0
                             then (FD_SET (ep_socket ep i) rd, True) else (rd, work));
             (ex', work'') = (if ev_events (ep_event ep i) AND EPOLLERR \<noteq> 0
                              then (FD_SET (ep_socket ep i) ex, True) else (ex, work'))
         in epoll_collect ep is (rd', ex', work'')))"

text \<open>
  The two loops that report: from index \<open>i\<close> up to \<open>stop\<close>, while fewer than \<open>limit\<close> events (the
  smaller of \<^verbatim>\<open>maxevents\<close> and \<^verbatim>\<open>rc\<close>) have been written. \<open>None\<close> is an access beyond the arrays.
\<close>

definition ready_event :: "epoll \<Rightarrow> SOCKET list \<Rightarrow> SOCKET list \<Rightarrow> nat \<Rightarrow> epoll_event option" where
  "ready_event ep rd ex i =
     (if ep_socket ep i \<noteq> INVALID_SOCKET
         \<and> (FD_ISSET (ep_socket ep i) rd \<or> FD_ISSET (ep_socket ep i) ex)
      then Some \<lparr>ev_events = (if FD_ISSET (ep_socket ep i) rd then EPOLLIN else 0)
                              OR (if FD_ISSET (ep_socket ep i) ex then EPOLLERR else 0),
                 ev_data = ev_data (ep_event ep i)\<rparr>
      else None)"

function epoll_report ::
  "epoll \<Rightarrow> SOCKET list \<Rightarrow> SOCKET list \<Rightarrow> int \<Rightarrow> nat \<Rightarrow> nat \<Rightarrow> epoll_event list \<Rightarrow> epoll_event list option" where
  "epoll_report ep rd ex limit i stop out =
     (if i < stop \<and> int (length out) < limit
      then
        if FD_SETSIZE \<le> i then None
        else
          (case ready_event ep rd ex i of
             None \<Rightarrow> epoll_report ep rd ex limit (Suc i) stop out
           | Some ev \<Rightarrow> epoll_report ep rd ex limit (Suc i) stop (out @ [ev]))
      else Some out)"
  by pat_completeness auto
termination
  by (relation "measure (\<lambda>(ep, rd, ex, limit, i, stop, out). stop - i)") auto

declare epoll_report.simps [simp del]

text \<open>
  The caller's array has room for \<open>maxevents\<close> events; the result carries the events written to it.
\<close>

definition wpdk_epoll_wait ::
  "'w winsock \<Rightarrow> int \<Rightarrow> bool \<Rightarrow> int \<Rightarrow> int \<Rightarrow> ('w, 'z) epoll_sys_scheme
    \<Rightarrow> int \<times> epoll_event list \<times> ('w, 'z) epoll_sys_scheme" where
  "wpdk_epoll_wait ws epfd events maxevents timeout s =
     (case wpdk_get_epoll epfd s of
        None \<Rightarrow> (let (rc, s1) = wpdk_posix_error EBADF s in (rc, [], s1))
      | Some (eid, ep) \<Rightarrow>
          if timeout \<noteq> 0 \<or> \<not> events \<or> maxevents < 1
          then (let (rc, s1) = wpdk_posix_error EINVAL s in (rc, [], s1))
          else
            (let (rd, ex, work) = epoll_collect ep [0..<ep_maxcount ep] ([], [], False)
             in if \<not> work then (0, [], s)
                else
                  (let ((rc, rd', _, ex'), s1) =
                     os_call (ws_select ws (int (ep_maxcount ep)) (Some rd) None (Some ex) (Some (0, 0))) s
                   in if rc = SOCKET_ERROR
                      then (let (r, s2) = wpdk_last_wsa_error (ws_last_error ws) s1 in (r, [], s2))
                      else
                        (case Option.bind
                           (epoll_report ep (opt_list rd') (opt_list ex') (min maxevents rc)
                              (ep_start ep) (ep_maxcount ep) [])
                           (epoll_report ep (opt_list rd') (opt_list ex') (min maxevents rc)
                              0 (ep_start ep)) of
                           None \<Rightarrow> (- 1, [], set_fault s1)
                         | Some out \<Rightarrow>
                             (int (length out), out,
                              if int (length out) < rc
                              then set_epoll eid (Some (ep\<lparr>ep_start := Suc (ep_start ep)\<rparr>)) s1
                              else s1)))))"

section \<open>The table as a slot table\<close>

definition release_epoll :: "nat \<Rightarrow> (nat \<Rightarrow> epoll option) \<Rightarrow> nat \<Rightarrow> epoll option" where
  "release_epoll i tbl = (if i < maxepolls then tbl(i := None) else tbl)"

interpretation epoll_slots: slot_table "slot_alloc ep_free maxepolls" release_epoll
  "slot_entry ep_free maxepolls" maxepolls "\<lambda>x. \<not> ep_free x"
  using slot_alloc_slot_table [of ep_free "\<lambda>x. None" maxepolls]
  by (simp add: ep_free_def release_epoll_def [abs_def])

section \<open>The interest list\<close>

text \<open>
  An instance is well formed when all used elements lie below \<^verbatim>\<open>maxcount\<close> and no socket occurs
  twice. Then it represents a finite map from sockets to events.
\<close>

definition epoll_wf :: "epoll \<Rightarrow> bool" where
  "epoll_wf ep \<longleftrightarrow> ep_maxcount ep \<le> FD_SETSIZE
     \<and> (\<forall>i<FD_SETSIZE. ep_maxcount ep \<le> i \<longrightarrow> ep_socket ep i = INVALID_SOCKET)
     \<and> inj_on (ep_socket ep) {i. i < FD_SETSIZE \<and> ep_socket ep i \<noteq> INVALID_SOCKET}"

definition ep_interest :: "epoll \<Rightarrow> SOCKET \<Rightarrow> epoll_event option" where
  "ep_interest ep sk =
     (let i = scan (\<lambda>i. ep_socket ep i = sk) 0 (ep_maxcount ep)
      in if sk \<noteq> INVALID_SOCKET \<and> i < ep_maxcount ep then Some (ep_event ep i) else None)"

definition ep_used :: "epoll \<Rightarrow> nat set" where
  "ep_used ep = {i. i < FD_SETSIZE \<and> ep_socket ep i \<noteq> INVALID_SOCKET}"

lemma ep_used_maxcount: "epoll_wf ep \<Longrightarrow> ep_used ep \<subseteq> {..<ep_maxcount ep}"
  by (force simp: epoll_wf_def ep_used_def)

lemma scan_socket:
  assumes "epoll_wf ep" "i \<in> ep_used ep" "ep_socket ep i = sk"
  shows "scan (\<lambda>i. ep_socket ep i = sk) 0 (ep_maxcount ep) = i" "i < ep_maxcount ep"
proof -
  show i: "i < ep_maxcount ep" using assms ep_used_maxcount by auto
  show "scan (\<lambda>i. ep_socket ep i = sk) 0 (ep_maxcount ep) = i"
  proof (rule scan_unique [OF i])
    show "ep_socket ep i = sk" by fact
    fix k assume k: "k < ep_maxcount ep" "ep_socket ep k = sk"
    then have "k \<in> ep_used ep" using assms by (auto simp: ep_used_def epoll_wf_def)
    then show "k = i" using assms k by (auto simp: epoll_wf_def ep_used_def inj_on_def)
  qed
qed

lemma scan_socket_None:
  assumes "epoll_wf ep" "sk \<notin> ep_socket ep ` ep_used ep" "sk \<noteq> INVALID_SOCKET"
  shows "scan (\<lambda>i. ep_socket ep i = sk) 0 (ep_maxcount ep) = ep_maxcount ep"
  using assms by (auto simp: scan_full_iff ep_used_def epoll_wf_def)

lemma interest_Some:
  assumes "epoll_wf ep"
  shows "ep_interest ep sk = Some ev \<longleftrightarrow> (\<exists>i \<in> ep_used ep. ep_socket ep i = sk \<and> ep_event ep i = ev)"
proof (cases "sk \<in> ep_socket ep ` ep_used ep")
  case True
  then obtain i where i: "i \<in> ep_used ep" "ep_socket ep i = sk" by blast
  then have "sk \<noteq> INVALID_SOCKET" by (auto simp: ep_used_def)
  moreover have "j = i" if "j \<in> ep_used ep" "ep_socket ep j = sk" for j
    using scan_socket(1) [OF assms that] scan_socket(1) [OF assms i] by simp
  ultimately have "(\<exists>j \<in> ep_used ep. ep_socket ep j = sk \<and> ep_event ep j = ev) \<longleftrightarrow> ep_event ep i = ev"
    using i by blast
  then show ?thesis
    using scan_socket [OF assms i] \<open>sk \<noteq> INVALID_SOCKET\<close> by (simp add: ep_interest_def Let_def)
next
  case False
  then have "ep_interest ep sk = None"
    using scan_socket_None [OF assms False]
    by (cases "sk = INVALID_SOCKET") (simp_all add: ep_interest_def Let_def)
  then show ?thesis using False by auto
qed

lemma dom_interest: "epoll_wf ep \<Longrightarrow> dom (ep_interest ep) = ep_socket ep ` ep_used ep"
  by (auto simp: interest_Some; blast)

lemma card_interest: "epoll_wf ep \<Longrightarrow> card (dom (ep_interest ep)) = card (ep_used ep)"
  unfolding dom_interest by (rule card_image) (simp add: epoll_wf_def ep_used_def)

lemma ep_used_full: "card (ep_used ep) = FD_SETSIZE \<longleftrightarrow> (\<forall>i<FD_SETSIZE. ep_socket ep i \<noteq> INVALID_SOCKET)"
proof
  assume "card (ep_used ep) = FD_SETSIZE"
  then have "ep_used ep = {..<FD_SETSIZE}"
    by (intro card_subset_eq) (auto simp: ep_used_def)
  then show "\<forall>i<FD_SETSIZE. ep_socket ep i \<noteq> INVALID_SOCKET" by (auto simp: ep_used_def)
next
  assume "\<forall>i<FD_SETSIZE. ep_socket ep i \<noteq> INVALID_SOCKET"
  then have "ep_used ep = {..<FD_SETSIZE}" by (auto simp: ep_used_def)
  then show "card (ep_used ep) = FD_SETSIZE" by simp
qed

text \<open>The operations of the abstract interest map.\<close>

definition interest_add ::
  "SOCKET \<Rightarrow> epoll_event \<Rightarrow> (SOCKET \<rightharpoonup> epoll_event) \<Rightarrow> int + (SOCKET \<rightharpoonup> epoll_event)" where
  "interest_add sk ev m =
     (if sk \<in> dom m then Inl EEXIST
      else if card (dom m) = FD_SETSIZE then Inl ENOSPC else Inr (m(sk \<mapsto> ev)))"

definition interest_del ::
  "SOCKET \<Rightarrow> (SOCKET \<rightharpoonup> epoll_event) \<Rightarrow> int + (SOCKET \<rightharpoonup> epoll_event)" where
  "interest_del sk m = (if sk \<in> dom m then Inr (m(sk := None)) else Inl ENOENT)"

definition refines_interest :: "int + epoll \<Rightarrow> int + (SOCKET \<rightharpoonup> epoll_event) \<Rightarrow> bool" where
  "refines_interest r a \<longleftrightarrow>
     (case (r, a) of
        (Inl e, Inl e') \<Rightarrow> e = e'
      | (Inr ep, Inr m) \<Rightarrow> epoll_wf ep \<and> ep_interest ep = m
      | _ \<Rightarrow> False)"

lemma interest_eqI:
  assumes "epoll_wf ep"
    "\<And>sk ev. (\<exists>i \<in> ep_used ep. ep_socket ep i = sk \<and> ep_event ep i = ev) \<longleftrightarrow> m sk = Some ev"
  shows "ep_interest ep = m"
proof
  fix sk
  have eq: "ep_interest ep sk = Some ev \<longleftrightarrow> m sk = Some ev" for ev
    unfolding interest_Some [OF assms(1)] by (rule assms(2))
  show "ep_interest ep sk = m sk"
  proof (cases "m sk")
    case None
    then have "ep_interest ep sk \<noteq> Some ev" for ev using eq by simp
    then show ?thesis using None by (metis option.exhaust)
  next
    case (Some ev)
    then show ?thesis using eq by simp
  qed
qed

lemma epoll_add_refines:
  assumes "epoll_wf ep" "sk \<noteq> INVALID_SOCKET"
  shows "refines_interest (epoll_add sk ev ep) (interest_add sk ev (ep_interest ep))"
proof (cases "sk \<in> dom (ep_interest ep)")
  case True
  then obtain j where "j \<in> ep_used ep" "ep_socket ep j = sk" using dom_interest [OF assms(1)] by auto
  from scan_socket [OF assms(1) this] True show ?thesis
    by (simp add: epoll_add_def interest_add_def refines_interest_def)
next
  case absent: False
  then have out: "sk \<notin> ep_socket ep ` ep_used ep" using dom_interest [OF assms(1)] by auto
  note none = scan_socket_None [OF assms(1) out assms(2)]
  define i where "i = scan (\<lambda>i. ep_socket ep i = INVALID_SOCKET) 0 FD_SETSIZE"
  show ?thesis
  proof (cases "i < FD_SETSIZE")
    case False
    then have "\<forall>i<FD_SETSIZE. ep_socket ep i \<noteq> INVALID_SOCKET"
      using scan_lt_iff unfolding i_def by blast
    then have "card (dom (ep_interest ep)) = FD_SETSIZE"
      using card_interest [OF assms(1)] ep_used_full by simp
    then show ?thesis using absent False none
      by (simp add: epoll_add_def interest_add_def refines_interest_def i_def)
  next
    case True
    have hit: "ep_socket ep i = INVALID_SOCKET"
      using True scan_found unfolding i_def by fastforce
    define ep' where "ep' = ep\<lparr>ep_maxcount := (if ep_maxcount ep \<le> i then i + 1 else ep_maxcount ep),
      ep_socket := (ep_socket ep)(i := sk), ep_event := (ep_event ep)(i := ev)\<rparr>"
    have run: "epoll_add sk ev ep = Inr ep'"
      using True none by (simp add: epoll_add_def Let_def i_def [symmetric] ep'_def)
    have used: "ep_used ep' = insert i (ep_used ep)" "i \<notin> ep_used ep"
      using True assms(2) hit by (auto simp: ep_used_def ep'_def)
    have wf: "epoll_wf ep'"
    proof -
      have "inj_on (ep_socket ep') (insert i (ep_used ep))"
        using assms(1) out used(2)
        by (auto simp: epoll_wf_def ep_used_def ep'_def inj_on_def image_iff)
      then show ?thesis using assms(1) True used
        by (auto simp: epoll_wf_def ep_used_def ep'_def)
    qed
    moreover have "ep_interest ep' = (ep_interest ep)(sk \<mapsto> ev)"
    proof (rule interest_eqI [OF wf])
      fix sk' ev'
      have "(\<exists>j \<in> ep_used ep. ep_socket ep j = sk' \<and> ep_event ep j = ev')
          \<longleftrightarrow> (\<exists>j \<in> ep_used ep. ep_socket ep' j = sk' \<and> ep_event ep' j = ev')"
        using used(2) by (auto simp: ep'_def)
      then show "(\<exists>j \<in> ep_used ep'. ep_socket ep' j = sk' \<and> ep_event ep' j = ev')
          \<longleftrightarrow> ((ep_interest ep)(sk \<mapsto> ev)) sk' = Some ev'"
        using interest_Some [OF assms(1), of sk' ev'] out used by (auto simp: ep'_def)
    qed
    moreover have "card (dom (ep_interest ep)) \<noteq> FD_SETSIZE"
      using card_interest [OF assms(1)] ep_used_full [of ep] hit True by auto
    ultimately show ?thesis
      using absent run by (simp add: interest_add_def refines_interest_def)
  qed
qed

lemma epoll_del_refines:
  assumes "epoll_wf ep" "sk \<noteq> INVALID_SOCKET"
  shows "refines_interest (epoll_del sk ep) (interest_del sk (ep_interest ep))"
proof (cases "sk \<in> dom (ep_interest ep)")
  case False
  then have "sk \<notin> ep_socket ep ` ep_used ep" using dom_interest [OF assms(1)] by auto
  from scan_socket_None [OF assms(1) this assms(2)] False show ?thesis
    by (simp add: epoll_del_def interest_del_def refines_interest_def)
next
  case True
  then obtain i where i: "i \<in> ep_used ep" "ep_socket ep i = sk" using dom_interest [OF assms(1)] by auto
  note sc = scan_socket [OF assms(1) i]
  define ep' where "ep' = ep\<lparr>ep_maxcount := (if i = ep_maxcount ep - 1 then ep_maxcount ep - 1
      else ep_maxcount ep), ep_socket := (ep_socket ep)(i := INVALID_SOCKET)\<rparr>"
  have run: "epoll_del sk ep = Inr ep'"
    using sc by (simp add: epoll_del_def Let_def ep'_def)
  have used: "ep_used ep' = ep_used ep - {i}" by (auto simp: ep_used_def ep'_def)
  have wf: "epoll_wf ep'"
  proof -
    have "inj_on (ep_socket ep') (ep_used ep - {i})"
      using assms(1) by (auto simp: epoll_wf_def ep_used_def ep'_def inj_on_def)
    then have "inj_on (ep_socket ep') {j. j < FD_SETSIZE \<and> ep_socket ep' j \<noteq> INVALID_SOCKET}"
      using used by (simp add: ep_used_def)
    moreover have "\<forall>j<FD_SETSIZE. ep_maxcount ep' \<le> j \<longrightarrow> ep_socket ep' j = INVALID_SOCKET"
      using assms(1) by (auto simp: epoll_wf_def ep'_def)
    ultimately show ?thesis using assms(1) by (auto simp: epoll_wf_def ep'_def)
  qed
  moreover have "ep_interest ep' = (ep_interest ep)(sk := None)"
  proof (rule interest_eqI [OF wf])
    fix sk' ev'
    have "ep_socket ep j \<noteq> sk" if "j \<in> ep_used ep - {i}" for j
      using that scan_socket(1) [OF assms(1), of j sk] sc(1) by auto
    then show "(\<exists>j \<in> ep_used ep'. ep_socket ep' j = sk' \<and> ep_event ep' j = ev')
        \<longleftrightarrow> ((ep_interest ep)(sk := None)) sk' = Some ev'"
      using interest_Some [OF assms(1), of sk' ev'] i unfolding used by (auto simp: ep'_def)
  qed
  ultimately show ?thesis
    using True run by (simp add: interest_del_def refines_interest_def)
qed

lemma set_epoll_get:
  assumes "wpdk_get_epoll epfd s = Some (eid, ep)"
  shows "wpdk_get_epoll epfd (set_epoll eid (Some ep') s) = Some (eid, ep')"
    "wpdk_get_epoll epfd (set_epoll eid None s) = None"
    "epfd' \<noteq> epfd \<Longrightarrow> wpdk_get_epoll epfd' (set_epoll eid x s) = wpdk_get_epoll epfd' s"
proof -
  obtain tbl where t: "epoll_fds s = Some tbl" "wpdk_is_epoll epfd" "eid = epoll_index epfd"
    "tbl (epoll_index epfd) = Some ep"
    using assms by (auto simp: wpdk_get_epoll_def split: option.splits if_splits)
  then show "wpdk_get_epoll epfd (set_epoll eid (Some ep') s) = Some (eid, ep')"
    "wpdk_get_epoll epfd (set_epoll eid None s) = None"
    by (simp_all add: wpdk_get_epoll_def set_epoll_def)
  assume "epfd' \<noteq> epfd"
  then have "epoll_index epfd' \<noteq> epoll_index epfd" if "wpdk_is_epoll epfd'"
    using that t(2) by (auto simp: wpdk_is_epoll_def epoll_index_def)
  then show "wpdk_get_epoll epfd' (set_epoll eid x s) = wpdk_get_epoll epfd' s"
    using t by (simp add: wpdk_get_epoll_def set_epoll_def)
qed

section \<open>What a wait reports\<close>

definition ready_list :: "epoll \<Rightarrow> SOCKET list \<Rightarrow> SOCKET list \<Rightarrow> nat list \<Rightarrow> epoll_event list" where
  "ready_list ep rd ex is = List.map_filter (ready_event ep rd ex) is"

lemma ready_list_simps [simp]:
  "ready_list ep rd ex [] = []"
  "ready_list ep rd ex (i # is) =
     (case ready_event ep rd ex i of None \<Rightarrow> ready_list ep rd ex is
      | Some ev \<Rightarrow> ev # ready_list ep rd ex is)"
  "ready_list ep rd ex (is @ js) = ready_list ep rd ex is @ ready_list ep rd ex js"
  by (simp_all add: ready_list_def List.map_filter_def split: option.split)

lemma epoll_report_eq:
  "stop \<le> FD_SETSIZE \<Longrightarrow> epoll_report ep rd ex limit i stop out =
     Some (out @ take (nat limit - length out) (ready_list ep rd ex [i..<stop]))"
proof (induction ep rd ex limit i stop out rule: epoll_report.induct)
  case (1 ep rd ex limit i stop out)
  show ?case
  proof (cases "i < stop \<and> int (length out) < limit")
    case False
    then have "nat limit - length out = 0 \<or> [i..<stop] = []" by auto
    then show ?thesis
      using False by (subst epoll_report.simps) auto
  next
    case True
    then have "[i..<stop] = i # [Suc i..<stop]" by (simp add: upt_conv_Cons)
    moreover have "nat limit - length out = Suc (nat limit - Suc (length out))" using True by linarith
    moreover have "\<not> FD_SETSIZE \<le> i" using True "1.prems" by simp
    ultimately show ?thesis
      using True 1 by (subst epoll_report.simps) (cases "ready_event ep rd ex i"; simp)
  qed
qed

text \<open>The sockets whose interest includes some event.\<close>

definition interested :: "epoll \<Rightarrow> int \<Rightarrow> SOCKET set" where
  "interested ep m = {sk. \<exists>ev. ep_interest ep sk = Some ev \<and> ev_events ev AND m \<noteq> 0}"

definition asks_at :: "epoll \<Rightarrow> int \<Rightarrow> nat set \<Rightarrow> SOCKET set" where
  "asks_at ep m I = ep_socket ep ` {i \<in> I. ep_socket ep i \<noteq> INVALID_SOCKET
     \<and> ev_events (ep_event ep i) AND m \<noteq> 0}"

lemma asks_at_insert:
  "asks_at ep m (insert i I) =
     (if ep_socket ep i \<noteq> INVALID_SOCKET \<and> ev_events (ep_event ep i) AND m \<noteq> 0
      then {ep_socket ep i} else {}) \<union> asks_at ep m I"
  by (auto simp: asks_at_def)

lemma FD_SET_set: "length l < FD_SETSIZE \<Longrightarrow> set (FD_SET sk l) = insert sk (set l)"
  "length (FD_SET sk l) \<le> Suc (length l)"
  by (auto simp: FD_SET_def)

lemma epoll_collect_sets:
  assumes "epoll_collect ep is (rd0, ex0, w0) = (rd, ex, w)"
    "length rd0 + length is \<le> FD_SETSIZE" "length ex0 + length is \<le> FD_SETSIZE"
  shows "set rd = set rd0 \<union> asks_at ep EPOLLIN (set is)
    \<and> set ex = set ex0 \<union> asks_at ep EPOLLERR (set is)
    \<and> (w \<longleftrightarrow> w0 \<or> asks_at ep EPOLLIN (set is) \<noteq> {} \<or> asks_at ep EPOLLERR (set is) \<noteq> {})"
  using assms
proof (induction "is" arbitrary: rd0 ex0 w0)
  case Nil
  then show ?case by (simp add: asks_at_def)
next
  case (Cons i "is")
  define a where "a = (ev_events (ep_event ep i) AND EPOLLIN \<noteq> 0)"
  define b where "b = (ev_events (ep_event ep i) AND EPOLLERR \<noteq> 0)"
  let ?sk = "ep_socket ep i"
  have room: "length rd0 < FD_SETSIZE" "length ex0 < FD_SETSIZE" using Cons.prems by simp_all
  note len = FD_SET_set(2) [of ?sk rd0] FD_SET_set(2) [of ?sk ex0]
  show ?case
  proof (cases "?sk = INVALID_SOCKET")
    case True
    with Cons.prems have "epoll_collect ep is (rd0, ex0, w0) = (rd, ex, w)" by simp
    from Cons.IH [OF this] Cons.prems True show ?thesis by (simp add: asks_at_insert)
  next
    case False
    with Cons.prems(1) have "epoll_collect ep is (if a then FD_SET ?sk rd0 else rd0,
        if b then FD_SET ?sk ex0 else ex0, w0 \<or> a \<or> b) = (rd, ex, w)"
      by (auto simp: a_def [symmetric] b_def [symmetric] Let_def split: if_splits)
    from Cons.IH [OF this] Cons.prems(2,3) len False room show ?thesis
      by (simp add: asks_at_insert a_def [symmetric] b_def [symmetric] FD_SET_set(1) split: if_splits)
  qed
qed

lemma asks_at_interested:
  assumes "epoll_wf ep"
  shows "asks_at ep m {0..<ep_maxcount ep} = interested ep m"
proof -
  have "{i \<in> {0..<ep_maxcount ep}. ep_socket ep i \<noteq> INVALID_SOCKET} = ep_used ep"
    using ep_used_maxcount [OF assms] assms by (auto simp: ep_used_def epoll_wf_def)
  then have "asks_at ep m {0..<ep_maxcount ep}
      = ep_socket ep ` {i \<in> ep_used ep. ev_events (ep_event ep i) AND m \<noteq> 0}"
    by (auto simp: asks_at_def)
  then show ?thesis by (auto simp: interested_def interest_Some [OF assms])
qed

lemma epoll_collect_interested:
  assumes "epoll_wf ep" "epoll_collect ep [0..<ep_maxcount ep] ([], [], False) = (rd, ex, w)"
  shows "set rd = interested ep EPOLLIN" "set ex = interested ep EPOLLERR"
    "w \<longleftrightarrow> interested ep EPOLLIN \<noteq> {} \<or> interested ep EPOLLERR \<noteq> {}"
  using epoll_collect_sets [OF assms(2)] assms(1)
  by (simp_all add: epoll_wf_def asks_at_interested)

text \<open>The events that are due, in terms of the interest map.\<close>

definition due_event :: "SOCKET list \<Rightarrow> SOCKET list \<Rightarrow> (SOCKET \<rightharpoonup> epoll_event) \<Rightarrow> SOCKET \<Rightarrow> epoll_event" where
  "due_event rd ex m sk =
     \<lparr>ev_events = (if sk \<in> set rd then EPOLLIN else 0) OR (if sk \<in> set ex then EPOLLERR else 0),
      ev_data = ev_data (the (m sk))\<rparr>"

definition due_events :: "SOCKET list \<Rightarrow> SOCKET list \<Rightarrow> (SOCKET \<rightharpoonup> epoll_event) \<Rightarrow> epoll_event multiset" where
  "due_events rd ex m = image_mset (due_event rd ex m) (mset_set (dom m \<inter> (set rd \<union> set ex)))"

lemma mset_ready_list:
  assumes "epoll_wf ep"
  shows "mset (ready_list ep rd ex [0..<FD_SETSIZE]) = due_events rd ex (ep_interest ep)"
proof -
  let ?P = "\<lambda>i. ep_socket ep i \<noteq> INVALID_SOCKET \<and> (ep_socket ep i \<in> set rd \<or> ep_socket ep i \<in> set ex)"
  let ?R = "{i. i < FD_SETSIZE \<and> ?P i}"
  have R: "?R \<subseteq> ep_used ep" "ep_socket ep ` ?R = dom (ep_interest ep) \<inter> (set rd \<union> set ex)"
    unfolding dom_interest [OF assms] by (auto simp: ep_used_def)
  have ev: "ready_event ep rd ex i = (if ?P i then
      Some (due_event rd ex (ep_interest ep) (ep_socket ep i)) else None)" if "i < FD_SETSIZE" for i
  proof (cases "?P i")
    case True
    then have "ep_interest ep (ep_socket ep i) = Some (ep_event ep i)"
      using that interest_Some [OF assms] by (auto simp: ep_used_def)
    with True show ?thesis by (simp add: ready_event_def due_event_def FD_ISSET_def)
  qed (auto simp: ready_event_def FD_ISSET_def)
  have "ready_list ep rd ex [0..<FD_SETSIZE]
      = map (due_event rd ex (ep_interest ep) \<circ> ep_socket ep) (filter ?P [0..<FD_SETSIZE])"
  proof -
    have "ready_list ep rd ex is
      = map (due_event rd ex (ep_interest ep) \<circ> ep_socket ep) (filter ?P is)"
      if "set is \<subseteq> {0..<FD_SETSIZE}" for "is"
      using that by (induction "is") (auto simp: ev)
    then show ?thesis by simp
  qed
  also have "mset \<dots> = image_mset (due_event rd ex (ep_interest ep)) (image_mset (ep_socket ep) (mset_set ?R))"
    by (simp add: multiset.map_comp mset_filter mset_upt filter_mset_mset_set lessThan_atLeast0 [symmetric]
        Collect_conj_eq lessThan_def)
  also have "image_mset (ep_socket ep) (mset_set ?R) = mset_set (ep_socket ep ` ?R)"
    using R(1) assms by (intro image_mset_mset_set inj_on_subset [OF _ R(1)])
      (simp add: epoll_wf_def ep_used_def)
  finally show ?thesis by (simp add: due_events_def R(2))
qed

lemma ready_list_unused:
  assumes "epoll_wf ep" "ep_maxcount ep \<le> a"
  shows "ready_list ep rd ex [a..<FD_SETSIZE] = []"
proof -
  have "ready_list ep rd ex is = []" if "set is \<subseteq> {a..<FD_SETSIZE}" for "is"
    using that assms by (induction "is") (auto simp: ready_event_def epoll_wf_def)
  then show ?thesis by simp
qed

lemma ready_list_rotated:
  assumes "epoll_wf ep" "st \<le> FD_SETSIZE"
  shows "mset (ready_list ep rd ex [st..<ep_maxcount ep] @ ready_list ep rd ex [0..<st])
    = due_events rd ex (ep_interest ep)"
proof -
  have max: "ep_maxcount ep \<le> FD_SETSIZE" using assms(1) by (simp add: epoll_wf_def)
  have "ready_list ep rd ex [st..<FD_SETSIZE] = ready_list ep rd ex [st..<ep_maxcount ep]"
  proof (cases "st \<le> ep_maxcount ep")
    case True
    then have "[st..<FD_SETSIZE] = [st..<ep_maxcount ep] @ [ep_maxcount ep..<FD_SETSIZE]"
      using max by (metis le_add_diff_inverse upt_add_eq_append)
    then show ?thesis using ready_list_unused [OF assms(1)] by simp
  next
    case False
    then show ?thesis using ready_list_unused [OF assms(1), of st] by simp
  qed
  moreover have "[0..<FD_SETSIZE] = [0..<st] @ [st..<FD_SETSIZE]"
    using assms(2) by (metis le0 le_add_diff_inverse upt_add_eq_append)
  ultimately show ?thesis
    using mset_ready_list [OF assms(1), of rd ex] by (simp add: union_commute)
qed

lemma epoll_reports_eq:
  assumes "epoll_wf ep" "st \<le> FD_SETSIZE" "0 \<le> limit"
  shows "Option.bind (epoll_report ep rd ex limit st (ep_maxcount ep) [])
           (epoll_report ep rd ex limit 0 st)
    = Some (take (nat limit) (ready_list ep rd ex [st..<ep_maxcount ep] @ ready_list ep rd ex [0..<st]))"
proof -
  have "ep_maxcount ep \<le> FD_SETSIZE" using assms(1) by (simp add: epoll_wf_def)
  then show ?thesis using assms(2) by (simp add: epoll_report_eq min_def)
qed

lemma size_due_events: "size (due_events rd ex m) \<le> length rd + length ex"
proof -
  have "card (dom m \<inter> (set rd \<union> set ex)) \<le> card (set rd \<union> set ex)" by (intro card_mono) auto
  also have "\<dots> \<le> card (set rd) + card (set ex)" by (rule card_Un_le)
  also have "\<dots> \<le> length rd + length ex" by (intro add_mono card_length)
  finally show ?thesis by (simp add: due_events_def)
qed

section \<open>Properties\<close>

definition interest_ctl ::
  "int \<Rightarrow> SOCKET \<Rightarrow> epoll_event \<Rightarrow> (SOCKET \<rightharpoonup> epoll_event) \<Rightarrow> int + (SOCKET \<rightharpoonup> epoll_event)" where
  "interest_ctl op sk ev m =
     (if op = EPOLL_CTL_ADD then interest_add sk ev m
      else if op = EPOLL_CTL_DEL then interest_del sk m else Inl EINVAL)"

text \<open>
  C2. \<^verbatim>\<open>wpdk_epoll_ctl\<close> implements a finite map from sockets to events: adding fails exactly when
  the socket is there already (\<open>EEXIST\<close>) or \<open>FD_SETSIZE\<close> sockets are (\<open>ENOSPC\<close>), deleting exactly
  when it is not there (\<open>ENOENT\<close>), any other operation is invalid, and a failed call changes nothing.
\<close>

theorem epoll_ctl_refines_map:
  assumes "wpdk_get_epoll epfd s = Some (eid, ep)" "epoll_wf ep"
    and "fd_lookup s fd \<noteq> INVALID_SOCKET"
    and "wpdk_epoll_ctl epfd op fd (Some ev) s = (rc, s')"
  shows "case interest_ctl op (fd_lookup s fd) ev (ep_interest ep) of
           Inl e \<Rightarrow> rc = - 1 \<and> s' = s\<lparr>errno := e\<rparr>
         | Inr m \<Rightarrow> rc = 0 \<and> (\<exists>ep'. wpdk_get_epoll epfd s' = Some (eid, ep') \<and> epoll_wf ep'
                                    \<and> ep_interest ep' = m)"
proof -
  define r where "r = (if op = EPOLL_CTL_ADD then epoll_add (fd_lookup s fd) ev ep
    else if op = EPOLL_CTL_DEL then epoll_del (fd_lookup s fd) ep else Inl EINVAL)"
  have ref: "refines_interest r (interest_ctl op (fd_lookup s fd) ev (ep_interest ep))"
    using epoll_add_refines [OF assms(2,3)] epoll_del_refines [OF assms(2,3)]
    by (simp add: r_def interest_ctl_def refines_interest_def)
  have run: "(rc, s') = epoll_update eid r s"
    using assms
    by (cases "op = EPOLL_CTL_ADD"; cases "op = EPOLL_CTL_DEL")
      (simp_all add: wpdk_epoll_ctl_def wpdk_get_socket_def r_def epoll_update_def errno_simps)
  show ?thesis
  proof (cases r)
    case (Inl e)
    with ref have "interest_ctl op (fd_lookup s fd) ev (ep_interest ep) = Inl e"
      by (cases "interest_ctl op (fd_lookup s fd) ev (ep_interest ep)") (simp_all add: refines_interest_def)
    with Inl run show ?thesis by (simp add: epoll_update_def wpdk_posix_error_def set_errno_def)
  next
    case (Inr ep')
    with ref obtain m where "interest_ctl op (fd_lookup s fd) ev (ep_interest ep) = Inr m"
      "epoll_wf ep'" "ep_interest ep' = m"
      by (cases "interest_ctl op (fd_lookup s fd) ev (ep_interest ep)") (simp_all add: refines_interest_def)
    with Inr run set_epoll_get(1) [OF assms(1), of ep'] show ?thesis
      by (auto simp: epoll_update_def)
  qed
qed

definition demo_ep_event :: epoll_event where
  "demo_ep_event = \<lparr>ev_events = 5, ev_data = 42\<rparr>"

definition demo_epoll :: epoll where
  "demo_epoll = new_epoll\<lparr>ep_maxcount := 1, ep_socket := (\<lambda>i. INVALID_SOCKET)(0 := 7),
     ep_event := (\<lambda>i. \<lparr>ev_events = 0, ev_data = 0\<rparr>)(0 := demo_ep_event)\<rparr>"

definition demo_epoll_sys :: "epoll \<Rightarrow> (nat \<times> SOCKET list) epoll_sys" where
  "demo_epoll_sys ep = sock_sys.extend demo_sock_sys1 (epoll_sys.fields (Some ((\<lambda>i. None)(0 := Some ep))))"

lemma demo_epoll_get:
  "wpdk_get_epoll epollbase (demo_epoll_sys ep) = Some (0, ep)"
  "fd_lookup (demo_epoll_sys ep) socketbase = 7" "world (demo_epoll_sys ep) = (8, [7])"
  by (simp_all add: demo_epoll_sys_def demo_sock_sys1_eq wpdk_get_epoll_def wpdk_is_epoll_def
      epoll_index_def fd_lookup_def wpdk_is_socket_def socket_index_def errno_simps
      sock_sys.extend_def epoll_sys.fields_def)

lemma new_epoll_wf: "epoll_wf (new_epoll\<lparr>ep_flags := x\<rparr>)"
  "ep_interest (new_epoll\<lparr>ep_flags := x\<rparr>) = Map.empty"
  by (simp_all add: epoll_wf_def new_epoll_def ep_interest_def fun_eq_iff)

lemma demo_epoll_wf: "epoll_wf demo_epoll"
  by (auto simp: epoll_wf_def demo_epoll_def errno_simps inj_on_def new_epoll_def)

theorem epoll_ctl_refines_map_witness:
  "fst (wpdk_epoll_ctl epollbase EPOLL_CTL_ADD socketbase (Some demo_ep_event)
          (demo_epoll_sys (new_epoll\<lparr>ep_flags := 0\<rparr>))) = 0"
proof -
  let ?s = "demo_epoll_sys (new_epoll\<lparr>ep_flags := 0\<rparr>)"
  have "fd_lookup ?s socketbase \<noteq> INVALID_SOCKET"
    unfolding demo_epoll_get by (simp add: errno_simps)
  from epoll_ctl_refines_map [OF demo_epoll_get(1) new_epoll_wf(1) this prod.collapse [symmetric],
      of EPOLL_CTL_ADD demo_ep_event]
  show ?thesis unfolding new_epoll_wf(2)
    by (simp add: interest_ctl_def interest_add_def errno_simps)
qed



text \<open>
  An epoll descriptor that \<^verbatim>\<open>wpdk_epoll_create1\<close> returns was not in use and denotes a new
  instance with an empty interest map and the given flags; no other instance changes, and closing
  it frees it again.
\<close>

theorem epoll_create_fresh:
  assumes "wpdk_epoll_create1 ws flags s = (fd, s')" "fd \<noteq> - 1"
  shows "wpdk_get_epoll fd s = None
    \<and> (\<exists>eid ep. wpdk_get_epoll fd s' = Some (eid, ep) \<and> epoll_wf ep
           \<and> ep_interest ep = Map.empty \<and> ep_flags ep = flags)
    \<and> (\<forall>fd'. fd' \<noteq> fd \<longrightarrow> wpdk_get_epoll fd' s' = wpdk_get_epoll fd' s)
    \<and> fst (wpdk_close_epoll fd s') = 0
    \<and> wpdk_get_epoll fd (snd (wpdk_close_epoll fd s')) = None"
proof -
  define a where "a = wpdk_allocate_epoll ws s"
  define tbl where "tbl = (case epoll_fds s of Some t \<Rightarrow> t | None \<Rightarrow> (\<lambda>i. None))"
  have ok: "fst a \<noteq> - 1" using assms by (auto simp: wpdk_epoll_create1_def a_def split_beta Let_def split: if_splits)
  then obtain i tbl' where al: "slot_alloc ep_free maxepolls (Some new_epoll) tbl = (Some i, tbl')"
    "fst a = epollbase + int i" "epoll_fds (snd a) = Some tbl'"
    by (auto simp: a_def wpdk_allocate_epoll_def tbl_def Let_def split_beta os_call_eq
        split: option.splits prod.splits if_splits)
  note sl = slot_alloc_Some [OF al(1)]
  have idx: "wpdk_is_epoll (epollbase + int i)" "epoll_index (epollbase + int i) = i"
    using sl(1) by (simp_all add: wpdk_is_epoll_def epoll_index_def)
  have run: "fd = epollbase + int i"
    "s' = set_epoll i (Some (new_epoll\<lparr>ep_flags := flags\<rparr>)) (snd a)"
    using assms al ok idx sl(3)
    by (auto simp: wpdk_epoll_create1_def a_def [symmetric] split_beta Let_def)
  have get: "wpdk_get_epoll fd' s = (if wpdk_is_epoll fd'
      then map_option (Pair (epoll_index fd')) (tbl (epoll_index fd')) else None)" for fd'
    by (simp add: wpdk_get_epoll_def tbl_def split: option.split)
  have get': "wpdk_get_epoll fd' s' = (if wpdk_is_epoll fd'
      then map_option (Pair (epoll_index fd'))
        ((tbl(i := Some (new_epoll\<lparr>ep_flags := flags\<rparr>))) (epoll_index fd')) else None)" for fd'
    using al(3) sl(3) by (simp add: wpdk_get_epoll_def run set_epoll_def)
  have new: "wpdk_get_epoll fd s' = Some (i, new_epoll\<lparr>ep_flags := flags\<rparr>)"
    using get' [of fd] run idx by simp
  have other: "wpdk_get_epoll fd' s' = wpdk_get_epoll fd' s" if "fd' \<noteq> fd" for fd'
  proof -
    have "epoll_index fd' \<noteq> i" if "wpdk_is_epoll fd'"
      using that \<open>fd' \<noteq> fd\<close> run(1) by (auto simp: wpdk_is_epoll_def epoll_index_def)
    then show ?thesis using get get' by simp
  qed
  have "wpdk_get_epoll fd s = None" using get [of fd] run idx sl(2) by (simp add: ep_free_def)
  moreover have "fst (wpdk_close_epoll fd s') = 0" "wpdk_get_epoll fd (snd (wpdk_close_epoll fd s')) = None"
    using set_epoll_get(2) [OF new] new by (simp_all add: wpdk_close_epoll_def)
  moreover have "ep_flags (new_epoll\<lparr>ep_flags := flags\<rparr>) = flags" by simp
  ultimately show ?thesis using new new_epoll_wf [of flags] other by blast
qed

theorem epoll_create_fresh_witness:
  "wpdk_get_epoll (epollbase + 1) (demo_epoll_sys demo_epoll) = None
   \<and> (\<exists>eid ep. wpdk_get_epoll (epollbase + 1)
        (snd (wpdk_epoll_create1 demo_winsock 3 (demo_epoll_sys demo_epoll))) = Some (eid, ep)
        \<and> ep_flags ep = 3)"
proof -
  have "fst (wpdk_epoll_create1 demo_winsock 3 (demo_epoll_sys demo_epoll)) = epollbase + 1"
    by (simp add: wpdk_epoll_create1_def wpdk_allocate_epoll_def demo_epoll_sys_def os_call_eq
        demo_winsock_def slot_alloc_def scan_step ep_free_def Let_def errno_simps epoll_index_def
        demo_sock_sys1_eq sock_sys.extend_def epoll_sys.fields_def)
  then have "wpdk_epoll_create1 demo_winsock 3 (demo_epoll_sys demo_epoll)
      = (epollbase + 1, snd (wpdk_epoll_create1 demo_winsock 3 (demo_epoll_sys demo_epoll)))"
    by (simp add: prod_eq_iff)
  from epoll_create_fresh [OF this] show ?thesis by (auto simp: errno_simps)
qed

text \<open>
  When the reports stop early, because there are fewer ready sockets than \<^verbatim>\<open>rc\<close> counts, and
  \<^verbatim>\<open>start\<close> has passed the end of the arrays, the second loop runs off them.
\<close>

lemma epoll_report_overrun:
  "FD_SETSIZE < stop \<Longrightarrow> i \<le> FD_SETSIZE \<Longrightarrow>
   int (length out + length (ready_list ep rd ex [i..<FD_SETSIZE])) < limit \<Longrightarrow>
   epoll_report ep rd ex limit i stop out = None"
proof (induction ep rd ex limit i stop out rule: epoll_report.induct)
  case (1 ep rd ex limit i stop out)
  show ?case
  proof (cases "i < FD_SETSIZE")
    case False
    with "1.prems" show ?thesis by (subst epoll_report.simps) simp
  next
    case True
    then have up: "[i..<FD_SETSIZE] = i # [Suc i..<FD_SETSIZE]" by (simp add: upt_conv_Cons)
    have c: "i < stop \<and> int (length out) < limit" "\<not> FD_SETSIZE \<le> i" using "1.prems" True by auto
    show ?thesis
    proof (cases "ready_event ep rd ex i")
      case None
      then show ?thesis using "1.IH"(1) [OF c None] "1.prems" True c up
        by (subst epoll_report.simps) simp
    next
      case (Some ev)
      then show ?thesis using "1.IH"(2) [OF c Some] "1.prems" True c up
        by (subst epoll_report.simps) simp
    qed
  qed
qed

definition wait_again :: "'w winsock \<Rightarrow> int \<Rightarrow> int \<Rightarrow> ('w, 'z) epoll_sys_scheme \<Rightarrow> ('w, 'z) epoll_sys_scheme" where
  "wait_again ws epfd maxevents s = snd (snd (wpdk_epoll_wait ws epfd True maxevents 0 s))"

text \<open>One wait on an instance for which \<^verbatim>\<open>rc\<close> exceeds both the ready sockets and nothing else.\<close>

lemma wait_again_step:
  assumes "wpdk_get_epoll epfd s = Some (eid, ep)" "epoll_wf ep" "1 \<le> maxevents"
    and "epoll_collect ep [0..<ep_maxcount ep] ([], [], False) = (rd, ex, True)"
    and "ws_select ws (int (ep_maxcount ep)) (Some rd) None (Some ex) (Some (0, 0)) (world s)
           = ((rc, Some rd', None, Some ex'), world s)"
    and "int (size (due_events rd' ex' (ep_interest ep))) < min maxevents rc"
  shows "ep_start ep \<le> FD_SETSIZE \<Longrightarrow>
      wpdk_get_epoll epfd (wait_again ws epfd maxevents s) = Some (eid, ep\<lparr>ep_start := Suc (ep_start ep)\<rparr>)
    \<and> world (wait_again ws epfd maxevents s) = world s \<and> fault (wait_again ws epfd maxevents s) = fault s"
    and "FD_SETSIZE < ep_start ep \<Longrightarrow> fault (wait_again ws epfd maxevents s)"
proof -
  let ?r = "\<lambda>i stop. epoll_report ep rd' ex' (min maxevents rc) i stop"
  have rc: "rc \<noteq> SOCKET_ERROR" "0 \<le> min maxevents rc" using assms(3,6) by (auto simp: errno_simps)
  show "wpdk_get_epoll epfd (wait_again ws epfd maxevents s) = Some (eid, ep\<lparr>ep_start := Suc (ep_start ep)\<rparr>)
    \<and> world (wait_again ws epfd maxevents s) = world s \<and> fault (wait_again ws epfd maxevents s) = fault s"
    if st: "ep_start ep \<le> FD_SETSIZE"
  proof -
    let ?all = "ready_list ep rd' ex' [ep_start ep..<ep_maxcount ep] @ ready_list ep rd' ex' [0..<ep_start ep]"
    have "length ?all = size (due_events rd' ex' (ep_interest ep))"
      using arg_cong [OF ready_list_rotated [OF assms(2) st, of rd' ex'], of size] by simp
    then have short: "int (length ?all) < min maxevents rc" using assms(6) by simp
    then have "length ?all \<le> nat (min maxevents rc)" by linarith
    then have "Option.bind (?r (ep_start ep) (ep_maxcount ep) []) (?r 0 (ep_start ep)) = Some ?all"
      using epoll_reports_eq [OF assms(2) st rc(2), of rd' ex'] by (simp only: take_all)
    then have "wait_again ws epfd maxevents s
        = set_epoll eid (Some (ep\<lparr>ep_start := Suc (ep_start ep)\<rparr>)) (s\<lparr>world := world s\<rparr>)"
      using assms(1,3,4,5) rc short
      by (simp add: wait_again_def wpdk_epoll_wait_def os_call_eq opt_list_def)
    then show ?thesis
      using set_epoll_get(1) [OF assms(1)] by (simp add: set_epoll_def)
  qed
  show "fault (wait_again ws epfd maxevents s)" if st: "FD_SETSIZE < ep_start ep"
  proof -
    have max: "ep_maxcount ep \<le> FD_SETSIZE" using assms(2) by (simp add: epoll_wf_def)
    then have "?r (ep_start ep) (ep_maxcount ep) [] = Some []" using st by (simp add: epoll_report_eq)
    moreover have "?r 0 (ep_start ep) [] = None"
      using assms(6) arg_cong [OF mset_ready_list [OF assms(2), of rd' ex'], of size]
      by (intro epoll_report_overrun [OF st]) simp_all
    ultimately show ?thesis
      using assms(1,3,4,5) rc
      by (simp add: wait_again_def wpdk_epoll_wait_def os_call_eq opt_list_def set_fault_def)
  qed
qed

lemma epoll_start_frame [simp]:
  "epoll_wf (ep\<lparr>ep_start := n\<rparr>) = epoll_wf ep" "ep_interest (ep\<lparr>ep_start := n\<rparr>) = ep_interest ep"
  by (simp_all add: epoll_wf_def ep_interest_def fun_eq_iff Let_def)

lemma epoll_collect_start [simp]:
  "epoll_collect (ep\<lparr>ep_start := n\<rparr>) is acc = epoll_collect ep is acc"
proof (induction "is" arbitrary: acc)
  case (Cons i "is")
  obtain rd ex w where acc: "acc = (rd, ex, w)" by (metis prod.collapse)
  show ?case unfolding acc using Cons
    by (cases "ep_socket ep i = INVALID_SOCKET"; cases "ev_events (ep_event ep i) AND EPOLLIN = 0";
        cases "ev_events (ep_event ep i) AND EPOLLERR = 0") simp_all
qed simp

text \<open>
  \<^verbatim>\<open>start\<close> is incremented without bound. While a wait has room for more events than there are
  ready sockets, and \<^verbatim>\<open>select\<close> counts a socket both as readable and as exceptional, every wait
  increments it; the wait after \<open>FD_SETSIZE + 1\<close> such waits reads beyond the arrays of the
  instance, and none before it does.
\<close>

theorem epoll_wait_overrun:
  assumes "wpdk_get_epoll epfd s = Some (eid, ep)" "epoll_wf ep" "ep_start ep = 0" "\<not> fault s"
    and "1 \<le> maxevents" "epoll_collect ep [0..<ep_maxcount ep] ([], [], False) = (rd, ex, True)"
    and "ws_select ws (int (ep_maxcount ep)) (Some rd) None (Some ex) (Some (0, 0)) (world s)
           = ((rc, Some rd', None, Some ex'), world s)"
    and "int (size (due_events rd' ex' (ep_interest ep))) < min maxevents rc"
  shows "\<not> fault ((wait_again ws epfd maxevents ^^ (FD_SETSIZE + 1)) s)
       \<and> fault ((wait_again ws epfd maxevents ^^ (FD_SETSIZE + 2)) s)"
proof -
  let ?w = "wait_again ws epfd maxevents"
  have inv: "wpdk_get_epoll epfd ((?w ^^ n) s) = Some (eid, ep\<lparr>ep_start := n\<rparr>)
      \<and> world ((?w ^^ n) s) = world s \<and> \<not> fault ((?w ^^ n) s)" if "n \<le> FD_SETSIZE + 1" for n
    using that
  proof (induction n)
    case 0
    have "ep\<lparr>ep_start := 0\<rparr> = ep" using assms(3) by simp
    then show ?case using assms(1,4) by simp
  next
    case (Suc n)
    then have IH: "wpdk_get_epoll epfd ((?w ^^ n) s) = Some (eid, ep\<lparr>ep_start := n\<rparr>)"
      "world ((?w ^^ n) s) = world s" "\<not> fault ((?w ^^ n) s)" by simp_all
    show ?case
      using wait_again_step(1) [OF IH(1) _ assms(5), of rd ex ws rc rd' ex'] assms(2,6,7,8) IH Suc.prems
      by simp
  qed
  have "fault (?w ((?w ^^ (FD_SETSIZE + 1)) s))"
    using wait_again_step(2) [OF conjunct1 [OF inv] _ assms(5), of "FD_SETSIZE + 1" rd ex ws rc rd' ex']
      inv [of "FD_SETSIZE + 1"] assms(2,6,7,8) by simp
  then show ?thesis using inv [of "FD_SETSIZE + 1"] by simp
qed

theorem epoll_wait_overrun_witness:
  "fault ((wait_again demo_winsock epollbase 2 ^^ (FD_SETSIZE + 2)) (demo_epoll_sys demo_epoll))"
proof -
  have interest: "ep_interest demo_epoll = [7 \<mapsto> demo_ep_event]"
    by (auto simp: ep_interest_def demo_epoll_def Let_def fun_eq_iff errno_simps new_epoll_def scan_step)
  have col: "epoll_collect demo_epoll [0..<ep_maxcount demo_epoll] ([], [], False) = ([7], [7], True)"
    by (simp add: demo_epoll_def new_epoll_def demo_ep_event_def errno_simps FD_SET_def)
  have sel: "ws_select demo_winsock (int (ep_maxcount demo_epoll)) (Some [7]) None (Some [7]) (Some (0, 0))
      (world (demo_epoll_sys demo_epoll)) = ((2, Some [7], None, Some [7]), world (demo_epoll_sys demo_epoll))"
    unfolding demo_epoll_get by (simp add: demo_winsock_def opt_list_def)
  have st: "ep_start demo_epoll = 0" "\<not> fault (demo_epoll_sys demo_epoll)"
    by (simp_all add: demo_epoll_def new_epoll_def demo_epoll_sys_def demo_sock_sys1_eq
        sock_sys.extend_def epoll_sys.fields_def)
  show ?thesis
    using epoll_wait_overrun [OF demo_epoll_get(1) demo_epoll_wf st _ col sel, of 2]
    by (simp add: interest due_events_def)
qed

end
