(* ===== verification/Threads.thy ===== *)
theory Threads
  imports Error_Map Slot_Table
begin

text \<open>
  \<^verbatim>\<open>src/pthread.c\<close>, the thread table: creation, start, termination, joining and detaching of threads.

  The control blocks (\<^verbatim>\<open>struct thread\<close>) live in an explicit heap, because the code hands them from
  the creator to the new thread and lets either of them free them; a dereferenced or freed pointer
  to a block that does not exist is a fault. The table \<^verbatim>\<open>wpdk_threads\<close> holds addresses. The functions
  below are the critical sections of the code, each under \<^verbatim>\<open>wpdk_threads_lock\<close>, together with what
  the caller does to a block that it has just taken out of the table.
\<close>

section \<open>State\<close>

type_synonym addr = nat

text \<open>A handle, a routine and an argument are opaque; \<open>0\<close> is NULL.\<close>

record thread =
  th_id :: nat
  th_h :: nat
  th_start :: nat
  th_arg :: nat
  th_result :: nat
  th_index :: int

record 'w thr_sys = "'w sys" +
  th_heap :: "addr \<rightharpoonup> thread"
  th_table :: "(nat \<Rightarrow> addr option) option"
  hwmthreads :: nat

definition maxthreads :: nat where [errno_simps]: "maxthreads = 8192"

definition zero_thread :: thread where
  "zero_thread = \<lparr>th_id = 0, th_h = 0, th_start = 0, th_arg = 0, th_result = 0, th_index = 0\<rparr>"

datatype wait_result = WAIT_OBJECT_0 | WAIT_IO_COMPLETION | WAIT_ABANDONED | WAIT_FAILED

text \<open>
  \<^verbatim>\<open>calloc\<close> for the table and for a block, \<^verbatim>\<open>_beginthreadex\<close> (its handle, the thread identifier and
  the \<^verbatim>\<open>errno\<close> that it sets when the handle is \<open>0\<close>), \<^verbatim>\<open>ResumeThread\<close>, \<^verbatim>\<open>CloseHandle\<close>,
  \<^verbatim>\<open>GetCurrentThreadId\<close>, \<^verbatim>\<open>WaitForSingleObjectEx\<close> and \<^verbatim>\<open>GetLastError\<close>.
\<close>

record 'w thr_api =
  ta_calloc_table :: "'w \<Rightarrow> bool \<times> 'w"
  ta_calloc :: "'w \<Rightarrow> addr option \<times> 'w"
  ta_begin :: "nat \<Rightarrow> addr \<Rightarrow> 'w \<Rightarrow> (nat \<times> nat \<times> int) \<times> 'w"
  ta_resume :: "nat \<Rightarrow> 'w \<Rightarrow> 'w"
  ta_close :: "nat \<Rightarrow> 'w \<Rightarrow> 'w"
  ta_self :: "'w \<Rightarrow> nat"
  ta_wait :: "nat \<Rightarrow> 'w \<Rightarrow> wait_result \<times> 'w"
  ta_last_error :: "'w \<Rightarrow> win_error"

text \<open>Accesses through a pointer.\<close>

definition write_block ::
  "addr \<Rightarrow> (thread \<Rightarrow> thread) \<Rightarrow> ('w, 'z) thr_sys_scheme \<Rightarrow> ('w, 'z) thr_sys_scheme" where
  "write_block a f s =
     (case th_heap s a of
        None \<Rightarrow> set_fault s
      | Some t \<Rightarrow> s\<lparr>th_heap := (th_heap s)(a \<mapsto> f t)\<rparr>)"

definition free_block :: "addr \<Rightarrow> ('w, 'z) thr_sys_scheme \<Rightarrow> ('w, 'z) thr_sys_scheme" where
  "free_block a s =
     (if th_heap s a = None then set_fault s else s\<lparr>th_heap := (th_heap s)(a := None)\<rparr>)"

section \<open>The critical sections\<close>

definition slot_null :: "addr option \<Rightarrow> bool" where
  "slot_null x \<longleftrightarrow> x = None"

definition wpdk_allocate_thread ::
  "'w thr_api \<Rightarrow> ('w, 'z) thr_sys_scheme \<Rightarrow> addr option \<times> ('w, 'z) thr_sys_scheme" where
  "wpdk_allocate_thread api s =
     (let s1 = (case th_table s of
                  Some _ \<Rightarrow> s
                | None \<Rightarrow>
                    (let (ok, s0) = os_call (ta_calloc_table api) s
                     in if ok then s0\<lparr>th_table := Some (\<lambda>i. None)\<rparr> else s0))
      in case th_table s1 of
           None \<Rightarrow> (None, set_errno ENOMEM s1)
         | Some tbl \<Rightarrow>
             (case os_call (ta_calloc api) s1 of
                (None, s2) \<Rightarrow> (None, set_errno ENOMEM s2)
              | (Some a, s2) \<Rightarrow>
                  (case slot_alloc slot_null maxthreads (Some a) tbl of
                     (Some i, tbl') \<Rightarrow>
                       (Some a,
                        s2\<lparr>th_heap := (th_heap s2)(a \<mapsto> zero_thread\<lparr>th_index := int i\<rparr>),
                           th_table := Some tbl',
                           hwmthreads := (if hwmthreads s2 \<le> i then i + 1 else hwmthreads s2)\<rparr>)
                   | (None, _) \<Rightarrow>
                       (None, free_block a (set_errno EMFILE
                          (s2\<lparr>th_heap := (th_heap s2)(a \<mapsto> zero_thread)\<rparr>))))))"

definition clear_slot :: "int \<Rightarrow> ('w, 'z) thr_sys_scheme \<Rightarrow> ('w, 'z) thr_sys_scheme" where
  "clear_slot i s =
     (case th_table s of
        Some tbl \<Rightarrow>
          if 0 \<le> i \<and> i < int maxthreads then s\<lparr>th_table := Some (tbl(nat i := None))\<rparr>
          else set_fault s
      | None \<Rightarrow> set_fault s)"

definition wpdk_set_thread_info ::
  "addr \<Rightarrow> nat \<Rightarrow> nat \<Rightarrow> bool \<Rightarrow> ('w, 'z) thr_sys_scheme \<Rightarrow> ('w, 'z) thr_sys_scheme" where
  "wpdk_set_thread_info a i h detached s =
     (case th_heap s a of
        None \<Rightarrow> set_fault s
      | Some t \<Rightarrow>
          (let h' = (if detached then 0 else h);
               s1 = write_block a (\<lambda>t. t\<lparr>th_id := i, th_h := h'\<rparr>) s;
               s2 = (if h' = 0
                     then write_block a (\<lambda>t. t\<lparr>th_index := - 1\<rparr>) (clear_slot (th_index t) s1)
                     else s1)
           in if h = 0 then free_block a s2 else s2))"

text \<open>
  The scan of the table for an identifier. A dangling pointer in the table stops the scan, and its
  dereference is a fault.
\<close>

definition slot_matches :: "(addr \<rightharpoonup> thread) \<Rightarrow> (nat \<Rightarrow> addr option) \<Rightarrow> nat \<Rightarrow> nat \<Rightarrow> bool" where
  "slot_matches heap tbl tid k =
     (case tbl k of
        None \<Rightarrow> False
      | Some a \<Rightarrow> (case heap a of None \<Rightarrow> True | Some t \<Rightarrow> th_id t = tid))"

definition slot_block ::
  "nat \<Rightarrow> nat \<Rightarrow> ('w, 'z) thr_sys_scheme \<Rightarrow> (addr \<times> thread) option \<times> ('w, 'z) thr_sys_scheme" where
  "slot_block tid k s =
     (case th_table s of
        None \<Rightarrow> (None, s)
      | Some tbl \<Rightarrow>
          (case tbl k of
             None \<Rightarrow> (None, s)
           | Some a \<Rightarrow>
               (case th_heap s a of
                  None \<Rightarrow> (None, set_fault s)
                | Some t \<Rightarrow> (if th_id t = tid then Some (a, t) else None, s))))"

definition find_index :: "nat \<Rightarrow> int \<Rightarrow> ('w, 'z) thr_sys_scheme \<Rightarrow> int" where
  "find_index tid i s =
     (case th_table s of
        None \<Rightarrow> i
      | Some tbl \<Rightarrow>
          if i = - 1 then int (scan (slot_matches (th_heap s) tbl tid) 0 (hwmthreads s)) else i)"

definition find_thread ::
  "nat \<Rightarrow> int \<Rightarrow> ('w, 'z) thr_sys_scheme \<Rightarrow> (addr \<times> thread) option \<times> ('w, 'z) thr_sys_scheme" where
  "find_thread tid i s =
     (let k = find_index tid i s
      in if 0 \<le> k \<and> k < int maxthreads then slot_block tid (nat k) s else (None, s))"

definition wpdk_get_thread_info ::
  "nat \<Rightarrow> ('w, 'z) thr_sys_scheme \<Rightarrow> (nat \<times> nat) option \<times> ('w, 'z) thr_sys_scheme" where
  "wpdk_get_thread_info tid s =
     (case th_table s of
        None \<Rightarrow> (None, s)
      | Some tbl \<Rightarrow>
          (let k = scan (slot_matches (th_heap s) tbl tid) 0 (hwmthreads s)
           in if k < hwmthreads s
              then (let (r, s1) = slot_block tid k s in (map_option (\<lambda>(a, t). (th_h t, k)) r, s1))
              else (None, s)))"

text \<open>The new thread takes a copy of its block; \<open>None\<close> after a fault.\<close>

definition wpdk_thread_starting ::
  "addr \<Rightarrow> ('w, 'z) thr_sys_scheme \<Rightarrow> thread option \<times> ('w, 'z) thr_sys_scheme" where
  "wpdk_thread_starting a s =
     (case th_heap s a of
        None \<Rightarrow> (None, set_fault s)
      | Some info \<Rightarrow>
          (let s1 = write_block a (\<lambda>t. t\<lparr>th_start := 0\<rparr>) s
           in (Some info, if th_index info = - 1 then free_block a s1 else s1)))"

definition wpdk_thread_done ::
  "nat \<Rightarrow> int \<Rightarrow> nat \<Rightarrow> ('w, 'z) thr_sys_scheme \<Rightarrow> ('w, 'z) thr_sys_scheme" where
  "wpdk_thread_done tid index result s =
     (case find_thread tid index s of
        (None, s1) \<Rightarrow> s1
      | (Some (a, t), s1) \<Rightarrow> write_block a (\<lambda>t. t\<lparr>th_result := result\<rparr>) s1)"

text \<open>The result is \<open>None\<close> when there is no such thread, otherwise the value that it has left.\<close>

definition wpdk_detach_thread ::
  "'w thr_api \<Rightarrow> nat \<Rightarrow> int \<Rightarrow> ('w, 'z) thr_sys_scheme \<Rightarrow> nat option \<times> ('w, 'z) thr_sys_scheme" where
  "wpdk_detach_thread api tid index s =
     (case find_thread tid index s of
        (None, s1) \<Rightarrow> (None, s1)
      | (Some (a, t), s1) \<Rightarrow>
          (let s2 = clear_slot (find_index tid index s)
                      (write_block a (\<lambda>t. t\<lparr>th_index := - 1\<rparr>) s1);
               s3 = (if th_h t \<noteq> 0 then s2\<lparr>world := ta_close api (th_h t) (world s2)\<rparr> else s2)
           in (Some (th_result t), if th_start t = 0 then free_block a s3 else s3)))"

section \<open>The interface\<close>

definition PTHREAD_CREATE_JOINABLE :: int where [errno_simps]: "PTHREAD_CREATE_JOINABLE = 0"
definition PTHREAD_CREATE_DETACHED :: int where [errno_simps]: "PTHREAD_CREATE_DETACHED = 1"

record pthread_attr =
  at_detachstate :: int
  at_stacksize :: nat

definition wpdk_pthread_self :: "'w thr_api \<Rightarrow> ('w, 'z) thr_sys_scheme \<Rightarrow> nat" where
  "wpdk_pthread_self api s = ta_self api (world s)"

text \<open>
  The entry point of a new thread. \<open>run f x\<close> is the call of the routine \<open>f\<close> on \<open>x\<close>: its result,
  and the state in which it returns; \<open>tid\<close> is what \<^verbatim>\<open>GetCurrentThreadId\<close> returns in the thread.
\<close>

definition wpdk_start_thread ::
  "(nat \<Rightarrow> nat \<Rightarrow> ('w, 'z) thr_sys_scheme \<Rightarrow> nat \<times> ('w, 'z) thr_sys_scheme) \<Rightarrow> nat \<Rightarrow> addr
    \<Rightarrow> ('w, 'z) thr_sys_scheme \<Rightarrow> ('w, 'z) thr_sys_scheme" where
  "wpdk_start_thread run tid a s =
     (case wpdk_thread_starting a s of
        (None, s1) \<Rightarrow> s1
      | (Some t, s1) \<Rightarrow>
          if th_start t = 0 then set_fault s1
          else (let (r, s2) = run (th_start t) (th_arg t) s1
                in wpdk_thread_done tid (th_index t) r s2))"

text \<open>
  The new thread is created suspended, so that it does not run before its block is complete. The
  result carries the identifier that is written to \<^verbatim>\<open>*thread\<close>.
\<close>

definition wpdk_pthread_create ::
  "'w thr_api \<Rightarrow> bool \<Rightarrow> pthread_attr option \<Rightarrow> nat \<Rightarrow> nat \<Rightarrow> ('w, 'z) thr_sys_scheme
    \<Rightarrow> int \<times> nat option \<times> ('w, 'z) thr_sys_scheme" where
  "wpdk_pthread_create api thread attr start_routine arg s =
     (if \<not> thread \<or> start_routine = 0 then (EINVAL, None, s)
      else
        (case wpdk_allocate_thread api s of
           (None, s1) \<Rightarrow> (errno s1, None, s1)
         | (Some a, s1) \<Rightarrow>
             (let s2 = write_block a (\<lambda>t. t\<lparr>th_start := start_routine, th_arg := arg\<rparr>) s1;
                  detached = (case attr of None \<Rightarrow> False
                              | Some at \<Rightarrow> at_detachstate at = PTHREAD_CREATE_DETACHED);
                  stack = (case attr of None \<Rightarrow> 0 | Some at \<Rightarrow> at_stacksize at);
                  ((h, tid, e), s3) = os_call (ta_begin api stack a) s2;
                  s4 = (if h = 0 then set_errno e s3 else s3);
                  error = errno s4;
                  s5 = wpdk_set_thread_info a tid h detached s4
              in if h = 0 then (error, None, s5)
                 else
                   (let s6 = s5\<lparr>world := ta_resume api h (world s5)\<rparr>;
                        s7 = (if detached then s6\<lparr>world := ta_close api h (world s6)\<rparr> else s6)
                    in (0, Some tid, s7)))))"

text \<open>The loop of \<^verbatim>\<open>wpdk_pthread_join\<close> goes on while the wait is interrupted by an APC.\<close>

partial_function (option) wait_loop ::
  "'w thr_api \<Rightarrow> nat \<Rightarrow> 'w \<Rightarrow> (wait_result \<times> 'w) option" where
  "wait_loop api h w =
     (if fst (ta_wait api h w) \<noteq> WAIT_OBJECT_0 \<and> fst (ta_wait api h w) \<noteq> WAIT_FAILED
      then wait_loop api h (snd (ta_wait api h w))
      else Some (ta_wait api h w))"

text \<open>
  \<open>None\<close> is a join that never returns. \<^verbatim>\<open>wpdk_last_error\<close> runs whatever the wait has returned, and
  the value that it returns is \<open>-1\<close>.
\<close>

definition wpdk_pthread_join ::
  "'w thr_api \<Rightarrow> nat \<Rightarrow> ('w, 'z) thr_sys_scheme
    \<Rightarrow> (int \<times> nat option \<times> ('w, 'z) thr_sys_scheme) option" where
  "wpdk_pthread_join api thread s =
     (if thread = 0 \<or> thread = ta_self api (world s) then Some (EINVAL, None, s)
      else
        (case wpdk_get_thread_info thread s of
           (None, s1) \<Rightarrow> Some (EINVAL, None, s1)
         | (Some (h, index), s1) \<Rightarrow>
             Option.bind (wait_loop api h (world s1)) (\<lambda>(rc, w).
               let (error, s2) = wpdk_last_error (ta_last_error api) (s1\<lparr>world := w\<rparr>);
                   (r, s3) = wpdk_detach_thread api thread (int index) s2
               in Some (if rc = WAIT_FAILED then error else if r \<noteq> None then 0 else ESRCH, r, s3))))"

definition wpdk_pthread_detach ::
  "'w thr_api \<Rightarrow> nat \<Rightarrow> ('w, 'z) thr_sys_scheme \<Rightarrow> int \<times> ('w, 'z) thr_sys_scheme" where
  "wpdk_pthread_detach api thread s =
     (let (r, s1) = wpdk_detach_thread api thread (- 1) s in (if r \<noteq> None then 0 else EINVAL, s1))"

text \<open>\<^verbatim>\<open>_endthreadex\<close> ends the calling thread; what it has left is in the state.\<close>

definition wpdk_pthread_exit ::
  "'w thr_api \<Rightarrow> nat \<Rightarrow> ('w, 'z) thr_sys_scheme \<Rightarrow> ('w, 'z) thr_sys_scheme" where
  "wpdk_pthread_exit api value_ptr s = wpdk_thread_done (ta_self api (world s)) (- 1) value_ptr s"

section \<open>Interleavings\<close>

text \<open>
  The steps of all threads of a process, in any order. Besides the state of the library a
  configuration records where the creators and the new threads are: \<open>cf_allocated\<close> holds the blocks
  that a creator has allocated and not yet filled in, \<open>cf_prepared\<close> those for which it is about to
  call \<^verbatim>\<open>_beginthreadex\<close>, and \<open>cf_pending\<close> those of threads that exist and have not started to run.
  The allocator returns blocks that are not in use, and Windows identifiers are not \<open>0\<close>.
\<close>

record 'w config =
  cf_sys :: "'w thr_sys"
  cf_allocated :: "addr set"
  cf_prepared :: "addr set"
  cf_pending :: "addr set"

definition calloc_world :: "'w thr_api \<Rightarrow> ('w, 'z) thr_sys_scheme \<Rightarrow> 'w" where
  "calloc_world api s =
     (case th_table s of Some _ \<Rightarrow> world s | None \<Rightarrow> snd (ta_calloc_table api (world s)))"

datatype thr_label = L_internal | L_done nat | L_detach nat

inductive thr_step :: "'w thr_api \<Rightarrow> thr_label \<Rightarrow> 'w config \<Rightarrow> 'w config \<Rightarrow> bool" for api where
  step_allocate:
    "wpdk_allocate_thread api (cf_sys c) = (r, s') \<Longrightarrow>
     (\<And>a. fst (ta_calloc api (calloc_world api (cf_sys c))) = Some a
            \<Longrightarrow> th_heap (cf_sys c) a = None) \<Longrightarrow>
     thr_step api L_internal c (c\<lparr>cf_sys := s',
       cf_allocated := cf_allocated c \<union> set_option r\<rparr>)"
| step_fill:
    "a \<in> cf_allocated c \<Longrightarrow> f \<noteq> 0 \<Longrightarrow>
     thr_step api L_internal c (c\<lparr>cf_sys := write_block a (\<lambda>t. t\<lparr>th_start := f, th_arg := x\<rparr>) (cf_sys c),
       cf_allocated := cf_allocated c - {a}, cf_prepared := insert a (cf_prepared c)\<rparr>)"
| step_begun:
    "a \<in> cf_prepared c \<Longrightarrow> h \<noteq> 0 \<Longrightarrow> tid \<noteq> 0 \<Longrightarrow>
     thr_step api L_internal c (c\<lparr>cf_sys := wpdk_set_thread_info a tid h detached (cf_sys c),
       cf_prepared := cf_prepared c - {a}, cf_pending := insert a (cf_pending c)\<rparr>)"
| step_begin_failed:
    "a \<in> cf_prepared c \<Longrightarrow>
     thr_step api L_internal c (c\<lparr>cf_sys := wpdk_set_thread_info a tid 0 detached (cf_sys c),
       cf_prepared := cf_prepared c - {a}\<rparr>)"
| step_start:
    "a \<in> cf_pending c \<Longrightarrow>
     thr_step api L_internal c (c\<lparr>cf_sys := snd (wpdk_thread_starting a (cf_sys c)),
       cf_pending := cf_pending c - {a}\<rparr>)"
| step_done:
    "tid \<noteq> 0 \<Longrightarrow> thr_step api (L_done tid) c (c\<lparr>cf_sys := wpdk_thread_done tid i r (cf_sys c)\<rparr>)"
| step_detach:
    "tid \<noteq> 0 \<Longrightarrow> thr_step api (L_detach tid) c (c\<lparr>cf_sys := snd (wpdk_detach_thread api tid i (cf_sys c))\<rparr>)"
| step_info:
    "tid \<noteq> 0 \<Longrightarrow> thr_step api L_internal c (c\<lparr>cf_sys := snd (wpdk_get_thread_info tid (cf_sys c))\<rparr>)"

definition thr_steps :: "'w thr_api \<Rightarrow> thr_label set \<Rightarrow> 'w config \<Rightarrow> 'w config \<Rightarrow> bool" where
  "thr_steps api ls = (\<lambda>c c'. \<exists>l \<in> ls. thr_step api l c c')\<^sup>*\<^sup>*"

lemma thr_steps_step:
  "thr_steps api ls c c1 \<Longrightarrow> thr_step api l c1 c2 \<Longrightarrow> l \<in> ls \<Longrightarrow> thr_steps api ls c c2"
  unfolding thr_steps_def by (erule rtranclp.rtrancl_into_rtrancl) blast

section \<open>The invariant\<close>

definition table_at :: "('w, 'z) thr_sys_scheme \<Rightarrow> nat \<Rightarrow> addr option" where
  "table_at s i = (case th_table s of None \<Rightarrow> None | Some tbl \<Rightarrow> tbl i)"

lemma table_at_simps [simp]:
  "table_at (s\<lparr>errno := e\<rparr>) = table_at s" "table_at (s\<lparr>fault := b\<rparr>) = table_at s"
  "table_at (s\<lparr>world := w\<rparr>) = table_at s" "table_at (s\<lparr>th_heap := h\<rparr>) = table_at s"
  "table_at (s\<lparr>hwmthreads := n\<rparr>) = table_at s" "table_at (s\<lparr>th_table := Some tbl\<rparr>) = tbl"
  by (simp_all add: table_at_def fun_eq_iff)

lemma table_at_Some: "th_table s = Some tbl \<Longrightarrow> table_at s = tbl"
  by (simp add: table_at_def fun_eq_iff)

text \<open>
  A block is in the table at its own index, or it belongs to a thread that has not started; an
  address without a block occurs nowhere.
\<close>

definition block_ok :: "'w config \<Rightarrow> addr \<Rightarrow> bool" where
  "block_ok c a \<longleftrightarrow>
     (case th_heap (cf_sys c) a of
        None \<Rightarrow> a \<notin> cf_allocated c \<and> a \<notin> cf_prepared c \<and> a \<notin> cf_pending c
                \<and> (\<forall>i. table_at (cf_sys c) i \<noteq> Some a)
      | Some t \<Rightarrow>
          (\<forall>i. table_at (cf_sys c) i = Some a \<longleftrightarrow> th_index t = int i)
          \<and> - 1 \<le> th_index t
          \<and> (if a \<in> cf_allocated c
             then a \<notin> cf_prepared c \<and> a \<notin> cf_pending c \<and> th_id t = 0 \<and> th_start t = 0
                  \<and> 0 \<le> th_index t
             else if a \<in> cf_prepared c
             then a \<notin> cf_pending c \<and> th_id t = 0 \<and> th_start t \<noteq> 0 \<and> 0 \<le> th_index t
             else th_id t \<noteq> 0 \<and> (th_start t \<noteq> 0 \<longleftrightarrow> a \<in> cf_pending c)
                  \<and> (a \<notin> cf_pending c \<longrightarrow> 0 \<le> th_index t)))"

definition thr_inv :: "'w config \<Rightarrow> bool" where
  "thr_inv c \<longleftrightarrow> \<not> fault (cf_sys c) \<and> hwmthreads (cf_sys c) \<le> maxthreads
     \<and> (\<forall>i. table_at (cf_sys c) i \<noteq> None \<longrightarrow> i < hwmthreads (cf_sys c))
     \<and> (\<forall>a. block_ok c a)"

lemma thr_inv_block: "thr_inv c \<Longrightarrow> block_ok c a"
  by (simp add: thr_inv_def)

lemma thr_inv_no_fault: "thr_inv c \<Longrightarrow> \<not> fault (cf_sys c)"
  by (simp add: thr_inv_def)

text \<open>A step that concerns the block at one address only.\<close>

lemma thr_inv_local:
  assumes "thr_inv c" "block_ok c' a" "\<not> fault (cf_sys c')"
    and "hwmthreads (cf_sys c') \<le> maxthreads"
    and "\<And>i. table_at (cf_sys c') i \<noteq> None \<Longrightarrow> i < hwmthreads (cf_sys c')"
    and "\<And>b. b \<noteq> a \<Longrightarrow> th_heap (cf_sys c') b = th_heap (cf_sys c) b"
    and "\<And>b i. b \<noteq> a \<Longrightarrow> table_at (cf_sys c') i = Some b \<longleftrightarrow> table_at (cf_sys c) i = Some b"
    and "\<And>b. b \<noteq> a \<Longrightarrow> (b \<in> cf_allocated c' \<longleftrightarrow> b \<in> cf_allocated c)
          \<and> (b \<in> cf_prepared c' \<longleftrightarrow> b \<in> cf_prepared c) \<and> (b \<in> cf_pending c' \<longleftrightarrow> b \<in> cf_pending c)"
  shows "thr_inv c'"
proof -
  have "block_ok c' b" for b
  proof (cases "b = a")
    case False
    have mem: "b \<in> cf_allocated c' \<longleftrightarrow> b \<in> cf_allocated c" "b \<in> cf_prepared c' \<longleftrightarrow> b \<in> cf_prepared c"
      "b \<in> cf_pending c' \<longleftrightarrow> b \<in> cf_pending c" using assms(8) [OF False] by blast+
    have "block_ok c' b \<longleftrightarrow> block_ok c b"
      by (simp only: block_ok_def assms(6,7) [OF False] mem)
    then show ?thesis using assms(1) by (simp add: thr_inv_def)
  qed (simp add: assms(2))
  then show ?thesis using assms(3-5) by (simp add: thr_inv_def)
qed

text \<open>Under the invariant a lookup finds the block of the thread, and faults nowhere.\<close>

lemma table_at_block:
  assumes "thr_inv c" "table_at (cf_sys c) i = Some a"
  obtains t where "th_heap (cf_sys c) a = Some t" "th_index t = int i" "i < hwmthreads (cf_sys c)"
    "i < maxthreads"
proof -
  have "i < hwmthreads (cf_sys c)" "hwmthreads (cf_sys c) \<le> maxthreads" "block_ok c a"
    using assms by (auto simp: thr_inv_def)
  then show thesis
    using assms(2) by (cases "th_heap (cf_sys c) a") (auto simp: block_ok_def intro: that)
qed

lemma find_thread_inv:
  assumes "thr_inv c" "find_thread tid i (cf_sys c) = (r, s')"
  shows "s' = cf_sys c"
    and "r = Some (a, t) \<Longrightarrow> th_heap (cf_sys c) a = Some t \<and> th_id t = tid
           \<and> table_at (cf_sys c) (nat (find_index tid i (cf_sys c))) = Some a
           \<and> find_index tid i (cf_sys c) = th_index t \<and> 0 \<le> th_index t \<and> th_index t < int maxthreads"
proof -
  let ?s = "cf_sys c" and ?k = "find_index tid i (cf_sys c)"
  show s': "s' = ?s"
  proof (cases "0 \<le> ?k \<and> ?k < int maxthreads")
    case True
    with assms(2) have sb: "slot_block tid (nat ?k) ?s = (r, s')" by (simp add: find_thread_def Let_def)
    show ?thesis
    proof (cases "table_at ?s (nat ?k)")
      case None
      with sb show ?thesis by (auto simp: slot_block_def table_at_def split: option.splits)
    next
      case (Some a)
      then obtain t where "th_heap ?s a = Some t" by (rule table_at_block [OF assms(1)])
      with sb Some show ?thesis by (auto simp: slot_block_def table_at_def split: option.splits)
    qed
  qed (use assms(2) in \<open>auto simp: find_thread_def Let_def\<close>)
  assume r: "r = Some (a, t)"
  have k: "0 \<le> ?k \<and> ?k < int maxthreads" and sb: "slot_block tid (nat ?k) ?s = (Some (a, t), s')"
    using assms(2) r by (auto simp: find_thread_def Let_def split: if_splits)
  then have at: "table_at ?s (nat ?k) = Some a" "th_heap ?s a = Some t" "th_id t = tid"
    by (auto simp: slot_block_def table_at_def split: option.splits if_splits)
  obtain t' where "th_heap ?s a = Some t'" "th_index t' = int (nat ?k)"
    using at(1) by (rule table_at_block [OF assms(1)])
  then show "th_heap ?s a = Some t \<and> th_id t = tid \<and> table_at ?s (nat ?k) = Some a
      \<and> ?k = th_index t \<and> 0 \<le> th_index t \<and> th_index t < int maxthreads"
    using at k by auto
qed

interpretation thread_slots: slot_table "slot_alloc slot_null maxthreads"
  "\<lambda>i tbl. if i < maxthreads then tbl(i := None) else tbl"
  "slot_entry slot_null maxthreads" maxthreads "\<lambda>x. \<not> slot_null x"
  by (rule slot_alloc_slot_table [of slot_null "\<lambda>x. None"]) (simp add: slot_null_def)

lemma allocate_thread_cases:
  assumes "wpdk_allocate_thread api s = (r, s')"
    "\<forall>a. fst (ta_calloc api (calloc_world api s)) = Some a \<longrightarrow> th_heap s a = None"
  obtains
    (failed) "r = None" "th_heap s' = th_heap s" "table_at s' = table_at s"
      "hwmthreads s' = hwmthreads s" "fault s' = fault s"
  | (claimed) a i where "r = Some a" "th_heap s a = None" "table_at s i = None" "i < maxthreads"
      "th_heap s' = (th_heap s)(a \<mapsto> zero_thread\<lparr>th_index := int i\<rparr>)"
      "table_at s' = (table_at s)(i := Some a)"
      "hwmthreads s' = (if hwmthreads s \<le> i then i + 1 else hwmthreads s)" "fault s' = fault s"
proof -
  define s1 where "s1 = (case th_table s of Some _ \<Rightarrow> s | None \<Rightarrow>
     (let (ok, s0) = os_call (ta_calloc_table api) s
      in if ok then s0\<lparr>th_table := Some (\<lambda>i. None)\<rparr> else s0))"
  have s1: "th_heap s1 = th_heap s" "table_at s1 = table_at s" "hwmthreads s1 = hwmthreads s"
    "fault s1 = fault s" "world s1 = calloc_world api s"
    by (auto simp: s1_def os_call_eq table_at_def calloc_world_def fun_eq_iff Let_def split: option.split)
  define c where "c = os_call (ta_calloc api) s1"
  have c: "th_heap (snd c) = th_heap s" "hwmthreads (snd c) = hwmthreads s" "fault (snd c) = fault s"
    "th_table (snd c) = th_table s1" "fst c = fst (ta_calloc api (calloc_world api s))"
    using s1 by (simp_all add: c_def os_call_eq)
  show thesis
  proof (cases "th_table s1")
    case None
    with assms(1) s1 show thesis
      by (intro failed) (auto simp: wpdk_allocate_thread_def s1_def [symmetric] set_errno_def)
  next
    case (Some tbl)
    have at: "table_at s = tbl" using s1(2) Some by (simp add: table_at_def fun_eq_iff)
    have run: "wpdk_allocate_thread api s = (case c of
        (None, s2) \<Rightarrow> (None, set_errno ENOMEM s2)
      | (Some a, s2) \<Rightarrow>
          (case slot_alloc slot_null maxthreads (Some a) tbl of
             (Some i, tbl') \<Rightarrow>
               (Some a, s2\<lparr>th_heap := (th_heap s2)(a \<mapsto> zero_thread\<lparr>th_index := int i\<rparr>),
                  th_table := Some tbl',
                  hwmthreads := (if hwmthreads s2 \<le> i then i + 1 else hwmthreads s2)\<rparr>)
           | (None, _) \<Rightarrow>
               (None, free_block a (set_errno EMFILE
                  (s2\<lparr>th_heap := (th_heap s2)(a \<mapsto> zero_thread)\<rparr>)))))"
      using Some by (simp add: wpdk_allocate_thread_def s1_def [symmetric] c_def)
    obtain p s2 where cp: "c = (p, s2)" by fastforce
    show thesis
    proof (cases p)
      case None
      with assms(1) run cp c Some at show thesis
        by (intro failed) (auto simp: set_errno_def table_at_Some)
    next
      case (Some a)
      then have fresh: "th_heap s a = None" using assms(2) c(5) cp by simp
      define al where "al = slot_alloc slot_null maxthreads (Some a) tbl"
      obtain q tbl' where al: "al = (q, tbl')" by fastforce
      show thesis
      proof (cases q)
        case None
        have "(th_heap s)(a := None) = th_heap s" using fresh by auto
        with None assms(1) run cp c \<open>p = Some a\<close> al at \<open>th_table s1 = Some tbl\<close> show thesis
          by (intro failed)
            (auto simp: al_def [symmetric] set_errno_def free_block_def table_at_Some)
      next
        case (Some i)
        note sl = slot_alloc_Some [of slot_null maxthreads "Some a" tbl i tbl']
        have "i < maxthreads" "tbl i = None" "tbl' = tbl(i := Some a)"
          using sl al Some unfolding al_def by (auto simp: slot_null_def)
        with Some assms(1) run cp c \<open>p = Some a\<close> al at fresh show thesis
          by (intro claimed [of a i]) (auto simp: al_def [symmetric] table_at_Some)
      qed
    qed
  qed
qed

lemma step_allocate_inv:
  assumes "thr_inv c" "wpdk_allocate_thread api (cf_sys c) = (r, s')"
    "\<forall>a. fst (ta_calloc api (calloc_world api (cf_sys c))) = Some a \<longrightarrow> th_heap (cf_sys c) a = None"
  shows "thr_inv (c\<lparr>cf_sys := s', cf_allocated := cf_allocated c \<union> set_option r\<rparr>)"
  using assms(2,3)
proof (cases rule: allocate_thread_cases)
  case failed
  then have "block_ok (c\<lparr>cf_sys := s', cf_allocated := cf_allocated c \<union> set_option r\<rparr>) a = block_ok c a" for a
    by (cases "th_heap (cf_sys c) a") (simp_all add: block_ok_def)
  with failed assms(1) show ?thesis by (simp add: thr_inv_def)
next
  case (claimed a i)
  have old: "block_ok c a" using assms(1) by (rule thr_inv_block)
  show ?thesis
  proof (rule thr_inv_local [OF assms(1), of _ a])
    show "block_ok (c\<lparr>cf_sys := s', cf_allocated := cf_allocated c \<union> set_option r\<rparr>) a"
      using old claimed by (auto simp: block_ok_def zero_thread_def)
  qed (use assms(1) claimed in \<open>auto simp: thr_inv_def split: if_splits\<close>)
qed

text \<open>What the primitive actions do to a block that exists.\<close>

lemma write_block_some:
  "th_heap s a = Some t \<Longrightarrow> write_block a f s = s\<lparr>th_heap := (th_heap s)(a \<mapsto> f t)\<rparr>"
  by (simp add: write_block_def)

lemma free_block_some:
  "th_heap s a = Some t \<Longrightarrow> free_block a s = s\<lparr>th_heap := (th_heap s)(a := None)\<rparr>"
  by (simp add: free_block_def)

lemma clear_slot_some:
  assumes "table_at s i = Some a" "i < maxthreads"
  shows "clear_slot (int i) s = s\<lparr>th_table := Some ((table_at s)(i := None))\<rparr>"
proof -
  obtain tbl where "th_table s = Some tbl"
    using assms(1) by (auto simp: table_at_def split: option.splits)
  then show ?thesis using assms by (simp add: clear_slot_def table_at_Some)
qed

text \<open>
  A block in the table, with its index; a block outside of it belongs to a thread that has not
  started.
\<close>

lemma block_in_table:
  assumes "thr_inv c" "th_heap (cf_sys c) a = Some t" "0 \<le> th_index t"
  shows "table_at (cf_sys c) (nat (th_index t)) = Some a" "nat (th_index t) < maxthreads"
proof -
  have "block_ok c a" using assms(1) by (rule thr_inv_block)
  then show at: "table_at (cf_sys c) (nat (th_index t)) = Some a"
    using assms(2,3) by (simp add: block_ok_def)
  show "nat (th_index t) < maxthreads" using at by (rule table_at_block [OF assms(1)])
qed

text \<open>Taking a block out of the table, possibly freeing it.\<close>

lemma thr_inv_removed:
  assumes "thr_inv c" "table_at (cf_sys c) i = Some a"
    and "table_at (cf_sys c') = (table_at (cf_sys c))(i := None)"
    and "th_heap (cf_sys c') = (th_heap (cf_sys c))(a := x)"
    and "hwmthreads (cf_sys c') = hwmthreads (cf_sys c)" "\<not> fault (cf_sys c')"
    and "cf_allocated c' - {a} = cf_allocated c - {a}" "cf_prepared c' - {a} = cf_prepared c - {a}"
      "cf_pending c' - {a} = cf_pending c - {a}"
    and "case x of None \<Rightarrow> a \<notin> cf_allocated c' \<and> a \<notin> cf_prepared c' \<and> a \<notin> cf_pending c'
         | Some t \<Rightarrow> th_index t = - 1 \<and> a \<notin> cf_allocated c' \<and> a \<notin> cf_prepared c'
             \<and> a \<in> cf_pending c' \<and> th_id t \<noteq> 0 \<and> th_start t \<noteq> 0"
  shows "thr_inv c'"
proof (rule thr_inv_local [OF assms(1), of _ a])
  obtain t where t: "th_heap (cf_sys c) a = Some t" "th_index t = int i"
    using assms(2) by (rule table_at_block [OF assms(1)])
  have "block_ok c a" using assms(1) by (rule thr_inv_block)
  then have "table_at (cf_sys c) j = Some a \<longleftrightarrow> j = i" for j
    using t by (auto simp: block_ok_def)
  then have "table_at (cf_sys c') j \<noteq> Some a" for j using assms(3) by (auto split: if_splits)
  then show "block_ok c' a"
    using assms(4,10) by (cases x) (auto simp: block_ok_def)
  fix b assume "b \<noteq> a"
  then show "th_heap (cf_sys c') b = th_heap (cf_sys c) b" using assms(4) by simp
  show "table_at (cf_sys c') j = Some b \<longleftrightarrow> table_at (cf_sys c) j = Some b" for j
    using assms(2,3) \<open>b \<noteq> a\<close> by auto
  show "(b \<in> cf_allocated c' \<longleftrightarrow> b \<in> cf_allocated c) \<and> (b \<in> cf_prepared c' \<longleftrightarrow> b \<in> cf_prepared c)
      \<and> (b \<in> cf_pending c' \<longleftrightarrow> b \<in> cf_pending c)"
    using assms(7-9) \<open>b \<noteq> a\<close> by blast
qed (use assms in \<open>auto simp: thr_inv_def split: if_splits\<close>)

text \<open>Changing a block where it is.\<close>

lemma thr_inv_written:
  assumes "thr_inv c" "th_heap (cf_sys c) a = Some t" "th_index t' = th_index t"
    and "table_at (cf_sys c') = table_at (cf_sys c)"
    and "th_heap (cf_sys c') = (th_heap (cf_sys c))(a \<mapsto> t')"
    and "hwmthreads (cf_sys c') = hwmthreads (cf_sys c)" "\<not> fault (cf_sys c')"
    and "cf_allocated c' - {a} = cf_allocated c - {a}" "cf_prepared c' - {a} = cf_prepared c - {a}"
      "cf_pending c' - {a} = cf_pending c - {a}"
    and "if a \<in> cf_allocated c'
         then a \<notin> cf_prepared c' \<and> a \<notin> cf_pending c' \<and> th_id t' = 0 \<and> th_start t' = 0
              \<and> 0 \<le> th_index t'
         else if a \<in> cf_prepared c'
         then a \<notin> cf_pending c' \<and> th_id t' = 0 \<and> th_start t' \<noteq> 0 \<and> 0 \<le> th_index t'
         else th_id t' \<noteq> 0 \<and> (th_start t' \<noteq> 0 \<longleftrightarrow> a \<in> cf_pending c')
              \<and> (a \<notin> cf_pending c' \<longrightarrow> 0 \<le> th_index t')"
  shows "thr_inv c'"
proof (rule thr_inv_local [OF assms(1), of _ a])
  have "block_ok c a" using assms(1) by (rule thr_inv_block)
  then have "(\<forall>i. table_at (cf_sys c') i = Some a \<longleftrightarrow> th_index t' = int i) \<and> - 1 \<le> th_index t'"
    using assms(2,3,4) by (simp add: block_ok_def)
  moreover have "th_heap (cf_sys c') a = Some t'" using assms(5) by simp
  ultimately show "block_ok c' a" using assms(11) by (simp add: block_ok_def)
  fix b assume "b \<noteq> a"
  then show "(b \<in> cf_allocated c' \<longleftrightarrow> b \<in> cf_allocated c) \<and> (b \<in> cf_prepared c' \<longleftrightarrow> b \<in> cf_prepared c)
      \<and> (b \<in> cf_pending c' \<longleftrightarrow> b \<in> cf_pending c)"
    using assms(8-10) by blast
qed (use assms in \<open>auto simp: thr_inv_def\<close>)

lemma step_fill_inv:
  assumes "thr_inv c" "a \<in> cf_allocated c" "f \<noteq> 0"
  shows "thr_inv (c\<lparr>cf_sys := write_block a (\<lambda>t. t\<lparr>th_start := f, th_arg := x\<rparr>) (cf_sys c),
       cf_allocated := cf_allocated c - {a}, cf_prepared := insert a (cf_prepared c)\<rparr>)"
proof -
  have ok: "block_ok c a" using assms(1) by (rule thr_inv_block)
  then obtain t where t: "th_heap (cf_sys c) a = Some t"
    using assms(2) by (cases "th_heap (cf_sys c) a") (auto simp: block_ok_def)
  show ?thesis
    by (rule thr_inv_written [OF assms(1) t, of "t\<lparr>th_start := f, th_arg := x\<rparr>"])
      (use assms ok t in \<open>auto simp: write_block_some block_ok_def thr_inv_def\<close>)
qed

lemma step_begun_inv:
  assumes "thr_inv c" "a \<in> cf_prepared c" "h \<noteq> 0" "tid \<noteq> 0"
  shows "thr_inv (c\<lparr>cf_sys := wpdk_set_thread_info a tid h detached (cf_sys c),
       cf_prepared := cf_prepared c - {a}, cf_pending := insert a (cf_pending c)\<rparr>)"
proof -
  have ok: "block_ok c a" using assms(1) by (rule thr_inv_block)
  then obtain t where t: "th_heap (cf_sys c) a = Some t" "0 \<le> th_index t" "th_start t \<noteq> 0"
      "a \<notin> cf_allocated c"
    using assms(2) by (cases "th_heap (cf_sys c) a") (auto simp: block_ok_def split: if_splits)
  note at = block_in_table [OF assms(1) t(1,2)]
  note nofault = assms(1) [unfolded thr_inv_def]
  show ?thesis
  proof (cases detached)
    case False
    then have run: "wpdk_set_thread_info a tid h detached (cf_sys c)
        = (cf_sys c)\<lparr>th_heap := (th_heap (cf_sys c))(a \<mapsto> t\<lparr>th_id := tid, th_h := h\<rparr>)\<rparr>"
      using t assms(3) by (simp add: wpdk_set_thread_info_def write_block_some)
    show ?thesis
      unfolding run
      by (rule thr_inv_written [OF assms(1) t(1), of "t\<lparr>th_id := tid, th_h := h\<rparr>"])
        (use assms t nofault in auto)
  next
    case True
    have "clear_slot (th_index t) ((cf_sys c)\<lparr>th_heap := m\<rparr>) =
       (cf_sys c)\<lparr>th_heap := m, th_table := Some ((table_at (cf_sys c))(nat (th_index t) := None))\<rparr>" for m
      using clear_slot_some [of "(cf_sys c)\<lparr>th_heap := m\<rparr>" "nat (th_index t)" a] at t(2) by simp
    then have run: "wpdk_set_thread_info a tid h detached (cf_sys c)
        = (cf_sys c)\<lparr>th_heap := (th_heap (cf_sys c))(a \<mapsto> t\<lparr>th_id := tid, th_h := 0, th_index := - 1\<rparr>),
            th_table := Some ((table_at (cf_sys c))(nat (th_index t) := None))\<rparr>"
      using t assms(3) True by (simp add: wpdk_set_thread_info_def write_block_def)
    show ?thesis
      unfolding run
      by (rule thr_inv_removed [OF assms(1) at(1),
            where x = "Some (t\<lparr>th_id := tid, th_h := 0, th_index := - 1\<rparr>)"])
        (use assms t nofault in auto)
  qed
qed

lemma step_begin_failed_inv:
  assumes "thr_inv c" "a \<in> cf_prepared c"
  shows "thr_inv (c\<lparr>cf_sys := wpdk_set_thread_info a tid 0 detached (cf_sys c),
       cf_prepared := cf_prepared c - {a}\<rparr>)"
proof -
  have ok: "block_ok c a" using assms(1) by (rule thr_inv_block)
  then obtain t where t: "th_heap (cf_sys c) a = Some t" "0 \<le> th_index t"
      "a \<notin> cf_allocated c" "a \<notin> cf_pending c"
    using assms(2) by (cases "th_heap (cf_sys c) a") (auto simp: block_ok_def split: if_splits)
  note at = block_in_table [OF assms(1) t(1,2)]
  have "clear_slot (th_index t) ((cf_sys c)\<lparr>th_heap := m\<rparr>) =
     (cf_sys c)\<lparr>th_heap := m, th_table := Some ((table_at (cf_sys c))(nat (th_index t) := None))\<rparr>" for m
    using clear_slot_some [of "(cf_sys c)\<lparr>th_heap := m\<rparr>" "nat (th_index t)" a] at t(2) by simp
  then have run: "wpdk_set_thread_info a tid 0 detached (cf_sys c)
      = (cf_sys c)\<lparr>th_heap := (th_heap (cf_sys c))(a := None),
          th_table := Some ((table_at (cf_sys c))(nat (th_index t) := None))\<rparr>"
    using t by (simp add: wpdk_set_thread_info_def write_block_def free_block_def)
  show ?thesis
    unfolding run
    by (rule thr_inv_removed [OF assms(1) at(1), where x = None])
      (use assms(1) t in \<open>auto simp: thr_inv_def\<close>)
qed

lemma step_start_inv:
  assumes "thr_inv c" "a \<in> cf_pending c"
  shows "thr_inv (c\<lparr>cf_sys := snd (wpdk_thread_starting a (cf_sys c)),
       cf_pending := cf_pending c - {a}\<rparr>)"
proof -
  have ok: "block_ok c a" using assms(1) by (rule thr_inv_block)
  then obtain t where t: "th_heap (cf_sys c) a = Some t" "a \<notin> cf_allocated c" "a \<notin> cf_prepared c"
      "th_id t \<noteq> 0" "- 1 \<le> th_index t"
    using assms(2) by (cases "th_heap (cf_sys c) a") (auto simp: block_ok_def split: if_splits)
  show ?thesis
  proof (cases "th_index t = - 1")
    case False
    then have run: "snd (wpdk_thread_starting a (cf_sys c))
        = (cf_sys c)\<lparr>th_heap := (th_heap (cf_sys c))(a \<mapsto> t\<lparr>th_start := 0\<rparr>)\<rparr>"
      using t by (simp add: wpdk_thread_starting_def write_block_some)
    show ?thesis
      unfolding run
      by (rule thr_inv_written [OF assms(1) t(1), of "t\<lparr>th_start := 0\<rparr>"])
        (use assms(1) t False in \<open>auto simp: thr_inv_def\<close>)
  next
    case True
    then have run: "snd (wpdk_thread_starting a (cf_sys c))
        = (cf_sys c)\<lparr>th_heap := (th_heap (cf_sys c))(a := None)\<rparr>"
      using t by (simp add: wpdk_thread_starting_def write_block_some free_block_def)
    have none: "table_at (cf_sys c) i \<noteq> Some a" for i
      using ok t True by (simp add: block_ok_def)
    show ?thesis
      unfolding run
      by (rule thr_inv_local [OF assms(1), of _ a])
        (use assms(1) t none in \<open>auto simp: thr_inv_def block_ok_def\<close>)
  qed
qed

lemma step_done_inv:
  assumes "thr_inv c"
  shows "thr_inv (c\<lparr>cf_sys := wpdk_thread_done tid i r (cf_sys c)\<rparr>)"
proof -
  obtain f s' where f: "find_thread tid i (cf_sys c) = (f, s')" by fastforce
  note s' = find_thread_inv(1) [OF assms f]
  show ?thesis
  proof (cases f)
    case None
    then show ?thesis using assms f s' by (simp add: wpdk_thread_done_def)
  next
    case (Some p)
    obtain a t where p: "p = (a, t)" by fastforce
    then have t: "th_heap (cf_sys c) a = Some t"
      using find_thread_inv(2) [OF assms f, of a t] Some by blast
    have run: "wpdk_thread_done tid i r (cf_sys c)
        = (cf_sys c)\<lparr>th_heap := (th_heap (cf_sys c))(a \<mapsto> t\<lparr>th_result := r\<rparr>)\<rparr>"
      using f Some p t s' by (simp add: wpdk_thread_done_def write_block_some)
    have ok: "block_ok c a" using assms by (rule thr_inv_block)
    show ?thesis
      unfolding run
      by (rule thr_inv_written [OF assms t, of "t\<lparr>th_result := r\<rparr>"])
        (use thr_inv_no_fault [OF assms] ok t in \<open>auto simp: block_ok_def split: if_splits\<close>)
  qed
qed

text \<open>The effect of a detach on a thread that exists.\<close>

lemma detach_thread_found:
  assumes "thr_inv c" "find_thread tid i (cf_sys c) = (Some (a, t), s')"
  shows "fst (wpdk_detach_thread api tid i (cf_sys c)) = Some (th_result t)"
    and "snd (wpdk_detach_thread api tid i (cf_sys c)) = (cf_sys c)
      \<lparr>world := (if th_h t \<noteq> 0 then ta_close api (th_h t) (world (cf_sys c)) else world (cf_sys c)),
       th_heap := (th_heap (cf_sys c))(a := if th_start t = 0 then None else Some (t\<lparr>th_index := - 1\<rparr>)),
       th_table := Some ((table_at (cf_sys c))(nat (th_index t) := None))\<rparr>"
proof -
  note s' = find_thread_inv(1) [OF assms]
  note found = find_thread_inv(2) [OF assms refl]
  have at: "table_at (cf_sys c) (nat (th_index t)) = Some a" "nat (th_index t) < maxthreads"
    "find_index tid i (cf_sys c) = th_index t" "0 \<le> th_index t" using found by auto
  have slot: "clear_slot (find_index tid i (cf_sys c)) ((cf_sys c)\<lparr>th_heap := m\<rparr>) =
     (cf_sys c)\<lparr>th_heap := m, th_table := Some ((table_at (cf_sys c))(nat (th_index t) := None))\<rparr>" for m
    using clear_slot_some [of "(cf_sys c)\<lparr>th_heap := m\<rparr>" "nat (th_index t)" a] at by simp
  show "fst (wpdk_detach_thread api tid i (cf_sys c)) = Some (th_result t)"
    using assms(2) s' found by (simp add: wpdk_detach_thread_def Let_def)
  show "snd (wpdk_detach_thread api tid i (cf_sys c)) = (cf_sys c)
      \<lparr>world := (if th_h t \<noteq> 0 then ta_close api (th_h t) (world (cf_sys c)) else world (cf_sys c)),
       th_heap := (th_heap (cf_sys c))(a := if th_start t = 0 then None else Some (t\<lparr>th_index := - 1\<rparr>)),
       th_table := Some ((table_at (cf_sys c))(nat (th_index t) := None))\<rparr>"
    using assms(2) s' found slot
    by (simp add: wpdk_detach_thread_def Let_def write_block_some free_block_def)
qed

lemma block_named:
  assumes "block_ok c a" "th_heap (cf_sys c) a = Some t" "th_id t \<noteq> 0"
  shows "a \<notin> cf_allocated c" "a \<notin> cf_prepared c" "th_start t \<noteq> 0 \<longleftrightarrow> a \<in> cf_pending c"
  using assms by (simp_all add: block_ok_def split: if_split_asm)

lemma step_detach_inv:
  assumes "thr_inv c" "tid \<noteq> 0"
  shows "thr_inv (c\<lparr>cf_sys := snd (wpdk_detach_thread api tid i (cf_sys c))\<rparr>)"
proof -
  obtain f s' where f: "find_thread tid i (cf_sys c) = (f, s')" by fastforce
  show ?thesis
  proof (cases f)
    case None
    then show ?thesis using assms f find_thread_inv(1) [OF assms(1) f]
      by (simp add: wpdk_detach_thread_def)
  next
    case (Some p)
    obtain a t where p: "p = (a, t)" by fastforce
    note ft = f [unfolded Some p]
    note found = find_thread_inv(2) [OF assms(1) ft refl]
    have ok: "a \<notin> cf_allocated c" "a \<notin> cf_prepared c" "th_start t \<noteq> 0 \<longleftrightarrow> a \<in> cf_pending c" "th_id t \<noteq> 0"
      using block_named [OF thr_inv_block [OF assms(1)], of a t] found assms(2) by blast+
    have at: "table_at (cf_sys c) (nat (th_index t)) = Some a" using found by auto
    show ?thesis
      unfolding detach_thread_found(2) [OF assms(1) ft]
      by (rule thr_inv_removed [OF assms(1) at,
            where x = "if th_start t = 0 then None else Some (t\<lparr>th_index := - 1\<rparr>)"])
        (use thr_inv_no_fault [OF assms(1)] ok in auto)
  qed
qed

lemma get_thread_info_same:
  assumes "thr_inv c"
  shows "snd (wpdk_get_thread_info tid (cf_sys c)) = cf_sys c"
proof -
  have "snd (slot_block tid k (cf_sys c)) = cf_sys c" for k
  proof (cases "table_at (cf_sys c) k")
    case None
    then show ?thesis by (auto simp: slot_block_def table_at_def split: option.splits)
  next
    case (Some a)
    then obtain t where "th_heap (cf_sys c) a = Some t" by (rule table_at_block [OF assms])
    with Some show ?thesis by (auto simp: slot_block_def table_at_def split: option.splits)
  qed
  then show ?thesis
    by (auto simp: wpdk_get_thread_info_def Let_def split_beta split: option.splits)
qed

lemma thr_step_inv: "thr_step api l c c' \<Longrightarrow> thr_inv c \<Longrightarrow> thr_inv c'"
proof (induction rule: thr_step.induct)
  case (step_allocate c r s')
  then show ?case by (intro step_allocate_inv) auto
next
  case (step_info tid c)
  then show ?case by (simp add: get_thread_info_same)
qed (auto intro: step_fill_inv step_begun_inv step_begin_failed_inv step_start_inv step_done_inv
    step_detach_inv)

lemma thr_steps_inv: "thr_steps api ls c c' \<Longrightarrow> thr_inv c \<Longrightarrow> thr_inv c'"
  unfolding thr_steps_def by (induction rule: rtranclp_induct) (auto intro: thr_step_inv)

definition thr_initial :: "'w config \<Rightarrow> bool" where
  "thr_initial c \<longleftrightarrow> th_heap (cf_sys c) = Map.empty \<and> th_table (cf_sys c) = None
     \<and> hwmthreads (cf_sys c) = 0 \<and> \<not> fault (cf_sys c)
     \<and> cf_allocated c = {} \<and> cf_prepared c = {} \<and> cf_pending c = {}"

lemma thr_initial_inv: "thr_initial c \<Longrightarrow> thr_inv c"
  by (simp add: thr_initial_def thr_inv_def block_ok_def table_at_def)

section \<open>Properties\<close>


text \<open>An allocator that hands out consecutive addresses, and a system that creates every thread.\<close>

definition demo_thr_api :: "nat thr_api" where
  "demo_thr_api =
     \<lparr>ta_calloc_table = Pair True, ta_calloc = (\<lambda>w. (Some w, Suc w)),
      ta_begin = (\<lambda>k a w. ((1, 100 + a, 0), w)), ta_resume = (\<lambda>h w. w), ta_close = (\<lambda>h w. w),
      ta_self = (\<lambda>w. 1), ta_wait = (\<lambda>h. Pair WAIT_OBJECT_0),
      ta_last_error = (\<lambda>w. Werr1 ERROR_SUCCESS)\<rparr>"

definition demo_thr_sys :: "nat thr_sys" where
  "demo_thr_sys = \<lparr>errno = 0, fault = False, world = 5, th_heap = Map.empty, th_table = None, hwmthreads = 0\<rparr>"

definition demo_config :: "nat config" where
  "demo_config = \<lparr>cf_sys = demo_thr_sys, cf_allocated = {}, cf_prepared = {}, cf_pending = {}\<rparr>"

definition demo_config1 :: "nat config" where
  "demo_config1 = demo_config\<lparr>cf_sys := snd (wpdk_allocate_thread demo_thr_api demo_thr_sys),
     cf_allocated := {5}\<rparr>"

lemma demo_allocate:
  "wpdk_allocate_thread demo_thr_api demo_thr_sys =
     (Some 5, \<lparr>errno = 0, fault = False, world = 6, th_heap = [5 \<mapsto> zero_thread],
        th_table = Some ((\<lambda>i. None)(0 := Some 5)), hwmthreads = 1\<rparr>)"
  by (simp add: wpdk_allocate_thread_def demo_thr_api_def demo_thr_sys_def os_call_eq slot_alloc_def
      slot_null_def Let_def errno_simps zero_thread_def)

lemma demo_config_initial: "thr_initial demo_config"
  by (simp add: thr_initial_def demo_config_def demo_thr_sys_def)

lemma demo_config1_step: "thr_steps demo_thr_api UNIV demo_config demo_config1"
proof -
  have "thr_step demo_thr_api L_internal demo_config (demo_config\<lparr>cf_sys := snd (wpdk_allocate_thread demo_thr_api demo_thr_sys),
      cf_allocated := cf_allocated demo_config \<union> set_option (Some 5)\<rparr>)"
  proof (rule step_allocate)
    show "wpdk_allocate_thread demo_thr_api (cf_sys demo_config)
        = (Some 5, snd (wpdk_allocate_thread demo_thr_api demo_thr_sys))"
      by (simp add: demo_config_def demo_allocate)
  qed (simp add: demo_config_def demo_thr_sys_def)
  then show ?thesis
    by (auto simp: thr_steps_def demo_config1_def demo_config_def)
qed


text \<open>The record that a thread has left: its slot, its identifier and its result.\<close>

definition result_at :: "'w config \<Rightarrow> nat \<Rightarrow> nat \<Rightarrow> nat \<Rightarrow> bool" where
  "result_at c i tid r \<longleftrightarrow> (\<exists>a t. table_at (cf_sys c) i = Some a \<and> th_heap (cf_sys c) a = Some t
     \<and> th_id t = tid \<and> th_result t = r)"

lemma find_at:
  assumes "thr_inv c" "table_at (cf_sys c) i = Some a" "th_heap (cf_sys c) a = Some t"
  shows "find_thread (th_id t) (int i) (cf_sys c) = (Some (a, t), cf_sys c)"
proof -
  have i: "i < maxthreads" using assms(2) by (rule table_at_block [OF assms(1)])
  obtain tbl where "th_table (cf_sys c) = Some tbl" "tbl i = Some a"
    using assms(2) by (auto simp: table_at_def split: option.splits)
  then show ?thesis using assms(3) i
    by (simp add: find_thread_def find_index_def slot_block_def Let_def)
qed

text \<open>A step that touches another block, or this one in place, keeps the record.\<close>

lemma result_at_other:
  assumes "result_at c i tid r"
    and "\<And>a t. table_at (cf_sys c) i = Some a \<Longrightarrow> th_heap (cf_sys c) a = Some t \<Longrightarrow> th_id t = tid \<Longrightarrow>
          table_at (cf_sys c') i = Some a \<and> (\<exists>t'. th_heap (cf_sys c') a = Some t' \<and> th_id t' = tid
            \<and> th_result t' = th_result t)"
  shows "result_at c' i tid r"
proof -
  obtain a t where at: "table_at (cf_sys c) i = Some a" "th_heap (cf_sys c) a = Some t" "th_id t = tid"
    "th_result t = r" using assms(1) unfolding result_at_def by blast
  from assms(2) [OF at(1-3)] at(4) show ?thesis unfolding result_at_def by blast
qed

lemma result_at_frame:
  assumes "result_at c i tid r" "th_heap (cf_sys c) b = Some u" "th_id u \<noteq> tid"
    and "\<And>a. a \<noteq> b \<Longrightarrow> table_at (cf_sys c) i = Some a \<Longrightarrow>
          table_at (cf_sys c') i = Some a \<and> th_heap (cf_sys c') a = th_heap (cf_sys c) a"
  shows "result_at c' i tid r"
proof (rule result_at_other [OF assms(1)])
  fix a t assume at: "table_at (cf_sys c) i = Some a" "th_heap (cf_sys c) a = Some t" "th_id t = tid"
  then have "a \<noteq> b" using assms(2,3) by auto
  from assms(4) [OF this at(1)] at show "table_at (cf_sys c') i = Some a
      \<and> (\<exists>t'. th_heap (cf_sys c') a = Some t' \<and> th_id t' = tid \<and> th_result t' = th_result t)"
    by simp
qed

lemma set_thread_info_other:
  assumes "thr_inv c" "b \<in> cf_prepared c" "a \<noteq> b" "table_at (cf_sys c) i = Some a"
  shows "th_heap (wpdk_set_thread_info b x h d (cf_sys c)) a = th_heap (cf_sys c) a"
    "table_at (wpdk_set_thread_info b x h d (cf_sys c)) i = Some a"
proof -
  obtain t where t: "th_heap (cf_sys c) b = Some t" "0 \<le> th_index t"
    using thr_inv_block [OF assms(1), of b] assms(2)
    by (cases "th_heap (cf_sys c) b") (auto simp: block_ok_def split: if_splits)
  note at = block_in_table [OF assms(1) t]
  have "clear_slot (th_index t) ((cf_sys c)\<lparr>th_heap := m\<rparr>) =
     (cf_sys c)\<lparr>th_heap := m, th_table := Some ((table_at (cf_sys c))(nat (th_index t) := None))\<rparr>" for m
    using clear_slot_some [of "(cf_sys c)\<lparr>th_heap := m\<rparr>" "nat (th_index t)" b] at t(2) by simp
  then show "th_heap (wpdk_set_thread_info b x h d (cf_sys c)) a = th_heap (cf_sys c) a"
    "table_at (wpdk_set_thread_info b x h d (cf_sys c)) i = Some a"
    using t assms(3,4) at(1)
    by (auto simp: wpdk_set_thread_info_def write_block_def free_block_def Let_def)
qed

lemma thr_step_result:
  assumes "thr_step api l c c'" "thr_inv c" "result_at c i tid r" "tid \<noteq> 0"
    "l \<noteq> L_done tid" "l \<noteq> L_detach tid"
  shows "result_at c' i tid r"
  using assms
proof (induction rule: thr_step.induct)
  case (step_allocate c r' s')
  have fresh: "\<forall>a. fst (ta_calloc api (calloc_world api (cf_sys c))) = Some a \<longrightarrow> th_heap (cf_sys c) a = None"
    using step_allocate(2) by blast
  from step_allocate(1) fresh show ?case
  proof (cases rule: allocate_thread_cases)
    case failed
    then show ?thesis using step_allocate(4) by (simp add: result_at_def)
  next
    case (claimed b j)
    show ?thesis
      by (rule result_at_other [OF step_allocate(4)]) (use claimed in auto)
  qed
next
  case (step_fill b c f x)
  obtain t where t: "th_heap (cf_sys c) b = Some t" "th_id t = 0"
    using thr_inv_block [OF step_fill(3), of b] step_fill(1)
    by (cases "th_heap (cf_sys c) b") (auto simp: block_ok_def)
  show ?case
    by (rule result_at_frame [OF step_fill(4) t(1)]) (use t step_fill(5) in \<open>simp_all add: write_block_some\<close>)
next
  case (step_begun b c h tid' d)
  obtain t where t: "th_heap (cf_sys c) b = Some t" "th_id t = 0"
    using thr_inv_block [OF step_begun(4), of b] step_begun(1)
    by (cases "th_heap (cf_sys c) b") (auto simp: block_ok_def split: if_splits)
  show ?case
    by (rule result_at_frame [OF step_begun(5) t(1)])
      (use t step_begun(6) set_thread_info_other [OF step_begun(4,1)] in simp_all)
next
  case (step_begin_failed b c tid' d)
  obtain t where t: "th_heap (cf_sys c) b = Some t" "th_id t = 0"
    using thr_inv_block [OF step_begin_failed(2), of b] step_begin_failed(1)
    by (cases "th_heap (cf_sys c) b") (auto simp: block_ok_def split: if_splits)
  show ?case
    by (rule result_at_frame [OF step_begin_failed(3) t(1)])
      (use t step_begin_failed(4) set_thread_info_other [OF step_begin_failed(2,1)] in simp_all)
next
  case (step_start b c)
  show ?case
  proof (rule result_at_other [OF step_start(3)])
    fix a t assume at: "table_at (cf_sys c) i = Some a" "th_heap (cf_sys c) a = Some t" "th_id t = tid"
    have "th_index t = int i"
      using thr_inv_block [OF step_start(2), of a] at by (simp add: block_ok_def)
    then show "table_at (cf_sys (c\<lparr>cf_sys := snd (wpdk_thread_starting b (cf_sys c)),
          cf_pending := cf_pending c - {b}\<rparr>)) i = Some a \<and>
        (\<exists>t'. th_heap (cf_sys (c\<lparr>cf_sys := snd (wpdk_thread_starting b (cf_sys c)),
          cf_pending := cf_pending c - {b}\<rparr>)) a = Some t' \<and> th_id t' = tid \<and> th_result t' = th_result t)"
      using at by (cases "th_heap (cf_sys c) b")
        (auto simp: wpdk_thread_starting_def write_block_def free_block_def set_fault_def Let_def)
  qed
next
  case (step_done tid' c j r')
  obtain f s' where f: "find_thread tid' j (cf_sys c) = (f, s')" by fastforce
  show ?case
  proof (cases f)
    case None
    then show ?thesis using f find_thread_inv(1) [OF step_done(2) f] step_done(3)
      by (simp add: wpdk_thread_done_def)
  next
    case (Some p)
    obtain b u where p: "p = (b, u)" by fastforce
    note ft = f [unfolded Some p]
    have u: "th_heap (cf_sys c) b = Some u" "th_id u = tid'"
      using find_thread_inv(2) [OF step_done(2) ft refl] by auto
    then show ?thesis
      using find_thread_inv(1) [OF step_done(2) ft] ft step_done(5)
      by (intro result_at_frame [OF step_done(3) u(1)])
        (simp_all add: wpdk_thread_done_def write_block_some)
  qed
next
  case (step_detach tid' c j)
  obtain f s' where f: "find_thread tid' j (cf_sys c) = (f, s')" by fastforce
  show ?case
  proof (cases f)
    case None
    then show ?thesis using f find_thread_inv(1) [OF step_detach(2) f] step_detach(3)
      by (simp add: wpdk_detach_thread_def)
  next
    case (Some p)
    obtain b u where p: "p = (b, u)" by fastforce
    note ft = f [unfolded Some p]
    note found = find_thread_inv(2) [OF step_detach(2) ft refl]
    have u: "th_heap (cf_sys c) b = Some u" "th_id u \<noteq> tid"
      "table_at (cf_sys c) (nat (th_index u)) = Some b" using found step_detach(6) by auto
    show ?thesis
      unfolding detach_thread_found(2) [OF step_detach(2) ft]
      by (rule result_at_frame [OF step_detach(3) u(1,2)]) (use u(3) in auto)
  qed
next
  case (step_info tid' c)
  then show ?case by (simp add: get_thread_info_same)
qed

lemma thr_steps_result:
  assumes "thr_steps api (- {L_done tid, L_detach tid}) c c'" "thr_inv c" "result_at c i tid r" "tid \<noteq> 0"
  shows "thr_inv c' \<and> result_at c' i tid r"
  using assms(1) unfolding thr_steps_def
proof (induction rule: rtranclp_induct)
  case (step c1 c2)
  then obtain l where "thr_step api l c1 c2" "l \<noteq> L_done tid" "l \<noteq> L_detach tid" by blast
  with step.IH assms(4) show ?case using thr_step_inv thr_step_result by blast
qed (use assms(2,3) in simp)


definition demo_config2 :: "nat config" where
  "demo_config2 = demo_config1\<lparr>cf_sys := write_block 5 (\<lambda>t. t\<lparr>th_start := 9, th_arg := 4\<rparr>) (cf_sys demo_config1),
     cf_allocated := cf_allocated demo_config1 - {5}, cf_prepared := insert 5 (cf_prepared demo_config1)\<rparr>"

definition demo_config3 :: "nat config" where
  "demo_config3 = demo_config2\<lparr>cf_sys := wpdk_set_thread_info 5 77 1 False (cf_sys demo_config2),
     cf_prepared := cf_prepared demo_config2 - {5}, cf_pending := insert 5 (cf_pending demo_config2)\<rparr>"

lemma demo_config3_steps: "thr_steps demo_thr_api UNIV demo_config demo_config3"
proof -
  have "thr_step demo_thr_api L_internal demo_config1 demo_config2"
    unfolding demo_config2_def by (rule step_fill) (simp_all add: demo_config1_def)
  moreover have "thr_step demo_thr_api L_internal demo_config2 demo_config3"
    unfolding demo_config3_def by (rule step_begun) (simp_all add: demo_config2_def)
  ultimately show ?thesis
    using thr_steps_step [OF thr_steps_step [OF demo_config1_step]] by blast
qed

lemma demo_config3_at:
  "table_at (cf_sys demo_config3) 0 = Some 5"
  "th_heap (cf_sys demo_config3) 5 = Some (zero_thread\<lparr>th_id := 77, th_h := 1, th_start := 9, th_arg := 4\<rparr>)"
  by (simp_all add: demo_config3_def demo_config2_def demo_config1_def demo_allocate
      write_block_def wpdk_set_thread_info_def table_at_def Let_def)


text \<open>The world after \<open>n\<close> waits.\<close>

primrec wait_world :: "'w thr_api \<Rightarrow> nat \<Rightarrow> nat \<Rightarrow> 'w \<Rightarrow> 'w" where
  "wait_world api h 0 w = w"
| "wait_world api h (Suc n) w = wait_world api h n (snd (ta_wait api h w))"

definition wait_over :: "'w thr_api \<Rightarrow> nat \<Rightarrow> 'w \<Rightarrow> bool" where
  "wait_over api h w \<longleftrightarrow> fst (ta_wait api h w) \<in> {WAIT_OBJECT_0, WAIT_FAILED}"

lemma wait_loop_unfold:
  "wait_loop api h w = (if wait_over api h w then Some (ta_wait api h w)
                        else wait_loop api h (snd (ta_wait api h w)))"
  by (subst wait_loop.simps) (simp add: wait_over_def)

lemma wait_loop_reached:
  "wait_over api h (wait_world api h n w) \<Longrightarrow> (\<And>m. m < n \<Longrightarrow> \<not> wait_over api h (wait_world api h m w)) \<Longrightarrow>
   wait_loop api h w = Some (ta_wait api h (wait_world api h n w))"
proof (induction n arbitrary: w)
  case 0
  then show ?case by (subst wait_loop_unfold) simp
next
  case (Suc n)
  have "\<not> wait_over api h w" using Suc.prems(2) [of 0] by simp
  moreover have "wait_loop api h (snd (ta_wait api h w))
      = Some (ta_wait api h (wait_world api h n (snd (ta_wait api h w))))"
    using Suc.prems(1) Suc.prems(2) [of "Suc _"] by (intro Suc.IH) simp_all
  ultimately show ?case by (subst wait_loop_unfold) simp
qed

lemma wait_loop_Some:
  assumes "wait_loop api h w = Some r"
  shows "\<exists>n. wait_over api h (wait_world api h n w) \<and> r = ta_wait api h (wait_world api h n w)"
proof (rule wait_loop.raw_induct [OF _ assms])
  fix f :: "'a thr_api \<Rightarrow> nat \<Rightarrow> 'a \<Rightarrow> (wait_result \<times> 'a) option" and api h w r
  assume IH: "\<And>api h w r. f api h w = Some r \<Longrightarrow>
      \<exists>n. wait_over api h (wait_world api h n w) \<and> r = ta_wait api h (wait_world api h n w)"
    and run: "(if fst (ta_wait api h w) \<noteq> WAIT_OBJECT_0 \<and> fst (ta_wait api h w) \<noteq> WAIT_FAILED
      then f api h (snd (ta_wait api h w)) else Some (ta_wait api h w)) = Some r"
  show "\<exists>n. wait_over api h (wait_world api h n w) \<and> r = ta_wait api h (wait_world api h n w)"
  proof (cases "wait_over api h w")
    case True
    then have "r = ta_wait api h w" using run by (auto simp: wait_over_def split: if_splits)
    then show ?thesis using True by (intro exI [of _ 0]) simp
  next
    case False
    then have "f api h (snd (ta_wait api h w)) = Some r"
      using run by (auto simp: wait_over_def split: if_splits)
    from IH [OF this] obtain n where "wait_over api h (wait_world api h n (snd (ta_wait api h w)))"
      "r = ta_wait api h (wait_world api h n (snd (ta_wait api h w)))" by blast
    then show ?thesis by (intro exI [of _ "Suc n"]) simp
  qed
qed


text \<open>
  A join whose wait fails returns \<open>-1\<close>, the value of \<^verbatim>\<open>wpdk_last_error\<close>, where an error number
  is promised; and the thread has been detached all the same.
\<close>

theorem join_wait_failed:
  assumes "thread \<noteq> 0" "thread \<noteq> ta_self api (world s)"
    and "wpdk_get_thread_info thread s = (Some (h, i), s)" "wait_loop api h (world s) = Some (WAIT_FAILED, w)"
  shows "wpdk_pthread_join api thread s =
     (let (r, s') = wpdk_detach_thread api thread (int i)
                      (s\<lparr>world := w, errno := wpdk_convert_to_posix (ta_last_error api w)\<rparr>)
      in Some (- 1, r, s'))"
  using assms
  by (simp add: wpdk_pthread_join_def wpdk_last_error_def wpdk_windows_error_def set_errno_def split_beta
      Let_def)

definition failing_thr_api :: "nat thr_api" where
  "failing_thr_api = demo_thr_api\<lparr>ta_wait := (\<lambda>h. Pair WAIT_FAILED)\<rparr>"

theorem join_wait_failed_witness:
  "\<exists>r s'. wpdk_pthread_join failing_thr_api 77 (cf_sys demo_config3) = Some (- 1, r, s')"
proof -
  have cfg: "cf_sys demo_config3 = \<lparr>errno = 0, fault = False, world = 6,
      th_heap = [5 \<mapsto> zero_thread\<lparr>th_start := 9, th_arg := 4, th_id := 77, th_h := 1\<rparr>],
      th_table = Some ((\<lambda>i. None)(0 := Some 5)), hwmthreads = 1\<rparr>"
    by (simp add: demo_config3_def demo_config2_def demo_config1_def demo_allocate
        write_block_def wpdk_set_thread_info_def Let_def)
  have "wpdk_get_thread_info 77 (cf_sys demo_config3) = (Some (1, 0), cf_sys demo_config3)"
    by (simp add: cfg wpdk_get_thread_info_def slot_matches_def slot_block_def Let_def)
  moreover have "wait_loop failing_thr_api 1 w = Some (WAIT_FAILED, w)" for w
    by (subst wait_loop.simps) (simp add: failing_thr_api_def)
  moreover have "(77 :: nat) \<noteq> ta_self failing_thr_api w" for w
    by (simp add: failing_thr_api_def demo_thr_api_def)
  ultimately show ?thesis
    using join_wait_failed [of 77 failing_thr_api "cf_sys demo_config3" 1 0] by (simp add: split_beta)
qed

text \<open>
  Until its creator has filled it in, a new block has the identifier \<open>0\<close>. \<^verbatim>\<open>wpdk_pthread_detach\<close>
  does not reject that identifier: called with it at that moment, it frees the block, and the
  creator writes to freed memory.
\<close>

theorem detach_zero_use_after_free:
  assumes "thr_inv c" "cf_allocated c = {}" "cf_prepared c = {}" "wpdk_allocate_thread api (cf_sys c) = (Some a, s')"
    and "th_heap (cf_sys c) a = None" "fst (ta_calloc api (calloc_world api (cf_sys c))) = Some a"
  shows "fst (wpdk_pthread_detach api 0 s') = 0
       \<and> fault (write_block a f (snd (wpdk_pthread_detach api 0 s')))"
proof -
  let ?c = "c\<lparr>cf_sys := s', cf_allocated := cf_allocated c \<union> set_option (Some a)\<rparr>"
  have fresh: "\<forall>b. fst (ta_calloc api (calloc_world api (cf_sys c))) = Some b \<longrightarrow> th_heap (cf_sys c) b = None"
    using assms(5,6) by simp
  have inv: "thr_inv ?c" using step_allocate_inv [OF assms(1,4) fresh] .
  obtain i where i: "table_at s' i = Some a" "th_heap s' a = Some (zero_thread\<lparr>th_index := int i\<rparr>)"
  proof (rule allocate_thread_cases [OF assms(4) fresh])
    fix b i assume "Some a = Some b" "th_heap s' = (th_heap (cf_sys c))(b \<mapsto> zero_thread\<lparr>th_index := int i\<rparr>)"
      "table_at s' = (table_at (cf_sys c))(i := Some b)"
    then show thesis using that [of i] by simp
  qed simp
  have other: "th_id t \<noteq> 0" if "th_heap s' b = Some t" "b \<noteq> a" for b t
    using thr_inv_block [OF inv, of b] that assms(2,3) by (simp add: block_ok_def)
  obtain tbl where tbl: "th_table s' = Some tbl" "tbl i = Some a"
    using i(1) by (auto simp: table_at_def split: option.splits)
  have ib: "i < hwmthreads s'" "i < maxthreads" using table_at_block [OF inv, of i a] i by auto
  have "scan (slot_matches (th_heap s') tbl 0) 0 (hwmthreads s') = i"
  proof (rule scan_unique [OF ib(1)])
    show "slot_matches (th_heap s') tbl 0 i" using i tbl by (simp add: slot_matches_def zero_thread_def)
    fix k assume k: "k < hwmthreads s'" "slot_matches (th_heap s') tbl 0 k"
    then obtain b where b: "tbl k = Some b" by (auto simp: slot_matches_def split: option.splits)
    then have at: "table_at (cf_sys ?c) k = Some b" using tbl by (simp add: table_at_Some)
    then obtain t where t: "th_heap s' b = Some t" "th_index t = int k"
      by (rule table_at_block [OF inv]) simp
    then have "th_id t = 0" using k b by (simp add: slot_matches_def)
    then have "b = a" using other t(1) by blast
    then show "k = i" using t i by (auto simp: zero_thread_def)
  qed
  then have "find_index 0 (- 1) s' = int i" using tbl by (simp add: find_index_def)
  then have ft: "find_thread 0 (- 1) (cf_sys ?c) = (Some (a, zero_thread\<lparr>th_index := int i\<rparr>), s')"
    using tbl i(2) ib(2) by (simp add: find_thread_def slot_block_def zero_thread_def)
  from detach_thread_found [OF inv ft, of api] show ?thesis
    by (simp add: wpdk_pthread_detach_def split_beta Let_def write_block_def zero_thread_def set_fault_def)
qed

theorem detach_zero_use_after_free_witness:
  "fault (write_block 5 (\<lambda>t. t\<lparr>th_start := 9\<rparr>)
     (snd (wpdk_pthread_detach demo_thr_api 0 (snd (wpdk_allocate_thread demo_thr_api demo_thr_sys)))))"
proof -
  have inv: "thr_inv demo_config" using demo_config_initial by (rule thr_initial_inv)
  have "cf_sys demo_config = demo_thr_sys" "cf_allocated demo_config = {}" "cf_prepared demo_config = {}"
    by (simp_all add: demo_config_def)
  moreover have "fst (ta_calloc demo_thr_api (calloc_world demo_thr_api demo_thr_sys)) = Some 5"
    "th_heap demo_thr_sys 5 = None"
    by (simp_all add: demo_thr_api_def demo_thr_sys_def calloc_world_def)
  moreover have "wpdk_allocate_thread demo_thr_api demo_thr_sys
      = (Some 5, snd (wpdk_allocate_thread demo_thr_api demo_thr_sys))"
    by (simp add: demo_allocate)
  ultimately show ?thesis
    using detach_zero_use_after_free [OF inv, of demo_thr_api 5] by simp
qed

end
