(* ===== verification/Codec.thy ===== *)
theory Codec
  imports WPDK_Prelude
begin

text \<open>
  The interface of a pair of conversions between two representations of the same values: each is
  the inverse of the other on the values that are valid. From the laws it follows that they are
  bijections, so that a comparison or a test made on one side decides the other.
\<close>

locale codec =
  fixes enc :: "'a \<Rightarrow> 'b"
    and dec :: "'b \<Rightarrow> 'a"
    and valid :: "'a \<Rightarrow> bool"
    and wf :: "'b \<Rightarrow> bool"
  assumes enc_wf: "valid x \<Longrightarrow> wf (enc x)"
    and dec_valid: "wf y \<Longrightarrow> valid (dec y)"
    and dec_enc: "valid x \<Longrightarrow> dec (enc x) = x"
    and enc_dec: "wf y \<Longrightarrow> enc (dec y) = y"
begin

lemma enc_eq_iff: "valid x \<Longrightarrow> valid y \<Longrightarrow> enc x = enc y \<longleftrightarrow> x = y"
  by (metis dec_enc)

lemma dec_eq_iff: "wf x \<Longrightarrow> wf y \<Longrightarrow> dec x = dec y \<longleftrightarrow> x = y"
  by (metis enc_dec)

lemma enc_bij: "bij_betw enc (Collect valid) (Collect wf)"
  by (rule bij_betw_byWitness [of _ dec]) (auto simp: enc_wf dec_valid dec_enc enc_dec)

end

end
