(* ===== verification/Uuid.thy ===== *)
theory Uuid
  imports C_String Codec "HOL-Library.Product_Lexorder" "HOL-Library.List_Lexorder"
begin

text \<open>
  \<^verbatim>\<open>src/uuid.c\<close>: universally unique identifiers. The two representations, the 16 bytes of \<^verbatim>\<open>uuid_t\<close>
  and the Windows structure \<^verbatim>\<open>UUID\<close>, are shown to be in bijection, for either byte order; printing
  and parsing are inverse; the comparison is the linear order on the Windows structure.
\<close>

unbundle bit_operations_syntax

section \<open>Model\<close>

type_synonym byte = "8 word"

record UUID =
  Data1 :: "32 word"
  Data2 :: "16 word"
  Data3 :: "16 word"
  Data4 :: "byte list"

text \<open>A pointer into an array of bytes is the array and an offset.\<close>

definition put_uint32 :: "32 word \<Rightarrow> byte list \<Rightarrow> nat \<Rightarrow> bool \<Rightarrow> byte list" where
  "put_uint32 v dest cp little_endian =
     (if little_endian
      then dest[cp + 3 := ucast (drop_bit 24 v), cp + 2 := ucast (drop_bit 16 v),
                cp + 1 := ucast (drop_bit 8 v), cp := ucast v]
      else dest[cp := ucast (drop_bit 24 v), cp + 1 := ucast (drop_bit 16 v),
                cp + 2 := ucast (drop_bit 8 v), cp + 3 := ucast v])"

definition put_uint16 :: "16 word \<Rightarrow> byte list \<Rightarrow> nat \<Rightarrow> bool \<Rightarrow> byte list" where
  "put_uint16 v dest cp little_endian =
     (if little_endian then dest[cp + 1 := ucast (drop_bit 8 v), cp := ucast v]
      else dest[cp := ucast (drop_bit 8 v), cp + 1 := ucast v])"

definition get_uint32 :: "byte list \<Rightarrow> nat \<Rightarrow> bool \<Rightarrow> 32 word" where
  "get_uint32 src cp little_endian =
     (if little_endian
      then push_bit 24 (ucast (src ! (cp + 3))) OR push_bit 16 (ucast (src ! (cp + 2)))
             OR push_bit 8 (ucast (src ! (cp + 1))) OR ucast (src ! cp)
      else push_bit 24 (ucast (src ! cp)) OR push_bit 16 (ucast (src ! (cp + 1)))
             OR push_bit 8 (ucast (src ! (cp + 2))) OR ucast (src ! (cp + 3)))"

definition get_uint16 :: "byte list \<Rightarrow> nat \<Rightarrow> bool \<Rightarrow> 16 word" where
  "get_uint16 src cp little_endian =
     (if little_endian then push_bit 8 (ucast (src ! (cp + 1))) OR ucast (src ! cp)
      else push_bit 8 (ucast (src ! cp)) OR ucast (src ! (cp + 1)))"

definition is_little_endian :: "byte \<Rightarrow> bool" where
  "is_little_endian v \<longleftrightarrow> v AND 0xe0 = 0xc0"

text \<open>\<^verbatim>\<open>memcpy(&dest[k], src, n)\<close> on arrays of bytes.\<close>

definition copy_at :: "byte list \<Rightarrow> nat \<Rightarrow> byte list \<Rightarrow> byte list" where
  "copy_at dest k src = take k dest @ src @ drop (k + length src) dest"

definition uuid_to_bytes :: "UUID \<Rightarrow> byte list \<Rightarrow> byte list" where
  "uuid_to_bytes src dest =
     (let le = is_little_endian (Data4 src ! 0);
          dest1 = put_uint32 (Data1 src) dest 0 le;
          dest2 = put_uint16 (Data2 src) dest1 4 le;
          dest3 = put_uint16 (Data3 src) dest2 6 le
      in copy_at dest3 8 (Data4 src))"

definition bytes_to_uuid :: "byte list \<Rightarrow> UUID" where
  "bytes_to_uuid src =
     (let le = is_little_endian (src ! 8)
      in \<lparr>Data1 = get_uint32 src 0 le, Data2 = get_uint16 src 4 le,
          Data3 = get_uint16 src 6 le, Data4 = take 8 (drop 8 src)\<rparr>)"

definition wpdk_uuid_clear :: "byte list \<Rightarrow> byte list" where
  "wpdk_uuid_clear uu = copy_at uu 0 (replicate 16 0)"

definition wpdk_uuid_copy :: "byte list \<Rightarrow> byte list \<Rightarrow> byte list" where
  "wpdk_uuid_copy dst src = copy_at dst 0 (take 16 src)"

definition wpdk_uuid_is_null :: "byte list \<Rightarrow> int" where
  "wpdk_uuid_is_null uu = (if scan (\<lambda>i. uu ! i \<noteq> 0) 0 16 < 16 then 0 else 1)"

datatype rpc_status = RPC_S_OK | RPC_S_UUID_LOCAL_ONLY | RPC_S_UUID_NO_ADDRESS | RPC_S_INVALID_STRING_UUID

text \<open>
  \<^verbatim>\<open>UuidCreate\<close> is a parameter; \<open>None\<close> is the end of the process in \<^verbatim>\<open>WPDK_FATAL_ERROR\<close>.
\<close>

definition wpdk_uuid_generate :: "('w \<Rightarrow> (rpc_status \<times> UUID) \<times> 'w) \<Rightarrow> byte list \<Rightarrow> 'w \<Rightarrow> (byte list \<times> 'w) option" where
  "wpdk_uuid_generate UuidCreate out w =
     (let ((rc, u), w') = UuidCreate w
      in if rc \<noteq> RPC_S_OK \<and> rc \<noteq> RPC_S_UUID_LOCAL_ONLY then None else Some (uuid_to_bytes u out, w'))"

text \<open>\<^verbatim>\<open>UuidFromString\<close> is a parameter. The array is unchanged when the string is refused.\<close>

definition wpdk_uuid_parse :: "(string \<Rightarrow> rpc_status \<times> UUID) \<Rightarrow> string \<Rightarrow> byte list \<Rightarrow> int \<times> byte list" where
  "wpdk_uuid_parse UuidFromString s uu =
     (let (rc, u) = UuidFromString s
      in if rc = RPC_S_OK then (0, uuid_to_bytes u uu) else (- 1, uu))"

text \<open>\<^verbatim>\<open>memcmp\<close>, of which only the sign is specified.\<close>

fun memcmp :: "byte list \<Rightarrow> byte list \<Rightarrow> int" where
  "memcmp (x # xs) (y # ys) = (if x = y then memcmp xs ys else if x < y then - 1 else 1)"
| "memcmp _ _ = 0"

definition wpdk_uuid_compare :: "byte list \<Rightarrow> byte list \<Rightarrow> int" where
  "wpdk_uuid_compare uu1 uu2 =
     (let id1 = bytes_to_uuid uu1; id2 = bytes_to_uuid uu2
      in if Data1 id1 \<noteq> Data1 id2 then (if Data1 id1 < Data1 id2 then - 1 else 1)
         else if Data2 id1 \<noteq> Data2 id2 then (if Data2 id1 < Data2 id2 then - 1 else 1)
         else if Data3 id1 \<noteq> Data3 id2 then (if Data3 id1 < Data3 id2 then - 1 else 1)
         else memcmp (Data4 id1) (Data4 id2))"

text \<open>The conversions \<^verbatim>\<open>%0nX\<close> (\<open>upper\<close>) and \<^verbatim>\<open>%0nx\<close> of \<^verbatim>\<open>sprintf\<close>.\<close>

definition hex_digit :: "bool \<Rightarrow> nat \<Rightarrow> char" where
  "hex_digit upper d = (if d < 10 then char_of (48 + d) else char_of ((if upper then 55 else 87) + d))"

fun hex_string :: "bool \<Rightarrow> nat \<Rightarrow> string" where
  "hex_string upper n =
     (if n < 16 then [hex_digit upper n] else hex_string upper (n div 16) @ [hex_digit upper (n mod 16)])"

declare hex_string.simps [simp del]

definition fmt_hex :: "bool \<Rightarrow> nat \<Rightarrow> nat \<Rightarrow> string" where
  "fmt_hex upper width n =
     (let s = hex_string upper n in replicate (width - length s) (CHR ''0'') @ s)"

definition sprintf_uuid :: "bool \<Rightarrow> UUID \<Rightarrow> string" where
  "sprintf_uuid upper u =
     (let d4 = (\<lambda>i. fmt_hex upper 2 (unat (Data4 u ! i)))
      in fmt_hex upper 8 (unat (Data1 u)) @ ''-'' @ fmt_hex upper 4 (unat (Data2 u)) @ ''-''
         @ fmt_hex upper 4 (unat (Data3 u)) @ ''-'' @ d4 0 @ d4 1 @ ''-''
         @ d4 2 @ d4 3 @ d4 4 @ d4 5 @ d4 6 @ d4 7)"

definition wpdk_uuid_unparse_upper :: "byte list \<Rightarrow> string" where
  "wpdk_uuid_unparse_upper uu = sprintf_uuid True (bytes_to_uuid uu)"

definition wpdk_uuid_unparse_lower :: "byte list \<Rightarrow> string" where
  "wpdk_uuid_unparse_lower uu = sprintf_uuid False (bytes_to_uuid uu)"

definition wpdk_uuid_unparse :: "byte list \<Rightarrow> string" where
  "wpdk_uuid_unparse uu = wpdk_uuid_unparse_upper uu"

section \<open>The two representations\<close>

lemma get_uint32_split:
  fixes v :: "32 word"
  shows "push_bit 24 (ucast (ucast (drop_bit 24 v) :: byte)) OR push_bit 16 (ucast (ucast (drop_bit 16 v) :: byte))
     OR push_bit 8 (ucast (ucast (drop_bit 8 v) :: byte)) OR ucast (ucast v :: byte) = v" (is "?l = v")
proof (rule bit_word_eqI)
  fix n :: nat
  assume n: "n < LENGTH(32)"
  consider "n < 8" | "8 \<le> n" "n < 16" | "16 \<le> n" "n < 24" | "24 \<le> n" by linarith
  then show "bit ?l n = bit v n" using n by cases (auto simp: bit_simps)
qed

lemma get_uint16_split:
  "push_bit 8 (ucast (ucast (drop_bit 8 v) :: byte)) OR ucast (ucast v :: byte) = (v :: 16 word)"
  by (rule bit_word_eqI) (auto simp: bit_simps)

lemma uint32_bytes:
  fixes a b c d :: byte
  defines "v \<equiv> (push_bit 24 (ucast a) OR push_bit 16 (ucast b) OR push_bit 8 (ucast c) OR ucast d) :: 32 word"
  shows "ucast (drop_bit 24 v) = a" "ucast (drop_bit 16 v) = b" "ucast (drop_bit 8 v) = c" "ucast v = d"
  unfolding v_def by (rule bit_word_eqI; auto simp: bit_simps dest: bit_imp_le_length)+

lemma uint16_bytes:
  fixes a b :: byte
  defines "v \<equiv> (push_bit 8 (ucast a) OR ucast b) :: 16 word"
  shows "ucast (drop_bit 8 v) = a" "ucast v = b"
  unfolding v_def by (rule bit_word_eqI; auto simp: bit_simps dest: bit_imp_le_length)+

definition valid_uuid :: "UUID \<Rightarrow> bool" where
  "valid_uuid u \<longleftrightarrow> length (Data4 u) = 8"

definition wf_uuid :: "byte list \<Rightarrow> bool" where
  "wf_uuid uu \<longleftrightarrow> length uu = 16"

lemma list16:
  assumes "length xs = 16"
  obtains a b c d e f g h i j k l m n p q where "xs = [a, b, c, d, e, f, g, h, i, j, k, l, m, n, p, q]"
  using assms by (auto simp: numeral_eq_Suc length_Suc_conv)

lemma list8:
  assumes "length xs = 8"
  obtains a b c d e f g h where "xs = [a, b, c, d, e, f, g, h]"
  using assms by (auto simp: numeral_eq_Suc length_Suc_conv)

lemma uuid_to_bytes_decode:
  assumes "wf_uuid uu" "wf_uuid dest"
  shows "uuid_to_bytes (bytes_to_uuid uu) dest = uu"
proof -
  obtain a b c d e f g h i j k l m n p q where uu: "uu = [a, b, c, d, e, f, g, h, i, j, k, l, m, n, p, q]"
    by (rule list16 [OF assms(1) [unfolded wf_uuid_def]])
  obtain a' b' c' d' e' f' g' h' i' j' k' l' m' n' p' q'
    where "dest = [a', b', c', d', e', f', g', h', i', j', k', l', m', n', p', q']"
    by (rule list16 [OF assms(2) [unfolded wf_uuid_def]])
  with uu show ?thesis
    by (simp add: uuid_to_bytes_def bytes_to_uuid_def put_uint32_def put_uint16_def get_uint32_def
        get_uint16_def copy_at_def uint32_bytes uint16_bytes Let_def del: drop_bit_or)
qed

lemma bytes_to_uuid_encode:
  assumes "valid_uuid u" "wf_uuid dest"
  shows "bytes_to_uuid (uuid_to_bytes u dest) = u"
proof -
  obtain a b c d e f g h where u: "Data4 u = [a, b, c, d, e, f, g, h]"
    by (rule list8 [OF assms(1) [unfolded valid_uuid_def]])
  obtain a' b' c' d' e' f' g' h' i' j' k' l' m' n' p' q'
    where "dest = [a', b', c', d', e', f', g', h', i', j', k', l', m', n', p', q']"
    by (rule list16 [OF assms(2) [unfolded wf_uuid_def]])
  with u show ?thesis
    by (cases u) (simp add: uuid_to_bytes_def bytes_to_uuid_def put_uint32_def put_uint16_def get_uint32_def
        get_uint16_def copy_at_def get_uint32_split get_uint16_split Let_def)
qed

lemma wf_uuid_to_bytes:
  "valid_uuid u \<Longrightarrow> wf_uuid dest \<Longrightarrow> wf_uuid (uuid_to_bytes u dest)"
  by (simp add: valid_uuid_def wf_uuid_def uuid_to_bytes_def copy_at_def put_uint32_def put_uint16_def Let_def)

lemma valid_bytes_to_uuid: "wf_uuid uu \<Longrightarrow> valid_uuid (bytes_to_uuid uu)"
  by (simp add: valid_uuid_def wf_uuid_def bytes_to_uuid_def Let_def)

lemma wf_replicate: "wf_uuid (replicate 16 0)"
  by (simp add: wf_uuid_def)

interpretation uuid_codec: codec "\<lambda>u. uuid_to_bytes u (replicate 16 0)" bytes_to_uuid valid_uuid wf_uuid
  by unfold_locales (simp_all add: wf_uuid_to_bytes valid_bytes_to_uuid bytes_to_uuid_encode
      uuid_to_bytes_decode wf_replicate)

section \<open>Printing and parsing\<close>

text \<open>
  The documented behaviour of \<^verbatim>\<open>UuidFromString\<close>: it accepts 36 characters, hexadecimal digits of
  either case in groups of 8, 4, 4, 4 and 12 that are separated by hyphens.
\<close>

definition hex_val :: "char \<Rightarrow> nat option" where
  "hex_val c = (let n = of_char c :: nat in
     if 48 \<le> n \<and> n \<le> 57 then Some (n - 48)
     else if 65 \<le> n \<and> n \<le> 70 then Some (n - 55)
     else if 97 \<le> n \<and> n \<le> 102 then Some (n - 87) else None)"

fun hex_num :: "nat \<Rightarrow> string \<Rightarrow> nat option" where
  "hex_num acc [] = Some acc"
| "hex_num acc (c # cs) = (case hex_val c of None \<Rightarrow> None | Some d \<Rightarrow> hex_num (16 * acc + d) cs)"

definition hex_field :: "string \<Rightarrow> nat \<Rightarrow> nat \<Rightarrow> nat option" where
  "hex_field s k n = hex_num 0 (take n (drop k s))"

definition guid_parse :: "string \<Rightarrow> UUID option" where
  "guid_parse s =
     (if length s = 36 \<and> (\<forall>k \<in> set [8, 13, 18, 23]. s ! k = CHR ''-'')
      then Option.bind (hex_field s 0 8) (\<lambda>a. Option.bind (hex_field s 9 4) (\<lambda>b.
           Option.bind (hex_field s 14 4) (\<lambda>c.
           Option.bind (those (map (\<lambda>k. hex_field s k 2) [19, 21, 24, 26, 28, 30, 32, 34])) (\<lambda>d.
             Some \<lparr>Data1 = of_nat a, Data2 = of_nat b, Data3 = of_nat c, Data4 = map of_nat d\<rparr>))))
      else None)"

lemma hex_val_digit: "d < 16 \<Longrightarrow> hex_val (hex_digit upper d) = Some d"
  by (auto simp: hex_val_def hex_digit_def Let_def)

lemma hex_num_append: "hex_num acc (s @ t) = Option.bind (hex_num acc s) (\<lambda>a. hex_num a t)"
  by (induction acc s rule: hex_num.induct) (auto split: option.split)

lemma hex_num_zeros: "hex_num 0 (replicate k (CHR ''0'')) = Some 0"
  by (induction k) (simp_all add: hex_val_def)

lemma hex_num_hex_string: "hex_num 0 (hex_string upper n) = Some n"
proof (induction upper n rule: hex_string.induct)
  case (1 upper n)
  then show ?case
    by (subst hex_string.simps) (auto simp: hex_num_append hex_val_digit)
qed

lemma length_hex_string: "n < 16 ^ w \<Longrightarrow> 0 < w \<Longrightarrow> length (hex_string upper n) \<le> w"
proof (induction w arbitrary: n)
  case (Suc w)
  show ?case
  proof (cases "n < 16")
    case False
    then have "n div 16 < 16 ^ w" "0 < w"
      using Suc.prems(1) by (auto simp: less_mult_imp_div_less mult.commute intro: Nat.gr0I)
    then show ?thesis using Suc.IH [of "n div 16"] False by (subst hex_string.simps) simp
  qed (simp add: hex_string.simps)
qed simp

lemma length_fmt_hex: "n < 16 ^ w \<Longrightarrow> 0 < w \<Longrightarrow> length (fmt_hex upper w n) = w"
  using length_hex_string [of n w upper] by (simp add: fmt_hex_def Let_def)

lemma hex_num_fmt_hex: "hex_num 0 (fmt_hex upper w n) = Some n"
  by (simp add: fmt_hex_def Let_def hex_num_append hex_num_zeros hex_num_hex_string)

lemma word_fields:
  "unat (x :: 32 word) < 16 ^ 8" "unat (y :: 16 word) < 16 ^ 4" "unat (z :: byte) < 16 ^ 2"
  using unsigned_less [of x, where ?'a = nat] unsigned_less [of y, where ?'a = nat]
    unsigned_less [of z, where ?'a = nat] by simp_all

lemma length_fields [simp]:
  "length (fmt_hex upper 8 (unat (x :: 32 word))) = 8"
  "length (fmt_hex upper 4 (unat (y :: 16 word))) = 4"
  "length (fmt_hex upper 2 (unat (z :: byte))) = 2"
  by (simp_all add: length_fmt_hex word_fields del: power_numeral)

lemma guid_parse_sprintf:
  assumes "valid_uuid u"
  shows "guid_parse (sprintf_uuid upper u) = Some u"
proof -
  obtain a b c d e f g h where u: "Data4 u = [a, b, c, d, e, f, g, h]"
    by (rule list8 [OF assms(1) [unfolded valid_uuid_def]])
  show ?thesis
    by (cases u) (use u in \<open>simp add: guid_parse_def sprintf_uuid_def hex_field_def nth_append
        hex_num_fmt_hex take_append drop_append\<close>)
qed

text \<open>
  C15. An identifier that is printed, in either case, and parsed again is the identifier itself,
  whatever its byte order.
\<close>

theorem uuid_parse_unparse:
  assumes "\<forall>s u. guid_parse s = Some u \<longrightarrow> UuidFromString s = (RPC_S_OK, u)"
    and "length uu = 16" "length dest = 16"
  shows "wpdk_uuid_parse UuidFromString (wpdk_uuid_unparse uu) dest = (0, uu)
       \<and> wpdk_uuid_parse UuidFromString (wpdk_uuid_unparse_lower uu) dest = (0, uu)"
proof -
  have "valid_uuid (bytes_to_uuid uu)" using assms(2) by (simp add: wf_uuid_def valid_bytes_to_uuid)
  then have "UuidFromString (sprintf_uuid upper (bytes_to_uuid uu)) = (RPC_S_OK, bytes_to_uuid uu)" for upper
    using assms(1) guid_parse_sprintf by blast
  then show ?thesis using assms(2,3)
    by (simp add: wpdk_uuid_parse_def wpdk_uuid_unparse_def wpdk_uuid_unparse_upper_def
        wpdk_uuid_unparse_lower_def uuid_to_bytes_decode wf_uuid_def)
qed

definition demo_UuidFromString :: "string \<Rightarrow> rpc_status \<times> UUID" where
  "demo_UuidFromString s =
     (case guid_parse s of
        Some u \<Rightarrow> (RPC_S_OK, u)
      | None \<Rightarrow> (RPC_S_INVALID_STRING_UUID, \<lparr>Data1 = 0, Data2 = 0, Data3 = 0, Data4 = replicate 8 0\<rparr>))"

definition demo_uuid :: "byte list" where
  "demo_uuid = [0x12, 0x34, 0x56, 0x78, 0x9a, 0xbc, 0x4d, 0xef, 0x80, 1, 2, 3, 4, 5, 6, 7]"

theorem uuid_parse_unparse_witness:
  "wpdk_uuid_parse demo_UuidFromString (wpdk_uuid_unparse demo_uuid) (replicate 16 0) = (0, demo_uuid)"
  using uuid_parse_unparse [of demo_UuidFromString demo_uuid "replicate 16 0"]
  by (simp add: demo_UuidFromString_def demo_uuid_def)

section \<open>Order\<close>

instantiation UUID_ext :: (linorder) linorder
begin

definition less_eq_UUID_ext :: "'a UUID_scheme \<Rightarrow> 'a UUID_scheme \<Rightarrow> bool" where
  "u \<le> v \<longleftrightarrow> (Data1 u, Data2 u, Data3 u, Data4 u, UUID.more u) \<le> (Data1 v, Data2 v, Data3 v, Data4 v, UUID.more v)"

definition less_UUID_ext :: "'a UUID_scheme \<Rightarrow> 'a UUID_scheme \<Rightarrow> bool" where
  "u < v \<longleftrightarrow> (Data1 u, Data2 u, Data3 u, Data4 u, UUID.more u) < (Data1 v, Data2 v, Data3 v, Data4 v, UUID.more v)"

instance
proof
  fix u v w :: "'a UUID_scheme"
  show "u < v \<longleftrightarrow> u \<le> v \<and> \<not> v \<le> u" "u \<le> u" "u \<le> v \<or> v \<le> u"
    by (auto simp: less_eq_UUID_ext_def less_UUID_ext_def)
  show "u \<le> w" if "u \<le> v" "v \<le> w" using that unfolding less_eq_UUID_ext_def by (rule order_trans)
  show "u = v" if "u \<le> v" "v \<le> u"
    using that unfolding less_eq_UUID_ext_def by (cases u, cases v) (metis UUID.select_convs prod.inject dual_order.antisym)
qed

end

lemma less_UUID_iff:
  fixes u v :: UUID
  shows "u < v \<longleftrightarrow> Data1 u < Data1 v \<or> Data1 u = Data1 v \<and> (Data2 u < Data2 v \<or> Data2 u = Data2 v \<and>
     (Data3 u < Data3 v \<or> Data3 u = Data3 v \<and> Data4 u < Data4 v))"
  by (auto simp: less_UUID_ext_def less_prod_def)

lemma memcmp_cases:
  "length xs = length ys \<Longrightarrow> memcmp xs ys = (if xs = ys then 0 else if xs < ys then - 1 else 1)"
  by (induction xs ys rule: memcmp.induct) auto

text \<open>
  C31. \<^verbatim>\<open>wpdk_uuid_compare\<close> is a linear order on the 16 bytes: it is the order of the structures
  that they encode, and returns 0 on equal identifiers only.
\<close>

theorem uuid_compare_order:
  assumes "length uu1 = 16" "length uu2 = 16"
  shows "wpdk_uuid_compare uu1 uu2 =
     (if uu1 = uu2 then 0 else if bytes_to_uuid uu1 < bytes_to_uuid uu2 then - 1 else 1)"
proof -
  have "uu1 = uu2 \<longleftrightarrow> bytes_to_uuid uu1 = bytes_to_uuid uu2"
    using assms uuid_codec.dec_eq_iff by (simp add: wf_uuid_def)
  moreover have "length (Data4 (bytes_to_uuid uu1)) = length (Data4 (bytes_to_uuid uu2))"
    using assms valid_bytes_to_uuid by (simp add: wf_uuid_def valid_uuid_def)
  ultimately show ?thesis
    unfolding wpdk_uuid_compare_def Let_def
    by (simp add: memcmp_cases less_UUID_iff UUID.equality)
qed

theorem uuid_compare_order_witness:
  "wpdk_uuid_compare [0, 0, 0, 0, 0, 0, 0, 0, 0, 0, 0, 0, 0, 0, 0, 0] demo_uuid = - 1"
  using uuid_compare_order [of "[0, 0, 0, 0, 0, 0, 0, 0, 0, 0, 0, 0, 0, 0, 0, 0]" demo_uuid]
  by (simp add: demo_uuid_def less_UUID_iff bytes_to_uuid_def get_uint32_def get_uint16_def
      is_little_endian_def Let_def)

end
