(* ===== verification/Fifo.thy ===== *)
theory Fifo
  imports WPDK_Prelude
begin

text \<open>
  The interface of a first-in first-out queue with bounded room, as the completion ring of
  \<^verbatim>\<open>src/aio.c\<close> and the tail queues of \<^verbatim>\<open>inc/sys/queue.h\<close> provide it, and what a client that fills
  and drains such a queue can rely on.
\<close>

locale fifo =
  fixes enq :: "'x \<Rightarrow> 'q \<Rightarrow> 'q"
    and deq :: "'q \<Rightarrow> ('x \<times> 'q) option"
    and contents :: "'q \<Rightarrow> 'x list"
    and room :: "'q \<Rightarrow> nat"
    and inv :: "'q \<Rightarrow> bool"
  assumes inv_enq: "inv q \<Longrightarrow> 0 < room q \<Longrightarrow> inv (enq x q)"
    and contents_enq: "inv q \<Longrightarrow> 0 < room q \<Longrightarrow> contents (enq x q) = contents q @ [x]"
    and room_enq: "inv q \<Longrightarrow> 0 < room q \<Longrightarrow> room q \<le> Suc (room (enq x q))"
    and deq_None: "inv q \<Longrightarrow> deq q = None \<longleftrightarrow> contents q = []"
    and deq_Some: "inv q \<Longrightarrow> deq q = Some (x, q') \<Longrightarrow> inv q' \<and> contents q = x # contents q'"
begin

fun drain :: "nat \<Rightarrow> 'q \<Rightarrow> 'x list \<times> 'q" where
  "drain 0 q = ([], q)"
| "drain (Suc n) q =
     (case deq q of None \<Rightarrow> ([], q) | Some (x, q') \<Rightarrow> let (xs, q'') = drain n q' in (x # xs, q''))"

lemma fill:
  assumes "inv q" "length xs \<le> room q"
  shows "inv (fold enq xs q) \<and> contents (fold enq xs q) = contents q @ xs"
  using assms
proof (induction xs arbitrary: q)
  case (Cons x xs)
  then have r: "0 < room q" by auto
  then have "length xs \<le> room (enq x q)" using Cons.prems room_enq [OF Cons.prems(1) r, of x] by simp
  then show ?case
    using Cons.IH [of "enq x q"] Cons.prems(1) r by (simp add: inv_enq contents_enq)
qed simp

lemma drain_spec:
  "inv q \<Longrightarrow> fst (drain n q) = take n (contents q) \<and> contents (snd (drain n q)) = drop n (contents q)
     \<and> inv (snd (drain n q))"
proof (induction n arbitrary: q)
  case (Suc n)
  show ?case
  proof (cases "deq q")
    case None
    then have "contents q = []" using deq_None [OF Suc.prems] by simp
    then show ?thesis using None Suc.prems by simp
  next
    case (Some p)
    obtain x q' where "p = (x, q')" by (cases p)
    then show ?thesis using Some Suc.IH [of q'] deq_Some [OF Suc.prems, of x q'] by (simp add: split_beta)
  qed
qed simp

text \<open>What is put in comes out once, in order.\<close>

lemma fill_drain:
  assumes "inv q" "contents q = []" "length xs \<le> room q" "length xs \<le> n"
  shows "fst (drain n (fold enq xs q)) = xs"
  using fill [OF assms(1,3)] drain_spec [of "fold enq xs q" n] assms(2,4) by simp

end

end
