(* ===== verification/Aio.thy ===== *)
theory Aio
  imports Error_Map Fifo
begin

text \<open>
  \<^verbatim>\<open>src/aio.c\<close>: the Linux asynchronous I/O interface. A context holds a ring of completion events; a
  request is carried out by \<^verbatim>\<open>ReadFile\<close> or \<^verbatim>\<open>WriteFile\<close> and, when the transfer ends at once, its event
  is stored in the ring. A vector request is split into one transfer for each element, and the last
  one to end stores the event. Nothing in the file handles the end of a transfer that Windows has
  left pending: its task is never touched again.
\<close>

section \<open>State\<close>

datatype io_iocb_cmd = IO_CMD_PREAD | IO_CMD_PWRITE | IO_CMD_PREADV | IO_CMD_PWRITEV | IO_CMD_OTHER

text \<open>
  A request. \<open>aio_iov\<close> is the array that \<open>aio_buf\<close> points to when the request is a vector request.
\<close>

record iocb =
  aio_data :: ptr
  aio_lio_opcode :: io_iocb_cmd
  aio_fildes :: int
  aio_buf :: ptr
  aio_iov :: "iovec list"
  aio_nbytes :: int
  aio_offset :: int

text \<open>\<^verbatim>\<open>memset\<close> clears the request first; the array of a vector request is passed by its address.\<close>

definition io_prep :: "io_iocb_cmd \<Rightarrow> int \<Rightarrow> ptr \<Rightarrow> iovec list \<Rightarrow> int \<Rightarrow> int \<Rightarrow> iocb" where
  "io_prep cmd fd buf iov count offset =
     \<lparr>aio_data = 0, aio_lio_opcode = cmd, aio_fildes = fd, aio_buf = buf, aio_iov = iov,
      aio_nbytes = count, aio_offset = offset\<rparr>"

definition io_prep_pread :: "int \<Rightarrow> ptr \<Rightarrow> int \<Rightarrow> int \<Rightarrow> iocb" where
  "io_prep_pread fd buf count offset = io_prep IO_CMD_PREAD fd buf [] count offset"

definition io_prep_pwrite :: "int \<Rightarrow> ptr \<Rightarrow> int \<Rightarrow> int \<Rightarrow> iocb" where
  "io_prep_pwrite fd buf count offset = io_prep IO_CMD_PWRITE fd buf [] count offset"

definition io_prep_preadv :: "int \<Rightarrow> ptr \<Rightarrow> iovec list \<Rightarrow> int \<Rightarrow> int \<Rightarrow> iocb" where
  "io_prep_preadv fd buf iov iovcnt offset = io_prep IO_CMD_PREADV fd buf iov iovcnt offset"

definition io_prep_pwritev :: "int \<Rightarrow> ptr \<Rightarrow> iovec list \<Rightarrow> int \<Rightarrow> int \<Rightarrow> iocb" where
  "io_prep_pwritev fd buf iov iovcnt offset = io_prep IO_CMD_PWRITEV fd buf iov iovcnt offset"

lemmas io_prep_defs = io_prep_pread_def io_prep_pwrite_def io_prep_preadv_def io_prep_pwritev_def io_prep_def

record io_event =
  ev_data :: ptr
  ev_obj :: ptr
  ev_res :: int
  ev_res2 :: int

text \<open>
  \<^verbatim>\<open>struct io_context\<close> and \<^verbatim>\<open>struct io_header\<close>: the fields that are used.
\<close>

record io_header =
  io_size :: nat
  io_head :: nat
  io_tail :: nat
  io_events :: "io_event list"
  io_iocount :: int

text \<open>
  A task. The union of \<^verbatim>\<open>iocb\<close> and \<^verbatim>\<open>type\<close> holds the address of the request in the first task of an
  array, and in the others one of two addresses inside of the task, which tell whether the transfer
  was as long as requested. The union of \<^verbatim>\<open>data\<close> and \<^verbatim>\<open>result\<close> is used as \<^verbatim>\<open>data\<close> in the first task
  and as \<^verbatim>\<open>result\<close> in the others.
\<close>

datatype task_type = Type_iocb ptr | Type_iov | Type_result

record io_task =
  tk_active :: int
  tk_iovcnt :: int
  tk_offset :: int
  tk_type :: task_type
  tk_data :: int

definition zero_task :: io_task where
  "zero_task = \<lparr>tk_active = 0, tk_iovcnt = 0, tk_offset = 0, tk_type = Type_iocb 0, tk_data = 0\<rparr>"

definition zero_event :: io_event where
  "zero_event = \<lparr>ev_data = 0, ev_obj = 0, ev_res = 0, ev_res2 = 0\<rparr>"

text \<open>The pointer that the application keeps: NULL, a context, or one that has been freed.\<close>

datatype io_context_t = Ctx_null | Ctx io_header | Ctx_freed

record 'w aio_sys = "'w sys" +
  io_ctx :: io_context_t

text \<open>
  \<^verbatim>\<open>malloc\<close> and \<^verbatim>\<open>calloc\<close> (whether they succeed), \<^verbatim>\<open>_get_osfhandle\<close> (\<open>None\<close> is
  \<^verbatim>\<open>INVALID_HANDLE_VALUE\<close>), \<^verbatim>\<open>ReadFile\<close> and \<^verbatim>\<open>WriteFile\<close> (handle, buffer, length and offset; whether the
  call returns TRUE, and the number of bytes) and \<^verbatim>\<open>GetLastError\<close>.
\<close>

type_synonym 'w file_io = "nat \<Rightarrow> ptr \<Rightarrow> int \<Rightarrow> int \<Rightarrow> 'w \<Rightarrow> (bool \<times> int) \<times> 'w"

record 'w aio_api =
  aa_malloc :: "int \<Rightarrow> 'w \<Rightarrow> bool \<times> 'w"
  aa_calloc :: "int \<Rightarrow> 'w \<Rightarrow> bool \<times> 'w"
  aa_osfhandle :: "int \<Rightarrow> 'w \<Rightarrow> nat option"
  aa_read :: "'w file_io"
  aa_write :: "'w file_io"
  aa_last_error :: "'w \<Rightarrow> win_error"

definition on_header ::
  "(io_header \<Rightarrow> io_header) \<Rightarrow> ('w, 'z) aio_sys_scheme \<Rightarrow> ('w, 'z) aio_sys_scheme" where
  "on_header f s = (case io_ctx s of Ctx hdr \<Rightarrow> s\<lparr>io_ctx := Ctx (f hdr)\<rparr> | _ \<Rightarrow> set_fault s)"

section \<open>Contexts\<close>

definition wpdk_io_setup ::
  "'w aio_api \<Rightarrow> int \<Rightarrow> bool \<Rightarrow> ('w, 'z) aio_sys_scheme \<Rightarrow> int \<times> ('w, 'z) aio_sys_scheme" where
  "wpdk_io_setup api maxevents ctxp s =
     (if \<not> ctxp \<or> io_ctx s \<noteq> Ctx_null \<or> maxevents < 1 then (- EINVAL, set_errno EINVAL s)
      else
        (case os_call (aa_malloc api maxevents) s of
           (False, s1) \<Rightarrow> (- ENOMEM, set_errno ENOMEM s1)
         | (True, s1) \<Rightarrow>
             (0, s1\<lparr>io_ctx := Ctx \<lparr>io_size = nat maxevents, io_head = 0, io_tail = 0,
                     io_events = replicate (nat maxevents) zero_event, io_iocount = 0\<rparr>\<rparr>)))"

definition wpdk_io_destroy :: "('w, 'z) aio_sys_scheme \<Rightarrow> int \<times> ('w, 'z) aio_sys_scheme" where
  "wpdk_io_destroy s =
     (case io_ctx s of
        Ctx_null \<Rightarrow> (- EINVAL, set_errno EINVAL s)
      | Ctx _ \<Rightarrow> (0, s\<lparr>io_ctx := Ctx_freed\<rparr>)
      | Ctx_freed \<Rightarrow> (0, set_fault s))"

text \<open>
  The compare-and-exchange loop, for a context that is used by one thread: the first exchange
  succeeds.
\<close>

definition wpdk_aio_increment_iocount :: "('w, 'z) aio_sys_scheme \<Rightarrow> int \<times> ('w, 'z) aio_sys_scheme" where
  "wpdk_aio_increment_iocount s =
     (case io_ctx s of
        Ctx hdr \<Rightarrow>
          if int (io_size hdr) \<le> io_iocount hdr then (0, set_errno EAGAIN s)
          else (1, s\<lparr>io_ctx := Ctx (hdr\<lparr>io_iocount := io_iocount hdr + 1\<rparr>)\<rparr>)
      | _ \<Rightarrow> (1, set_fault s))"

definition wpdk_aio_decrement_iocount :: "('w, 'z) aio_sys_scheme \<Rightarrow> ('w, 'z) aio_sys_scheme" where
  "wpdk_aio_decrement_iocount s = on_header (\<lambda>hdr. hdr\<lparr>io_iocount := io_iocount hdr - 1\<rparr>) s"

section \<open>Tasks\<close>

definition wpdk_aio_allocate ::
  "'w aio_api \<Rightarrow> ptr \<Rightarrow> iocb \<Rightarrow> int \<Rightarrow> ('w, 'z) aio_sys_scheme
    \<Rightarrow> io_task list option \<times> ('w, 'z) aio_sys_scheme" where
  "wpdk_aio_allocate api a cb iovcnt s =
     (let n = (if 1 < iovcnt then iovcnt + 1 else 1);
          (ok, s1) = os_call (aa_calloc api n) s;
          (ok', s2) = (if ok then wpdk_aio_increment_iocount s1 else (0, s1));
          task = zero_task\<lparr>tk_data := int (aio_data cb), tk_type := Type_iocb a\<rparr>
      in if ok' = 0 then (None, set_errno EAGAIN s2)
         else if 1 < iovcnt
         then (Some (task\<lparr>tk_active := iovcnt + 1, tk_iovcnt := iovcnt\<rparr>
                     # replicate (nat iovcnt) (zero_task\<lparr>tk_type := Type_iov\<rparr>)), s2)
         else (Some [task], s2))"

definition wpdk_aio_free :: "('w, 'z) aio_sys_scheme \<Rightarrow> ('w, 'z) aio_sys_scheme" where
  "wpdk_aio_free s = wpdk_aio_decrement_iocount s"

text \<open>The event of a task that has ended, and its place in the ring.\<close>

definition task_event :: "io_task \<Rightarrow> int \<Rightarrow> io_event" where
  "task_event task res =
     \<lparr>ev_data = nat (tk_data task), ev_obj = (case tk_type task of Type_iocb a \<Rightarrow> a | _ \<Rightarrow> 0),
      ev_res = to_uint64 res, ev_res2 = 0\<rparr>"

definition ring_put :: "io_event \<Rightarrow> io_header \<Rightarrow> io_header" where
  "ring_put e hdr = hdr\<lparr>io_events := (io_events hdr)[io_tail hdr := e],
                        io_tail := (io_tail hdr + 1) mod io_size hdr\<rparr>"

definition wpdk_aio_task_done ::
  "io_task \<Rightarrow> int \<Rightarrow> ('w, 'z) aio_sys_scheme \<Rightarrow> ('w, 'z) aio_sys_scheme" where
  "wpdk_aio_task_done task res s = wpdk_aio_free (on_header (ring_put (task_event task res)) s)"

text \<open>
  The loop that adds up the results of the transfers.
\<close>

fun iov_result :: "io_task list \<Rightarrow> int \<Rightarrow> int" where
  "iov_result [] result = result"
| "iov_result (t # ts) result =
     (if 0 \<le> result
      then (let r = (if tk_data t < 0 then tk_data t else result + tk_data t)
            in if tk_type t = Type_result then r else iov_result ts r)
      else result)"

text \<open>
  \<open>None\<close> as the second component is an array that has been freed.
\<close>

definition wpdk_aio_iov_done ::
  "io_task list \<Rightarrow> int \<Rightarrow> ('w, 'z) aio_sys_scheme \<Rightarrow> int \<times> io_task list option \<times> ('w, 'z) aio_sys_scheme" where
  "wpdk_aio_iov_done task count s =
     (let t = hd task; active = tk_active t - count
      in if active = 0
         then (0, None,
               wpdk_aio_task_done (t\<lparr>tk_active := 0\<rparr>) (iov_result (take (nat (tk_iovcnt t)) (tl task)) 0) s)
         else (active, Some (t\<lparr>tk_active := active\<rparr> # tl task), s))"

text \<open>\<open>wpdk_aio_done task i res\<close> is the call on \<^verbatim>\<open>&task[i]\<close>.\<close>

definition wpdk_aio_done ::
  "io_task list \<Rightarrow> nat \<Rightarrow> int \<Rightarrow> ('w, 'z) aio_sys_scheme \<Rightarrow> io_task list option \<times> ('w, 'z) aio_sys_scheme" where
  "wpdk_aio_done task i res s =
     (let io = task ! i
      in if tk_type io = Type_iov
         then (let io' = io\<lparr>tk_type := (if res \<noteq> tk_data io then Type_result else Type_iov), tk_data := res\<rparr>;
                   (_, task', s') = wpdk_aio_iov_done (task[i := io']) 1 s
               in (task', s'))
         else (None, wpdk_aio_task_done io res s))"

definition wpdk_aio_iov_abort ::
  "'w aio_api \<Rightarrow> io_task list \<Rightarrow> nat \<Rightarrow> ('w, 'z) aio_sys_scheme \<Rightarrow> int \<times> ('w, 'z) aio_sys_scheme" where
  "wpdk_aio_iov_abort api task i s =
     (let rc = wpdk_convert_to_posix (aa_last_error api (world s));
          task1 = task[i := (task ! i)\<lparr>tk_data := - rc\<rparr>];
          (count, task2, s1) = wpdk_aio_iov_done task1 (tk_iovcnt (hd task) - int i + 1) s
      in if count = 1 then (- rc, set_errno rc (wpdk_aio_free s1))
         else (case task2 of
                 None \<Rightarrow> (EINTR, set_fault s1)
               | Some task3 \<Rightarrow> (EINTR, snd (snd (wpdk_aio_iov_done task3 1 s1)))))"

definition wpdk_aio_abort ::
  "'w aio_api \<Rightarrow> ('w, 'z) aio_sys_scheme \<Rightarrow> int \<times> ('w, 'z) aio_sys_scheme" where
  "wpdk_aio_abort api s =
     (let rc = wpdk_convert_to_posix (aa_last_error api (world s))
      in (- rc, set_errno rc (wpdk_aio_free s)))"

section \<open>Requests\<close>

text \<open>
  \<^verbatim>\<open>wpdk_aio_read\<close> and \<^verbatim>\<open>wpdk_aio_write\<close> have the same text but for the call of the system, the
  parameter \<open>rw\<close>; so have the vector requests below.
\<close>

definition aio_transfer ::
  "'w aio_api \<Rightarrow> 'w file_io \<Rightarrow> nat \<Rightarrow> ptr \<Rightarrow> iocb \<Rightarrow> ptr \<Rightarrow> int \<Rightarrow> ('w, 'z) aio_sys_scheme
    \<Rightarrow> int \<times> ('w, 'z) aio_sys_scheme" where
  "aio_transfer api rw h a cb buf len s =
     (case wpdk_aio_allocate api a cb 1 s of
        (None, s1) \<Rightarrow> (- EAGAIN, s1)
      | (Some task, s1) \<Rightarrow>
          (let task1 = task[0 := (task ! 0)\<lparr>tk_offset := aio_offset cb\<rparr>]
           in if len = 0 then (0, snd (wpdk_aio_done task1 0 0 s1))
              else
                (case os_call (rw h buf (to_uint32 len) (aio_offset cb)) s1 of
                   ((True, nbytes), s2) \<Rightarrow> (0, snd (wpdk_aio_done task1 0 nbytes s2))
                 | ((False, _), s2) \<Rightarrow>
                     if aa_last_error api (world s2) \<noteq> Werr3 ERROR_IO_PENDING
                     then wpdk_aio_abort api s2 else (0, s2))))"

definition wpdk_aio_read where
  "wpdk_aio_read api = aio_transfer api (aa_read api)"

definition wpdk_aio_write where
  "wpdk_aio_write api = aio_transfer api (aa_write api)"

text \<open>
  The loop over the elements, from element \<open>i\<close> on, of which \<open>vs\<close> are left in the array.
\<close>

fun vector_loop ::
  "'w aio_api \<Rightarrow> 'w file_io \<Rightarrow> nat \<Rightarrow> int \<Rightarrow> iovec list \<Rightarrow> nat \<Rightarrow> int \<Rightarrow> io_task list
    \<Rightarrow> ('w, 'z) aio_sys_scheme \<Rightarrow> int \<times> ('w, 'z) aio_sys_scheme" where
  "vector_loop api rw h iovcnt vs i off task s =
     (if iovcnt \<le> int i then (0, snd (snd (wpdk_aio_iov_done task 1 s)))
      else case vs of
        [] \<Rightarrow> (0, set_fault s)
      | v # vs' \<Rightarrow>
          if length task \<le> Suc i then (0, set_fault s)
          else
            (let task1 = task[Suc i := (task ! Suc i)\<lparr>tk_offset := off, tk_data := to_int64 (iov_len v)\<rparr>];
                 ((ok, nbytes), s1) =
                   (if iov_len v = 0 then ((True, 0), s)
                    else os_call (rw h (iov_base v) (to_uint32 (iov_len v)) off) s)
             in if ok
                then (case wpdk_aio_done task1 (Suc i) nbytes s1 of
                        (None, s2) \<Rightarrow> (0, set_fault s2)
                      | (Some task2, s2) \<Rightarrow>
                          if nbytes \<noteq> iov_len v
                          then (0, snd (snd (wpdk_aio_iov_done task2 (iovcnt - int i) s2)))
                          else vector_loop api rw h iovcnt vs' (Suc i) (to_int64 (off + iov_len v)) task2 s2)
                else if aa_last_error api (world s1) \<noteq> Werr3 ERROR_IO_PENDING
                then wpdk_aio_iov_abort api task1 (Suc i) s1
                else vector_loop api rw h iovcnt vs' (Suc i) (to_int64 (off + iov_len v)) task1 s1))"

declare vector_loop.simps [simp del]

definition aio_vector ::
  "'w aio_api \<Rightarrow> 'w file_io \<Rightarrow> nat \<Rightarrow> ptr \<Rightarrow> iocb \<Rightarrow> iovec list \<Rightarrow> int \<Rightarrow> ('w, 'z) aio_sys_scheme
    \<Rightarrow> int \<times> ('w, 'z) aio_sys_scheme" where
  "aio_vector api rw h a cb iov iovcnt s =
     (case wpdk_aio_allocate api a cb iovcnt s of
        (None, s1) \<Rightarrow> (- EAGAIN, s1)
      | (Some task, s1) \<Rightarrow> vector_loop api rw h iovcnt iov 0 (aio_offset cb) task s1)"

definition wpdk_aio_readv where
  "wpdk_aio_readv api = aio_vector api (aa_read api)"

definition wpdk_aio_writev where
  "wpdk_aio_writev api = aio_vector api (aa_write api)"

text \<open>
  \<open>n\<close> elements remain to be looked at; \<open>None\<close> is a read beyond the end of the array.
\<close>

fun validate_loop :: "nat \<Rightarrow> iovec list \<Rightarrow> int \<Rightarrow> bool option" where
  "validate_loop 0 vs len = Some True"
| "validate_loop (Suc n) [] len = None"
| "validate_loop (Suc n) (v # vs) len =
     (if SSIZE_MAX - len < iov_len v then Some False else validate_loop n vs (len + iov_len v))"

definition wpdk_aio_validate_iovec ::
  "iovec list \<Rightarrow> int \<Rightarrow> ('w, 'z) aio_sys_scheme \<Rightarrow> int \<times> ('w, 'z) aio_sys_scheme" where
  "wpdk_aio_validate_iovec iov iovcnt s =
     (if iovcnt < 1 then (0, set_errno EINVAL s)
      else case validate_loop (nat (to_int32 iovcnt)) iov 0 of
             None \<Rightarrow> (0, set_fault s)
           | Some False \<Rightarrow> (0, set_errno EINVAL s)
           | Some True \<Rightarrow> (1, s))"

definition submit_vector ::
  "'w aio_api \<Rightarrow> 'w file_io \<Rightarrow> nat \<Rightarrow> ptr \<Rightarrow> iocb \<Rightarrow> ('w, 'z) aio_sys_scheme
    \<Rightarrow> int \<times> ('w, 'z) aio_sys_scheme" where
  "submit_vector api rw h a cb s =
     (case wpdk_aio_validate_iovec (aio_iov cb) (aio_nbytes cb) s of
        (valid, s1) \<Rightarrow>
          if valid = 0 then (- EINVAL, s1)
          else if aio_nbytes cb = 1
          then aio_transfer api rw h a cb (iov_base (hd (aio_iov cb))) (iov_len (hd (aio_iov cb))) s1
          else aio_vector api rw h a cb (aio_iov cb) (to_int32 (aio_nbytes cb)) s1)"

definition submit_one ::
  "'w aio_api \<Rightarrow> nat \<Rightarrow> ptr \<Rightarrow> iocb \<Rightarrow> ('w, 'z) aio_sys_scheme \<Rightarrow> int \<times> ('w, 'z) aio_sys_scheme" where
  "submit_one api h a cb s =
     (case aio_lio_opcode cb of
        IO_CMD_PREAD \<Rightarrow> wpdk_aio_read api h a cb (aio_buf cb) (aio_nbytes cb) s
      | IO_CMD_PWRITE \<Rightarrow> wpdk_aio_write api h a cb (aio_buf cb) (aio_nbytes cb) s
      | IO_CMD_PREADV \<Rightarrow> submit_vector api (aa_read api) h a cb s
      | IO_CMD_PWRITEV \<Rightarrow> submit_vector api (aa_write api) h a cb s
      | IO_CMD_OTHER \<Rightarrow> (- EINVAL, set_errno EINVAL s))"

text \<open>
  The requests are addresses (\<open>None\<close> is NULL) together with what they point to.
\<close>

fun submit_loop ::
  "'w aio_api \<Rightarrow> int \<Rightarrow> (ptr \<times> iocb) option list \<Rightarrow> int \<Rightarrow> ('w, 'z) aio_sys_scheme
    \<Rightarrow> int \<times> ('w, 'z) aio_sys_scheme" where
  "submit_loop api nr [] i s = (i, if i < nr then set_fault s else s)"
| "submit_loop api nr (io # ios) i s =
     (if i < nr
      then (case io of
              None \<Rightarrow> (if i \<noteq> 0 then i else - EINVAL, set_errno EINVAL s)
            | Some (a, cb) \<Rightarrow>
                (case aa_osfhandle api (aio_fildes cb) (world s) of
                   None \<Rightarrow> (if i \<noteq> 0 then i else - EINVAL, set_errno EINVAL s)
                 | Some h \<Rightarrow>
                     (case submit_one api h a cb s of
                        (rc, s1) \<Rightarrow>
                          if rc = EINTR then (i + 1, s1)
                          else if rc \<noteq> 0 then (if i \<noteq> 0 then i else rc, s1)
                          else submit_loop api nr ios (i + 1) s1)))
      else (i, s))"

definition wpdk_io_submit ::
  "'w aio_api \<Rightarrow> int \<Rightarrow> (ptr \<times> iocb) option list option \<Rightarrow> ('w, 'z) aio_sys_scheme
    \<Rightarrow> int \<times> ('w, 'z) aio_sys_scheme" where
  "wpdk_io_submit api nr ios s =
     (case ios of
        None \<Rightarrow> (- EINVAL, set_errno EINVAL s)
      | Some ios \<Rightarrow> submit_loop api nr ios 0 s)"

definition wpdk_io_cancel :: int where
  "wpdk_io_cancel = - EINVAL"

text \<open>The first event of the ring.\<close>

definition ring_get :: "io_header \<Rightarrow> (io_event \<times> io_header) option" where
  "ring_get hdr =
     (if io_head hdr = io_tail hdr then None
      else Some (io_events hdr ! io_head hdr,
                 hdr\<lparr>io_head := (io_head hdr + 1) mod io_size hdr\<rparr>))"

fun getevents_loop :: "nat \<Rightarrow> io_header \<Rightarrow> io_event list \<times> io_header" where
  "getevents_loop 0 hdr = ([], hdr)"
| "getevents_loop (Suc n) hdr =
     (case ring_get hdr of
        None \<Rightarrow> ([], hdr)
      | Some (e, hdr1) \<Rightarrow> let (es, hdr2) = getevents_loop n hdr1 in (e # es, hdr2))"

text \<open>The result, the events that are written to the array of the caller, and the state.\<close>

definition wpdk_io_getevents ::
  "int \<Rightarrow> ('w, 'z) aio_sys_scheme \<Rightarrow> int \<times> io_event list \<times> ('w, 'z) aio_sys_scheme" where
  "wpdk_io_getevents nr s =
     (case io_ctx s of
        Ctx_null \<Rightarrow> (- EINVAL, [], set_errno EINVAL s)
      | Ctx hdr \<Rightarrow>
          (let (es, hdr') = getevents_loop (nat nr) hdr
           in (int (length es), es, s\<lparr>io_ctx := Ctx hdr'\<rparr>))
      | Ctx_freed \<Rightarrow> (0, [], set_fault s))"

section \<open>The ring is a queue\<close>

definition ring_inv :: "io_header \<Rightarrow> bool" where
  "ring_inv hdr \<longleftrightarrow> io_head hdr < io_size hdr \<and> io_tail hdr < io_size hdr \<and> length (io_events hdr) = io_size hdr"

definition ring_count :: "io_header \<Rightarrow> nat" where
  "ring_count hdr = (io_tail hdr + io_size hdr - io_head hdr) mod io_size hdr"

definition ring_contents :: "io_header \<Rightarrow> io_event list" where
  "ring_contents hdr = map (\<lambda>k. io_events hdr ! ((io_head hdr + k) mod io_size hdr)) [0..<ring_count hdr]"

definition ring_room :: "io_header \<Rightarrow> nat" where
  "ring_room hdr = io_size hdr - 1 - ring_count hdr"

lemma ring_put_sel [simp]:
  "io_size (ring_put e hdr) = io_size hdr" "io_head (ring_put e hdr) = io_head hdr"
  "io_iocount (ring_put e hdr) = io_iocount hdr"
  by (simp_all add: ring_put_def)

text \<open>The number of elements between two positions of a ring.\<close>

lemma ring_distance:
  assumes "h < n" "t < n" "c < (n :: nat)"
  shows "(t + n - h) mod n = c \<longleftrightarrow> t = (h + c) mod n"
proof -
  have "(t + n - h) mod n = (if h \<le> t then t - h else t + n - h)"
    using assms(1,2) by (auto simp: le_mod_geq)
  moreover have "(h + c) mod n = (if h + c < n then h + c else h + c - n)"
    using assms(1,3) by (auto simp: le_mod_geq)
  ultimately show ?thesis using assms by auto
qed

lemma ring_tail: "ring_inv hdr \<Longrightarrow> io_tail hdr = (io_head hdr + ring_count hdr) mod io_size hdr"
  using ring_distance [of "io_head hdr" "io_size hdr" "io_tail hdr" "ring_count hdr"]
  by (auto simp: ring_inv_def ring_count_def)

lemma ring_count_less: "ring_inv hdr \<Longrightarrow> ring_count hdr < io_size hdr"
  by (auto simp: ring_inv_def ring_count_def)

lemma ring_inv_put: "ring_inv hdr \<Longrightarrow> ring_inv (ring_put e hdr)"
  by (auto simp: ring_inv_def ring_put_def)

lemma ring_count_put:
  assumes "ring_inv hdr" "0 < ring_room hdr"
  shows "ring_count (ring_put e hdr) = Suc (ring_count hdr)"
proof -
  have "Suc (ring_count hdr) < io_size hdr" using assms(2) by (simp add: ring_room_def)
  moreover have "io_tail (ring_put e hdr) = (io_head hdr + Suc (ring_count hdr)) mod io_size hdr"
    using ring_tail [OF assms(1)] by (simp add: ring_put_def mod_Suc_eq)
  moreover have "io_tail (ring_put e hdr) < io_size hdr" "io_head hdr < io_size hdr"
    using ring_inv_put [OF assms(1), of e] by (simp_all add: ring_inv_def)
  ultimately show ?thesis
    using ring_distance [of "io_head hdr" "io_size hdr" "io_tail (ring_put e hdr)" "Suc (ring_count hdr)"]
    by (simp add: ring_count_def)
qed

lemma ring_mod_inj:
  assumes "h < n" "j < n" "k < (n :: nat)" "(h + j) mod n = (h + k) mod n"
  shows "j = k"
  using assms by (auto simp: le_mod_geq mod_if split: if_splits)

lemma ring_contents_put:
  assumes "ring_inv hdr" "0 < ring_room hdr"
  shows "ring_contents (ring_put e hdr) = ring_contents hdr @ [e]"
proof -
  let ?n = "io_size hdr"
  have c: "ring_count hdr < ?n" and h: "io_head hdr < ?n" and t: "io_tail hdr < length (io_events hdr)"
    using assms(1) ring_count_less by (simp_all add: ring_inv_def)
  have "\<forall>k<ring_count hdr. io_tail hdr \<noteq> (io_head hdr + k) mod ?n"
    using ring_mod_inj [OF h _ c] c ring_tail [OF assms(1)] by (metis less_trans less_irrefl)
  then show ?thesis
    using ring_tail [OF assms(1), symmetric] t
    by (simp add: ring_contents_def ring_count_put [OF assms]) (simp add: ring_put_def)
qed

lemma ring_get_None: "ring_inv hdr \<Longrightarrow> ring_get hdr = None \<longleftrightarrow> ring_contents hdr = []"
  using ring_distance [of "io_head hdr" "io_size hdr" "io_tail hdr" 0]
  by (auto simp: ring_get_def ring_contents_def ring_count_def ring_inv_def)

lemma ring_get_Some:
  assumes "ring_inv hdr" "ring_get hdr = Some (e, hdr')"
  shows "ring_inv hdr' \<and> ring_contents hdr = e # ring_contents hdr'"
proof -
  let ?n = "io_size hdr"
  have hdr': "hdr' = hdr\<lparr>io_head := (io_head hdr + 1) mod ?n\<rparr>" and e: "e = io_events hdr ! io_head hdr"
    using assms(2) by (auto simp: ring_get_def split: if_splits)
  have h: "io_head hdr < ?n" using assms(1) by (simp add: ring_inv_def)
  have ne: "io_head hdr \<noteq> io_tail hdr" using assms(2) by (auto simp: ring_get_def split: if_splits)
  obtain c where c: "ring_count hdr = Suc c"
    using ring_tail [OF assms(1)] ne h by (cases "ring_count hdr") auto
  have inv': "ring_inv hdr'" using assms(1) by (auto simp: ring_inv_def hdr')
  have "io_tail hdr = ((io_head hdr + 1) mod ?n + c) mod ?n"
    using ring_tail [OF assms(1)] c by (simp add: mod_simps)
  then have "ring_count hdr' = c"
    using ring_distance [of "io_head hdr'" ?n "io_tail hdr" c] inv' ring_count_less [OF assms(1)] c
    by (simp add: ring_count_def ring_inv_def hdr')
  then have "ring_contents hdr = e # ring_contents hdr'"
    unfolding ring_contents_def c map_upt_Suc using h by (simp add: e hdr' mod_simps)
  with inv' show ?thesis by blast
qed

interpretation aio_ring: fifo ring_put ring_get ring_contents ring_room ring_inv
  by unfold_locales
    (simp_all add: ring_inv_put ring_contents_put ring_get_None ring_get_Some ring_count_put ring_room_def)

lemma getevents_loop_drain: "getevents_loop n hdr = aio_ring.drain n hdr"
  by (induction n arbitrary: hdr) (auto split: option.split)

section \<open>Requests that end at once\<close>

text \<open>
  What Windows documents of a handle that was not opened for overlapped I/O: a call reports a number
  of bytes, at most the number requested, or fails with an error other than \<^verbatim>\<open>ERROR_IO_PENDING\<close>.
\<close>

definition synchronous :: "'w aio_api \<Rightarrow> 'w file_io \<Rightarrow> bool" where
  "synchronous api rw \<longleftrightarrow> (\<forall>h buf n off w.
     case rw h buf n off w of
       ((True, k), w') \<Rightarrow> 0 \<le> k \<and> k \<le> max 0 n
     | ((False, _), w') \<Rightarrow> aa_last_error api w' \<noteq> Werr3 ERROR_IO_PENDING \<and> aa_last_error api w' \<noteq> Werr1 ERROR_SUCCESS)"

lemma synchronous_True: "synchronous api rw \<Longrightarrow> rw h buf n off w = ((True, k), w') \<Longrightarrow> 0 \<le> k"
  unfolding synchronous_def
  by (drule spec [of _ h], drule spec [of _ buf], drule spec [of _ n], drule spec [of _ off], drule spec [of _ w]) simp

lemma synchronous_False:
  "synchronous api rw \<Longrightarrow> rw h buf n off w = ((False, k), w') \<Longrightarrow>
   aa_last_error api w' \<noteq> Werr3 ERROR_IO_PENDING \<and> aa_last_error api w' \<noteq> Werr1 ERROR_SUCCESS"
  unfolding synchronous_def
  by (drule spec [of _ h], drule spec [of _ buf], drule spec [of _ n], drule spec [of _ off], drule spec [of _ w]) simp

text \<open>
  The outcome of a sequence of transfers, one after the other: the number of bytes up to the first
  transfer that was shorter than requested, or the first error.
\<close>

fun vector_outcome ::
  "'w aio_api \<Rightarrow> 'w file_io \<Rightarrow> nat \<Rightarrow> iovec list \<Rightarrow> int \<Rightarrow> int \<Rightarrow> 'w \<Rightarrow> (win_error + int) \<times> 'w" where
  "vector_outcome api rw h [] off cnt w = (Inr cnt, w)"
| "vector_outcome api rw h (v # vs) off cnt w =
     (if iov_len v = 0 then vector_outcome api rw h vs off cnt w
      else case rw h (iov_base v) (to_uint32 (iov_len v)) off w of
             ((True, n), w') \<Rightarrow>
               if n \<noteq> iov_len v then (Inr (cnt + n), w')
               else vector_outcome api rw h vs (to_int64 (off + n)) (cnt + n) w'
           | ((False, _), w') \<Rightarrow> (Inl (aa_last_error api w'), w'))"

text \<open>What a request with this outcome leaves behind.\<close>

definition settle ::
  "ptr \<Rightarrow> iocb \<Rightarrow> io_header \<Rightarrow> ('w, 'z) aio_sys_scheme \<Rightarrow> (win_error + int) \<times> 'w
    \<Rightarrow> int \<times> ('w, 'z) aio_sys_scheme" where
  "settle a cb hdr s out =
     (case out of
        (Inr cnt, w) \<Rightarrow>
          (0, s\<lparr>world := w,
                io_ctx := Ctx (ring_put \<lparr>ev_data = aio_data cb, ev_obj = a, ev_res = to_uint64 cnt, ev_res2 = 0\<rparr> hdr)\<rparr>)
      | (Inl e, w) \<Rightarrow>
          (- wpdk_convert_to_posix e, s\<lparr>world := w, io_ctx := Ctx hdr, errno := wpdk_convert_to_posix e\<rparr>))"

lemma to_int64_size: "0 \<le> n \<Longrightarrow> n \<le> SSIZE_MAX \<Longrightarrow> to_int64 n = n"
  by (simp add: to_int64_def SSIZE_MAX_def)

lemma allocate_eq:
  assumes "io_ctx s = Ctx hdr" "io_iocount hdr < int (io_size hdr)"
    and "aa_calloc api (if 1 < iovcnt then iovcnt + 1 else 1) (world s) = (True, w)"
  shows "wpdk_aio_allocate api a cb iovcnt s =
     (Some (if 1 < iovcnt
            then \<lparr>tk_active = iovcnt + 1, tk_iovcnt = iovcnt, tk_offset = 0, tk_type = Type_iocb a,
                  tk_data = int (aio_data cb)\<rparr> # replicate (nat iovcnt) (zero_task\<lparr>tk_type := Type_iov\<rparr>)
            else [\<lparr>tk_active = 0, tk_iovcnt = 0, tk_offset = 0, tk_type = Type_iocb a, tk_data = int (aio_data cb)\<rparr>]),
      s\<lparr>world := w, io_ctx := Ctx (hdr\<lparr>io_iocount := io_iocount hdr + 1\<rparr>)\<rparr>)"
  using assms
  by (cases "1 < iovcnt")
    (simp_all add: wpdk_aio_allocate_def os_call_eq wpdk_aio_increment_iocount_def zero_task_def split_beta Let_def)

lemma task_done_eq:
  assumes "io_ctx s = Ctx (hdr\<lparr>io_iocount := io_iocount hdr + 1\<rparr>)"
  shows "wpdk_aio_task_done t res s = s\<lparr>io_ctx := Ctx (ring_put (task_event t res) hdr)\<rparr>"
  using assms
  by (simp add: wpdk_aio_task_done_def wpdk_aio_free_def wpdk_aio_decrement_iocount_def on_header_def ring_put_def)

lemma aio_free_eq:
  assumes "io_ctx s = Ctx (hdr\<lparr>io_iocount := io_iocount hdr + 1\<rparr>)"
  shows "wpdk_aio_free s = s\<lparr>io_ctx := Ctx hdr\<rparr>"
  using assms by (simp add: wpdk_aio_free_def wpdk_aio_decrement_iocount_def on_header_def)

lemma transfer_settles:
  assumes "io_ctx s = Ctx hdr" "io_iocount hdr < int (io_size hdr)" "aa_calloc api 1 (world s) = (True, w)"
    and "synchronous api rw"
  shows "aio_transfer api rw h a cb buf len s =
           settle a cb hdr s (vector_outcome api rw h [\<lparr>iov_base = buf, iov_len = len\<rparr>] (aio_offset cb) 0 w)"
proof -
  let ?rw = "rw h buf (to_uint32 len) (aio_offset cb) w"
  obtain ok n w' where rw: "?rw = ((ok, n), w')" by (metis prod.exhaust)
  have al: "wpdk_aio_allocate api a cb 1 s =
      (Some [\<lparr>tk_active = 0, tk_iovcnt = 0, tk_offset = 0, tk_type = Type_iocb a, tk_data = int (aio_data cb)\<rparr>],
       s\<lparr>world := w, io_ctx := Ctx (hdr\<lparr>io_iocount := io_iocount hdr + 1\<rparr>)\<rparr>)"
    using allocate_eq [of s hdr api 1 w a cb] assms by simp
  show ?thesis
  proof (cases "len = 0")
    case True
    then show ?thesis
      by (simp add: aio_transfer_def al wpdk_aio_done_def settle_def task_done_eq task_event_def Let_def)
  next
    case False
    then show ?thesis using rw synchronous_False [OF assms(4), of h buf "to_uint32 len" "aio_offset cb" w n w']
      by (cases ok) (simp_all add: aio_transfer_def al wpdk_aio_done_def settle_def task_done_eq task_event_def
          os_call_eq wpdk_aio_abort_def aio_free_eq set_errno_def Let_def)
  qed
qed

section \<open>Vector requests\<close>

text \<open>A transfer that was as long as requested.\<close>

definition full :: "io_task \<Rightarrow> bool" where
  "full t \<longleftrightarrow> tk_type t = Type_iov \<and> 0 \<le> tk_data t"

lemma iov_result_full:
  "list_all full ds \<Longrightarrow> 0 \<le> r \<Longrightarrow> iov_result (ds @ ts) r = iov_result ts (r + sum_list (map tk_data ds))"
  by (induction ds arbitrary: r) (auto simp: full_def add.assoc)

lemma sum_full_nonneg: "list_all full ds \<Longrightarrow> 0 \<le> sum_list (map tk_data ds)"
  by (induction ds) (auto simp: full_def)

text \<open>The array of tasks before element \<open>i\<close> is looked at.\<close>

definition vector_tasks :: "ptr \<Rightarrow> iocb \<Rightarrow> nat \<Rightarrow> io_task list \<Rightarrow> io_task list" where
  "vector_tasks a cb n ds =
     \<lparr>tk_active = int n + 1 - int (length ds), tk_iovcnt = int n, tk_offset = 0, tk_type = Type_iocb a,
      tk_data = int (aio_data cb)\<rparr> # ds @ replicate (n - length ds) (zero_task\<lparr>tk_type := Type_iov\<rparr>)"

lemma vector_tasks_nth:
  assumes "length ds < n"
  shows "Suc (length ds) < length (vector_tasks a cb n ds)"
    "vector_tasks a cb n ds ! Suc (length ds) = zero_task\<lparr>tk_type := Type_iov\<rparr>"
    "(vector_tasks a cb n ds)[Suc (length ds) := t] =
       hd (vector_tasks a cb n ds) # ds @ t # replicate (n - Suc (length ds)) (zero_task\<lparr>tk_type := Type_iov\<rparr>)"
proof -
  obtain k where "n - length ds = Suc k" using assms by (cases "n - length ds") auto
  moreover from this have "n - Suc (length ds) = k" by simp
  ultimately show "Suc (length ds) < length (vector_tasks a cb n ds)"
    "vector_tasks a cb n ds ! Suc (length ds) = zero_task\<lparr>tk_type := Type_iov\<rparr>"
    "(vector_tasks a cb n ds)[Suc (length ds) := t] =
       hd (vector_tasks a cb n ds) # ds @ t # replicate (n - Suc (length ds)) (zero_task\<lparr>tk_type := Type_iov\<rparr>)"
    by (simp_all add: vector_tasks_def nth_append list_update_append)
qed

text \<open>After the transfer of element \<open>length ds\<close> has ended with \<open>nbytes\<close>.\<close>

lemma done_full:
  assumes "length ds < n" "t = zero_task\<lparr>tk_type := Type_iov, tk_offset := off, tk_data := nbytes\<rparr>"
  shows "wpdk_aio_done ((vector_tasks a cb n ds)[Suc (length ds) := t]) (Suc (length ds)) nbytes s =
     (Some (vector_tasks a cb n (ds @ [t])), s)"
  using assms
  by (simp add: vector_tasks_nth wpdk_aio_done_def wpdk_aio_iov_done_def nth_append list_update_append zero_task_def
      Let_def) (simp add: vector_tasks_def zero_task_def)

definition last_done ::
  "ptr \<Rightarrow> iocb \<Rightarrow> io_header \<Rightarrow> int \<Rightarrow> ('w, 'z) aio_sys_scheme \<Rightarrow> ('w, 'z) aio_sys_scheme" where
  "last_done a cb hdr cnt s =
     s\<lparr>io_ctx := Ctx (ring_put \<lparr>ev_data = aio_data cb, ev_obj = a, ev_res = to_uint64 cnt, ev_res2 = 0\<rparr> hdr)\<rparr>"

lemma all_full:
  assumes "list_all full ds" "length ds = n" "io_ctx s = Ctx (hdr\<lparr>io_iocount := io_iocount hdr + 1\<rparr>)"
  shows "snd (snd (wpdk_aio_iov_done (vector_tasks a cb n ds) 1 s)) =
           last_done a cb hdr (sum_list (map tk_data ds)) s"
  using assms iov_result_full [of ds 0 "[]"]
  by (simp add: wpdk_aio_iov_done_def vector_tasks_def task_done_eq task_event_def last_done_def)

lemma short_transfer:
  assumes "list_all full ds" "length ds < n" "0 \<le> nbytes" "nbytes \<noteq> len"
    and "t = zero_task\<lparr>tk_type := Type_iov, tk_offset := off, tk_data := len\<rparr>"
    and "io_ctx s = Ctx (hdr\<lparr>io_iocount := io_iocount hdr + 1\<rparr>)"
  obtains task where
    "wpdk_aio_done ((vector_tasks a cb n ds)[Suc (length ds) := t]) (Suc (length ds)) nbytes s = (Some task, s)"
    "snd (snd (wpdk_aio_iov_done task (int n - int (length ds)) s)) =
       last_done a cb hdr (sum_list (map tk_data ds) + nbytes) s"
proof
  let ?t = "t\<lparr>tk_type := Type_result, tk_data := nbytes\<rparr>"
  let ?task = "(hd (vector_tasks a cb n ds))\<lparr>tk_active := int n - int (length ds)\<rparr>
      # ds @ ?t # replicate (n - Suc (length ds)) (zero_task\<lparr>tk_type := Type_iov\<rparr>)"
  show "wpdk_aio_done ((vector_tasks a cb n ds)[Suc (length ds) := t]) (Suc (length ds)) nbytes s = (Some ?task, s)"
    using assms(2,4,5)
    by (simp add: vector_tasks_nth wpdk_aio_done_def wpdk_aio_iov_done_def nth_append list_update_append zero_task_def
        Let_def) (simp add: vector_tasks_def zero_task_def)
  have "iov_result (take n (ds @ ?t # replicate (n - Suc (length ds)) (zero_task\<lparr>tk_type := Type_iov\<rparr>))) 0 =
      sum_list (map tk_data ds) + nbytes"
    using iov_result_full [OF assms(1)] sum_full_nonneg [OF assms(1)] assms(2,3) by (simp add: Let_def)
  then show "snd (snd (wpdk_aio_iov_done ?task (int n - int (length ds)) s)) =
      last_done a cb hdr (sum_list (map tk_data ds) + nbytes) s"
    using assms(6) by (simp add: wpdk_aio_iov_done_def vector_tasks_def task_done_eq task_event_def last_done_def)
qed

lemma iov_abort_eq:
  assumes "length ds < n" "io_ctx s = Ctx (hdr\<lparr>io_iocount := io_iocount hdr + 1\<rparr>)"
  shows "wpdk_aio_iov_abort api ((vector_tasks a cb n ds)[Suc (length ds) := t]) (Suc (length ds)) s =
     (- wpdk_convert_to_posix (aa_last_error api (world s)),
      s\<lparr>io_ctx := Ctx hdr, errno := wpdk_convert_to_posix (aa_last_error api (world s))\<rparr>)"
  using assms
  by (simp add: wpdk_aio_iov_abort_def vector_tasks_nth wpdk_aio_iov_done_def aio_free_eq set_errno_def Let_def)
    (simp add: vector_tasks_def wpdk_aio_iov_done_def aio_free_eq)

lemma to_int64_idem [simp]: "to_int64 (to_int64 x) = to_int64 x"
  by (simp add: to_int64_def mod_simps)

text \<open>One iteration, by what the call of the system returns.\<close>

lemma vector_loop_Cons:
  assumes "length ds < n" "to_int64 (iov_len v) = iov_len v"
    and "(if iov_len v = 0 then ((True, 0), s) else os_call (rw h (iov_base v) (to_uint32 (iov_len v)) off) s)
           = ((ok, nbytes), s1)"
    and "task1 = (vector_tasks a cb n ds)[Suc (length ds) :=
            zero_task\<lparr>tk_type := Type_iov, tk_offset := off, tk_data := iov_len v\<rparr>]"
  shows "vector_loop api rw h (int n) (v # vs) (length ds) off (vector_tasks a cb n ds) s =
       (if ok
        then (case wpdk_aio_done task1 (Suc (length ds)) nbytes s1 of
                (None, s2) \<Rightarrow> (0, set_fault s2)
              | (Some task2, s2) \<Rightarrow>
                  if nbytes \<noteq> iov_len v then (0, snd (snd (wpdk_aio_iov_done task2 (int n - int (length ds)) s2)))
                  else vector_loop api rw h (int n) vs (Suc (length ds)) (to_int64 (off + iov_len v)) task2 s2)
        else if aa_last_error api (world s1) \<noteq> Werr3 ERROR_IO_PENDING
        then wpdk_aio_iov_abort api task1 (Suc (length ds)) s1
        else vector_loop api rw h (int n) vs (Suc (length ds)) (to_int64 (off + iov_len v)) task1 s1)"
  using assms vector_tasks_nth(1,2) [OF assms(1), of a cb]
  by (subst vector_loop.simps) simp

lemma vector_loop_settles:
  fixes s :: "('w, 'z) aio_sys_scheme"
  assumes "synchronous api rw"
    and "io_ctx s = Ctx (hdr\<lparr>io_iocount := io_iocount hdr + 1\<rparr>)" "list_all full ds"
    and "n = length ds + length vs" "\<forall>v \<in> set vs. 0 \<le> iov_len v \<and> iov_len v \<le> SSIZE_MAX"
    and "to_int64 off = off"
  shows "vector_loop api rw h (int n) vs (length ds) off (vector_tasks a cb n ds) s =
     settle a cb hdr s (vector_outcome api rw h vs off (sum_list (map tk_data ds)) (world s))"
  using assms(2-)
proof (induction vs arbitrary: ds off s)
  case Nil
  then show ?case
    using all_full [of ds n s hdr a cb] by (simp add: vector_loop.simps settle_def last_done_def)
next
  case (Cons v vs)
  let ?i = "length ds"
  let ?len = "iov_len v"
  let ?t = "zero_task\<lparr>tk_type := Type_iov, tk_offset := off, tk_data := ?len\<rparr>"
  have i: "?i < n" and len: "0 \<le> ?len" "to_int64 ?len = ?len"
    using Cons.prems by (simp_all add: to_int64_size)
  note loop = vector_loop_Cons [OF i len(2) _ refl]
  have next_ok: "vector_loop api rw h (int n) vs (Suc ?i) (to_int64 (off + ?len)) (vector_tasks a cb n (ds @ [?t])) s' =
      settle a cb hdr s' (vector_outcome api rw h vs (to_int64 (off + ?len)) (sum_list (map tk_data ds) + ?len) (world s'))"
    if "io_ctx s' = Ctx (hdr\<lparr>io_iocount := io_iocount hdr + 1\<rparr>)" for s' :: "('w, 'z) aio_sys_scheme"
    using Cons.IH [of s' "ds @ [?t]" "to_int64 (off + ?len)"] that Cons.prems len
    by (simp add: full_def)
  show ?case
  proof (cases "?len = 0")
    case True
    then show ?thesis
      using loop [of s rw h off True 0 s] done_full [OF i, of "?t\<lparr>tk_data := 0\<rparr>" 0 off a cb s] next_ok [of s]
        Cons.prems by simp
  next
    case False
    obtain ok nb w' where rw: "rw h (iov_base v) (to_uint32 ?len) off (world s) = ((ok, nb), w')"
      by (metis prod.exhaust)
    let ?s = "s\<lparr>world := w'\<rparr>"
    have ctx: "io_ctx ?s = Ctx (hdr\<lparr>io_iocount := io_iocount hdr + 1\<rparr>)" using Cons.prems by simp
    consider (short) "ok" "nb \<noteq> ?len" | (whole) "ok" "nb = ?len" | (error) "\<not> ok" by blast
    then show ?thesis
    proof cases
      case short
      have "0 \<le> nb" using synchronous_True [OF assms(1)] rw short by simp
      then obtain task where
        "wpdk_aio_done ((vector_tasks a cb n ds)[Suc ?i := ?t]) (Suc ?i) nb ?s = (Some task, ?s)"
        "snd (snd (wpdk_aio_iov_done task (int n - int ?i) ?s)) =
           last_done a cb hdr (sum_list (map tk_data ds) + nb) ?s"
        using short_transfer [OF Cons.prems(2) i _ short(2) refl ctx] by blast
      then show ?thesis using loop [of s rw h off True nb ?s] rw short False
        by (simp add: os_call_eq settle_def last_done_def)
    next
      case whole
      then show ?thesis using loop [of s rw h off True ?len ?s] rw False next_ok [OF ctx] done_full [OF i, of ?t ?len off a cb ?s]
        by (simp add: os_call_eq settle_def split: prod.splits sum.splits)
    next
      case error
      then show ?thesis using loop [of s rw h off False nb ?s] rw False iov_abort_eq [OF i ctx, of api a cb ?t]
          synchronous_False [OF assms(1), of h "iov_base v" "to_uint32 ?len" off "world s" nb w']
        by (simp add: os_call_eq settle_def)
    qed
  qed
qed

lemma vector_settles:
  assumes "io_ctx s = Ctx hdr" "io_iocount hdr < int (io_size hdr)"
    and "aa_calloc api (int (length vs) + 1) (world s) = (True, w)"
    and "synchronous api rw" "2 \<le> length vs"
    and "\<forall>v \<in> set vs. 0 \<le> iov_len v \<and> iov_len v \<le> SSIZE_MAX" "to_int64 (aio_offset cb) = aio_offset cb"
  shows "aio_vector api rw h a cb vs (int (length vs)) s =
           settle a cb hdr s (vector_outcome api rw h vs (aio_offset cb) 0 w)"
proof -
  let ?s = "s\<lparr>world := w, io_ctx := Ctx (hdr\<lparr>io_iocount := io_iocount hdr + 1\<rparr>)\<rparr>"
  have "wpdk_aio_allocate api a cb (int (length vs)) s = (Some (vector_tasks a cb (length vs) []), ?s)"
    using allocate_eq [of s hdr api "int (length vs)" w a cb] assms(1-3,5) by (simp add: vector_tasks_def)
  moreover have "vector_loop api rw h (int (length vs)) vs 0 (aio_offset cb) (vector_tasks a cb (length vs) []) ?s =
      settle a cb hdr ?s (vector_outcome api rw h vs (aio_offset cb) 0 w)"
    using vector_loop_settles [OF assms(4), of ?s hdr "[]" "length vs" vs] assms(6,7) by simp
  ultimately show ?thesis
    by (simp add: aio_vector_def settle_def split: prod.splits sum.splits)
qed

section \<open>Submission and completion\<close>

text \<open>
  A request that the caller has set up properly: the array of a vector request has as many elements
  as it says, fewer than \<open>2\<^sup>3\<^sup>1\<close>, and its lengths are values of \<^verbatim>\<open>size_t\<close>; the offset is one of \<^verbatim>\<open>off_t\<close>.
\<close>

definition request_ok :: "iocb \<Rightarrow> bool" where
  "request_ok cb \<longleftrightarrow> to_int64 (aio_offset cb) = aio_offset cb \<and>
     (aio_lio_opcode cb \<in> {IO_CMD_PREADV, IO_CMD_PWRITEV} \<longrightarrow>
        aio_nbytes cb = int (length (aio_iov cb)) \<and> aio_nbytes cb \<le> INT_MAX \<and>
        (\<forall>v \<in> set (aio_iov cb). 0 \<le> iov_len v))"

lemma prepared_request_ok:
  assumes "to_int64 offset = offset"
  shows "request_ok (io_prep_pread fd buf count offset)" "request_ok (io_prep_pwrite fd buf count offset)"
    "\<forall>v \<in> set iov. 0 \<le> iov_len v \<Longrightarrow> int (length iov) \<le> INT_MAX \<Longrightarrow>
       request_ok (io_prep_preadv fd buf iov (int (length iov)) offset)
       \<and> request_ok (io_prep_pwritev fd buf iov (int (length iov)) offset)"
  using assms by (simp_all add: request_ok_def io_prep_defs)

text \<open>What a request may leave behind: its event and the result 0, or an error and nothing else.\<close>

definition settled ::
  "ptr \<Rightarrow> iocb \<Rightarrow> io_header \<Rightarrow> ('w, 'z) aio_sys_scheme \<Rightarrow> int \<times> ('w, 'z) aio_sys_scheme \<Rightarrow> bool" where
  "settled a cb hdr s r \<longleftrightarrow> fault (snd r) = fault s \<and>
     (fst r = 0 \<and> (\<exists>res. io_ctx (snd r) =
         Ctx (ring_put \<lparr>ev_data = aio_data cb, ev_obj = a, ev_res = res, ev_res2 = 0\<rparr> hdr))
      \<or> fst r < 0 \<and> io_ctx (snd r) = Ctx hdr)"

lemma vector_outcome_error:
  "synchronous api rw \<Longrightarrow> vector_outcome api rw h vs off cnt w = (Inl e, w') \<Longrightarrow> e \<noteq> Werr1 ERROR_SUCCESS"
proof (induction vs arbitrary: off cnt w)
  case (Cons v vs)
  obtain ok n w1 where rw: "rw h (iov_base v) (to_uint32 (iov_len v)) off w = ((ok, n), w1)"
    by (metis prod.exhaust)
  show ?case
    using Cons rw synchronous_False [OF Cons.prems(1), of h "iov_base v" "to_uint32 (iov_len v)" off w n w1]
    by (cases ok) (auto split: if_splits)
qed simp

lemma settled_settle:
  assumes "synchronous api rw"
  shows "settled a cb hdr s (settle a cb hdr s (vector_outcome api rw h vs off cnt w))"
proof -
  obtain out w' where out: "vector_outcome api rw h vs off cnt w = (out, w')" by (metis prod.exhaust)
  show ?thesis
  proof (cases out)
    case (Inl e)
    then have "0 < wpdk_convert_to_posix e"
      using vector_outcome_error [OF assms] out convert_to_posix_pos by blast
    then show ?thesis using out Inl by (simp add: settled_def settle_def)
  next
    case (Inr n)
    then show ?thesis using out by (auto simp: settled_def settle_def)
  qed
qed

lemma allocate_cases:
  assumes "io_ctx s = Ctx hdr"
  obtains
    (refused) s1 where "wpdk_aio_allocate api a cb n s = (None, s1)" "fault s1 = fault s" "io_ctx s1 = Ctx hdr"
  | (taken) w where "aa_calloc api (if 1 < n then n + 1 else 1) (world s) = (True, w)"
      "io_iocount hdr < int (io_size hdr)"
proof -
  obtain ok w where c: "aa_calloc api (if 1 < n then n + 1 else 1) (world s) = (ok, w)" by (metis prod.exhaust)
  show thesis
  proof (cases "ok \<and> io_iocount hdr < int (io_size hdr)")
    case True
    then show thesis using taken c by simp
  next
    case False
    then have "\<exists>s1. wpdk_aio_allocate api a cb n s = (None, s1) \<and> fault s1 = fault s \<and> io_ctx s1 = Ctx hdr"
      using c assms
      by (auto simp: wpdk_aio_allocate_def os_call_eq wpdk_aio_increment_iocount_def set_errno_def split_beta Let_def)
    then show thesis using refused by blast
  qed
qed

lemma transfer_settled:
  assumes "io_ctx s = Ctx hdr" "synchronous api rw"
  shows "settled a cb hdr s (aio_transfer api rw h a cb buf len s)"
  using assms(1)
proof (cases rule: allocate_cases [where api = api and a = a and cb = cb and n = 1])
  case (refused s1)
  then show ?thesis by (simp add: aio_transfer_def settled_def errno_simps)
next
  case (taken w)
  from taken(1) have calloc: "aa_calloc api 1 (world s) = (True, w)" by simp
  show ?thesis unfolding transfer_settles [OF assms(1) taken(2) calloc assms(2)] by (rule settled_settle [OF assms(2)])
qed

lemma vector_settled:
  assumes "io_ctx s = Ctx hdr" "synchronous api rw" "2 \<le> length vs"
    and "\<forall>v \<in> set vs. 0 \<le> iov_len v \<and> iov_len v \<le> SSIZE_MAX" "to_int64 (aio_offset cb) = aio_offset cb"
  shows "settled a cb hdr s (aio_vector api rw h a cb vs (int (length vs)) s)"
  using assms(1)
proof (cases rule: allocate_cases [where api = api and a = a and cb = cb and n = "int (length vs)"])
  case (refused s1)
  then show ?thesis by (simp add: aio_vector_def settled_def errno_simps)
next
  case (taken w)
  from taken(1) assms(3) have calloc: "aa_calloc api (int (length vs) + 1) (world s) = (True, w)" by simp
  show ?thesis unfolding vector_settles [OF assms(1) taken(2) calloc assms(2-)] by (rule settled_settle [OF assms(2)])
qed

lemma validate_loop_total:
  "\<forall>v \<in> set vs. 0 \<le> iov_len v \<Longrightarrow> 0 \<le> len \<Longrightarrow>
   (\<exists>b. validate_loop (length vs) vs len = Some b) \<and>
   (validate_loop (length vs) vs len = Some True \<longrightarrow> (\<forall>v \<in> set vs. iov_len v \<le> SSIZE_MAX))"
proof (induction vs arbitrary: len)
  case (Cons v vs)
  then show ?case using Cons.IH [of "len + iov_len v"] by auto
qed auto

lemma submit_vector_settled:
  assumes "io_ctx s = Ctx hdr" "synchronous api rw" "request_ok cb"
    and "aio_lio_opcode cb \<in> {IO_CMD_PREADV, IO_CMD_PWRITEV}"
  shows "settled a cb hdr s (submit_vector api rw h a cb s)"
proof -
  let ?vs = "aio_iov cb"
  have ok: "to_int64 (aio_offset cb) = aio_offset cb" "aio_nbytes cb = int (length ?vs)"
    "aio_nbytes cb \<le> INT_MAX" "\<forall>v \<in> set ?vs. 0 \<le> iov_len v"
    using assms(3,4) by (auto simp: request_ok_def)
  have n: "to_int32 (int (length ?vs)) = int (length ?vs)"
    using ok(2,3) by (simp add: to_int32_def INT_MAX_def)
  obtain b where b: "validate_loop (length ?vs) ?vs 0 = Some b"
    "b \<longrightarrow> (\<forall>v \<in> set ?vs. iov_len v \<le> SSIZE_MAX)"
    using validate_loop_total [OF ok(4), of 0] by auto
  show ?thesis
  proof (cases "length ?vs = 0 \<or> \<not> b")
    case True
    then show ?thesis using assms(1) b n ok(2)
      by (auto simp: submit_vector_def wpdk_aio_validate_iovec_def settled_def set_errno_def errno_simps
          split: bool.splits)
  next
    case False
    have "wpdk_aio_validate_iovec ?vs (aio_nbytes cb) s = (1, s)"
      using False b n ok(2) by (cases b) (auto simp: wpdk_aio_validate_iovec_def)
    moreover have "length ?vs = 1 \<or> 2 \<le> length ?vs" using False by linarith
    ultimately show ?thesis
      using transfer_settled [OF assms(1,2), of a cb h] vector_settled [OF assms(1,2) _ _ ok(1), of ?vs a h] ok(2,4) b n False
      by (auto simp: submit_vector_def)
  qed
qed

lemma submit_one_settled:
  assumes "io_ctx s = Ctx hdr" "synchronous api (aa_read api)" "synchronous api (aa_write api)" "request_ok cb"
  shows "settled a cb hdr s (submit_one api h a cb s)"
  using assms transfer_settled [OF assms(1)] submit_vector_settled [OF assms(1) _ assms(4)]
  by (cases "aio_lio_opcode cb")
    (simp_all add: submit_one_def wpdk_aio_read_def wpdk_aio_write_def settled_def set_errno_def errno_simps)

text \<open>The event of a request.\<close>

definition event_of :: "io_event \<Rightarrow> (ptr \<times> iocb) option \<Rightarrow> bool" where
  "event_of e io \<longleftrightarrow> (case io of None \<Rightarrow> False | Some (a, cb) \<Rightarrow> ev_obj e = a \<and> ev_data e = aio_data cb \<and> ev_res2 e = 0)"

definition requests_ok :: "(ptr \<times> iocb) option list \<Rightarrow> bool" where
  "requests_ok ios \<longleftrightarrow> list_all (\<lambda>io. case io of None \<Rightarrow> True | Some (a, cb) \<Rightarrow> request_ok cb) ios"

lemma submit_loop_effect:
  fixes s :: "('w, 'z) aio_sys_scheme"
  assumes "synchronous api (aa_read api)" "synchronous api (aa_write api)"
    and "io_ctx s = Ctx hdr" "requests_ok ios" "0 \<le> i" "nr \<le> i + int (length ios)"
  shows "\<exists>es. io_ctx (snd (submit_loop api nr ios i s)) = Ctx (fold ring_put es hdr)
     \<and> fault (snd (submit_loop api nr ios i s)) = fault s
     \<and> list_all2 event_of es (take (length es) ios) \<and> int (length es) \<le> max 0 (nr - i)
     \<and> (fst (submit_loop api nr ios i s) = i + int (length es)
        \<or> i = 0 \<and> es = [] \<and> fst (submit_loop api nr ios i s) < 0)"
  using assms(3-)
proof (induction ios arbitrary: i s hdr)
  case Nil
  then show ?case by (intro exI [of _ "[]"]) auto
next
  case (Cons io ios)
  show ?case
  proof (cases "i < nr \<and> (\<exists>a cb h. io = Some (a, cb) \<and> aa_osfhandle api (aio_fildes cb) (world s) = Some h)")
    case False
    then show ?thesis using Cons.prems(1,3)
      by (intro exI [of _ "[]"]) (auto simp: set_errno_def errno_simps split: option.splits)
  next
    case True
    then obtain a cb h where io: "io = Some (a, cb)" and h: "aa_osfhandle api (aio_fildes cb) (world s) = Some h"
      and i: "i < nr" by blast
    obtain rc s1 where one: "submit_one api h a cb s = (rc, s1)" by (metis prod.exhaust)
    have "settled a cb hdr s (rc, s1)"
      using submit_one_settled [OF Cons.prems(1) assms(1,2), of cb a h] Cons.prems(2) io one by (simp add: requests_ok_def)
    then consider
      (ended) res where "rc = 0" "fault s1 = fault s"
        "io_ctx s1 = Ctx (ring_put \<lparr>ev_data = aio_data cb, ev_obj = a, ev_res = res, ev_res2 = 0\<rparr> hdr)"
    | (failed) "rc < 0" "fault s1 = fault s" "io_ctx s1 = Ctx hdr"
      by (auto simp: settled_def)
    then show ?thesis
    proof cases
      case ended
      let ?e = "\<lparr>ev_data = aio_data cb, ev_obj = a, ev_res = res, ev_res2 = 0\<rparr>"
      have loop: "submit_loop api nr (io # ios) i s = submit_loop api nr ios (i + 1) s1"
        using io h i one ended by (simp add: errno_simps)
      obtain es where es: "io_ctx (snd (submit_loop api nr ios (i + 1) s1)) = Ctx (fold ring_put es (ring_put ?e hdr))"
        "fault (snd (submit_loop api nr ios (i + 1) s1)) = fault s1"
        "list_all2 event_of es (take (length es) ios)" "int (length es) \<le> max 0 (nr - (i + 1))"
        "fst (submit_loop api nr ios (i + 1) s1) = i + 1 + int (length es)"
        using Cons.IH [OF ended(3), of "i + 1"] Cons.prems by (auto simp: requests_ok_def)
      have "event_of ?e io" using io by (simp add: event_of_def)
      then show ?thesis unfolding loop
        by (intro exI [of _ "?e # es"]) (use es ended(2) i in auto)
    next
      case failed
      then show ?thesis using io h i one Cons.prems(3)
        by (intro exI [of _ "[]"]) (auto simp: errno_simps)
    qed
  qed
qed

text \<open>
  C5. Every request that \<^verbatim>\<open>wpdk_io_submit\<close> accepts is completed exactly once. If the ring has room
  for as many events as there are requests, a call that returns \<open>r\<close> has carried out the first \<open>r\<close>
  requests, and \<^verbatim>\<open>wpdk_io_getevents\<close> then delivers what was in the ring followed by one event for
  each of them, in order, and leaves an empty ring.
\<close>

theorem submit_exactly_once:
  assumes "synchronous api (aa_read api)" "synchronous api (aa_write api)" "requests_ok ios"
    and "io_ctx s = Ctx hdr" "ring_inv hdr" "0 \<le> nr" "nr \<le> int (length ios)"
    and "int (length (ring_contents hdr)) + nr < int (io_size hdr)"
    and "wpdk_io_submit api nr (Some ios) s = (r, s1)" "0 \<le> r"
    and "int (length (ring_contents hdr)) + r \<le> m"
  shows "\<exists>es s2 hdr2. wpdk_io_getevents m s1 = (int (length (ring_contents hdr)) + r, ring_contents hdr @ es, s2)
     \<and> list_all2 event_of es (take (nat r) ios) \<and> fault s2 = fault s
     \<and> io_ctx s2 = Ctx hdr2 \<and> ring_contents hdr2 = []"
proof -
  have "submit_loop api nr ios 0 s = (r, s1)" using assms(9) by (simp add: wpdk_io_submit_def)
  with submit_loop_effect [OF assms(1,2,4,3), of 0 nr] assms(7,10)
  obtain es where es: "io_ctx s1 = Ctx (fold ring_put es hdr)" "fault s1 = fault s"
    "list_all2 event_of es (take (length es) ios)" "int (length es) \<le> nr" "r = int (length es)"
    using assms(6) by auto
  have room: "length es \<le> ring_room hdr"
    using es(4) assms(8) by (simp add: ring_room_def ring_contents_def)
  note ring = aio_ring.fill [OF assms(5) room]
  have "fst (aio_ring.drain (nat m) (fold ring_put es hdr)) = ring_contents hdr @ es"
    "ring_contents (snd (aio_ring.drain (nat m) (fold ring_put es hdr))) = []"
    using aio_ring.drain_spec [of "fold ring_put es hdr" "nat m"] ring es(5) assms(11) by auto
  then show ?thesis
    using es by (auto simp: wpdk_io_getevents_def getevents_loop_drain split_beta Let_def)
qed

lemma ring_put_tail:
  "ring_inv hdr \<Longrightarrow> io_tail (fold ring_put es hdr) = (io_tail hdr + length es) mod io_size hdr"
proof (induction es arbitrary: hdr)
  case (Cons e es)
  then show ?case using Cons.IH [of "ring_put e hdr"]
    by (simp add: ring_inv_put) (simp add: ring_put_def mod_simps)
qed (simp add: ring_inv_def)

lemma ring_put_head: "io_head (fold ring_put es hdr) = io_head hdr"
  by (induction es arbitrary: hdr) simp_all

text \<open>
  The ring cannot hold as many events as it has places: when the number of requests that have
  been accepted since it was empty is the \<^verbatim>\<open>maxevents\<close> of \<^verbatim>\<open>wpdk_io_setup\<close>, it looks empty and all
  of their events are lost.
\<close>

theorem full_ring_loses_events:
  assumes "synchronous api (aa_read api)" "synchronous api (aa_write api)" "requests_ok ios"
    and "io_ctx s = Ctx hdr" "ring_inv hdr" "ring_contents hdr = []"
    and "int (length ios) = int (io_size hdr)"
    and "wpdk_io_submit api (int (io_size hdr)) (Some ios) s = (int (io_size hdr), s1)"
  shows "wpdk_io_getevents m s1 = (0, [], s1)"
proof -
  have "submit_loop api (int (io_size hdr)) ios 0 s = (int (io_size hdr), s1)"
    using assms(8) by (simp add: wpdk_io_submit_def)
  with submit_loop_effect [OF assms(1,2,4,3), of 0 "int (io_size hdr)"] assms(7)
  obtain es where es: "io_ctx s1 = Ctx (fold ring_put es hdr)" "length es = io_size hdr" by auto
  have "io_head hdr = io_tail hdr"
    using assms(5,6) ring_get_None [of hdr] by (auto simp: ring_get_def split: if_splits)
  then have "ring_get (fold ring_put es hdr) = None"
    using ring_put_tail [OF assms(5), of es] assms(5) es(2) by (simp add: ring_get_def ring_put_head ring_inv_def)
  then have "getevents_loop (nat m) (fold ring_put es hdr) = ([], fold ring_put es hdr)"
    by (cases "nat m") simp_all
  then show ?thesis using es(1) by (simp add: wpdk_io_getevents_def)
qed

text \<open>
  C6. A vector request whose transfers end at once is completed by a single event: its result is
  the number of bytes up to the first transfer that was shorter than requested. When a transfer
  fails there is no event, and the call returns the error.
\<close>

theorem vector_request_outcome:
  assumes "io_ctx s = Ctx hdr" "io_iocount hdr < int (io_size hdr)"
    and "aa_calloc api (int (length vs) + 1) (world s) = (True, w)"
    and "synchronous api (aa_read api)" "synchronous api (aa_write api)" "2 \<le> length vs"
    and "\<forall>v \<in> set vs. 0 \<le> iov_len v \<and> iov_len v \<le> SSIZE_MAX" "to_int64 (aio_offset cb) = aio_offset cb"
  shows "wpdk_aio_readv api h a cb vs (int (length vs)) s =
           settle a cb hdr s (vector_outcome api (aa_read api) h vs (aio_offset cb) 0 w)
       \<and> wpdk_aio_writev api h a cb vs (int (length vs)) s =
           settle a cb hdr s (vector_outcome api (aa_write api) h vs (aio_offset cb) 0 w)"
  using vector_settles [OF assms(1,2,3) _ assms(6,7,8)] assms(4,5)
  by (simp add: wpdk_aio_readv_def wpdk_aio_writev_def)

text \<open>
  Nothing completes a transfer that Windows leaves pending: the request is accepted, its task keeps a
  place of the context, and there is no event.
\<close>

lemma pending_request_never_ends:
  assumes "io_ctx s = Ctx hdr" "io_iocount hdr < int (io_size hdr)" "aa_calloc api 1 (world s) = (True, w)"
    and "len \<noteq> 0" "aa_read api h buf (to_uint32 len) (aio_offset cb) w = ((False, n), w')"
    and "aa_last_error api w' = Werr3 ERROR_IO_PENDING"
  shows "wpdk_aio_read api h a cb buf len s =
     (0, s\<lparr>world := w', io_ctx := Ctx (hdr\<lparr>io_iocount := io_iocount hdr + 1\<rparr>)\<rparr>)"
  using assms allocate_eq [of s hdr api 1 w a cb]
  by (simp add: wpdk_aio_read_def aio_transfer_def os_call_eq)

text \<open>\<^verbatim>\<open>wpdk_io_submit\<close> does not check its context, unlike the other calls.\<close>

lemma submit_null_context:
  assumes "io_ctx s = Ctx_null" "aa_osfhandle api (aio_fildes cb) (world s) = Some h"
    and "aio_lio_opcode cb = IO_CMD_PREAD" "aio_nbytes cb = 0" "fst (aa_calloc api 1 (world s))"
  shows "fault (snd (wpdk_io_submit api 1 (Some [Some (a, cb)]) s))"
  using assms
  by (simp add: wpdk_io_submit_def submit_one_def wpdk_aio_read_def aio_transfer_def wpdk_aio_allocate_def os_call_eq
      wpdk_aio_increment_iocount_def wpdk_aio_done_def wpdk_aio_task_done_def wpdk_aio_free_def
      wpdk_aio_decrement_iocount_def on_header_def set_fault_def split_beta Let_def)

section \<open>Examples\<close>

text \<open>
  A system in which every transfer moves at most four bytes, and one in which the ring has one place.
\<close>

definition demo_aio :: "unit aio_api" where
  "demo_aio = \<lparr>aa_malloc = (\<lambda>n. Pair True), aa_calloc = (\<lambda>n. Pair True), aa_osfhandle = (\<lambda>fd w. Some 7),
     aa_read = (\<lambda>h buf n off w. ((True, max 0 (min 4 n)), w)),
     aa_write = (\<lambda>h buf n off w. ((False, 0), w)), aa_last_error = (\<lambda>w. Werr1 ERROR_ACCESS_DENIED)\<rparr>"

definition demo_header :: "nat \<Rightarrow> io_header" where
  "demo_header n = \<lparr>io_size = n, io_head = 0, io_tail = 0, io_events = replicate n zero_event, io_iocount = 0\<rparr>"

definition demo_aio_sys :: "nat \<Rightarrow> unit aio_sys" where
  "demo_aio_sys n = \<lparr>errno = 0, fault = False, world = (), io_ctx = Ctx (demo_header n)\<rparr>"

definition demo_iocb :: iocb where
  "demo_iocb = (io_prep_pread 3 100 4 0)\<lparr>aio_data := 5\<rparr>"

definition demo_iov :: "iovec list" where
  "demo_iov = [\<lparr>iov_base = 100, iov_len = 4\<rparr>, \<lparr>iov_base = 200, iov_len = 6\<rparr>, \<lparr>iov_base = 300, iov_len = 2\<rparr>]"

lemma demo_synchronous: "synchronous demo_aio (aa_read demo_aio)" "synchronous demo_aio (aa_write demo_aio)"
  by (auto simp: synchronous_def demo_aio_def)

lemma demo_ring: "0 < n \<Longrightarrow> ring_inv (demo_header n)" "0 < n \<Longrightarrow> ring_contents (demo_header n) = []"
  by (simp_all add: ring_inv_def ring_contents_def ring_count_def demo_header_def)

lemma demo_request: "requests_ok [Some (50, demo_iocb)]"
  by (simp add: requests_ok_def request_ok_def demo_iocb_def io_prep_defs to_int64_def)

lemma demo_submit:
  "wpdk_io_submit demo_aio 1 (Some [Some (50, demo_iocb)]) (demo_aio_sys n) =
     (if n = 0 then (- EAGAIN, (demo_aio_sys n)\<lparr>errno := EAGAIN\<rparr>)
      else (1, (demo_aio_sys n)\<lparr>io_ctx := Ctx (ring_put \<lparr>ev_data = 5, ev_obj = 50, ev_res = 4, ev_res2 = 0\<rparr> (demo_header n))\<rparr>))"
  by (simp add: wpdk_io_submit_def submit_one_def wpdk_aio_read_def aio_transfer_def wpdk_aio_allocate_def
      wpdk_aio_increment_iocount_def wpdk_aio_done_def wpdk_aio_task_done_def wpdk_aio_free_def
      wpdk_aio_decrement_iocount_def on_header_def task_event_def os_call_eq demo_aio_def demo_iocb_def io_prep_defs
      demo_aio_sys_def demo_header_def zero_task_def set_errno_def errno_simps to_uint32_def to_uint64_def
      ring_put_def Let_def)

theorem submit_exactly_once_witness:
  "\<exists>e s2. wpdk_io_getevents 8 (snd (wpdk_io_submit demo_aio 1 (Some [Some (50, demo_iocb)]) (demo_aio_sys 2))) = (1, [e], s2)
     \<and> event_of e (Some (50, demo_iocb))"
proof -
  let ?s1 = "snd (wpdk_io_submit demo_aio 1 (Some [Some (50, demo_iocb)]) (demo_aio_sys 2))"
  have "wpdk_io_submit demo_aio 1 (Some [Some (50, demo_iocb)]) (demo_aio_sys 2) = (1, ?s1)"
    by (simp add: demo_submit)
  then have "\<exists>es s2 hdr2. wpdk_io_getevents 8 ?s1 = (1, es, s2)
      \<and> list_all2 event_of es (take (nat 1) [Some (50, demo_iocb)]) \<and> fault s2 = fault (demo_aio_sys 2)
      \<and> io_ctx s2 = Ctx hdr2 \<and> ring_contents hdr2 = []"
    using submit_exactly_once [OF demo_synchronous demo_request, of "demo_aio_sys 2" "demo_header 2" 1 1 ?s1 8]
      demo_ring [of 2] by (simp add: demo_aio_sys_def demo_header_def)
  then show ?thesis by (auto simp: list_all2_Cons2)
qed

theorem full_ring_loses_events_witness:
  "wpdk_io_submit demo_aio 1 (Some [Some (50, demo_iocb)]) (demo_aio_sys 1) =
     (1, snd (wpdk_io_submit demo_aio 1 (Some [Some (50, demo_iocb)]) (demo_aio_sys 1)))
   \<and> fst (wpdk_io_getevents 8 (snd (wpdk_io_submit demo_aio 1 (Some [Some (50, demo_iocb)]) (demo_aio_sys 1)))) = 0"
proof -
  let ?s1 = "snd (wpdk_io_submit demo_aio 1 (Some [Some (50, demo_iocb)]) (demo_aio_sys 1))"
  have sub: "wpdk_io_submit demo_aio 1 (Some [Some (50, demo_iocb)]) (demo_aio_sys 1) = (1, ?s1)"
    by (simp add: demo_submit)
  have "wpdk_io_getevents 8 ?s1 = (0, [], ?s1)"
    using full_ring_loses_events [OF demo_synchronous demo_request, of "demo_aio_sys 1" "demo_header 1" ?s1 8]
      sub demo_ring [of 1] by (simp add: demo_aio_sys_def demo_header_def)
  with sub show ?thesis by simp
qed

theorem vector_request_outcome_witness:
  "wpdk_aio_readv demo_aio 7 50 demo_iocb demo_iov 3 (demo_aio_sys 2) =
     (0, (demo_aio_sys 2)\<lparr>io_ctx := Ctx (ring_put \<lparr>ev_data = 5, ev_obj = 50, ev_res = 8, ev_res2 = 0\<rparr> (demo_header 2))\<rparr>)"
  using vector_request_outcome [of "demo_aio_sys 2" "demo_header 2" demo_aio demo_iov "()" demo_iocb 7 50]
    demo_synchronous
  by (simp add: demo_aio_sys_def demo_header_def demo_iov_def demo_iocb_def io_prep_defs demo_aio_def settle_def
      to_int64_def to_uint32_def to_uint64_def SSIZE_MAX_def)

end
