(* ===== verification/Permute_Args.thy ===== *)
theory Permute_Args
  imports WPDK_Prelude "HOL-Library.Multiset"
begin

text \<open>
  \<^verbatim>\<open>permute_args\<close> of \<^verbatim>\<open>src/getopt.c\<close>: the exchange of two adjacent blocks of the argument vector,
  in place, by following the cycles of the permutation. It is shown to be the exchange of the blocks.
\<close>

section \<open>Model\<close>

text \<open>The loop is not entered with \<open>b = 0\<close>: the first remainder would be a division by zero.\<close>

function gcd_loop :: "nat \<Rightarrow> nat \<Rightarrow> nat" where
  "gcd_loop a b = (if b \<noteq> 0 \<and> a mod b \<noteq> 0 then gcd_loop b (a mod b) else b)"
  by pat_completeness auto
termination
  by (relation "measure snd") auto

declare gcd_loop.simps [simp del]

text \<open>The inner loop: \<open>j\<close> iterations remain.\<close>

fun cycle_loop :: "nat \<Rightarrow> nat \<Rightarrow> nat \<Rightarrow> nat \<Rightarrow> nat \<Rightarrow> nat \<Rightarrow> 'a list \<Rightarrow> 'a list" where
  "cycle_loop nnonopts nopts nonopt_end cstart 0 pos nargv = nargv"
| "cycle_loop nnonopts nopts nonopt_end cstart (Suc j) pos nargv =
     (let pos1 = (if nonopt_end \<le> pos then pos - nnonopts else pos + nopts);
          swap = nargv ! pos1
      in cycle_loop nnonopts nopts nonopt_end cstart j pos1 (nargv[pos1 := nargv ! cstart, cstart := swap]))"

text \<open>\<open>None\<close> is a division by zero, or a block that does not lie in the vector.\<close>

definition permute_args :: "nat \<Rightarrow> nat \<Rightarrow> nat \<Rightarrow> 'a list \<Rightarrow> 'a list option" where
  "permute_args nonopt_start nonopt_end opt_end nargv =
     (if nonopt_end < nonopt_start \<or> opt_end \<le> nonopt_end \<or> length nargv < opt_end then None
      else
        (let nnonopts = nonopt_end - nonopt_start;
             nopts = opt_end - nonopt_end;
             ncycle = gcd_loop nnonopts nopts;
             cyclelen = (opt_end - nonopt_start) div ncycle
         in Some (fold (\<lambda>i xs. let cstart = nonopt_end + i
                              in cycle_loop nnonopts nopts nonopt_end cstart cyclelen cstart xs)
                  [0..<ncycle] nargv)))"

section \<open>Cycles\<close>

lemma gcd_loop_gcd: "0 < b \<Longrightarrow> gcd_loop a b = gcd a b"
proof (induction a b rule: gcd_loop.induct)
  case (1 a b)
  show ?case
  proof (cases "a mod b = 0")
    case True
    then have "b dvd a" by auto
    then show ?thesis using True by (simp add: gcd_loop.simps [of a b] gcd_proj2_iff)
  next
    case False
    then have "gcd_loop a b = gcd b (a mod b)" using 1 by (simp add: gcd_loop.simps [of a b])
    then show ?thesis by (metis gcd_red_nat)
  qed
qed

text \<open>
  The positions of a cycle, relative to the first block: \<open>a\<close> and \<open>b\<close> are the lengths of the blocks,
  \<open>q\<close> is the position where the cycle starts.
\<close>

definition orbit :: "nat \<Rightarrow> nat \<Rightarrow> nat \<Rightarrow> nat \<Rightarrow> nat" where
  "orbit a b q k = (q + k * b) mod (a + b)"

lemma orbit_Suc: "orbit a b q (Suc k) = (orbit a b q k + b) mod (a + b)"
  by (simp add: orbit_def mod_simps add_ac)

lemma orbit_less: "0 < b \<Longrightarrow> orbit a b q k < a + b"
  by (simp add: orbit_def)

lemma orbit_0: "q < a + b \<Longrightarrow> orbit a b q 0 = q"
  by (simp add: orbit_def)

lemma orbit_pred: "(orbit a b q (Suc k) + a) mod (a + b) = orbit a b q k"
proof -
  have "(orbit a b q (Suc k) + a) mod (a + b) = (orbit a b q k + (a + b)) mod (a + b)"
    by (simp add: orbit_Suc mod_simps add_ac)
  then show ?thesis by (simp add: orbit_def)
qed

lemma cycle_length:
  assumes "0 < (b :: nat)"
  obtains l c where "a + b = gcd a b * l" "b = gcd a b * c" "coprime l c" "0 < l" "0 < gcd a b" "l = (a + b) div gcd a b"
proof -
  let ?g = "gcd a b"
  have g: "0 < ?g" using assms by auto
  have "?g = gcd (a + b) b" by simp
  then obtain l c where "a + b = ?g * l" "b = ?g * c" "coprime l c"
    using gcd_coprime_exists [of "a + b" b] g by (metis mult.commute less_irrefl)
  then show thesis using that [of l c] g assms by (metis add_gr_0 mult_is_0 nonzero_mult_div_cancel_left not_gr0)
qed

lemma orbit_returns:
  assumes "0 < b" "q < a + b"
  shows "orbit a b q ((a + b) div gcd a b) = q"
proof -
  obtain l c where lc: "a + b = gcd a b * l" "b = gcd a b * c" "l = (a + b) div gcd a b"
    using cycle_length [OF assms(1)] by metis
  then have "l * b = (a + b) * c" by (metis mult.assoc mult.commute)
  then show ?thesis using assms(2) lc(3) by (simp add: orbit_def)
qed

lemma orbit_inj:
  assumes "0 < b" "i < (a + b) div gcd a b" "j < (a + b) div gcd a b" "orbit a b q i = orbit a b q j"
  shows "i = j"
proof -
  have False if "i < j" "j < (a + b) div gcd a b" "orbit a b q i = orbit a b q j" for i j
  proof -
    obtain l c where lc: "a + b = gcd a b * l" "b = gcd a b * c" "coprime l c" "0 < gcd a b" "l = (a + b) div gcd a b"
      using cycle_length [OF assms(1)] by metis
    have "q + i * b \<le> q + j * b" using that(1) by simp
    then have "a + b dvd (q + j * b) - (q + i * b)"
      using that(3) mod_eq_dvd_iff_nat unfolding orbit_def by metis
    then have "gcd a b * l dvd (j - i) * (gcd a b * c)" using lc(1,2) by (simp add: diff_mult_distrib)
    then have "l dvd (j - i) * c" using assms(1) by (simp add: mult.left_commute)
    then have "l dvd j - i" using lc(3) by (simp add: coprime_dvd_mult_left_iff)
    then have "l \<le> j - i" using that(1) by (simp add: dvd_imp_le)
    then show False using that(2) lc(5) by simp
  qed
  then show ?thesis using assms(2-) by (metis nat_neq_iff)
qed

text \<open>A cycle consists of the positions that are congruent to its start.\<close>

lemma residue_class:
  assumes "n = g * l" "i < (g :: nat)"
  shows "{t. t < n \<and> t mod g = i} = (\<lambda>j. i + j * g) ` {..<l}"
proof (intro equalityI subsetI)
  fix t assume "t \<in> {t. t < n \<and> t mod g = i}"
  then have "t = i + (t div g) * g" "t div g < l"
    using assms by (auto simp: less_mult_imp_div_less mult.commute)
  then show "t \<in> (\<lambda>j. i + j * g) ` {..<l}" by blast
next
  fix t assume "t \<in> (\<lambda>j. i + j * g) ` {..<l}"
  then obtain j where j: "t = i + j * g" "j < l" by blast
  then have "Suc j \<le> l" by simp
  then have "Suc j * g \<le> l * g" by (rule mult_le_mono1)
  then show "t \<in> {t. t < n \<and> t mod g = i}" using j(1) assms by (simp add: mult.commute)
qed

lemma orbit_range:
  assumes "0 < b" "i < gcd a b" "q mod gcd a b = i"
  shows "orbit a b q ` {..<(a + b) div gcd a b} = {t. t < a + b \<and> t mod gcd a b = i}"
proof (rule card_subset_eq)
  define g l where "g = gcd a b" and "l = (a + b) div gcd a b"
  obtain c where lc: "a + b = g * l" "b = g * c" "0 < g"
    using cycle_length [OF assms(1), of a] unfolding g_def l_def by metis
  show "finite {t. t < a + b \<and> t mod gcd a b = i}" by simp
  have "orbit a b q k mod g = i" for k
  proof -
    have "orbit a b q k mod g = (q + k * b) mod g" by (simp add: orbit_def lc(1) mod_mult2_eq [of _ g l])
    also have "q + k * b = q + g * (k * c)" using lc(2) by simp
    finally show ?thesis using assms(3) by (simp add: g_def)
  qed
  then show "orbit a b q ` {..<(a + b) div gcd a b} \<subseteq> {t. t < a + b \<and> t mod gcd a b = i}"
    using orbit_less [OF assms(1)] by (auto simp: g_def)
  have "card (orbit a b q ` {..<l}) = l"
    using orbit_inj [OF assms(1)] by (subst card_image) (auto simp: inj_on_def l_def)
  moreover have "card ((\<lambda>j. i + j * g) ` {..<l}) = l"
    using lc(3) by (subst card_image) (auto simp: inj_on_def)
  ultimately show "card (orbit a b q ` {..<(a + b) div gcd a b}) = card {t. t < a + b \<and> t mod gcd a b = i}"
    using residue_class [OF lc(1)] assms(2) by (simp add: g_def l_def)
qed

section \<open>The loops\<close>

lemma next_position:
  assumes "0 < b"
  shows "(if s + a \<le> s + orbit a b q k then s + orbit a b q k - a else s + orbit a b q k + b) = s + orbit a b q (Suc k)"
  using orbit_less [OF assms, of a q k] by (auto simp: orbit_Suc mod_if)

text \<open>The vector after \<open>k\<close> iterations on the cycle that starts at \<open>s + q\<close>; \<open>ys\<close> is the vector before.\<close>

definition cycle_inv :: "nat \<Rightarrow> nat \<Rightarrow> nat \<Rightarrow> nat \<Rightarrow> 'a list \<Rightarrow> nat \<Rightarrow> 'a list \<Rightarrow> bool" where
  "cycle_inv s a b q ys k xs \<longleftrightarrow> length xs = length ys \<and>
     (\<forall>r. r < s \<or> s + (a + b) \<le> r \<longrightarrow> xs ! r = ys ! r) \<and>
     (\<forall>t < a + b. xs ! (s + t) =
        (if t = q then ys ! (s + orbit a b q k)
         else if t \<in> orbit a b q ` {1..k} then ys ! (s + (t + a) mod (a + b)) else ys ! (s + t)))"

lemma cycle_inv_0: "q < a + b \<Longrightarrow> cycle_inv s a b q ys 0 ys"
  by (simp add: cycle_inv_def orbit_0)

lemma cycle_inv_step:
  assumes "0 < b" "q < a + b" "s + (a + b) \<le> length ys" "Suc k < (a + b) div gcd a b" "cycle_inv s a b q ys k xs"
  defines "p \<equiv> orbit a b q (Suc k)"
  shows "cycle_inv s a b q ys (Suc k) (xs[s + p := xs ! (s + q), s + q := xs ! (s + p)])"
proof -
  have p: "p < a + b" using assms(1) by (simp add: p_def orbit_less)
  have new: "p \<noteq> orbit a b q j" if "j \<le> k" for j
    using orbit_inj [OF assms(1), of "Suc k" a j q] assms(4) that by (auto simp: p_def)
  have pq: "p \<noteq> q" using new [of 0] orbit_0 [OF assms(2)] by simp
  have "p \<notin> orbit a b q ` {1..k}" using new by (metis atLeastAtMost_iff imageE)
  then have "xs ! (s + p) = ys ! (s + p)" using assms(5) p pq by (simp add: cycle_inv_def)
  moreover have "xs ! (s + q) = ys ! (s + (p + a) mod (a + b))"
    using assms(2,5) by (simp add: cycle_inv_def p_def orbit_pred)
  moreover have "orbit a b q ` {1..Suc k} = insert p (orbit a b q ` {1..k})"
    by (simp add: p_def atLeastAtMostSuc_conv)
  ultimately show ?thesis
    using assms(2,3,5) p pq unfolding cycle_inv_def by (auto simp: nth_list_update p_def)
qed

lemma cycle_loop_inv:
  assumes "0 < b" "q < a + b" "s + (a + b) \<le> length ys" "(a + b) div gcd a b = Suc l"
  shows "cycle_inv s a b q ys k xs \<Longrightarrow> k + j = l \<Longrightarrow>
     cycle_inv s a b q ys l
       (cycle_loop a b (s + a) (s + q) (Suc j) (s + orbit a b q k) xs)"
proof (induction j arbitrary: k xs)
  case 0
  then have "orbit a b q (Suc k) = q" using orbit_returns [OF assms(1,2)] unfolding assms(4) by simp
  then have "cycle_loop a b (s + a) (s + q) (Suc 0) (s + orbit a b q k) xs = xs"
    unfolding cycle_loop.simps Let_def next_position [OF assms(1)] by simp
  then show ?case using 0 by (simp del: cycle_loop.simps)
next
  case (Suc j)
  let ?p = "orbit a b q (Suc k)"
  have "cycle_inv s a b q ys (Suc k) (xs[s + ?p := xs ! (s + q), s + q := xs ! (s + ?p)])"
    using cycle_inv_step [OF assms(1-3) _ Suc.prems(1)] Suc.prems(2) unfolding assms(4) by simp
  from Suc.IH [OF this] Suc.prems(2)
  have "cycle_inv s a b q ys l
     (cycle_loop a b (s + a) (s + q) (Suc j) (s + ?p) (xs[s + ?p := xs ! (s + q), s + q := xs ! (s + ?p)]))" by simp
  then show ?case by (simp only: cycle_loop.simps(2) [of _ _ _ _ "Suc j"] Let_def next_position [OF assms(1)])
qed

text \<open>One run of the inner loop rotates the positions of its cycle.\<close>

lemma cycle_effect:
  assumes "0 < b" "i < gcd a b" "s + (a + b) \<le> length ys"
  defines "zs \<equiv> cycle_loop a b (s + a) (s + (a + i)) ((a + b) div gcd a b) (s + (a + i)) ys"
  shows "length zs = length ys"
    "r < s \<or> s + (a + b) \<le> r \<Longrightarrow> zs ! r = ys ! r"
    "t < a + b \<Longrightarrow> zs ! (s + t) = (if t mod gcd a b = i then ys ! (s + (t + a) mod (a + b)) else ys ! (s + t))"
proof -
  let ?q = "a + i" and ?l = "(a + b) div gcd a b"
  have "gcd a b \<le> b" using assms(1) by (simp add: gcd_le2_nat)
  then have q: "?q < a + b" using assms(2) by simp
  obtain l where l: "?l = Suc l" using cycle_length [OF assms(1), of a] by (metis gr0_implies_Suc)
  have qi: "?q mod gcd a b = i" using assms(2) by (metis gcd_dvd1 dvd_imp_mod_0 mod_add_left_eq add_0 mod_less)
  have inv: "cycle_inv s a b ?q ys l zs"
    using cycle_loop_inv [OF assms(1) q assms(3) l cycle_inv_0 [OF q], of l] unfolding zs_def l orbit_0 [OF q] by simp
  then show "length zs = length ys" "r < s \<or> s + (a + b) \<le> r \<Longrightarrow> zs ! r = ys ! r" by (auto simp: cycle_inv_def)
  assume t: "t < a + b"
  have "{..<?l} = insert 0 {1..l}" using l by auto
  then have "(t mod gcd a b = i) = (t = ?q \<or> t \<in> orbit a b ?q ` {1..l})"
    using orbit_range [OF assms(1,2) qi] t orbit_0 [OF q] by (metis (mono_tags, lifting) image_insert insert_iff mem_Collect_eq)
  moreover have "orbit a b ?q l = (?q + a) mod (a + b)"
    using orbit_pred [of a b ?q l] orbit_returns [OF assms(1) q] unfolding l by simp
  ultimately show "zs ! (s + t) = (if t mod gcd a b = i then ys ! (s + (t + a) mod (a + b)) else ys ! (s + t))"
    using inv t unfolding cycle_inv_def by auto
qed

definition cycles :: "nat \<Rightarrow> nat \<Rightarrow> nat \<Rightarrow> nat \<Rightarrow> 'a list \<Rightarrow> 'a list" where
  "cycles s a b n ys =
     fold (\<lambda>i xs. cycle_loop a b (s + a) (s + (a + i)) ((a + b) div gcd a b) (s + (a + i)) xs) [0..<n] ys"

lemma cycles_effect:
  assumes "0 < b" "s + (a + b) \<le> length ys"
  shows "n \<le> gcd a b \<Longrightarrow> length (cycles s a b n ys) = length ys
     \<and> (\<forall>r. r < s \<or> s + (a + b) \<le> r \<longrightarrow> cycles s a b n ys ! r = ys ! r)
     \<and> (\<forall>t < a + b. cycles s a b n ys ! (s + t) =
          (if t mod gcd a b < n then ys ! (s + (t + a) mod (a + b)) else ys ! (s + t)))"
proof (induction n)
  case (Suc n)
  let ?xs = "cycles s a b n ys" and ?g = "gcd a b"
  have n: "n < ?g" and IH: "length ?xs = length ys" "\<forall>r. r < s \<or> s + (a + b) \<le> r \<longrightarrow> ?xs ! r = ys ! r"
    "\<forall>t < a + b. ?xs ! (s + t) = (if t mod ?g < n then ys ! (s + (t + a) mod (a + b)) else ys ! (s + t))"
    using Suc by auto
  have step: "cycles s a b (Suc n) ys = cycle_loop a b (s + a) (s + (a + n)) ((a + b) div ?g) (s + (a + n)) ?xs"
    by (simp add: cycles_def)
  have len: "s + (a + b) \<le> length ?xs" using IH(1) assms(2) by simp
  note eff = cycle_effect [OF assms(1) n len, folded step]
  have "cycles s a b (Suc n) ys ! (s + t) =
      (if t mod ?g < Suc n then ys ! (s + (t + a) mod (a + b)) else ys ! (s + t))" if t: "t < a + b" for t
  proof (cases "t mod ?g = n")
    case True
    have "?g dvd a" "?g dvd a + b" by simp_all
    then have "(t + a) mod (a + b) mod ?g = n"
      using True by (metis mod_mod_cancel dvd_imp_mod_0 mod_add_right_eq add.right_neutral)
    moreover have "(t + a) mod (a + b) < a + b" using assms(1) by simp
    ultimately show ?thesis using True eff(3) [OF t] IH(3) by simp
  next
    case False
    then show ?thesis using eff(3) [OF t] IH(3) t by (auto simp: less_Suc_eq)
  qed
  then show ?case using eff(1,2) IH(1,2) by simp
qed (simp add: cycles_def)

lemma permute_args_blocks:
  assumes "nonopt_start \<le> nonopt_end" "nonopt_end < opt_end" "opt_end \<le> length nargv"
  shows "permute_args nonopt_start nonopt_end opt_end nargv =
     Some (take nonopt_start nargv @ drop nonopt_end (take opt_end nargv)
           @ drop nonopt_start (take nonopt_end nargv) @ drop opt_end nargv)"
proof -
  let ?s = nonopt_start
  define a b where "a = nonopt_end - nonopt_start" and "b = opt_end - nonopt_end"
  have pos: "nonopt_end = ?s + a" "opt_end = ?s + (a + b)" and b: "0 < b"
    using assms(1,2) by (simp_all add: a_def b_def)
  have len: "?s + (a + b) \<le> length nargv" using assms(3) pos by simp
  let ?zs = "cycles ?s a b (gcd a b) nargv"
  have "permute_args nonopt_start nonopt_end opt_end nargv = Some ?zs"
    using b len by (simp add: permute_args_def pos cycles_def gcd_loop_gcd Let_def add.assoc)
  moreover have "?zs = take ?s nargv @ drop (?s + a) (take (?s + (a + b)) nargv)
      @ drop ?s (take (?s + a) nargv) @ drop (?s + (a + b)) nargv" (is "_ = ?rs")
  proof (rule nth_equalityI)
    note eff = cycles_effect [OF b len order_refl]
    show "length ?zs = length ?rs" using eff len by simp
    fix r assume "r < length ?zs"
    then have r: "r < length nargv" using eff by simp
    consider (out) "r < ?s \<or> ?s + (a + b) \<le> r" | (seg) t where "r = ?s + t" "t < a + b"
      by (metis add_diff_inverse_nat less_diff_conv2 linorder_not_less add.commute)
    then show "?zs ! r = ?rs ! r"
    proof cases
      case out
      then have "?zs ! r = nargv ! r" using eff by blast
      then show ?thesis using out r len by (auto simp: nth_append min_def)
    next
      case seg
      have "?zs ! r = nargv ! (?s + (t + a) mod (a + b))" using eff seg b by simp
      then show ?thesis using seg len by (auto simp: nth_append min_def mod_if add_ac)
    qed
  qed
  ultimately show ?thesis using pos by simp
qed

text \<open>What the exchange of two blocks keeps: the arguments, and the part behind the blocks.\<close>

definition exchange :: "nat \<Rightarrow> nat \<Rightarrow> nat \<Rightarrow> 'a list \<Rightarrow> 'a list" where
  "exchange s m e xs = take s xs @ drop m (take e xs) @ drop s (take m xs) @ drop e xs"

lemma exchange_mset:
  assumes "s \<le> m" "m \<le> e"
  shows "mset (exchange s m e xs) = mset xs"
proof -
  have "take m (take e xs) = take m xs" "take s (take m xs) = take s xs"
    using assms by (simp_all only: take_take min.absorb1)
  then have "xs = take s xs @ drop s (take m xs) @ drop m (take e xs) @ drop e xs"
    by (metis append_take_drop_id append.assoc)
  then have "mset xs = mset (take s xs) + mset (drop s (take m xs)) + mset (drop m (take e xs)) + mset (drop e xs)"
    by (metis mset_append add.assoc)
  then show ?thesis by (simp add: exchange_def ac_simps)
qed

lemma exchange_drop:
  assumes "s \<le> m" "m \<le> e" "e \<le> length xs" "e \<le> j"
  shows "drop j (exchange s m e xs) = drop j xs"
proof -
  have "length (take s xs @ drop m (take e xs) @ drop s (take m xs)) = e" using assms by (simp add: min.absorb2)
  then have "drop j (exchange s m e xs) = drop (j - e) (drop e xs)"
    using assms(4) unfolding exchange_def by (metis append.assoc drop_all drop_append append_Nil)
  then show ?thesis using assms(4) by simp
qed

text \<open>
  C14. \<^verbatim>\<open>permute_args\<close> exchanges the two blocks and keeps the order of the arguments in each; the
  arguments outside of the blocks stay where they are.
\<close>

theorem permute_args_exchanges:
  assumes "nonopt_start \<le> nonopt_end" "nonopt_end < opt_end" "opt_end \<le> length nargv"
  shows "permute_args nonopt_start nonopt_end opt_end nargv =
     Some (take nonopt_start nargv @ drop nonopt_end (take opt_end nargv)
           @ drop nonopt_start (take nonopt_end nargv) @ drop opt_end nargv)"
  using assms by (rule permute_args_blocks)

theorem permute_args_exchanges_witness:
  "permute_args 1 3 5 [''prog'', ''x'', ''y'', ''-a'', ''-b'', ''z''] = Some [''prog'', ''-a'', ''-b'', ''x'', ''y'', ''z'']"
  using permute_args_exchanges [of 1 3 5 "[''prog'', ''x'', ''y'', ''-a'', ''-b'', ''z'']"] by simp

end
