(* ===== verification/Getopt.thy ===== *)
theory Getopt
  imports Permute_Args C_String
begin

text \<open>
  \<^verbatim>\<open>src/getopt.c\<close>: \<^verbatim>\<open>getopt\<close>, \<^verbatim>\<open>getopt_long\<close> and \<^verbatim>\<open>getopt_long_only\<close>. The static variables of the file
  and the argument vector are the state. The messages, which \<^verbatim>\<open>warnx\<close> discards, are left out.
\<close>

section \<open>State\<close>

text \<open>
  \<open>go_place\<close> is what is left of the argument that \<^verbatim>\<open>place\<close> points into. \<open>go_longidx\<close> is the variable
  of the caller that \<^verbatim>\<open>idx\<close> points to, and \<open>go_flags\<close> the variables that the flags of long options
  point to.
\<close>

record getopt_state =
  go_argv :: "string list"
  go_optarg :: "string option"
  go_optind :: int
  go_optopt :: int
  go_place :: string
  go_nonopt_start :: int
  go_nonopt_end :: int
  go_posixly_correct :: int
  go_longidx :: int
  go_flags :: "nat \<Rightarrow> int"
  go_fault :: bool

record long_option =
  lo_name :: string
  lo_has_arg :: int
  lo_flag :: "nat option"
  lo_val :: int

definition no_argument :: int where "no_argument = 0"
definition required_argument :: int where "required_argument = 1"
definition optional_argument :: int where "optional_argument = 2"

text \<open>The value of a \<^verbatim>\<open>char\<close>, which is signed, and \<^verbatim>\<open>s[k]\<close>, where the terminator may be read.\<close>

definition char_int :: "char \<Rightarrow> int" where
  "char_int c = (let n = of_char c :: int in if n < 128 then n else n - 256)"

definition ch :: "string \<Rightarrow> nat \<Rightarrow> char" where
  "ch s k = (if k < length s then s ! k else NUL)"

definition BADCH :: int where "BADCH = char_int (CHR ''?'')"

definition BADARG :: "string \<Rightarrow> int" where
  "BADARG options = (if ch options 0 = CHR '':'' then char_int (CHR '':'') else char_int (CHR ''?''))"

definition INORDER :: int where "INORDER = 1"

definition go_set_fault :: "getopt_state \<Rightarrow> getopt_state" where
  "go_set_fault g = g\<lparr>go_fault := True\<rparr>"

text \<open>\<^verbatim>\<open>nargv[k]\<close>: the vector ends with a NULL, which is \<open>Some None\<close>; \<open>None\<close> is a read out of bounds.\<close>

definition nargv_at :: "getopt_state \<Rightarrow> int \<Rightarrow> string option option" where
  "nargv_at g k =
     (if 0 \<le> k \<and> k < int (length (go_argv g)) then Some (Some (go_argv g ! nat k))
      else if k = int (length (go_argv g)) then Some None else None)"

section \<open>Long options\<close>

text \<open>\<open>None\<close> is an ambiguous abbreviation; \<open>i\<close> is the index of the first option of the list.\<close>

fun match_loop :: "string \<Rightarrow> nat \<Rightarrow> bool \<Rightarrow> long_option list \<Rightarrow> int \<Rightarrow> int \<Rightarrow> int option" where
  "match_loop current_argv len short_too [] i match = Some match"
| "match_loop current_argv len short_too (lo # los) i match =
     (if \<not> strncmp_eq current_argv (lo_name lo) len then match_loop current_argv len short_too los (i + 1) match
      else if length (lo_name lo) = len then Some i
      else if short_too \<and> len = 1 then match_loop current_argv len short_too los (i + 1) match
      else if match = - 1 then match_loop current_argv len short_too los (i + 1) i
      else None)"

definition flag_optopt :: "long_option \<Rightarrow> int" where
  "flag_optopt lo = (if lo_flag lo = None then lo_val lo else 0)"

text \<open>The argument of a long option: what follows the equals sign, or the next element of the vector.\<close>

definition long_argument :: "long_option \<Rightarrow> string option \<Rightarrow> getopt_state \<Rightarrow> getopt_state" where
  "long_argument lo arg g =
     (if lo_has_arg lo = required_argument \<or> lo_has_arg lo = optional_argument
      then if arg \<noteq> None then g\<lparr>go_optarg := arg\<rparr>
           else if lo_has_arg lo = required_argument
           then (case nargv_at g (go_optind g) of
                   None \<Rightarrow> go_set_fault g
                 | Some p \<Rightarrow> g\<lparr>go_optarg := p, go_optind := go_optind g + 1\<rparr>)
           else g
      else g)"

definition parse_long_options ::
  "string \<Rightarrow> long_option list \<Rightarrow> bool \<Rightarrow> bool \<Rightarrow> getopt_state \<Rightarrow> int \<times> getopt_state" where
  "parse_long_options options long_options idx short_too g =
     (let current_argv = go_place g;
          g1 = g\<lparr>go_optind := go_optind g + 1\<rparr>;
          has_equal = strchr (CHR ''='') current_argv;
          len = (case has_equal of Some k \<Rightarrow> k | None \<Rightarrow> length current_argv);
          arg = map_option (\<lambda>k. drop (Suc k) current_argv) has_equal
      in case match_loop current_argv len short_too long_options 0 (- 1) of
           None \<Rightarrow> (BADCH, g1\<lparr>go_optopt := 0\<rparr>)
         | Some match \<Rightarrow>
             if match = - 1
             then (if short_too then (- 1, g1\<lparr>go_optind := go_optind g1 - 1\<rparr>)
                   else (BADCH, g1\<lparr>go_optopt := 0\<rparr>))
             else
               (let lo = long_options ! nat match
                in if lo_has_arg lo = no_argument \<and> arg \<noteq> None
                   then (BADARG options, g1\<lparr>go_optopt := flag_optopt lo\<rparr>)
                   else
                     (let g2 = long_argument lo arg g1
                      in if lo_has_arg lo = required_argument \<and> go_optarg g2 = None
                         then (BADARG options, g2\<lparr>go_optopt := flag_optopt lo, go_optind := go_optind g2 - 1\<rparr>)
                         else
                           (let g3 = (if idx then g2\<lparr>go_longidx := match\<rparr> else g2)
                            in case lo_flag lo of
                                 Some f \<Rightarrow> (0, g3\<lparr>go_flags := (go_flags g3)(f := lo_val lo)\<rparr>)
                               | None \<Rightarrow> (lo_val lo, g3)))))"

section \<open>The next argument\<close>

definition go_permute :: "getopt_state \<Rightarrow> getopt_state" where
  "go_permute g =
     (if go_nonopt_start g < 0 \<or> go_nonopt_end g < 0 \<or> go_optind g < 0 then go_set_fault g
      else case permute_args (nat (go_nonopt_start g)) (nat (go_nonopt_end g)) (nat (go_optind g)) (go_argv g) of
             None \<Rightarrow> go_set_fault g
           | Some argv \<Rightarrow> g\<lparr>go_argv := argv\<rparr>)"

definition forget_nonopts :: "getopt_state \<Rightarrow> getopt_state" where
  "forget_nonopts g = g\<lparr>go_nonopt_start := - 1, go_nonopt_end := - 1\<rparr>"

definition permute_back :: "getopt_state \<Rightarrow> getopt_state" where
  "permute_back g = (go_permute g)\<lparr>go_optind := go_optind g - (go_nonopt_end g - go_nonopt_start g)\<rparr>"

text \<open>A value that is returned, or an option to be parsed, with whether \<^verbatim>\<open>place\<close> is \<^verbatim>\<open>nargv[optind]\<close>.\<close>

datatype next_arg = Return int | Parse bool

definition is_nonoption :: "string \<Rightarrow> string \<Rightarrow> bool" where
  "is_nonoption options p \<longleftrightarrow> ch p 0 \<noteq> CHR ''-'' \<or> ch p 1 = NUL \<and> strchr (CHR ''-'') options = None"

text \<open>A non-option is skipped: it is added to the block of those that were skipped before.\<close>

definition skip_nonoption :: "getopt_state \<Rightarrow> getopt_state" where
  "skip_nonoption g =
     (let g1 = (if go_nonopt_start g = - 1 then g\<lparr>go_nonopt_start := go_optind g\<rparr>
                else if go_nonopt_end g \<noteq> - 1
                then (go_permute g)\<lparr>go_nonopt_start := go_optind g - (go_nonopt_end g - go_nonopt_start g),
                                    go_nonopt_end := - 1\<rparr>
                else g)
      in g1\<lparr>go_optind := go_optind g1 + 1\<rparr>)"

definition found_option :: "string \<Rightarrow> getopt_state \<Rightarrow> next_arg \<times> getopt_state" where
  "found_option p g =
     (let g1 = (if go_nonopt_start g \<noteq> - 1 \<and> go_nonopt_end g = - 1 then g\<lparr>go_nonopt_end := go_optind g\<rparr> else g)
      in if ch p 1 = NUL then (Parse True, g1\<lparr>go_place := p\<rparr>)
         else if ch p 1 = CHR ''-'' \<and> ch p 2 = NUL
         then (let g2 = g1\<lparr>go_optind := go_optind g1 + 1, go_place := []\<rparr>;
                   g3 = (if go_nonopt_end g2 \<noteq> - 1 then permute_back g2 else g2)
               in (Return (- 1), forget_nonopts g3))
         else (Parse False, g1\<lparr>go_place := tl p\<rparr>))"

definition end_of_arguments :: "getopt_state \<Rightarrow> getopt_state" where
  "end_of_arguments g =
     (let g1 = g\<lparr>go_place := []\<rparr>;
          g2 = (if go_nonopt_end g1 \<noteq> - 1 then permute_back g1
                else if go_nonopt_start g1 \<noteq> - 1 then g1\<lparr>go_optind := go_nonopt_start g1\<rparr>
                else g1)
      in forget_nonopts g2)"

lemma optind_permute [simp]: "go_optind (go_permute g) = go_optind g"
  by (simp add: go_permute_def go_set_fault_def split: option.split)

lemma optind_skip [simp]: "go_optind (skip_nonoption g) = go_optind g + 1"
  by (simp add: skip_nonoption_def Let_def)

text \<open>The block after the label \<^verbatim>\<open>start\<close>; each \<^verbatim>\<open>goto\<close> is a recursive call.\<close>

function update_place :: "int \<Rightarrow> string \<Rightarrow> bool \<Rightarrow> bool \<Rightarrow> getopt_state \<Rightarrow> next_arg \<times> getopt_state" where
  "update_place nargc options allargs permute g =
     (if nargc \<le> go_optind g then (Return (- 1), end_of_arguments g)
      else case nargv_at g (go_optind g) of
             Some (Some p) \<Rightarrow>
               if is_nonoption options p
               then (let g1 = g\<lparr>go_place := []\<rparr>
                     in if allargs then (Return INORDER, g1\<lparr>go_optarg := Some p, go_optind := go_optind g + 1\<rparr>)
                        else if \<not> permute then (Return (- 1), g1)
                        else update_place nargc options allargs permute (skip_nonoption g1))
               else found_option p g
           | _ \<Rightarrow> (Return (- 1), go_set_fault g))"
  by pat_completeness auto
termination
  by (relation "measure (\<lambda>(nargc, options, allargs, permute, g). nat (nargc - go_optind g))") auto

declare update_place.simps [simp del]

section \<open>Options\<close>

definition short_option ::
  "int \<Rightarrow> string \<Rightarrow> long_option list option \<Rightarrow> bool \<Rightarrow> getopt_state \<Rightarrow> int \<times> getopt_state" where
  "short_option nargc options long_options idx g =
     (case go_place g of
        [] \<Rightarrow> (0, go_set_fault g)
      | optchar # place \<Rightarrow>
          (let g1 = g\<lparr>go_place := place\<rparr>; oli = strchr optchar options
           in case (if optchar = CHR '':'' \<or> optchar = CHR ''-'' \<and> place \<noteq> [] then None else oli) of
                None \<Rightarrow>
                  if optchar = CHR ''-'' \<and> place = [] then (- 1, g1)
                  else (BADCH, g1\<lparr>go_optind := (if place = [] then go_optind g1 + 1 else go_optind g1),
                                  go_optopt := char_int optchar\<rparr>)
              | Some k \<Rightarrow>
                  if long_options \<noteq> None \<and> optchar = CHR ''W'' \<and> ch options (Suc k) = CHR '';''
                  then (let g2 = (if place \<noteq> [] then g1 else g1\<lparr>go_optind := go_optind g1 + 1\<rparr>)
                        in if place = [] \<and> nargc \<le> go_optind g2
                           then (BADARG options, g2\<lparr>go_place := [], go_optopt := char_int optchar\<rparr>)
                           else (case nargv_at g2 (go_optind g2) of
                                   Some (Some p) \<Rightarrow>
                                     (case parse_long_options options (the long_options) idx False (g2\<lparr>go_place := p\<rparr>) of
                                        (r, g3) \<Rightarrow> (r, g3\<lparr>go_place := []\<rparr>))
                                 | _ \<Rightarrow> (0, go_set_fault g2)))
                  else if ch options (Suc k) \<noteq> CHR '':''
                  then (char_int optchar, if place = [] then g1\<lparr>go_optind := go_optind g1 + 1\<rparr> else g1)
                  else
                    (let g2 = g1\<lparr>go_optarg := None\<rparr>
                     in if place \<noteq> []
                        then (char_int optchar, g2\<lparr>go_optarg := Some place, go_place := [], go_optind := go_optind g2 + 1\<rparr>)
                        else if ch options (Suc (Suc k)) = CHR '':''
                        then (char_int optchar, g2\<lparr>go_place := [], go_optind := go_optind g2 + 1\<rparr>)
                        else
                          (let g3 = g2\<lparr>go_optind := go_optind g2 + 1\<rparr>
                           in if nargc \<le> go_optind g3
                              then (BADARG options, g3\<lparr>go_place := [], go_optopt := char_int optchar\<rparr>)
                              else (case nargv_at g3 (go_optind g3) of
                                      None \<Rightarrow> (0, go_set_fault g3)
                                    | Some p \<Rightarrow> (char_int optchar,
                                         g3\<lparr>go_optarg := p, go_place := [], go_optind := go_optind g3 + 1\<rparr>))))))"

text \<open>
  \<open>longonly\<close> is \<^verbatim>\<open>FLAG_LONGONLY\<close>; \<open>at_start\<close> tells whether \<^verbatim>\<open>place\<close> is \<^verbatim>\<open>nargv[optind]\<close>.
\<close>

definition parse_option ::
  "int \<Rightarrow> string \<Rightarrow> long_option list option \<Rightarrow> bool \<Rightarrow> bool \<Rightarrow> bool \<Rightarrow> getopt_state \<Rightarrow> int \<times> getopt_state" where
  "parse_option nargc options long_options idx longonly at_start g =
     (let c = ch (go_place g) 0
      in if long_options \<noteq> None \<and> \<not> at_start \<and> (c = CHR ''-'' \<or> longonly)
         then (let g1 = (if c = CHR ''-'' then g\<lparr>go_place := tl (go_place g)\<rparr> else g);
                   short_too = (c \<noteq> CHR ''-'' \<and> c \<noteq> CHR '':'' \<and> strchr c options \<noteq> None)
               in case parse_long_options options (the long_options) idx short_too g1 of
                    (optchar, g2) \<Rightarrow>
                      if optchar \<noteq> - 1 then (optchar, g2\<lparr>go_place := []\<rparr>)
                      else short_option nargc options long_options idx g2)
         else short_option nargc options long_options idx g)"

text \<open>
  \<open>env\<close> tells whether the variable \<^verbatim>\<open>POSIXLY_CORRECT\<close> is set. All callers pass \<^verbatim>\<open>FLAG_PERMUTE\<close> and not
  \<^verbatim>\<open>FLAG_ALLARGS\<close>. The options are those after a leading \<^verbatim>\<open>+\<close> or \<^verbatim>\<open>-\<close>.
\<close>

definition getopt_internal ::
  "bool \<Rightarrow> int \<Rightarrow> string option \<Rightarrow> long_option list option \<Rightarrow> bool \<Rightarrow> bool \<Rightarrow> getopt_state \<Rightarrow> int \<times> getopt_state" where
  "getopt_internal env nargc opts long_options idx longonly g =
     (case opts of
        None \<Rightarrow> (- 1, g)
      | Some opts \<Rightarrow>
          (let g1 = (if go_posixly_correct g = - 1 then g\<lparr>go_posixly_correct := (if env then 1 else 0)\<rparr> else g);
               plus = (ch opts 0 = CHR ''+''); minus = (ch opts 0 = CHR ''-'');
               permute = (\<not> (go_posixly_correct g1 = 0 \<or> plus));
               allargs = (permute \<and> minus);
               options = (if plus \<or> minus then tl opts else opts);
               optreset = (go_optind g1 = 0);
               g2 = (if optreset then g1\<lparr>go_optind := 1\<rparr> else g1)\<lparr>go_optarg := None\<rparr>;
               g3 = (if optreset then forget_nonopts g2 else g2)
           in case (if optreset \<or> go_place g3 = [] then update_place nargc options allargs permute g3
                    else (Parse False, g3)) of
                (Return r, g4) \<Rightarrow> (r, g4)
              | (Parse at_start, g4) \<Rightarrow> parse_option nargc options long_options idx longonly at_start g4))"

definition getopt :: "bool \<Rightarrow> int \<Rightarrow> string option \<Rightarrow> getopt_state \<Rightarrow> int \<times> getopt_state" where
  "getopt env nargc options g = getopt_internal env nargc options None False False g"

definition getopt_long ::
  "bool \<Rightarrow> int \<Rightarrow> string option \<Rightarrow> long_option list option \<Rightarrow> bool \<Rightarrow> getopt_state \<Rightarrow> int \<times> getopt_state" where
  "getopt_long env nargc options long_options idx g = getopt_internal env nargc options long_options idx False g"

definition getopt_long_only ::
  "bool \<Rightarrow> int \<Rightarrow> string option \<Rightarrow> long_option list option \<Rightarrow> bool \<Rightarrow> getopt_state \<Rightarrow> int \<times> getopt_state" where
  "getopt_long_only env nargc options long_options idx g = getopt_internal env nargc options long_options idx True g"

section \<open>The state between two calls\<close>

text \<open>
  The non-options that have been skipped are a block before the current argument, and, once an
  option has followed, the arguments of the options lie between them and the current one. \<^verbatim>\<open>place\<close> points
  into the current argument.
\<close>

definition go_inv :: "string \<Rightarrow> getopt_state \<Rightarrow> bool" where
  "go_inv options g \<longleftrightarrow> \<not> go_fault g \<and> (\<forall>a \<in> set (go_argv g). cstring a)
     \<and> 0 < go_optind g \<and> go_optind g \<le> int (length (go_argv g))
     \<and> (go_place g \<noteq> [] \<longrightarrow> go_optind g < int (length (go_argv g)))
     \<and> (go_nonopt_start g = - 1 \<and> go_nonopt_end g = - 1
        \<or> 0 < go_nonopt_start g \<and> go_nonopt_start g < go_optind g \<and> go_nonopt_end g = - 1
        \<or> 0 < go_nonopt_start g \<and> go_nonopt_start g < go_nonopt_end g \<and> go_nonopt_end g \<le> go_optind g)
     \<and> (go_nonopt_end g = go_optind g \<longrightarrow>
          go_optind g < int (length (go_argv g)) \<and> \<not> is_nonoption options (go_argv g ! nat (go_optind g)))"

text \<open>The characters that are still to be looked at.\<close>

definition rest_from :: "nat \<Rightarrow> getopt_state \<Rightarrow> nat" where
  "rest_from k g = sum_list (map (\<lambda>a. length a + 1) (drop k (go_argv g)))"

definition remaining :: "getopt_state \<Rightarrow> nat" where
  "remaining g = (if go_place g = [] then rest_from (nat (go_optind g)) g
                  else length (go_place g) + rest_from (Suc (nat (go_optind g))) g)"

lemma rest_from_Suc:
  "k < length (go_argv g) \<Longrightarrow> rest_from k g = length (go_argv g ! k) + 1 + rest_from (Suc k) g"
  by (simp add: rest_from_def Cons_nth_drop_Suc [symmetric])

lemma sum_drop_mono: "j \<le> k \<Longrightarrow> sum_list (map f (drop k xs)) \<le> sum_list (map (f :: _ \<Rightarrow> nat) (drop j xs))"
proof -
  assume "j \<le> k"
  then have "drop j xs = take (k - j) (drop j xs) @ drop k xs"
    by (metis append_take_drop_id drop_drop le_add_diff_inverse2)
  then have "sum_list (map f (drop j xs)) = sum_list (map f (take (k - j) (drop j xs))) + sum_list (map f (drop k xs))"
    by (metis map_append sum_list_append)
  then show ?thesis by simp
qed

lemma rest_from_mono: "j \<le> k \<Longrightarrow> go_argv g' = go_argv g \<Longrightarrow> rest_from k g' \<le> rest_from j g"
  by (simp add: rest_from_def sum_drop_mono)

text \<open>A step forward in the current argument, or to one of the next.\<close>

definition advanced :: "getopt_state \<Rightarrow> getopt_state \<Rightarrow> bool" where
  "advanced g g' \<longleftrightarrow> go_argv g' = go_argv g \<and> \<not> go_fault g' \<and> go_nonopt_start g' = go_nonopt_start g
     \<and> go_nonopt_end g' = go_nonopt_end g
     \<and> (go_optind g < go_optind g' \<and> go_optind g' \<le> int (length (go_argv g)) \<and> go_place g' = []
        \<or> go_optind g' = go_optind g \<and> go_place g' \<noteq> [] \<and> length (go_place g') < length (go_place g))"

lemma advanced_inv:
  assumes "go_inv options g" "go_place g \<noteq> []" "advanced g g'"
  shows "go_inv options g' \<and> remaining g' < remaining g"
proof -
  consider (later) "go_optind g < go_optind g'" "go_optind g' \<le> int (length (go_argv g))" "go_place g' = []"
    | (same) "go_optind g' = go_optind g" "go_place g' \<noteq> []" "length (go_place g') < length (go_place g)"
    using assms(3) by (auto simp: advanced_def)
  then show ?thesis
  proof cases
    case later
    have "go_inv options g'" using assms later unfolding go_inv_def advanced_def by auto
    moreover have "rest_from (nat (go_optind g')) g' \<le> rest_from (Suc (nat (go_optind g))) g"
      using later(1) assms(1,3) by (intro rest_from_mono) (auto simp: advanced_def go_inv_def)
    ultimately show ?thesis using later(3) assms(2) by (cases "go_place g") (auto simp: remaining_def)
  next
    case same
    have "go_inv options g'" using assms same unfolding go_inv_def advanced_def by auto
    moreover have "rest_from (Suc (nat (go_optind g'))) g' = rest_from (Suc (nat (go_optind g))) g"
      using same(1) assms(3) by (simp add: rest_from_def advanced_def)
    ultimately show ?thesis using same assms(2) by (simp add: remaining_def)
  qed
qed

lemma bad_not_end: "BADCH \<noteq> - 1" "BADARG options \<noteq> - 1"
  by (simp_all add: BADCH_def BADARG_def char_int_def Let_def)

definition long_ok :: "long_option list \<Rightarrow> bool" where
  "long_ok los \<longleftrightarrow> (\<forall>lo \<in> set los. lo_flag lo = None \<longrightarrow> lo_val lo \<noteq> - 1)"

lemma match_loop_range:
  "match_loop cur len short_too los i match = Some m \<Longrightarrow> m = match \<or> i \<le> m \<and> m < i + int (length los)"
proof (induction los arbitrary: i match)
  case (Cons lo los)
  then show ?case by (fastforce split: if_splits)
qed simp

lemma optind_id [simp]: "g\<lparr>go_optind := go_optind g\<rparr> = g"
  by (cases g) simp

lemma long_argument_effect:
  assumes "0 \<le> go_optind g" "go_optind g \<le> int (length (go_argv g))"
  shows "\<exists>a k. long_argument lo arg g = g\<lparr>go_optarg := a, go_optind := k\<rparr>
     \<and> (k = go_optind g \<or> k = go_optind g + 1 \<and> (a \<noteq> None \<longrightarrow> k \<le> int (length (go_argv g))))
     \<and> (lo_has_arg lo = required_argument \<and> a = None \<longrightarrow> k = go_optind g + 1)
     \<and> (lo_has_arg lo \<noteq> required_argument \<longrightarrow> k = go_optind g)"
proof (cases "arg = None \<and> lo_has_arg lo = required_argument")
  case True
  then show ?thesis using assms
    by (intro exI [of _ "the (nargv_at g (go_optind g))"] exI [of _ "go_optind g + 1"])
      (auto simp: long_argument_def nargv_at_def)
next
  case False
  then show ?thesis
    by (intro exI [of _ "if lo_has_arg lo = required_argument \<or> lo_has_arg lo = optional_argument
      then if arg \<noteq> None then arg else go_optarg g else go_optarg g"] exI [of _ "go_optind g"])
      (cases g, auto simp: long_argument_def)
qed

lemma parse_long_effect:
  assumes "long_ok los" "\<not> go_fault g" "0 \<le> go_optind g" "go_optind g < int (length (go_argv g))"
    and "parse_long_options options los idx short_too g = (r, g')"
  shows "(r = - 1 \<longrightarrow> short_too \<and> g' = g)
     \<and> (r \<noteq> - 1 \<longrightarrow> advanced (g\<lparr>go_place := p\<rparr>) (g'\<lparr>go_place := []\<rparr>))"
proof -
  define arg where "arg = map_option (\<lambda>k. drop (Suc k) (go_place g)) (strchr (CHR ''='') (go_place g))"
  define ml where "ml = match_loop (go_place g)
      (case strchr (CHR ''='') (go_place g) of Some k \<Rightarrow> k | None \<Rightarrow> length (go_place g)) short_too los 0 (- 1)"
  define g1 where "g1 = g\<lparr>go_optind := go_optind g + 1\<rparr>"
  note defs = parse_long_options_def Let_def arg_def [symmetric] ml_def [symmetric] g1_def [symmetric]
  show ?thesis
  proof (cases "ml = None \<or> ml = Some (- 1)")
    case True
    then have "r = (if short_too \<and> ml \<noteq> None then - 1 else BADCH)"
      "g' = (if short_too \<and> ml \<noteq> None then g1\<lparr>go_optind := go_optind g1 - 1\<rparr> else g1\<lparr>go_optopt := 0\<rparr>)"
      using assms(5) by (auto simp: defs split: if_splits)
    then show ?thesis using assms(2-4) by (auto simp: bad_not_end advanced_def g1_def)
  next
    case False
    then obtain m where m: "ml = Some m" "m \<noteq> - 1" by auto
    let ?lo = "los ! nat m"
    have val: "lo_flag ?lo = None \<Longrightarrow> lo_val ?lo \<noteq> - 1"
      using match_loop_range [OF m(1) [unfolded ml_def]] m(2) assms(1) unfolding long_ok_def
      by (metis add_0 nat_less_iff nth_mem)
    define g2 where "g2 = long_argument ?lo arg g1"
    have eq: "(r, g') =
       (if lo_has_arg ?lo = no_argument \<and> arg \<noteq> None then (BADARG options, g1\<lparr>go_optopt := flag_optopt ?lo\<rparr>)
        else if lo_has_arg ?lo = required_argument \<and> go_optarg g2 = None
        then (BADARG options, g2\<lparr>go_optopt := flag_optopt ?lo, go_optind := go_optind g2 - 1\<rparr>)
        else (let g3 = (if idx then g2\<lparr>go_longidx := m\<rparr> else g2)
              in case lo_flag ?lo of
                   Some f \<Rightarrow> (0, g3\<lparr>go_flags := (go_flags g3)(f := lo_val ?lo)\<rparr>)
                 | None \<Rightarrow> (lo_val ?lo, g3)))"
      using assms(5) m by (simp only: defs g2_def option.case if_False)
    consider (unwanted) "r = BADARG options" "g' = g1\<lparr>go_optopt := flag_optopt ?lo\<rparr>"
      | (lacking) "r = BADARG options" "go_optarg g2 = None" "lo_has_arg ?lo = required_argument"
          "g' = g2\<lparr>go_optopt := flag_optopt ?lo, go_optind := go_optind g2 - 1\<rparr>"
      | (found) i f where "r \<noteq> - 1" "g' = g2\<lparr>go_longidx := i, go_flags := f\<rparr>"
          "\<not> (lo_has_arg ?lo = required_argument \<and> go_optarg g2 = None)"
    proof (cases "lo_has_arg ?lo = no_argument \<and> arg \<noteq> None \<or> lo_has_arg ?lo = required_argument \<and> go_optarg g2 = None")
      case True
      then show thesis using eq unwanted lacking by (auto split: if_splits)
    next
      case False
      let ?i = "if idx then m else go_longidx g2"
      let ?f = "case lo_flag ?lo of Some f \<Rightarrow> (go_flags g2)(f := lo_val ?lo) | None \<Rightarrow> go_flags g2"
      have "r \<noteq> - 1" "g' = g2\<lparr>go_longidx := ?i, go_flags := ?f\<rparr>"
        using eq False val by (auto simp: Let_def split: option.splits if_splits)
      then show thesis using found False by blast
    qed
    moreover have "0 \<le> go_optind g1" "go_optind g1 \<le> int (length (go_argv g1))" using assms(3,4) by (simp_all add: g1_def)
    then obtain a k where g2: "g2 = g1\<lparr>go_optarg := a, go_optind := k\<rparr>"
      "k = go_optind g1 \<or> k = go_optind g1 + 1 \<and> (a \<noteq> None \<longrightarrow> k \<le> int (length (go_argv g1)))"
      "lo_has_arg ?lo = required_argument \<and> a = None \<longrightarrow> k = go_optind g1 + 1"
      "lo_has_arg ?lo \<noteq> required_argument \<longrightarrow> k = go_optind g1"
      using long_argument_effect unfolding g2_def by blast
    ultimately show ?thesis
    proof cases
      case unwanted
      then show ?thesis using assms(2-4) by (simp add: bad_not_end advanced_def g1_def)
    next
      case lacking
      then show ?thesis using assms(2-4) g2 by (simp add: bad_not_end advanced_def g1_def)
    next
      case found
      then show ?thesis using assms(2-4) g2 by (auto simp: advanced_def g1_def)
    qed
  qed
qed

lemma short_option_effect:
  assumes "go_inv options g" "go_place g \<noteq> []" "nargc = int (length (go_argv g))"
    and "long_options \<noteq> None \<longrightarrow> long_ok (the long_options)"
    and "short_option nargc options long_options idx g = (r, g')"
  shows "advanced g g' \<or> r = - 1 \<and> g' = g\<lparr>go_place := []\<rparr>"
proof -
  obtain optchar place where p: "go_place g = optchar # place" using assms(2) by (cases "go_place g") auto
  have g: "\<not> go_fault g" "0 < go_optind g" "go_optind g < nargc" using assms(1-3) by (auto simp: go_inv_def)
  define g1 where "g1 = g\<lparr>go_place := place\<rparr>"
  define oli where "oli = (if optchar = CHR '':'' \<or> optchar = CHR ''-'' \<and> place \<noteq> [] then None else strchr optchar options)"
  note eq = assms(5) [unfolded short_option_def p list.case Let_def, folded g1_def oli_def]
  show ?thesis
  proof (cases oli)
    case None
    then show ?thesis using eq p g assms(3) by (auto simp: advanced_def g1_def split: if_splits)
  next
    case (Some k)
    show ?thesis
    proof (cases "long_options \<noteq> None \<and> optchar = CHR ''W'' \<and> ch options (Suc k) = CHR '';''")
      case True
      define g2 where "g2 = (if place \<noteq> [] then g1 else g1\<lparr>go_optind := go_optind g1 + 1\<rparr>)"
      show ?thesis
      proof (cases "place = [] \<and> nargc \<le> go_optind g2")
        case lack: True
        then show ?thesis using eq Some True p g assms(3) by (auto simp: advanced_def g1_def g2_def)
      next
        case False
        then have i: "0 \<le> go_optind g2" "go_optind g2 < int (length (go_argv g2))" "\<not> go_fault g2"
          using g assms(3) by (auto simp: g1_def g2_def split: if_splits)
        then obtain a where a: "nargv_at g2 (go_optind g2) = Some (Some a)" by (simp add: nargv_at_def)
        obtain r3 g3 where g3: "parse_long_options options (the long_options) idx False (g2\<lparr>go_place := a\<rparr>) = (r3, g3)"
          by (metis prod.exhaust)
        have res: "r = r3" "g' = g3\<lparr>go_place := []\<rparr>"
          using eq Some True False a g3 by (auto simp: g2_def split: if_splits)
        have "advanced (g2\<lparr>go_place := go_place g2\<rparr>) (g3\<lparr>go_place := []\<rparr>)"
          using parse_long_effect [OF _ _ _ _ g3, of "go_place g2"] assms(4) True i by auto
        then show ?thesis using res g by (auto simp: advanced_def g2_def g1_def split: if_splits)
      qed
    next
      case False
      note eq' = eq [unfolded Some option.case if_not_P [OF False]]
      show ?thesis
      proof (cases "ch options (Suc k) \<noteq> CHR '':'' \<or> place \<noteq> [] \<or> ch options (Suc (Suc k)) = CHR '':''")
        case True
        then show ?thesis using eq' p g assms(3) by (auto simp: advanced_def g1_def split: if_splits)
      next
        case arg: False
        then show ?thesis using eq' p g assms(3)
          by (auto simp: advanced_def g1_def nargv_at_def split: if_splits)
      qed
    qed
  qed
qed

text \<open>The permutation of a block that lies in front of the current argument.\<close>

lemma permute_effect:
  assumes "0 \<le> go_nonopt_start g" "go_nonopt_start g \<le> go_nonopt_end g" "go_nonopt_end g < k"
    and "k = go_optind g" "k \<le> int (length (go_argv g))"
  obtains argv where "go_permute g = g\<lparr>go_argv := argv\<rparr>" "mset argv = mset (go_argv g)"
    "\<And>j. k \<le> int j \<Longrightarrow> drop j argv = drop j (go_argv g)"
proof -
  let ?s = "nat (go_nonopt_start g)" and ?m = "nat (go_nonopt_end g)" and ?e = "nat k"
  let ?xs = "go_argv g"
  have le: "?s \<le> ?m" "?m < ?e" "?e \<le> length ?xs" using assms by auto
  have "go_permute g = g\<lparr>go_argv := exchange ?s ?m ?e ?xs\<rparr>"
    using permute_args_blocks [OF le] assms by (simp add: go_permute_def exchange_def)
  moreover have "drop j (exchange ?s ?m ?e ?xs) = drop j ?xs" if "k \<le> int j" for j
    using that le by (intro exchange_drop) auto
  ultimately show thesis using that exchange_mset [of ?s ?m ?e ?xs] le by auto
qed

text \<open>
  What the search for the next argument leaves behind, from a state without a current one: the same
  arguments, and less to be looked at unless the end is reported.
\<close>

definition found_next :: "string \<Rightarrow> getopt_state \<Rightarrow> next_arg \<times> getopt_state \<Rightarrow> bool" where
  "found_next options g res \<longleftrightarrow> go_inv options (snd res) \<and> mset (go_argv (snd res)) = mset (go_argv g)
     \<and> (case fst res of
          Return r \<Rightarrow> go_place (snd res) = [] \<and> (r \<noteq> - 1 \<longrightarrow> remaining (snd res) < remaining g)
        | Parse b \<Rightarrow> go_place (snd res) \<noteq> [] \<and> remaining (snd res) < remaining g)"

lemma mset_cstrings: "mset xs = mset ys \<Longrightarrow> (\<forall>a \<in> set xs. cstring a) \<longleftrightarrow> (\<forall>a \<in> set ys. cstring a)"
  by (metis set_mset_mset)

lemma permute_back_inv:
  assumes "go_inv options g" "go_nonopt_end g \<noteq> - 1" "go_nonopt_end g < go_optind g" "go_place g = []"
  shows "go_inv options (forget_nonopts (permute_back g))"
    "mset (go_argv (forget_nonopts (permute_back g))) = mset (go_argv g)"
    "go_place (forget_nonopts (permute_back g)) = []"
proof -
  have "0 \<le> go_nonopt_start g" "go_nonopt_start g \<le> go_nonopt_end g" "go_optind g \<le> int (length (go_argv g))"
    "0 < go_nonopt_start g"
    using assms(1,2) by (auto simp: go_inv_def)
  moreover from this obtain argv where argv: "go_permute g = g\<lparr>go_argv := argv\<rparr>" "mset argv = mset (go_argv g)"
    using permute_effect [of g "go_optind g"] assms(3) by metis
  moreover have "length argv = length (go_argv g)" using argv(2) by (metis size_mset)
  ultimately show "go_inv options (forget_nonopts (permute_back g))"
    "mset (go_argv (forget_nonopts (permute_back g))) = mset (go_argv g)"
    "go_place (forget_nonopts (permute_back g)) = []"
    using assms mset_cstrings [OF argv(2)]
    by (auto simp: permute_back_def forget_nonopts_def go_inv_def)
qed

lemma forget_inv: "go_inv options g \<Longrightarrow> go_inv options (forget_nonopts g)"
  by (auto simp: forget_nonopts_def go_inv_def)

lemma end_of_arguments_inv:
  assumes "go_inv options g" "go_place g = []" "int (length (go_argv g)) \<le> go_optind g"
  shows "found_next options g (Return (- 1), end_of_arguments g)"
proof -
  have g: "g\<lparr>go_place := []\<rparr> = g" using assms(2) by (cases g) simp
  consider "go_nonopt_end g \<noteq> - 1" | "go_nonopt_end g = - 1" "go_nonopt_start g \<noteq> - 1"
    | "go_nonopt_end g = - 1" "go_nonopt_start g = - 1" by blast
  then show ?thesis
  proof cases
    case 1
    have "go_nonopt_end g < go_optind g" using assms(1,3) 1 by (auto simp: go_inv_def)
    then show ?thesis using permute_back_inv [OF assms(1) 1 _ assms(2)] 1
      by (simp add: found_next_def end_of_arguments_def g Let_def)
  next
    case 2
    then show ?thesis using assms(1,2) by (auto simp: found_next_def end_of_arguments_def g go_inv_def forget_nonopts_def)
  next
    case 3
    then show ?thesis using assms(1,2) by (auto simp: found_next_def end_of_arguments_def g go_inv_def forget_nonopts_def)
  qed
qed

lemma skip_nonoption_inv:
  assumes "go_inv options g" "go_place g = []" "go_optind g < int (length (go_argv g))"
    and "is_nonoption options (go_argv g ! nat (go_optind g))"
  shows "go_inv options (skip_nonoption g)" "mset (go_argv (skip_nonoption g)) = mset (go_argv g)"
    "go_place (skip_nonoption g) = []" "remaining (skip_nonoption g) < remaining g"
proof -
  let ?i = "go_optind g"
  obtain argv ns where g': "skip_nonoption g = g\<lparr>go_argv := argv, go_nonopt_start := ns, go_nonopt_end := - 1, go_optind := ?i + 1\<rparr>"
    "mset argv = mset (go_argv g)" "0 < ns" "ns < ?i + 1" "drop (nat (?i + 1)) argv = drop (nat (?i + 1)) (go_argv g)"
  proof (cases "go_nonopt_end g = - 1")
    case True
    have "skip_nonoption g = g\<lparr>go_argv := go_argv g, go_nonopt_start := (if go_nonopt_start g = - 1 then ?i else go_nonopt_start g),
        go_nonopt_end := - 1, go_optind := ?i + 1\<rparr>"
      using True by (cases g) (simp add: skip_nonoption_def)
    then show thesis using that [where argv = "go_argv g" and ns = "if go_nonopt_start g = - 1 then ?i else go_nonopt_start g"] assms(1) True
      by (auto simp: go_inv_def)
  next
    case False
    have n: "0 \<le> go_nonopt_start g" "go_nonopt_start g \<le> go_nonopt_end g" "go_nonopt_end g < ?i" "0 < go_nonopt_start g"
      "?i \<le> int (length (go_argv g))"
      using assms(1,3,4) False by (auto simp: go_inv_def)
    from permute_effect [OF n(1,2,3) refl n(5)] obtain argv where
      argv: "go_permute g = g\<lparr>go_argv := argv\<rparr>" "mset argv = mset (go_argv g)"
      "\<And>j. ?i \<le> int j \<Longrightarrow> drop j argv = drop j (go_argv g)" by metis
    have "skip_nonoption g = g\<lparr>go_argv := argv, go_nonopt_start := ?i - (go_nonopt_end g - go_nonopt_start g),
        go_nonopt_end := - 1, go_optind := ?i + 1\<rparr>"
      using False n argv(1) by (simp add: skip_nonoption_def)
    then show thesis using that argv(2,3) n by auto
  qed
  have len: "length argv = length (go_argv g)" using g'(2) by (metis size_mset)
  have "nat (?i + 1) = Suc (nat ?i)" using assms(1) by (auto simp: go_inv_def)
  then have "remaining (skip_nonoption g) = rest_from (Suc (nat ?i)) g"
    using g'(1,5) assms(2) by (simp add: remaining_def rest_from_def)
  moreover have "remaining g = length (go_argv g ! nat ?i) + 1 + rest_from (Suc (nat ?i)) g"
  proof -
    have "nat ?i < length (go_argv g)" using assms(1,3) by (auto simp: go_inv_def)
    then show ?thesis using assms(2) rest_from_Suc [of "nat ?i" g] by (simp add: remaining_def)
  qed
  ultimately show "remaining (skip_nonoption g) < remaining g" by simp
  show "go_inv options (skip_nonoption g)" "mset (go_argv (skip_nonoption g)) = mset (go_argv g)"
    "go_place (skip_nonoption g) = []"
    using assms g' len mset_cstrings [OF g'(2)] by (auto simp: go_inv_def)
qed

lemma found_option_inv:
  assumes "go_inv options g" "go_place g = []" "go_optind g < int (length (go_argv g))"
    and "p = go_argv g ! nat (go_optind g)" "\<not> is_nonoption options p"
  shows "found_next options g (found_option p g)"
proof -
  let ?i = "go_optind g"
  define g1 where "g1 = (if go_nonopt_start g \<noteq> - 1 \<and> go_nonopt_end g = - 1 then g\<lparr>go_nonopt_end := ?i\<rparr> else g)"
  have i: "nat ?i < length (go_argv g)" "0 < ?i" using assms(1,3) by (auto simp: go_inv_def)
  have g1: "go_inv options g1" "go_argv g1 = go_argv g" "go_place g1 = []" "go_optind g1 = ?i"
    using assms by (auto simp: g1_def go_inv_def)
  have p: "cstring p" "p \<noteq> []" using assms(1,4,5) i by (auto simp: go_inv_def is_nonoption_def ch_def)
  have rem: "remaining g = length p + 1 + rest_from (Suc (nat ?i)) g"
    using assms(2,4) rest_from_Suc [OF i(1)] by (simp add: remaining_def)
  show ?thesis
  proof (cases "ch p 1 \<noteq> NUL \<and> ch p 1 = CHR ''-'' \<and> ch p 2 = NUL")
    case True
    define g2 where "g2 = g1\<lparr>go_optind := go_optind g1 + 1, go_place := []\<rparr>"
    have g2: "go_inv options g2" "go_place g2 = []" "go_argv g2 = go_argv g" "go_nonopt_end g2 < go_optind g2"
      using g1 assms(3) by (auto simp: g2_def go_inv_def)
    have ne: "go_nonopt_end g2 = go_nonopt_end g1" by (simp add: g2_def)
    have "found_option p g = (Return (- 1), forget_nonopts (if go_nonopt_end g2 \<noteq> - 1 then permute_back g2 else g2))"
      using True ne by (simp add: found_option_def g1_def [symmetric] g2_def [symmetric] Let_def)
    then show ?thesis using permute_back_inv [OF g2(1) _ g2(4,2)] forget_inv [OF g2(1)] g2
      by (auto simp: found_next_def forget_nonopts_def)
  next
    case False
    define place where "place = (if ch p 1 = NUL then p else tl p)"
    have "length p > 1" if "ch p 1 \<noteq> NUL" using that by (auto simp: ch_def split: if_splits)
    then have pl: "place \<noteq> []" "length place \<le> length p" using p by (cases p; auto simp: place_def)+
    have "found_option p g = (Parse (ch p 1 = NUL), g1\<lparr>go_place := place\<rparr>)"
      using False by (auto simp: found_option_def g1_def [symmetric] place_def Let_def)
    moreover have "go_inv options (g1\<lparr>go_place := place\<rparr>)" using g1 assms(3) by (auto simp: go_inv_def)
    moreover have "remaining (g1\<lparr>go_place := place\<rparr>) < remaining g"
      using pl g1 by (simp add: rem) (simp add: remaining_def rest_from_def)
    ultimately show ?thesis using pl(1) g1(2) by (simp add: found_next_def)
  qed
qed

lemma update_place_inv:
  assumes "nargc = int (length (go_argv g))" "go_inv options g" "go_place g = []"
  shows "found_next options g (update_place nargc options allargs permute g)"
  using assms
proof (induction nargc options allargs permute g rule: update_place.induct)
  case (1 nargc options allargs permute g)
  let ?i = "go_optind g"
  show ?case
  proof (cases "nargc \<le> ?i")
    case True
    then show ?thesis using end_of_arguments_inv [OF 1(3,4)] 1(2) by (subst update_place.simps) simp
  next
    case False
    then have i: "nat ?i < length (go_argv g)" "0 < ?i" "?i < int (length (go_argv g))"
      using 1(2,3) by (auto simp: go_inv_def)
    let ?p = "go_argv g ! nat ?i"
    have at: "nargv_at g ?i = Some (Some ?p)" using i by (simp add: nargv_at_def)
    have g: "g\<lparr>go_place := []\<rparr> = g" using 1(4) by (cases g) simp
    note eq = update_place.simps [of nargc options allargs permute g, unfolded if_not_P [OF False] at option.case g Let_def]
    consider (option) "\<not> is_nonoption options ?p" | (inorder) "is_nonoption options ?p" allargs
      | (stop) "is_nonoption options ?p" "\<not> allargs" "\<not> permute"
      | (skip) "is_nonoption options ?p" "\<not> allargs" permute by blast
    then show ?thesis
    proof cases
      case option
      then show ?thesis using eq found_option_inv [OF 1(3,4) i(3) refl option] by simp
    next
      case inorder
      let ?g = "g\<lparr>go_optarg := Some ?p, go_optind := ?i + 1\<rparr>"
      have "go_nonopt_end g \<noteq> ?i" using 1(3) inorder i(3) by (auto simp: go_inv_def)
      then have "go_inv options ?g" using 1(3,4) i by (auto simp: go_inv_def)
      moreover have "remaining ?g < remaining g"
      proof -
        have "nat (?i + 1) = Suc (nat ?i)" using i(2) by simp
        then have "remaining ?g = rest_from (Suc (nat ?i)) g" using 1(4) by (simp add: remaining_def rest_from_def)
        then show ?thesis using rest_from_Suc [OF i(1)] 1(4) by (simp add: remaining_def)
      qed
      ultimately show ?thesis using eq inorder 1(4) by (simp add: found_next_def)
    next
      case stop
      then show ?thesis using eq 1(3,4) by (simp add: found_next_def)
    next
      case skip
      note sk = skip_nonoption_inv [OF 1(3,4) i(3) skip(1)]
      have "length (go_argv (skip_nonoption g)) = length (go_argv g)" using sk(2) by (metis size_mset)
      then have "found_next options (skip_nonoption g) (update_place nargc options allargs permute (skip_nonoption g))"
        using 1(1) [OF False at refl skip(1) refl] skip sk g 1(2) by simp
      moreover have "update_place nargc options allargs permute g = update_place nargc options allargs permute (skip_nonoption g)"
        using eq skip by simp
      ultimately show ?thesis using sk(2,4) by (auto simp: found_next_def split: next_arg.splits)
    qed
  qed
qed

lemma update_place_place:
  assumes "nargc = int (length (go_argv g))" "0 \<le> go_optind g"
  shows "update_place nargc options allargs permute (g\<lparr>go_place := x\<rparr>) = update_place nargc options allargs permute g"
proof (cases "nargc \<le> go_optind g")
  case True
  then show ?thesis
    by (simp add: update_place.simps [of _ _ _ _ "g\<lparr>go_place := x\<rparr>"] update_place.simps [of _ _ _ _ g]
        end_of_arguments_def)
next
  case False
  let ?p = "go_argv g ! nat (go_optind g)"
  have "found_option ?p (g\<lparr>go_place := x\<rparr>) = found_option ?p g"
    by (auto simp: found_option_def Let_def)
  then show ?thesis using False assms
    by (simp add: update_place.simps [of _ _ _ _ "g\<lparr>go_place := x\<rparr>"] update_place.simps [of _ _ _ _ g]
        nargv_at_def Let_def)
qed

section \<open>A call\<close>

text \<open>A call that starts over, because the caller has set \<^verbatim>\<open>optind\<close> to 0.\<close>

definition restart :: "getopt_state \<Rightarrow> getopt_state" where
  "restart g = (if go_optind g = 0 then forget_nonopts (g\<lparr>go_optind := 1, go_place := []\<rparr>) else g)"

definition strip_mode :: "string \<Rightarrow> string" where
  "strip_mode opts = (if ch opts 0 = CHR ''+'' \<or> ch opts 0 = CHR ''-'' then tl opts else opts)"

lemma go_inv_other [simp]:
  "go_inv options (g\<lparr>go_optarg := a\<rparr>) = go_inv options g"
  "go_inv options (g\<lparr>go_posixly_correct := c\<rparr>) = go_inv options g"
  "remaining (g\<lparr>go_optarg := a\<rparr>) = remaining g"
  "remaining (g\<lparr>go_posixly_correct := c\<rparr>) = remaining g"
  by (simp_all add: go_inv_def remaining_def rest_from_def)

text \<open>What a call leaves behind, given the state \<open>g\<close> that it starts in.\<close>

definition call_ok :: "string \<Rightarrow> getopt_state \<Rightarrow> int \<times> getopt_state \<Rightarrow> bool" where
  "call_ok options g res \<longleftrightarrow> go_inv options (snd res) \<and> mset (go_argv (snd res)) = mset (go_argv g)
     \<and> (fst res \<noteq> - 1 \<longrightarrow> remaining (snd res) < remaining g)"

lemma short_option_ok:
  assumes "go_inv options g" "go_place g \<noteq> []" "nargc = int (length (go_argv g))"
    and "long_options \<noteq> None \<longrightarrow> long_ok (the long_options)"
  shows "call_ok options g (short_option nargc options long_options idx g)"
proof -
  obtain r g' where res: "short_option nargc options long_options idx g = (r, g')" by (metis prod.exhaust)
  from short_option_effect [OF assms res] show ?thesis
  proof
    assume "advanced g g'"
    then show ?thesis using advanced_inv [OF assms(1,2)] res by (auto simp: call_ok_def advanced_def)
  next
    assume "r = - 1 \<and> g' = g\<lparr>go_place := []\<rparr>"
    moreover have "go_inv options (g\<lparr>go_place := []\<rparr>)" using assms(1) by (auto simp: go_inv_def)
    ultimately show ?thesis using res by (simp add: call_ok_def)
  qed
qed

lemma parse_option_ok:
  assumes "go_inv options g" "go_place g \<noteq> []" "nargc = int (length (go_argv g))"
    and "long_options \<noteq> None \<longrightarrow> long_ok (the long_options)"
  shows "call_ok options g (parse_option nargc options long_options idx longonly at_start g)"
proof (cases "long_options \<noteq> None \<and> \<not> at_start \<and> (ch (go_place g) 0 = CHR ''-'' \<or> longonly)")
  case False
  then show ?thesis using short_option_ok [OF assms] by (auto simp: parse_option_def Let_def)
next
  case True
  let ?c = "ch (go_place g) 0"
  define g1 where "g1 = (if ?c = CHR ''-'' then g\<lparr>go_place := tl (go_place g)\<rparr> else g)"
  define short_too where "short_too = (?c \<noteq> CHR ''-'' \<and> ?c \<noteq> CHR '':'' \<and> strchr ?c options \<noteq> None)"
  obtain r g2 where res: "parse_long_options options (the long_options) idx short_too g1 = (r, g2)"
    by (metis prod.exhaust)
  have eq: "parse_option nargc options long_options idx longonly at_start g =
      (if r \<noteq> - 1 then (r, g2\<lparr>go_place := []\<rparr>) else short_option nargc options long_options idx g2)"
    using True res by (simp only: parse_option_def Let_def g1_def [symmetric] short_too_def [symmetric] if_True prod.case
        not_False_eq_True simp_thms)
  have "\<not> go_fault g1" "0 \<le> go_optind g1" "go_optind g1 < int (length (go_argv g1))" "long_ok (the long_options)"
    using assms True by (auto simp: g1_def go_inv_def)
  then have eff: "(r = - 1 \<longrightarrow> short_too \<and> g2 = g1)
      \<and> (r \<noteq> - 1 \<longrightarrow> advanced (g1\<lparr>go_place := go_place g\<rparr>) (g2\<lparr>go_place := []\<rparr>))"
    using parse_long_effect [OF _ _ _ _ res, of "go_place g"] by blast
  show ?thesis
  proof (cases "r = - 1")
    case True
    then have "g2 = g" using eff by (auto simp: g1_def short_too_def)
    then show ?thesis using True eq short_option_ok [OF assms] by simp
  next
    case False
    have "g1\<lparr>go_place := go_place g\<rparr> = g" by (cases g) (simp add: g1_def)
    then have "advanced g (g2\<lparr>go_place := []\<rparr>)" using eff False by simp
    then show ?thesis using False eq advanced_inv [OF assms(1,2)] by (auto simp: call_ok_def advanced_def)
  qed
qed

lemma getopt_internal_ok:
  assumes "go_inv (strip_mode opts) (restart g)" "long_options \<noteq> None \<longrightarrow> long_ok (the long_options)"
  shows "call_ok (strip_mode opts) (restart g)
     (getopt_internal env (int (length (go_argv g))) (Some opts) long_options idx longonly g)"
proof -
  let ?o = "strip_mode opts" and ?n = "int (length (go_argv g))"
  define c where "c = (if go_posixly_correct g = - 1 then if env then 1 else 0 else go_posixly_correct g)"
  define h where "h = (restart g)\<lparr>go_posixly_correct := c, go_optarg := None\<rparr>"
  define permute where "permute = (\<not> (c = 0 \<or> ch opts 0 = CHR ''+''))"
  define allargs where "allargs = (permute \<and> ch opts 0 = CHR ''-'')"
  have h: "go_inv ?o h" "go_argv h = go_argv g" "remaining h = remaining (restart g)"
    using assms(1) by (simp_all add: h_def restart_def forget_nonopts_def)
  define res where "res = (if go_place h = [] then update_place ?n ?o allargs permute h else (Parse False, h))"
  define g1 where "g1 = (if go_posixly_correct g = - 1 then g\<lparr>go_posixly_correct := (if env then 1 else 0)\<rparr> else g)"
  define g3 where "g3 = (if go_optind g1 = 0 then forget_nonopts ((g1\<lparr>go_optind := 1\<rparr>)\<lparr>go_optarg := None\<rparr>)
                         else g1\<lparr>go_optarg := None\<rparr>)"
  define F where "F = (\<lambda>(x, g4). case x of Return r \<Rightarrow> (r, g4)
                                  | Parse b \<Rightarrow> parse_option ?n ?o long_options idx longonly b g4)"
  have c: "go_posixly_correct g1 = c" "g1 = g\<lparr>go_posixly_correct := c\<rparr>"
    by (cases g; simp add: g1_def c_def)+
  have g3: "g3 = (if go_optind g = 0 then forget_nonopts (g\<lparr>go_posixly_correct := c, go_optind := 1, go_optarg := None\<rparr>)
                  else g\<lparr>go_posixly_correct := c, go_optarg := None\<rparr>)"
    by (simp add: g3_def c(2))
  have h_g3: "h = (if go_optind g = 0 then g3\<lparr>go_place := []\<rparr> else g3)"
    by (simp add: g3 h_def restart_def forget_nonopts_def)
  have "getopt_internal env ?n (Some opts) long_options idx longonly g =
      F (if go_optind g1 = 0 \<or> go_place g3 = [] then update_place ?n ?o allargs permute g3 else (Parse False, g3))"
    unfolding getopt_internal_def Let_def option.case g1_def [symmetric] strip_mode_def [symmetric] c(1)
      permute_def [symmetric] allargs_def [symmetric] F_def
    by (simp add: g3_def)
  also have "(if go_optind g1 = 0 \<or> go_place g3 = [] then update_place ?n ?o allargs permute g3 else (Parse False, g3)) = res"
  proof (cases "go_optind g = 0")
    case True
    then have "h = g3\<lparr>go_place := []\<rparr>" "go_argv g3 = go_argv g" "0 \<le> go_optind g3"
      using h_g3 by (auto simp: g3 forget_nonopts_def)
    then have "update_place ?n ?o allargs permute h = update_place ?n ?o allargs permute g3"
      using update_place_place [of ?n g3] by simp
    then show ?thesis using True h_g3 by (simp add: res_def c(2))
  qed (use h_g3 in \<open>simp add: res_def c(2)\<close>)
  finally have eq: "getopt_internal env ?n (Some opts) long_options idx longonly g = F res" .
  have found: "go_inv ?o (snd res)" "mset (go_argv (snd res)) = mset (go_argv g)" "remaining (snd res) \<le> remaining h \<or> fst res = Return (- 1)"
    "case fst res of Return r \<Rightarrow> r \<noteq> - 1 \<longrightarrow> remaining (snd res) < remaining h | Parse b \<Rightarrow> go_place (snd res) \<noteq> []"
    using update_place_inv [OF _ h(1), of ?n allargs permute] h(1,2)
    by (auto simp: res_def found_next_def split: next_arg.splits)
  have len: "length (go_argv (snd res)) = length (go_argv g)" using found(2) by (metis size_mset)
  obtain x g4 where x: "res = (x, g4)" by (cases res)
  show ?thesis
  proof (cases x)
    case (Return r)
    then show ?thesis using eq found x h by (auto simp: call_ok_def restart_def forget_nonopts_def F_def)
  next
    case (Parse b)
    then show ?thesis
      using eq found x h len parse_option_ok [of ?o g4 ?n long_options idx longonly b] assms(2)
      by (auto simp: call_ok_def restart_def forget_nonopts_def F_def)
  qed
qed

section \<open>Sequences of calls\<close>

text \<open>The state at the start of a program.\<close>

definition getopt_initial :: "getopt_state \<Rightarrow> bool" where
  "getopt_initial g \<longleftrightarrow> go_optind g = 1 \<and> go_place g = [] \<and> go_nonopt_start g = - 1 \<and> go_nonopt_end g = - 1
     \<and> \<not> go_fault g \<and> go_argv g \<noteq> [] \<and> (\<forall>a \<in> set (go_argv g). cstring a)"

primrec getopt_calls ::
  "bool \<Rightarrow> string \<Rightarrow> long_option list option \<Rightarrow> bool \<Rightarrow> bool \<Rightarrow> nat \<Rightarrow> getopt_state \<Rightarrow> getopt_state" where
  "getopt_calls env opts los idx longonly 0 g = g"
| "getopt_calls env opts los idx longonly (Suc n) g =
     (let h = getopt_calls env opts los idx longonly n g
      in snd (getopt_internal env (int (length (go_argv h))) (Some opts) los idx longonly h))"

lemma restart_id: "go_inv options g \<Longrightarrow> restart g = g"
  by (auto simp: restart_def go_inv_def)

lemma getopt_call_ok:
  assumes "go_inv (strip_mode opts) g" "los \<noteq> None \<longrightarrow> long_ok (the los)"
  shows "call_ok (strip_mode opts) g (getopt_internal env (int (length (go_argv g))) (Some opts) los idx longonly g)"
  using getopt_internal_ok [of opts g los env idx longonly] assms by (simp add: restart_id)

lemma getopt_calls_inv:
  assumes "getopt_initial g" "los \<noteq> None \<longrightarrow> long_ok (the los)"
  shows "go_inv (strip_mode opts) (getopt_calls env opts los idx longonly n g)
     \<and> mset (go_argv (getopt_calls env opts los idx longonly n g)) = mset (go_argv g)"
proof (induction n)
  case 0
  have "Suc 0 \<le> length (go_argv g)" using assms(1) by (cases "go_argv g") (auto simp: getopt_initial_def)
  then show ?case using assms(1) by (auto simp: getopt_initial_def go_inv_def)
next
  case (Suc n)
  then show ?case using getopt_call_ok [OF _ assms(2)] by (simp add: call_ok_def Let_def)
qed


text \<open>
  C13. The loop \<^verbatim>\<open>while ((c = getopt_long(...)) != -1)\<close> of a program ends, after at most as many
  calls as the arguments have characters, each counted with its terminator.
\<close>

theorem getopt_loop_ends:
  assumes "getopt_initial g" "los \<noteq> None \<longrightarrow> long_ok (the los)"
  shows "\<exists>n \<le> sum_list (map (\<lambda>a. length a + 1) (go_argv g)).
     fst (getopt_internal env (int (length (go_argv (getopt_calls env opts los idx longonly n g)))) (Some opts) los idx
            longonly (getopt_calls env opts los idx longonly n g)) = - 1"
proof (rule ccontr)
  let ?g = "\<lambda>n. getopt_calls env opts los idx longonly n g"
  let ?call = "\<lambda>n. getopt_internal env (int (length (go_argv (?g n)))) (Some opts) los idx longonly (?g n)"
  let ?m = "sum_list (map (\<lambda>a. length a + 1) (go_argv g))"
  assume "\<not> ?thesis"
  then have run: "fst (?call n) \<noteq> - 1" if "n \<le> ?m" for n using that by blast
  have ok: "call_ok (strip_mode opts) (?g n) (?call n)" for n
    using getopt_calls_inv [OF assms] by (intro getopt_call_ok) (auto simp: assms(2))
  have step: "remaining (?g (Suc n)) < remaining (?g n)" if "n \<le> ?m" for n
    using ok [of n] run [OF that] by (simp add: call_ok_def Let_def)
  have "remaining g \<le> ?m"
    using assms(1) sum_drop_mono [of 0 1 "\<lambda>a. length a + 1" "go_argv g"]
    by (simp add: remaining_def rest_from_def getopt_initial_def)
  then have "n \<le> Suc ?m \<Longrightarrow> remaining (?g n) + n \<le> ?m" for n
  proof (induction n)
    case (Suc n)
    then show ?case using step [of n] by simp
  qed simp
  from this [of "Suc ?m"] show False by simp
qed

text \<open>
  The test of \<^verbatim>\<open>POSIXLY_CORRECT\<close> is inverted: without the variable a call that finds a non-option
  ends the parsing, and with it the non-option is skipped and the parsing goes on behind it.
\<close>

theorem posixly_correct_inverted:
  assumes "go_posixly_correct g = - 1" "go_place g = []" "0 < go_optind g" "go_optind g < int (length (go_argv g))"
    and "is_nonoption opts (go_argv g ! nat (go_optind g))" "ch opts 0 \<noteq> CHR ''+''" "ch opts 0 \<noteq> CHR ''-''"
  shows "getopt_internal False (int (length (go_argv g))) (Some opts) los idx longonly g =
           (- 1, g\<lparr>go_posixly_correct := 0, go_optarg := None\<rparr>)
       \<and> getopt_internal True (int (length (go_argv g))) (Some opts) los idx longonly g =
           getopt_internal True (int (length (go_argv g))) (Some opts) los idx longonly
             (skip_nonoption (g\<lparr>go_posixly_correct := 1, go_optarg := None\<rparr>))"
proof -
  let ?n = "int (length (go_argv g))"
  let ?p = "go_argv g ! nat (go_optind g)"
  have at: "nargv_at (g\<lparr>go_posixly_correct := c, go_optarg := None\<rparr>) (go_optind g) = Some (Some ?p)" for c
    using assms(3,4) by (simp add: nargv_at_def)
  have place: "g\<lparr>go_posixly_correct := c, go_optarg := None, go_place := []\<rparr> = g\<lparr>go_posixly_correct := c, go_optarg := None\<rparr>" for c
    using assms(2) by (cases g) simp
  have up: "update_place ?n opts False b (g\<lparr>go_posixly_correct := c, go_optarg := None\<rparr>) =
      (if \<not> b then (Return (- 1), g\<lparr>go_posixly_correct := c, go_optarg := None\<rparr>)
       else update_place ?n opts False b (skip_nonoption (g\<lparr>go_posixly_correct := c, go_optarg := None\<rparr>)))" for b c
    using assms(4,5) at [of c] place [of c]
    by (subst update_place.simps) (simp del: update_place.simps)
  have sk: "go_posixly_correct (skip_nonoption (g\<lparr>go_posixly_correct := 1, go_optarg := None\<rparr>)) = 1"
    "go_place (skip_nonoption (g\<lparr>go_posixly_correct := 1, go_optarg := None\<rparr>)) = []"
    "(skip_nonoption (g\<lparr>go_posixly_correct := 1, go_optarg := None\<rparr>))\<lparr>go_optarg := None\<rparr>
       = skip_nonoption (g\<lparr>go_posixly_correct := 1, go_optarg := None\<rparr>)"
    using assms(2)
    by (auto simp: skip_nonoption_def go_permute_def go_set_fault_def Let_def split: option.splits)
  show ?thesis
    using assms(1,2,3,6,7) up sk by (simp add: getopt_internal_def Let_def)
qed

section \<open>Examples\<close>

definition demo_getopt :: "string list \<Rightarrow> getopt_state" where
  "demo_getopt argv = \<lparr>go_argv = argv, go_optarg = None, go_optind = 1, go_optopt = 63, go_place = [],
     go_nonopt_start = - 1, go_nonopt_end = - 1, go_posixly_correct = - 1, go_longidx = 0, go_flags = (\<lambda>_. 0),
     go_fault = False\<rparr>"

definition demo_long :: "long_option list" where
  "demo_long = [\<lparr>lo_name = ''foo'', lo_has_arg = 0, lo_flag = None, lo_val = 102\<rparr>]"

lemma demo_initial: "getopt_initial (demo_getopt [''prog'', ''x'', ''-a''])"
  by (simp add: getopt_initial_def demo_getopt_def cstring_def)

lemma demo_long_ok: "Some demo_long \<noteq> None \<longrightarrow> long_ok (the (Some demo_long))"
  by (simp add: long_ok_def demo_long_def)


theorem getopt_loop_ends_witness:
  "\<exists>n \<le> 10. fst (getopt_internal True
     (int (length (go_argv (getopt_calls True ''a'' (Some demo_long) False False n (demo_getopt [''prog'', ''x'', ''-a'']))))) (Some ''a'')
     (Some demo_long) False False (getopt_calls True ''a'' (Some demo_long) False False n (demo_getopt [''prog'', ''x'', ''-a'']))) = - 1"
proof -
  have "sum_list (map (\<lambda>a. length a + 1) (go_argv (demo_getopt [''prog'', ''x'', ''-a'']))) = 10"
    by (simp add: demo_getopt_def)
  with getopt_loop_ends [OF demo_initial demo_long_ok, of True "''a''" False False] show ?thesis by (simp only:)
qed

theorem posixly_correct_inverted_witness:
  "fst (getopt_internal False 3 (Some ''a'') None False False (demo_getopt [''prog'', ''x'', ''-a''])) = - 1"
  using posixly_correct_inverted [of "demo_getopt [''prog'', ''x'', ''-a'']" "''a''" None False False]
  by (simp add: demo_getopt_def is_nonoption_def ch_def)

lemmas getopt_eval = getopt_internal_def getopt_long_def update_place.simps found_option_def parse_option_def short_option_def
  parse_long_options_def long_argument_def nargv_at_def is_nonoption_def ch_def strncmp_eq_def Let_def

text \<open>
  The argument of \<^verbatim>\<open>-W\<close> is found when it is a separate argument. When it is attached, the whole
  argument is taken for the name of the long option, and the option is not recognised.
\<close>

lemma W_separate:
  "fst (getopt_long False 3 (Some ''W;'') (Some demo_long) False (demo_getopt [''prog'', ''-W'', ''foo''])) = 102"
  by (simp add: getopt_eval demo_getopt_def demo_long_def no_argument_def required_argument_def optional_argument_def)

lemma W_attached:
  "fst (getopt_long False 2 (Some ''W;'') (Some demo_long) False (demo_getopt [''prog'', ''-Wfoo''])) = BADCH"
  by (simp add: getopt_eval demo_getopt_def demo_long_def)

end
