(* ===== verification/Clock.thy ===== *)
theory Clock
  imports Error_Map
begin

text \<open>
  \<^verbatim>\<open>src/time.c\<close>, \<^verbatim>\<open>src/semaphore.c\<close> and \<^verbatim>\<open>src/resource.c\<close>: the clocks, the conversion of an absolute
  time into a timeout, semaphores and resource usage.
\<close>

section \<open>Clocks\<close>

record timespec =
  ts_sec :: int
  ts_nsec :: int

record timeval =
  tv_sec :: int
  tv_usec :: int

definition CLOCK_REALTIME :: int where [errno_simps]: "CLOCK_REALTIME = 0"
definition CLOCK_MONOTONIC :: int where [errno_simps]: "CLOCK_MONOTONIC = 1"
definition CLOCK_MONOTONIC_RAW :: int where [errno_simps]: "CLOCK_MONOTONIC_RAW = 2"

text \<open>
  The frequency is kept in a static variable. The performance counter, its frequency and the system
  time (in units of 100ns since 1601) are parameters.
\<close>

record 'w clock_sys = "'w sys" +
  pc_freq :: int

record 'w clock_api =
  ca_frequency :: "'w \<Rightarrow> int"
  ca_counter :: "'w \<Rightarrow> int \<times> 'w"
  ca_filetime :: "'w \<Rightarrow> int \<times> 'w"
  ca_last_error :: "'w \<Rightarrow> win_error"

definition unix_epoch :: int where "unix_epoch = 116444736000000000"

text \<open>
  \<open>tp\<close> tells whether the pointer is not NULL; the time is \<open>None\<close> when nothing is written. The product of
  the remainder and \<open>10\<^sup>9\<close> is taken modulo \<open>2\<^sup>6\<^sup>4\<close>, as is the difference of the unsigned file times.
\<close>

definition wpdk_clock_gettime ::
  "'w clock_api \<Rightarrow> int \<Rightarrow> bool \<Rightarrow> ('w, 'z) clock_sys_scheme \<Rightarrow> int \<times> timespec option \<times> ('w, 'z) clock_sys_scheme" where
  "wpdk_clock_gettime api clk_id tp s =
     (if \<not> tp then (- 1, None, set_errno EINVAL s)
      else if clk_id = CLOCK_MONOTONIC \<or> clk_id = CLOCK_MONOTONIC_RAW
      then (let s1 = (if pc_freq s = 0 then s\<lparr>pc_freq := ca_frequency api (world s)\<rparr> else s);
                freq = pc_freq s1;
                (stamp, s2) = os_call (ca_counter api) s1
            in if freq = 0 then (0, None, set_fault s2)
               else (0, Some \<lparr>ts_sec = to_int32 (c_div stamp freq),
                              ts_nsec = to_int32 (c_div (to_int64 (c_mod stamp freq * 1000000000)) freq)\<rparr>, s2))
      else if clk_id = CLOCK_REALTIME
      then (let (now, s1) = os_call (ca_filetime api) s;
                v = to_uint64 (now - unix_epoch)
            in (0, Some \<lparr>ts_sec = to_int32 (v div 10000000), ts_nsec = (v mod 10000000) * 100\<rparr>, s1))
      else (- 1, None, set_errno EINVAL s))"

text \<open>After a failure the time would be read from an uninitialised variable; there is none here.\<close>

definition wpdk_gettimeofday ::
  "'w clock_api \<Rightarrow> bool \<Rightarrow> bool \<Rightarrow> ('w, 'z) clock_sys_scheme \<Rightarrow> int \<times> timeval option \<times> ('w, 'z) clock_sys_scheme" where
  "wpdk_gettimeofday api tp tzp s =
     (if \<not> tp \<or> tzp then (- 1, None, set_errno EINVAL s)
      else (case wpdk_clock_gettime api CLOCK_REALTIME True s of
              (rc, Some t, s1) \<Rightarrow>
                (rc, Some \<lparr>tv_sec = to_int32 (ts_sec t), tv_usec = to_int32 (c_div (ts_nsec t) 1000)\<rparr>, s1)
            | (rc, None, s1) \<Rightarrow> (rc, None, s1)))"

text \<open>\<open>abstime\<close> is \<open>None\<close> for a NULL pointer, whose use is a fault; \<^verbatim>\<open>time_t\<close> has 64 bits.\<close>

definition remaining_msecs :: "timespec \<Rightarrow> timespec \<Rightarrow> int" where
  "remaining_msecs abstime now =
     (if ts_sec now < ts_sec abstime
      then to_int64 ((ts_sec abstime - ts_sec now) * 1000 + c_div (ts_nsec abstime - ts_nsec now) 1000000)
      else if ts_sec abstime = ts_sec now \<and> ts_nsec now < ts_nsec abstime
      then c_div (ts_nsec abstime - ts_nsec now) 1000000
      else 0)"

definition wpdk_abstime_to_msecs ::
  "'w clock_api \<Rightarrow> timespec option \<Rightarrow> ('w, 'z) clock_sys_scheme \<Rightarrow> int \<times> int option \<times> ('w, 'z) clock_sys_scheme" where
  "wpdk_abstime_to_msecs api abstime s =
     (case wpdk_clock_gettime api CLOCK_REALTIME True s of
        (rc, now, s1) \<Rightarrow>
          if rc = - 1 then (- 1, None, s1)
          else (case (abstime, now) of
                  (Some abstime, Some now) \<Rightarrow>
                    (let msecs = remaining_msecs abstime now
                     in if 1000000000 \<le> msecs then (- 1, None, set_errno EINVAL s1)
                        else (0, Some (to_uint32 msecs), s1))
                | _ \<Rightarrow> (0, None, set_fault s1)))"

section \<open>Semaphores\<close>

text \<open>
  \<^verbatim>\<open>CreateSemaphore\<close> (\<open>None\<close> is NULL), \<^verbatim>\<open>ReleaseSemaphore\<close>, \<^verbatim>\<open>WaitForSingleObject\<close> and \<^verbatim>\<open>CloseHandle\<close>. A
  semaphore holds a handle, \<open>None\<close> when it has been destroyed; the outer option is the pointer.
\<close>

datatype sem_wait_result = SWAIT_FAILED | SWAIT_ABANDONED | SWAIT_OBJECT_0 | SWAIT_TIMEOUT | SWAIT_OTHER

record 'w sem_api =
  sm_create :: "int \<Rightarrow> int \<Rightarrow> 'w \<Rightarrow> nat option \<times> 'w"
  sm_release :: "nat \<Rightarrow> 'w \<Rightarrow> bool \<times> 'w"
  sm_wait :: "nat \<Rightarrow> int \<Rightarrow> 'w \<Rightarrow> sem_wait_result \<times> 'w"
  sm_close :: "nat \<Rightarrow> 'w \<Rightarrow> 'w"
  sm_last_error :: "'w \<Rightarrow> win_error"

type_synonym sem_t = "nat option"

definition INFINITE :: int where [errno_simps]: "INFINITE = 2 ^ 32 - 1"

definition wpdk_sem_init ::
  "'w sem_api \<Rightarrow> sem_t option \<Rightarrow> int \<Rightarrow> int \<Rightarrow> ('w, 'z) clock_sys_scheme
    \<Rightarrow> int \<times> sem_t option \<times> ('w, 'z) clock_sys_scheme" where
  "wpdk_sem_init api sem pshared value s =
     (if sem = None \<or> INT_MAX < value then (- 1, sem, set_errno EINVAL s)
      else if pshared \<noteq> 0 then (- 1, sem, set_errno ENOSYS s)
      else (case os_call (sm_create api value INT_MAX) s of
              (None, s1) \<Rightarrow> (let (rc, s2) = wpdk_last_error (sm_last_error api) s1 in (rc, Some None, s2))
            | (Some h, s1) \<Rightarrow> (0, Some (Some h), s1)))"

definition wpdk_sem_destroy ::
  "'w sem_api \<Rightarrow> sem_t option \<Rightarrow> ('w, 'z) clock_sys_scheme \<Rightarrow> int \<times> sem_t option \<times> ('w, 'z) clock_sys_scheme" where
  "wpdk_sem_destroy api sem s =
     (case sem of
        Some (Some h) \<Rightarrow> (0, Some None, s\<lparr>world := sm_close api h (world s)\<rparr>)
      | _ \<Rightarrow> (- 1, sem, set_errno EINVAL s))"

definition wpdk_sem_post ::
  "'w sem_api \<Rightarrow> sem_t option \<Rightarrow> ('w, 'z) clock_sys_scheme \<Rightarrow> int \<times> ('w, 'z) clock_sys_scheme" where
  "wpdk_sem_post api sem s =
     (case sem of
        Some (Some h) \<Rightarrow>
          (case os_call (sm_release api h) s of
             (False, s1) \<Rightarrow> wpdk_last_error (sm_last_error api) s1
           | (True, s1) \<Rightarrow> (0, s1))
      | _ \<Rightarrow> wpdk_posix_error EINVAL s)"

definition wpdk_wait_sem ::
  "'w sem_api \<Rightarrow> sem_t option \<Rightarrow> int \<Rightarrow> ('w, 'z) clock_sys_scheme \<Rightarrow> int \<times> ('w, 'z) clock_sys_scheme" where
  "wpdk_wait_sem api sem msecs s =
     (case sem of
        Some (Some h) \<Rightarrow>
          (case os_call (sm_wait api h msecs) s of
             (rc, s1) \<Rightarrow>
               (case rc of
                  SWAIT_FAILED \<Rightarrow> wpdk_last_error (sm_last_error api) s1
                | SWAIT_ABANDONED \<Rightarrow> (0, s1)
                | SWAIT_OBJECT_0 \<Rightarrow> (0, s1)
                | SWAIT_TIMEOUT \<Rightarrow> wpdk_posix_error EAGAIN s1
                | SWAIT_OTHER \<Rightarrow> wpdk_posix_error EINVAL s1))
      | _ \<Rightarrow> wpdk_posix_error EINVAL s)"

definition wpdk_sem_wait ::
  "'w sem_api \<Rightarrow> sem_t option \<Rightarrow> ('w, 'z) clock_sys_scheme \<Rightarrow> int \<times> ('w, 'z) clock_sys_scheme" where
  "wpdk_sem_wait api sem s = wpdk_wait_sem api sem INFINITE s"

definition wpdk_sem_trywait ::
  "'w sem_api \<Rightarrow> sem_t option \<Rightarrow> ('w, 'z) clock_sys_scheme \<Rightarrow> int \<times> ('w, 'z) clock_sys_scheme" where
  "wpdk_sem_trywait api sem s = wpdk_wait_sem api sem 0 s"

definition wpdk_sem_timedwait ::
  "'w clock_api \<Rightarrow> 'w sem_api \<Rightarrow> sem_t option \<Rightarrow> timespec option \<Rightarrow> ('w, 'z) clock_sys_scheme
    \<Rightarrow> int \<times> ('w, 'z) clock_sys_scheme" where
  "wpdk_sem_timedwait capi api sem abs_timeout s =
     (case wpdk_abstime_to_msecs capi abs_timeout s of
        (rc, msecs, s1) \<Rightarrow>
          if rc = - 1 then (- 1, s1)
          else (case msecs of None \<Rightarrow> (0, s1) | Some msecs \<Rightarrow> wpdk_wait_sem api sem msecs s1))"

section \<open>Resources\<close>

record rlimit =
  rlim_cur :: int
  rlim_max :: int

record rusage =
  ru_utime :: timeval
  ru_stime :: timeval
  ru_nvcsw :: int
  ru_nivcsw :: int

definition RLIMIT_CORE :: int where [errno_simps]: "RLIMIT_CORE = 1"
definition RLIMIT_NOFILE :: int where [errno_simps]: "RLIMIT_NOFILE = 2"
definition RUSAGE_THREAD :: int where [errno_simps]: "RUSAGE_THREAD = 1"

definition wpdk_getrlimit :: "int \<Rightarrow> bool \<Rightarrow> ('w, 'z) sys_scheme \<Rightarrow> int \<times> rlimit option \<times> ('w, 'z) sys_scheme" where
  "wpdk_getrlimit resource rlp s =
     (if \<not> rlp then (- 1, None, set_errno EINVAL s)
      else if resource = RLIMIT_CORE then (0, Some \<lparr>rlim_cur = 0, rlim_max = 0\<rparr>, s)
      else if resource = RLIMIT_NOFILE then (0, Some \<lparr>rlim_cur = 8192, rlim_max = 8192\<rparr>, s)
      else (- 1, Some \<lparr>rlim_cur = 0, rlim_max = 0\<rparr>, set_errno EINVAL s))"

definition wpdk_setrlimit :: "int \<Rightarrow> rlimit option \<Rightarrow> ('w, 'z) sys_scheme \<Rightarrow> int \<times> ('w, 'z) sys_scheme" where
  "wpdk_setrlimit resource rlp s =
     (case rlp of
        None \<Rightarrow> wpdk_posix_error EINVAL s
      | Some l \<Rightarrow>
          if rlim_max l < rlim_cur l then wpdk_posix_error EINVAL s
          else if resource = RLIMIT_CORE then (0, s)
          else if resource = RLIMIT_NOFILE
          then if 8192 < rlim_max l then wpdk_posix_error EPERM s else (0, s)
          else wpdk_posix_error EINVAL s)"

text \<open>\<^verbatim>\<open>GetThreadTimes\<close> reports the system and the user time of the thread, in units of 100ns.\<close>

definition zero_usage :: rusage where
  "zero_usage = \<lparr>ru_utime = \<lparr>tv_sec = 0, tv_usec = 0\<rparr>, ru_stime = \<lparr>tv_sec = 0, tv_usec = 0\<rparr>, ru_nvcsw = 0, ru_nivcsw = 0\<rparr>"

definition usage_time :: "int \<Rightarrow> timeval" where
  "usage_time v = \<lparr>tv_sec = to_int32 (v div 10000000), tv_usec = (v mod 10000000) * 100\<rparr>"

definition wpdk_getrusage ::
  "('w \<Rightarrow> (int \<times> int) option \<times> 'w) \<Rightarrow> ('w \<Rightarrow> win_error) \<Rightarrow> int \<Rightarrow> bool \<Rightarrow> ('w, 'z) sys_scheme
    \<Rightarrow> int \<times> rusage option \<times> ('w, 'z) sys_scheme" where
  "wpdk_getrusage thread_times last_error who usage s =
     (if \<not> usage then (- 1, None, set_errno EINVAL s)
      else if who = RUSAGE_THREAD
      then (case os_call thread_times s of
              (None, s1) \<Rightarrow> (let (rc, s2) = wpdk_last_error last_error s1 in (rc, Some zero_usage, s2))
            | (Some (system, user), s1) \<Rightarrow>
                (0, Some (zero_usage\<lparr>ru_utime := usage_time user, ru_stime := usage_time system\<rparr>), s1))
      else (- 1, Some zero_usage, set_errno EINVAL s))"

section \<open>Accuracy of the clock and of timeouts\<close>

definition nanos :: "timespec \<Rightarrow> int" where
  "nanos t = ts_sec t * 1000000000 + ts_nsec t"

text \<open>A system time that \<^verbatim>\<open>long\<close> can hold in seconds since 1970.\<close>

definition representable :: "int \<Rightarrow> bool" where
  "representable now \<longleftrightarrow> unix_epoch \<le> now \<and> now < unix_epoch + 2 ^ 31 * 10000000"

lemma realtime_eq:
  assumes "ca_filetime api (world s) = (now, w)" "representable now"
  shows "\<exists>t. wpdk_clock_gettime api CLOCK_REALTIME True s = (0, Some t, s\<lparr>world := w\<rparr>)
     \<and> nanos t = (now - unix_epoch) * 100 \<and> 0 \<le> ts_nsec t \<and> ts_nsec t < 1000000000 \<and> 0 \<le> ts_sec t \<and> ts_sec t < 2 ^ 31"
proof -
  let ?v = "now - unix_epoch"
  have v: "0 \<le> ?v" "?v < 2 ^ 31 * 10000000" using assms(2) by (auto simp: representable_def)
  then have "to_uint64 ?v = ?v" "?v div 10000000 < 2 ^ 31" "0 \<le> ?v div 10000000"
    by (simp_all add: to_uint64_def div_less_iff_less_mult pos_imp_zdiv_nonneg_iff)
  moreover have "?v div 10000000 * 1000000000 + ?v mod 10000000 * 100 = ?v * 100" by presburger
  ultimately show ?thesis using assms(1)
    by (simp add: wpdk_clock_gettime_def errno_simps os_call_eq to_int32_id nanos_def Let_def)
qed

lemma c_div_million:
  assumes "\<bar>n\<bar> < 1000000000"
  shows "\<bar>c_div n 1000000 * 1000000 - n\<bar> < 1000000" "\<bar>c_div n 1000000\<bar> < 1000"
proof -
  have "\<bar>n\<bar> div 1000000 * 1000000 \<le> \<bar>n\<bar>" "\<bar>n\<bar> < \<bar>n\<bar> div 1000000 * 1000000 + 1000000" "\<bar>n\<bar> div 1000000 < 1000"
    "0 \<le> \<bar>n\<bar> div 1000000"
    using assms by linarith+
  then show "\<bar>c_div n 1000000 * 1000000 - n\<bar> < 1000000" "\<bar>c_div n 1000000\<bar> < 1000"
    by (cases n "0 :: int" rule: linorder_cases; simp add: c_div_def)+
qed

lemma remaining_msecs_close:
  assumes "0 \<le> ts_nsec abstime" "ts_nsec abstime < 1000000000" "0 \<le> ts_nsec now" "ts_nsec now < 1000000000"
    and "0 \<le> ts_sec now" "ts_sec abstime < 2 ^ 50"
  shows "0 \<le> remaining_msecs abstime now
     \<and> \<bar>remaining_msecs abstime now * 1000000 - max 0 (nanos abstime - nanos now)\<bar> < 1000000"
proof -
  let ?ds = "ts_sec abstime - ts_sec now" and ?dn = "ts_nsec abstime - ts_nsec now"
  have dn: "\<bar>?dn\<bar> < 1000000000" using assms(1-4) by linarith
  note cm = c_div_million [OF dn]
  consider (later) "0 < ?ds" | (same) "?ds = 0" "0 < ?dn" | (past) "?ds < 0 \<or> ?ds = 0 \<and> ?dn \<le> 0" by linarith
  then show ?thesis
  proof cases
    case later
    then have "remaining_msecs abstime now = ?ds * 1000 + c_div ?dn 1000000"
      using cm(2) assms(5,6) by (simp add: remaining_msecs_def) (rule to_int64_id, auto)
    then show ?thesis using later cm dn by (simp add: nanos_def) linarith
  next
    case same
    then have "remaining_msecs abstime now = c_div ?dn 1000000" "0 \<le> c_div ?dn 1000000"
      by (auto simp: remaining_msecs_def c_div_def)
    then show ?thesis using same cm by (simp add: nanos_def)
  next
    case past
    then have "nanos abstime - nanos now \<le> 0" using dn by (simp add: nanos_def) linarith
    moreover have "remaining_msecs abstime now = 0" using past by (auto simp: remaining_msecs_def)
    ultimately show ?thesis by simp
  qed
qed


definition demo_clock :: "unit clock_api" where
  "demo_clock = \<lparr>ca_frequency = (\<lambda>w. 1000), ca_counter = Pair 5, ca_filetime = Pair (unix_epoch + 15000000),
     ca_last_error = (\<lambda>w. Werr1 ERROR_ACCESS_DENIED)\<rparr>"

definition demo_clock_sys :: "unit clock_sys" where
  "demo_clock_sys = \<lparr>errno = 0, fault = False, world = (), pc_freq = 0\<rparr>"


text \<open>From the year 2038 on the seconds do not fit a \<^verbatim>\<open>long\<close>, and the time is before 1970.\<close>

lemma realtime_2038:
  assumes "ca_filetime api (world s) = (unix_epoch + 2 ^ 31 * 10000000, w)"
  shows "wpdk_clock_gettime api CLOCK_REALTIME True s =
     (0, Some \<lparr>ts_sec = - (2 ^ 31), ts_nsec = 0\<rparr>, s\<lparr>world := w\<rparr>)"
  using assms by (simp add: wpdk_clock_gettime_def errno_simps os_call_eq to_uint64_def to_int32_def)

text \<open>A timed wait that times out reports \<^verbatim>\<open>EAGAIN\<close>, where \<^verbatim>\<open>ETIMEDOUT\<close> is specified.\<close>

lemma sem_timedwait_EAGAIN:
  assumes "wpdk_abstime_to_msecs capi t s = (0, Some ms, s1)" "sm_wait api h ms (world s1) = (SWAIT_TIMEOUT, w)"
  shows "wpdk_sem_timedwait capi api (Some (Some h)) t s = (- 1, s1\<lparr>world := w, errno := EAGAIN\<rparr>)"
  using assms by (simp add: wpdk_sem_timedwait_def wpdk_wait_sem_def os_call_eq wpdk_posix_error_def set_errno_def)

text \<open>The microseconds of a time used are a thousand times too large.\<close>

lemma usage_time_factor:
  "(v mod 10000000) mod 10 = 0 \<Longrightarrow> tv_usec (usage_time v) = 1000 * ((v mod 10000000) div 10)"
  unfolding usage_time_def by simp presburger

end
