(* ===== verification/Attributes.thy ===== *)
theory Attributes
  imports Threads
begin

text \<open>
  The attribute objects of \<^verbatim>\<open>src/pthread.c\<close>: of mutexes, barriers, condition variables and threads. Each
  attribute is a variable behind a getter and a setter that checks its argument. The locale
  \<open>attribute\<close> states that contract, every attribute is shown to satisfy it, and a sequence of calls on a mutex
  attribute object is shown to behave like assignments to independent variables.

  The pointer to an object is \<open>None\<close> for NULL; a getter is told whether the pointer to its result is
  not NULL.
\<close>

section \<open>Constants\<close>

definition PTHREAD_MUTEX_NORMAL :: int where [errno_simps]: "PTHREAD_MUTEX_NORMAL = 0"
definition PTHREAD_MUTEX_ERRORCHECK :: int where [errno_simps]: "PTHREAD_MUTEX_ERRORCHECK = 1"
definition PTHREAD_MUTEX_RECURSIVE :: int where [errno_simps]: "PTHREAD_MUTEX_RECURSIVE = 2"
definition PTHREAD_MUTEX_DEFAULT :: int where [errno_simps]: "PTHREAD_MUTEX_DEFAULT = PTHREAD_MUTEX_RECURSIVE"
definition PTHREAD_MUTEX_STALLED :: int where [errno_simps]: "PTHREAD_MUTEX_STALLED = 0"
definition PTHREAD_MUTEX_ROBUST :: int where [errno_simps]: "PTHREAD_MUTEX_ROBUST = 1"
definition PTHREAD_PROCESS_PRIVATE :: int where [errno_simps]: "PTHREAD_PROCESS_PRIVATE = 0"
definition PTHREAD_PROCESS_SHARED :: int where [errno_simps]: "PTHREAD_PROCESS_SHARED = 1"
definition PTHREAD_PRIO_NONE :: int where [errno_simps]: "PTHREAD_PRIO_NONE = 0"
definition PTHREAD_PRIO_INHERIT :: int where [errno_simps]: "PTHREAD_PRIO_INHERIT = 1"
definition PTHREAD_PRIO_PROTECT :: int where [errno_simps]: "PTHREAD_PRIO_PROTECT = 2"

section \<open>Mutex attributes\<close>

record pthread_mutexattr =
  ma_type :: int
  ma_robust :: int
  ma_pshared :: int
  ma_protocol :: int

definition wpdk_pthread_mutexattr_init :: "pthread_mutexattr option \<Rightarrow> int \<times> pthread_mutexattr option" where
  "wpdk_pthread_mutexattr_init attr =
     (case attr of
        None \<Rightarrow> (EINVAL, None)
      | Some a \<Rightarrow> (0, Some (a\<lparr>ma_type := PTHREAD_MUTEX_DEFAULT, ma_robust := PTHREAD_MUTEX_STALLED,
                            ma_pshared := PTHREAD_PROCESS_PRIVATE, ma_protocol := PTHREAD_PRIO_NONE\<rparr>)))"

definition wpdk_pthread_mutexattr_destroy :: "pthread_mutexattr option \<Rightarrow> int" where
  "wpdk_pthread_mutexattr_destroy attr = (if attr = None then EINVAL else 0)"

definition wpdk_pthread_mutexattr_gettype :: "pthread_mutexattr option \<Rightarrow> bool \<Rightarrow> int \<times> int option" where
  "wpdk_pthread_mutexattr_gettype attr type =
     (case attr of Some a \<Rightarrow> if type then (0, Some (ma_type a)) else (EINVAL, None) | None \<Rightarrow> (EINVAL, None))"

definition wpdk_pthread_mutexattr_settype :: "pthread_mutexattr option \<Rightarrow> int \<Rightarrow> int \<times> pthread_mutexattr option" where
  "wpdk_pthread_mutexattr_settype attr type =
     (case attr of
        None \<Rightarrow> (EINVAL, None)
      | Some a \<Rightarrow>
          if type = PTHREAD_MUTEX_RECURSIVE \<or> type = PTHREAD_MUTEX_NORMAL \<or> type = PTHREAD_MUTEX_ERRORCHECK
          then (0, Some (a\<lparr>ma_type := type\<rparr>)) else (EINVAL, attr))"

definition wpdk_pthread_mutexattr_getrobust :: "pthread_mutexattr option \<Rightarrow> bool \<Rightarrow> int \<times> int option" where
  "wpdk_pthread_mutexattr_getrobust attr robust =
     (case attr of Some a \<Rightarrow> if robust then (0, Some (ma_robust a)) else (EINVAL, None) | None \<Rightarrow> (EINVAL, None))"

definition wpdk_pthread_mutexattr_setrobust :: "pthread_mutexattr option \<Rightarrow> int \<Rightarrow> int \<times> pthread_mutexattr option" where
  "wpdk_pthread_mutexattr_setrobust attr robust =
     (case attr of
        None \<Rightarrow> (EINVAL, None)
      | Some a \<Rightarrow>
          if robust = PTHREAD_MUTEX_ROBUST \<or> robust = PTHREAD_MUTEX_STALLED
          then (0, Some (a\<lparr>ma_robust := robust\<rparr>)) else (EINVAL, attr))"

definition wpdk_pthread_mutexattr_getpshared :: "pthread_mutexattr option \<Rightarrow> bool \<Rightarrow> int \<times> int option" where
  "wpdk_pthread_mutexattr_getpshared attr pshared =
     (case attr of Some a \<Rightarrow> if pshared then (0, Some (ma_pshared a)) else (EINVAL, None) | None \<Rightarrow> (EINVAL, None))"

definition wpdk_pthread_mutexattr_setpshared :: "pthread_mutexattr option \<Rightarrow> int \<Rightarrow> int \<times> pthread_mutexattr option" where
  "wpdk_pthread_mutexattr_setpshared attr pshared =
     (case attr of
        None \<Rightarrow> (EINVAL, None)
      | Some a \<Rightarrow>
          if pshared = PTHREAD_PROCESS_PRIVATE \<or> pshared = PTHREAD_PROCESS_SHARED
          then (0, Some (a\<lparr>ma_pshared := pshared\<rparr>)) else (EINVAL, attr))"

definition wpdk_pthread_mutexattr_getprotocol :: "pthread_mutexattr option \<Rightarrow> bool \<Rightarrow> int \<times> int option" where
  "wpdk_pthread_mutexattr_getprotocol attr protocol =
     (case attr of Some a \<Rightarrow> if protocol then (0, Some (ma_protocol a)) else (EINVAL, None) | None \<Rightarrow> (EINVAL, None))"

definition wpdk_pthread_mutexattr_setprotocol :: "pthread_mutexattr option \<Rightarrow> int \<Rightarrow> int \<times> pthread_mutexattr option" where
  "wpdk_pthread_mutexattr_setprotocol attr protocol =
     (case attr of
        None \<Rightarrow> (EINVAL, None)
      | Some a \<Rightarrow>
          if protocol = PTHREAD_PRIO_INHERIT \<or> protocol = PTHREAD_PRIO_PROTECT then (ENOSYS, attr)
          else if protocol = PTHREAD_PRIO_NONE then (0, Some (a\<lparr>ma_protocol := protocol\<rparr>)) else (EINVAL, attr))"

definition wpdk_pthread_mutexattr_getprioceiling :: "pthread_mutexattr option \<Rightarrow> bool \<Rightarrow> int" where
  "wpdk_pthread_mutexattr_getprioceiling attr prioceiling = (if attr = None \<or> \<not> prioceiling then EINVAL else ENOSYS)"

definition wpdk_pthread_mutexattr_setprioceiling :: "pthread_mutexattr option \<Rightarrow> int \<Rightarrow> int" where
  "wpdk_pthread_mutexattr_setprioceiling attr prioceiling = (if attr = None then EINVAL else ENOSYS)"

section \<open>Barrier and condition variable attributes\<close>

record pthread_barrierattr =
  ba_pshared :: int

record pthread_condattr =
  cda_pshared :: int

definition wpdk_pthread_barrierattr_init :: "pthread_barrierattr option \<Rightarrow> int \<times> pthread_barrierattr option" where
  "wpdk_pthread_barrierattr_init attr =
     (case attr of None \<Rightarrow> (EINVAL, None) | Some a \<Rightarrow> (0, Some (a\<lparr>ba_pshared := PTHREAD_PROCESS_PRIVATE\<rparr>)))"

definition wpdk_pthread_barrierattr_destroy :: "pthread_barrierattr option \<Rightarrow> int" where
  "wpdk_pthread_barrierattr_destroy attr = (if attr = None then EINVAL else 0)"

definition wpdk_pthread_barrierattr_getpshared :: "pthread_barrierattr option \<Rightarrow> bool \<Rightarrow> int \<times> int option" where
  "wpdk_pthread_barrierattr_getpshared attr pshared =
     (case attr of Some a \<Rightarrow> if pshared then (0, Some (ba_pshared a)) else (EINVAL, None) | None \<Rightarrow> (EINVAL, None))"

definition wpdk_pthread_barrierattr_setpshared ::
  "pthread_barrierattr option \<Rightarrow> int \<Rightarrow> int \<times> pthread_barrierattr option" where
  "wpdk_pthread_barrierattr_setpshared attr pshared =
     (case attr of
        None \<Rightarrow> (EINVAL, None)
      | Some a \<Rightarrow>
          if pshared = PTHREAD_PROCESS_PRIVATE \<or> pshared = PTHREAD_PROCESS_SHARED
          then (0, Some (a\<lparr>ba_pshared := pshared\<rparr>)) else (EINVAL, attr))"

definition wpdk_pthread_condattr_init :: "pthread_condattr option \<Rightarrow> int \<times> pthread_condattr option" where
  "wpdk_pthread_condattr_init attr =
     (case attr of None \<Rightarrow> (EINVAL, None) | Some a \<Rightarrow> (0, Some (a\<lparr>cda_pshared := PTHREAD_PROCESS_PRIVATE\<rparr>)))"

definition wpdk_pthread_condattr_destroy :: "pthread_condattr option \<Rightarrow> int" where
  "wpdk_pthread_condattr_destroy attr = (if attr = None then EINVAL else 0)"

definition wpdk_pthread_condattr_getpshared :: "pthread_condattr option \<Rightarrow> bool \<Rightarrow> int \<times> int option" where
  "wpdk_pthread_condattr_getpshared attr pshared =
     (case attr of Some a \<Rightarrow> if pshared then (0, Some (cda_pshared a)) else (EINVAL, None) | None \<Rightarrow> (EINVAL, None))"

definition wpdk_pthread_condattr_setpshared :: "pthread_condattr option \<Rightarrow> int \<Rightarrow> int \<times> pthread_condattr option" where
  "wpdk_pthread_condattr_setpshared attr pshared =
     (case attr of
        None \<Rightarrow> (EINVAL, None)
      | Some a \<Rightarrow>
          if pshared = PTHREAD_PROCESS_PRIVATE \<or> pshared = PTHREAD_PROCESS_SHARED
          then (0, Some (a\<lparr>cda_pshared := pshared\<rparr>)) else (EINVAL, attr))"

section \<open>Thread attributes\<close>

definition wpdk_pthread_attr_init :: "pthread_attr option \<Rightarrow> int \<times> pthread_attr option" where
  "wpdk_pthread_attr_init attr =
     (case attr of
        None \<Rightarrow> (EINVAL, None)
      | Some a \<Rightarrow> (0, Some (a\<lparr>at_detachstate := PTHREAD_CREATE_JOINABLE, at_stacksize := 0\<rparr>)))"

definition wpdk_pthread_attr_destroy :: "pthread_attr option \<Rightarrow> int" where
  "wpdk_pthread_attr_destroy attr = (if attr = None then EINVAL else 0)"

definition wpdk_pthread_attr_getdetachstate :: "pthread_attr option \<Rightarrow> bool \<Rightarrow> int \<times> int option" where
  "wpdk_pthread_attr_getdetachstate attr detachstate =
     (case attr of Some a \<Rightarrow> if detachstate then (0, Some (at_detachstate a)) else (EINVAL, None) | None \<Rightarrow> (EINVAL, None))"

definition wpdk_pthread_attr_setdetachstate :: "pthread_attr option \<Rightarrow> int \<Rightarrow> int \<times> pthread_attr option" where
  "wpdk_pthread_attr_setdetachstate attr detachstate =
     (case attr of
        None \<Rightarrow> (EINVAL, None)
      | Some a \<Rightarrow>
          if detachstate = PTHREAD_CREATE_JOINABLE \<or> detachstate = PTHREAD_CREATE_DETACHED
          then (0, Some (a\<lparr>at_detachstate := detachstate\<rparr>)) else (EINVAL, attr))"

definition wpdk_pthread_attr_getstacksize :: "pthread_attr option \<Rightarrow> bool \<Rightarrow> int \<times> nat option" where
  "wpdk_pthread_attr_getstacksize attr stacksize =
     (case attr of Some a \<Rightarrow> if stacksize then (0, Some (at_stacksize a)) else (EINVAL, None) | None \<Rightarrow> (EINVAL, None))"

definition wpdk_pthread_attr_setstacksize :: "pthread_attr option \<Rightarrow> nat \<Rightarrow> int \<times> pthread_attr option" where
  "wpdk_pthread_attr_setstacksize attr stacksize =
     (case attr of
        None \<Rightarrow> (EINVAL, None)
      | Some a \<Rightarrow>
          if UINT_MAX < int stacksize then (EINVAL, attr) else (0, Some (a\<lparr>at_stacksize := stacksize\<rparr>)))"

section \<open>The contract of an attribute\<close>

locale attribute =
  fixes get :: "'a option \<Rightarrow> bool \<Rightarrow> int \<times> 'v option"
    and put :: "'a option \<Rightarrow> 'v \<Rightarrow> int \<times> 'a option"
    and valid :: "'v \<Rightarrow> bool"
  assumes get_fails: "get None out = (EINVAL, None)" "get obj False = (EINVAL, None)"
    and get_some: "\<exists>v. get (Some a) True = (0, Some v)"
    and put_null: "put None v = (EINVAL, None)"
    and put_valid: "valid v \<Longrightarrow> \<exists>a'. put (Some a) v = (0, Some a') \<and> get (Some a') True = (0, Some v)"
    and put_invalid: "\<not> valid v \<Longrightarrow> fst (put (Some a) v) \<noteq> 0 \<and> snd (put (Some a) v) = Some a"
begin

definition reads :: "'a \<Rightarrow> 'v" where
  "reads a = the (snd (get (Some a) True))"

lemma get_reads: "get (Some a) True = (0, Some (reads a))"
  using get_some [of a] by (auto simp: reads_def)

lemma put_cases:
  obtains (accepted) a' where "valid v" "put (Some a) v = (0, Some a')" "reads a' = v"
    | (refused) e where "\<not> valid v" "e \<noteq> 0" "put (Some a) v = (e, Some a)"
proof (cases "valid v")
  case True
  then show ?thesis using put_valid [of v a] accepted by (auto simp: reads_def)
next
  case False
  then show ?thesis using put_invalid [of v a] refused by (cases "put (Some a) v") auto
qed

lemma put_succeeds_iff: "fst (put (Some a) v) = 0 \<longleftrightarrow> valid v"
  by (cases rule: put_cases [of v a]) simp_all

lemma reads_after_put:
  "\<exists>a'. snd (put (Some a) v) = Some a' \<and> reads a' = (if valid v then v else reads a)"
  by (cases rule: put_cases [of v a]) simp_all

end

lemmas attribute_defs =
  wpdk_pthread_mutexattr_gettype_def wpdk_pthread_mutexattr_settype_def
  wpdk_pthread_mutexattr_getrobust_def wpdk_pthread_mutexattr_setrobust_def
  wpdk_pthread_mutexattr_getpshared_def wpdk_pthread_mutexattr_setpshared_def
  wpdk_pthread_mutexattr_getprotocol_def wpdk_pthread_mutexattr_setprotocol_def
  wpdk_pthread_barrierattr_getpshared_def wpdk_pthread_barrierattr_setpshared_def
  wpdk_pthread_condattr_getpshared_def wpdk_pthread_condattr_setpshared_def
  wpdk_pthread_attr_getdetachstate_def wpdk_pthread_attr_setdetachstate_def
  wpdk_pthread_attr_getstacksize_def wpdk_pthread_attr_setstacksize_def

interpretation mutex_type: attribute wpdk_pthread_mutexattr_gettype wpdk_pthread_mutexattr_settype
    "\<lambda>v. v \<in> {PTHREAD_MUTEX_NORMAL, PTHREAD_MUTEX_ERRORCHECK, PTHREAD_MUTEX_RECURSIVE}"
  by unfold_locales (auto simp: attribute_defs errno_simps split: option.splits)

interpretation mutex_robust: attribute wpdk_pthread_mutexattr_getrobust wpdk_pthread_mutexattr_setrobust
    "\<lambda>v. v \<in> {PTHREAD_MUTEX_STALLED, PTHREAD_MUTEX_ROBUST}"
  by unfold_locales (auto simp: attribute_defs errno_simps split: option.splits)

interpretation mutex_pshared: attribute wpdk_pthread_mutexattr_getpshared wpdk_pthread_mutexattr_setpshared
    "\<lambda>v. v \<in> {PTHREAD_PROCESS_PRIVATE, PTHREAD_PROCESS_SHARED}"
  by unfold_locales (auto simp: attribute_defs errno_simps split: option.splits)

interpretation mutex_protocol: attribute wpdk_pthread_mutexattr_getprotocol wpdk_pthread_mutexattr_setprotocol
    "\<lambda>v. v = PTHREAD_PRIO_NONE"
  by unfold_locales (auto simp: attribute_defs errno_simps split: option.splits)

interpretation barrier_pshared: attribute wpdk_pthread_barrierattr_getpshared wpdk_pthread_barrierattr_setpshared
    "\<lambda>v. v \<in> {PTHREAD_PROCESS_PRIVATE, PTHREAD_PROCESS_SHARED}"
  by unfold_locales (auto simp: attribute_defs errno_simps split: option.splits)

interpretation cond_pshared: attribute wpdk_pthread_condattr_getpshared wpdk_pthread_condattr_setpshared
    "\<lambda>v. v \<in> {PTHREAD_PROCESS_PRIVATE, PTHREAD_PROCESS_SHARED}"
  by unfold_locales (auto simp: attribute_defs errno_simps split: option.splits)

interpretation detachstate: attribute wpdk_pthread_attr_getdetachstate wpdk_pthread_attr_setdetachstate
    "\<lambda>v. v \<in> {PTHREAD_CREATE_JOINABLE, PTHREAD_CREATE_DETACHED}"
  by unfold_locales (auto simp: attribute_defs errno_simps split: option.splits)

interpretation stacksize: attribute wpdk_pthread_attr_getstacksize wpdk_pthread_attr_setstacksize
    "\<lambda>v. int v \<le> UINT_MAX"
  by unfold_locales (auto simp: attribute_defs errno_simps split: option.splits)

section \<open>Sequences of calls on a mutex attribute object\<close>

datatype mutexattr_key = Key_type | Key_robust | Key_pshared | Key_protocol

fun mutexattr_get :: "mutexattr_key \<Rightarrow> pthread_mutexattr option \<Rightarrow> bool \<Rightarrow> int \<times> int option" where
  "mutexattr_get Key_type = wpdk_pthread_mutexattr_gettype"
| "mutexattr_get Key_robust = wpdk_pthread_mutexattr_getrobust"
| "mutexattr_get Key_pshared = wpdk_pthread_mutexattr_getpshared"
| "mutexattr_get Key_protocol = wpdk_pthread_mutexattr_getprotocol"

fun mutexattr_put :: "mutexattr_key \<Rightarrow> pthread_mutexattr option \<Rightarrow> int \<Rightarrow> int \<times> pthread_mutexattr option" where
  "mutexattr_put Key_type = wpdk_pthread_mutexattr_settype"
| "mutexattr_put Key_robust = wpdk_pthread_mutexattr_setrobust"
| "mutexattr_put Key_pshared = wpdk_pthread_mutexattr_setpshared"
| "mutexattr_put Key_protocol = wpdk_pthread_mutexattr_setprotocol"

fun mutexattr_values :: "mutexattr_key \<Rightarrow> int list" where
  "mutexattr_values Key_type = [PTHREAD_MUTEX_NORMAL, PTHREAD_MUTEX_ERRORCHECK, PTHREAD_MUTEX_RECURSIVE]"
| "mutexattr_values Key_robust = [PTHREAD_MUTEX_STALLED, PTHREAD_MUTEX_ROBUST]"
| "mutexattr_values Key_pshared = [PTHREAD_PROCESS_PRIVATE, PTHREAD_PROCESS_SHARED]"
| "mutexattr_values Key_protocol = [PTHREAD_PRIO_NONE]"

fun mutexattr_default :: "mutexattr_key \<Rightarrow> int" where
  "mutexattr_default Key_type = PTHREAD_MUTEX_RECURSIVE"
| "mutexattr_default Key_robust = PTHREAD_MUTEX_STALLED"
| "mutexattr_default Key_pshared = PTHREAD_PROCESS_PRIVATE"
| "mutexattr_default Key_protocol = PTHREAD_PRIO_NONE"

definition mutexattr_calls :: "(mutexattr_key \<times> int) list \<Rightarrow> pthread_mutexattr option \<Rightarrow> pthread_mutexattr option" where
  "mutexattr_calls = fold (\<lambda>(k, v) obj. snd (mutexattr_put k obj v))"

definition mutexattr_assign :: "(mutexattr_key \<times> int) list \<Rightarrow> (mutexattr_key \<Rightarrow> int) \<Rightarrow> mutexattr_key \<Rightarrow> int" where
  "mutexattr_assign = fold (\<lambda>(k, v) m. if v \<in> set (mutexattr_values k) then m(k := v) else m)"

definition mutexattr_abs :: "pthread_mutexattr \<Rightarrow> mutexattr_key \<Rightarrow> int" where
  "mutexattr_abs a k = the (snd (mutexattr_get k (Some a) True))"

lemma mutexattr_get_abs: "mutexattr_get k (Some a) True = (0, Some (mutexattr_abs a k))"
  by (cases k) (simp_all add: mutexattr_abs_def attribute_defs)

lemma mutexattr_put_abs:
  "\<exists>a'. snd (mutexattr_put k (Some a) v) = Some a' \<and>
     mutexattr_abs a' = (if v \<in> set (mutexattr_values k) then (mutexattr_abs a)(k := v) else mutexattr_abs a)"
proof -
  have eq: "mutexattr_abs b = (\<lambda>k. case k of Key_type \<Rightarrow> ma_type b | Key_robust \<Rightarrow> ma_robust b
      | Key_pshared \<Rightarrow> ma_pshared b | Key_protocol \<Rightarrow> ma_protocol b)" for b
    by (rule ext) (simp add: mutexattr_abs_def attribute_defs split: mutexattr_key.split)
  show ?thesis
    by (cases k) (auto simp: eq attribute_defs fun_eq_iff errno_simps split: mutexattr_key.splits)
qed

lemma mutexattr_calls_abs:
  "\<exists>a'. mutexattr_calls cs (Some a) = Some a' \<and> mutexattr_abs a' = mutexattr_assign cs (mutexattr_abs a)"
proof (induction cs arbitrary: a)
  case (Cons c cs)
  obtain k v where c: "c = (k, v)" by (cases c)
  obtain b where b: "snd (mutexattr_put k (Some a) v) = Some b"
      "mutexattr_abs b = (if v \<in> set (mutexattr_values k) then (mutexattr_abs a)(k := v) else mutexattr_abs a)"
    using mutexattr_put_abs by blast
  show ?case using Cons.IH [of b] b by (simp add: c mutexattr_calls_def mutexattr_assign_def)
qed (simp add: mutexattr_calls_def mutexattr_assign_def)

lemma mutexattr_init_abs:
  "\<exists>b. wpdk_pthread_mutexattr_init (Some a) = (0, Some b) \<and> mutexattr_abs b = mutexattr_default"
proof -
  have "mutexattr_abs (a\<lparr>ma_type := PTHREAD_MUTEX_DEFAULT, ma_robust := PTHREAD_MUTEX_STALLED,
      ma_pshared := PTHREAD_PROCESS_PRIVATE, ma_protocol := PTHREAD_PRIO_NONE\<rparr>) k = mutexattr_default k" for k
    by (cases k) (simp_all add: mutexattr_abs_def attribute_defs PTHREAD_MUTEX_DEFAULT_def)
  then show ?thesis by (auto simp: wpdk_pthread_mutexattr_init_def)
qed

text \<open>
  A mutex attribute object is four independent variables: after its initialisation and any sequence of
  calls of the four setters, each getter succeeds and returns the last value its own setter accepted, or the
  default; refused values and the other setters have no effect on it.
\<close>

theorem mutexattr_refines_variables:
  "mutexattr_get k (mutexattr_calls cs (snd (wpdk_pthread_mutexattr_init (Some a)))) True
     = (0, Some (mutexattr_assign cs mutexattr_default k))"
proof -
  obtain b where b: "wpdk_pthread_mutexattr_init (Some a) = (0, Some b)" "mutexattr_abs b = mutexattr_default"
    using mutexattr_init_abs by blast
  obtain c where "mutexattr_calls cs (Some b) = Some c" "mutexattr_abs c = mutexattr_assign cs (mutexattr_abs b)"
    using mutexattr_calls_abs by blast
  then show ?thesis using b by (simp add: mutexattr_get_abs)
qed

end
