(* ===== verification/Cpuset.thy ===== *)
theory Cpuset
  imports Set_Interface
begin

text \<open>
  The sets of processors of \<^verbatim>\<open>inc/sched.h\<close>: an array of 64-bit masks, here a list of words. The macros are
  modelled for \<^verbatim>\<open>CPU_SETSIZE\<close> 128, its value when DPDK does not define another one. As in C, a processor
  number from \<^verbatim>\<open>CPU_SETSIZE\<close> on is outside the array and nothing is claimed about it.
\<close>

unbundle bit_operations_syntax

definition CPU_SETSIZE :: nat where "CPU_SETSIZE = 128"
definition BITS_PER_SET :: nat where "BITS_PER_SET = 8 * 8"
definition NUM_SETS :: "nat \<Rightarrow> nat" where "NUM_SETS b = (b + (BITS_PER_SET - 1)) div BITS_PER_SET"
definition WHICH_SET :: "nat \<Rightarrow> nat" where "WHICH_SET b = b div BITS_PER_SET"
definition WHICH_BIT :: "nat \<Rightarrow> nat" where "WHICH_BIT b = b AND (BITS_PER_SET - 1)"

type_synonym cpuset = "64 word list"

definition CPU_SET :: "nat \<Rightarrow> cpuset \<Rightarrow> cpuset" where
  "CPU_SET b s = s[WHICH_SET b := s ! WHICH_SET b OR push_bit (WHICH_BIT b) 1]"

definition CPU_CLR :: "nat \<Rightarrow> cpuset \<Rightarrow> cpuset" where
  "CPU_CLR b s = s[WHICH_SET b := s ! WHICH_SET b AND NOT (push_bit (WHICH_BIT b) 1)]"

definition CPU_ISSET :: "nat \<Rightarrow> cpuset \<Rightarrow> bool" where
  "CPU_ISSET b s = (s ! WHICH_SET b AND push_bit (WHICH_BIT b) 1 \<noteq> 0)"

definition CPU_ZERO :: "cpuset \<Rightarrow> cpuset" where
  "CPU_ZERO s = fold (\<lambda>i t. t[i := 0]) [0..<NUM_SETS CPU_SETSIZE] s"

definition count_cpu :: "cpuset \<Rightarrow> nat" where
  "count_cpu s = fold (\<lambda>i count. if CPU_ISSET i s then count + 1 else count) [0..<NUM_SETS CPU_SETSIZE] 0"

definition CPU_AND :: "cpuset \<Rightarrow> cpuset \<Rightarrow> cpuset \<Rightarrow> cpuset" where
  "CPU_AND dst src1 src2 = fold (\<lambda>i t. t[i := src1 ! i AND src2 ! i]) [0..<NUM_SETS CPU_SETSIZE] dst"

definition CPU_OR :: "cpuset \<Rightarrow> cpuset \<Rightarrow> cpuset \<Rightarrow> cpuset" where
  "CPU_OR dst src1 src2 = fold (\<lambda>i t. t[i := src1 ! i OR src2 ! i]) [0..<NUM_SETS CPU_SETSIZE] dst"

definition CPU_FILL :: "cpuset \<Rightarrow> cpuset" where
  "CPU_FILL s = fold (\<lambda>i t. t[i := - 1]) [0..<NUM_SETS CPU_SETSIZE] s"

definition CPU_NOT :: "cpuset \<Rightarrow> cpuset \<Rightarrow> cpuset" where
  "CPU_NOT dst src = fold (\<lambda>i t. t[i := src ! i XOR - 1]) [0..<NUM_SETS CPU_SETSIZE] dst"

section \<open>Membership is a bit of the array\<close>

definition cpuset_ok :: "cpuset \<Rightarrow> bool" where
  "cpuset_ok s = (length s = NUM_SETS CPU_SETSIZE)"

lemma num_sets [simp]: "NUM_SETS CPU_SETSIZE = 2"
  by (simp add: NUM_SETS_def CPU_SETSIZE_def BITS_PER_SET_def)

lemma which_bit: "WHICH_BIT b = b mod 64"
  using take_bit_eq_mask [of 6 b]
  by (simp add: WHICH_BIT_def BITS_PER_SET_def take_bit_eq_mod mask_eq_exp_minus_1)

lemma which_set: "WHICH_SET b = b div 64"
  by (simp add: WHICH_SET_def BITS_PER_SET_def)

lemma which_set_less: "b < CPU_SETSIZE \<Longrightarrow> cpuset_ok s \<Longrightarrow> b div 64 < length s"
  unfolding cpuset_ok_def num_sets by (simp add: CPU_SETSIZE_def)

lemma and_exp: "(w::64 word) AND 2 ^ n \<noteq> 0 \<longleftrightarrow> bit w n"
  by (simp add: and_exp_eq_0_iff_not_bit)

lemma isset_bit: "CPU_ISSET b s = bit (s ! (b div 64)) (b mod 64)"
  by (simp add: CPU_ISSET_def which_bit which_set and_exp)

lemma same_cpu: "(a::nat) div 64 = b div 64 \<and> a mod 64 = b mod 64 \<longleftrightarrow> a = b"
  by (metis div_mult_mod_eq)

lemma isset_set:
  assumes "cpuset_ok s" "a < CPU_SETSIZE" "b < CPU_SETSIZE"
  shows "CPU_ISSET a (CPU_SET b s) \<longleftrightarrow> a = b \<or> CPU_ISSET a s"
  using which_set_less [OF assms(2,1)] which_set_less [OF assms(3,1)] same_cpu [of a b]
  by (auto simp: isset_bit CPU_SET_def which_bit which_set nth_list_update bit_simps)

lemma isset_clr:
  assumes "cpuset_ok s" "a < CPU_SETSIZE" "b < CPU_SETSIZE"
  shows "CPU_ISSET a (CPU_CLR b s) \<longleftrightarrow> a \<noteq> b \<and> CPU_ISSET a s"
  using which_set_less [OF assms(2,1)] which_set_less [OF assms(3,1)] same_cpu [of a b]
  by (auto simp: isset_bit CPU_CLR_def which_bit which_set nth_list_update bit_simps)

lemma cpuset_ok_set: "cpuset_ok s \<Longrightarrow> cpuset_ok (CPU_SET b s)"
  and cpuset_ok_clr: "cpuset_ok s \<Longrightarrow> cpuset_ok (CPU_CLR b s)"
  by (simp_all add: cpuset_ok_def CPU_SET_def CPU_CLR_def)

text \<open>Every loop over the masks writes each of them once.\<close>

lemma mask_loop: "cpuset_ok s \<Longrightarrow> fold (\<lambda>i t. t[i := f i]) [0..<NUM_SETS CPU_SETSIZE] s = map f [0..<2]"
  by (cases s; cases "tl s") (auto simp: cpuset_ok_def upt_rec)

lemma mask_loop_isset:
  assumes "cpuset_ok s" "b < CPU_SETSIZE"
  shows "CPU_ISSET b (fold (\<lambda>i t. t[i := f i]) [0..<NUM_SETS CPU_SETSIZE] s) = bit (f (b div 64)) (b mod 64)"
proof -
  have "b div 64 < 2" using assms(2) by (simp add: CPU_SETSIZE_def)
  then show ?thesis unfolding mask_loop [OF assms(1)] isset_bit by (simp del: upt_Suc)
qed

text \<open>The numbers below \<^verbatim>\<open>CPU_SETSIZE\<close> are the values of a 7-bit word.\<close>

lemma cpu_number [simp]: "unat (b :: 7 word) < CPU_SETSIZE"
  using unsigned_less [of b, where ?'a = nat] by (simp add: CPU_SETSIZE_def)

interpretation cpuset: set_impl "CPU_ZERO [0, 0]" "\<lambda>b::7 word. CPU_SET (unat b)" "\<lambda>b. CPU_CLR (unat b)"
    "\<lambda>b. CPU_ISSET (unat b)" "\<lambda>b s. True" cpuset_ok
proof unfold_locales
  show "cpuset_ok (CPU_ZERO [0, 0])" by (simp add: cpuset_ok_def CPU_ZERO_def upt_rec)
  show "\<not> CPU_ISSET (unat b) (CPU_ZERO [0, 0])" for b :: "7 word"
    using mask_loop_isset [of "[0, 0]" "unat b" "\<lambda>i. 0"] by (simp add: CPU_ZERO_def cpuset_ok_def)
qed (simp_all add: cpuset_ok_set cpuset_ok_clr isset_set isset_clr word_unat_eq_iff)

section \<open>Properties\<close>

text \<open>
  C33. The macros on whole sets compute the set operations: for every processor, \<^verbatim>\<open>CPU_AND\<close> is the
  intersection, \<^verbatim>\<open>CPU_OR\<close> the union, \<^verbatim>\<open>CPU_NOT\<close> the complement, \<^verbatim>\<open>CPU_ZERO\<close> the empty and \<^verbatim>\<open>CPU_FILL\<close> the full
  set, whatever the destination held.
\<close>

theorem cpuset_operations:
  assumes "cpuset_ok dst" "b < CPU_SETSIZE"
  shows "(CPU_ISSET b (CPU_AND dst s t) \<longleftrightarrow> CPU_ISSET b s \<and> CPU_ISSET b t) \<and>
         (CPU_ISSET b (CPU_OR dst s t) \<longleftrightarrow> CPU_ISSET b s \<or> CPU_ISSET b t) \<and>
         (CPU_ISSET b (CPU_NOT dst s) \<longleftrightarrow> \<not> CPU_ISSET b s) \<and>
         \<not> CPU_ISSET b (CPU_ZERO dst) \<and> CPU_ISSET b (CPU_FILL dst)"
  unfolding CPU_AND_def CPU_OR_def CPU_NOT_def CPU_ZERO_def CPU_FILL_def mask_loop_isset [OF assms]
  by (simp add: isset_bit bit_simps)

theorem cpuset_operations_witness:
  "CPU_ISSET 70 (CPU_AND [0, 0] (CPU_SET 70 [1, 0]) (CPU_FILL [0, 0])) \<and> \<not> CPU_ISSET 70 (CPU_ZERO [3, 64])"
proof -
  have ok: "cpuset_ok [x, y]" for x y by (simp add: cpuset_ok_def)
  have cpu: "70 < CPU_SETSIZE" by (simp add: CPU_SETSIZE_def)
  show ?thesis
    using cpuset_operations [OF ok cpu, of 0 0 "CPU_SET 70 [1, 0]" "CPU_FILL [0, 0]"]
      cpuset_operations [OF ok cpu, of 3 64 "[0, 0]" "[0, 0]"] isset_set [OF ok cpu cpu, of 1 0]
    by blast
qed

lemma count_cpu_sum: "count_cpu s = of_bool (CPU_ISSET 0 s) + of_bool (CPU_ISSET 1 s)"
  by (simp add: count_cpu_def upt_rec)

lemma count_cpu_card: "count_cpu s = card {b. b < 2 \<and> CPU_ISSET b s}"
proof -
  have "{b. b < 2 \<and> CPU_ISSET b s} = (if CPU_ISSET 0 s then {0} else {}) \<union> (if CPU_ISSET 1 s then {1} else {})"
    (is "?A = ?B")
  proof (rule set_eqI)
    show "b \<in> ?A \<longleftrightarrow> b \<in> ?B" for b by (cases "b = 0"; cases "b = 1") auto
  qed
  then show ?thesis by (simp add: count_cpu_sum)
qed

text \<open>
  \<^verbatim>\<open>CPU_COUNT\<close> tests one processor per mask instead of one per bit: it returns the number of members
  exactly when the set contains no processor other than 0 and 1.
\<close>

theorem cpu_count_correct_iff:
  "count_cpu s = card {b. b < CPU_SETSIZE \<and> CPU_ISSET b s} \<longleftrightarrow> (\<forall>b. 2 \<le> b \<and> b < CPU_SETSIZE \<longrightarrow> \<not> CPU_ISSET b s)"
proof -
  let ?few = "{b. b < 2 \<and> CPU_ISSET b s}" and ?all = "{b. b < CPU_SETSIZE \<and> CPU_ISSET b s}"
  have sub: "?few \<subseteq> ?all" by (auto simp: CPU_SETSIZE_def)
  have fin: "finite ?all" by simp
  have "card ?few = card ?all \<longleftrightarrow> ?few = ?all"
    by (rule iffI, erule card_subset_eq [OF fin sub], erule arg_cong)
  also have "\<dots> \<longleftrightarrow> ?all \<subseteq> ?few" using sub by blast
  also have "\<dots> \<longleftrightarrow> (\<forall>b. 2 \<le> b \<and> b < CPU_SETSIZE \<longrightarrow> \<not> CPU_ISSET b s)"
    unfolding subset_iff mem_Collect_eq by (meson not_le)
  finally show ?thesis unfolding count_cpu_card .
qed

theorem cpu_count_correct_iff_witness:
  "count_cpu (CPU_SET 5 [0, 0]) \<noteq> card {b. b < CPU_SETSIZE \<and> CPU_ISSET b (CPU_SET 5 [0, 0])}"
proof -
  have cpu: "5 < CPU_SETSIZE" by (simp add: CPU_SETSIZE_def)
  have "CPU_ISSET 5 (CPU_SET 5 [0, 0])" by (simp add: isset_set [OF _ cpu cpu] cpuset_ok_def)
  then have "\<not> (\<forall>b. 2 \<le> b \<and> b < CPU_SETSIZE \<longrightarrow> \<not> CPU_ISSET b (CPU_SET 5 [0, 0]))"
    using cpu by (intro notI) (drule spec [of _ 5], simp)
  then show ?thesis unfolding cpu_count_correct_iff .
qed

end
