(* ===== verification/Pthread_Sync.thy ===== *)
theory Pthread_Sync
  imports Attributes Clock Cpuset
begin

text \<open>
  The rest of \<^verbatim>\<open>src/pthread.c\<close>: mutexes, spin locks, barriers and condition variables, cancellation, the
  processor affinity of a thread, thread-specific data and thread names.

  The Windows objects live in the world. A pointer is a number, \<open>0\<close> is NULL; a call that blocks is a
  function on the world it returns in.
\<close>

unbundle bit_operations_syntax

section \<open>The Windows functions\<close>

text \<open>The fields of \<^verbatim>\<open>pthread_mutex_t\<close>, and its static initialiser.\<close>

record pthread_mutex =
  mx_x :: int
  mx_y :: "int list"
  mx_z :: "int list"

definition PTHREAD_MUTEX_INITIALIZER :: pthread_mutex where
  "PTHREAD_MUTEX_INITIALIZER = \<lparr>mx_x = - 1, mx_y = [- 1, 0], mx_z = [0, 0, 4000]\<rparr>"

text \<open>
  \<open>pa_store\<close> copies a mutex to memory. The critical section, barrier and condition variable functions
  follow, then \<^verbatim>\<open>OpenThread\<close> (\<open>None\<close> is NULL), \<^verbatim>\<open>CloseHandle\<close>, \<^verbatim>\<open>SetThreadAffinityMask\<close>, the functions on
  thread-local storage, the two functions on thread descriptions (\<open>None\<close> when the library does not export
  them; the result of a call is \<open>False\<close> or \<open>None\<close> when it fails) and \<^verbatim>\<open>GetLastError\<close>.
\<close>

record 'w sync_api =
  pa_store :: "ptr \<Rightarrow> pthread_mutex \<Rightarrow> 'w \<Rightarrow> 'w"
  pa_cs_init_spin :: "ptr \<Rightarrow> int \<Rightarrow> 'w \<Rightarrow> 'w"
  pa_cs_delete :: "ptr \<Rightarrow> 'w \<Rightarrow> 'w"
  pa_cs_enter :: "ptr \<Rightarrow> 'w \<Rightarrow> 'w"
  pa_cs_try :: "ptr \<Rightarrow> 'w \<Rightarrow> bool \<times> 'w"
  pa_cs_leave :: "ptr \<Rightarrow> 'w \<Rightarrow> 'w"
  pa_barrier_init :: "ptr \<Rightarrow> int \<Rightarrow> int \<Rightarrow> 'w \<Rightarrow> 'w"
  pa_barrier_delete :: "ptr \<Rightarrow> 'w \<Rightarrow> 'w"
  pa_barrier_enter :: "ptr \<Rightarrow> 'w \<Rightarrow> bool \<times> 'w"
  pa_cv_init :: "ptr \<Rightarrow> 'w \<Rightarrow> 'w"
  pa_cv_wake :: "ptr \<Rightarrow> 'w \<Rightarrow> 'w"
  pa_cv_wake_all :: "ptr \<Rightarrow> 'w \<Rightarrow> 'w"
  pa_cv_sleep :: "ptr \<Rightarrow> ptr \<Rightarrow> int \<Rightarrow> 'w \<Rightarrow> bool \<times> 'w"
  pa_open_thread :: "int \<Rightarrow> nat \<Rightarrow> 'w \<Rightarrow> nat option \<times> 'w"
  pa_close :: "nat \<Rightarrow> 'w \<Rightarrow> 'w"
  pa_affinity :: "nat \<Rightarrow> 64 word \<Rightarrow> 'w \<Rightarrow> 64 word \<times> 'w"
  pa_tls_alloc :: "'w \<Rightarrow> nat option \<times> 'w"
  pa_tls_free :: "nat \<Rightarrow> 'w \<Rightarrow> bool \<times> 'w"
  pa_tls_get :: "nat \<Rightarrow> 'w \<Rightarrow> ptr"
  pa_tls_set :: "nat \<Rightarrow> ptr \<Rightarrow> 'w \<Rightarrow> bool \<times> 'w"
  pa_set_desc :: "(nat \<Rightarrow> 16 word list \<Rightarrow> 'w \<Rightarrow> bool \<times> 'w) option"
  pa_get_desc :: "(nat \<Rightarrow> 'w \<Rightarrow> 16 word list option \<times> 'w) option"
  pa_last_error :: "'w \<Rightarrow> win_error"

definition os_void :: "('w \<Rightarrow> 'w) \<Rightarrow> ('w, 'z) sys_scheme \<Rightarrow> ('w, 'z) sys_scheme" where
  "os_void f s = s\<lparr>world := f (world s)\<rparr>"

text \<open>\<^verbatim>\<open>wpdk_last_error\<close> followed by a return of \<^verbatim>\<open>errno\<close>.\<close>

definition errno_result :: "'w sync_api \<Rightarrow> ('w, 'z) sys_scheme \<Rightarrow> int \<times> ('w, 'z) sys_scheme" where
  "errno_result api s = (let (_, s1) = wpdk_last_error (pa_last_error api) s in (errno s1, s1))"

section \<open>Mutexes and spin locks\<close>

definition wpdk_pthread_mutex_init ::
  "'w sync_api \<Rightarrow> ptr \<Rightarrow> pthread_mutexattr option \<Rightarrow> ('w, 'z) sys_scheme \<Rightarrow> int \<times> ('w, 'z) sys_scheme" where
  "wpdk_pthread_mutex_init api mutex mutexattr s =
     (if mutex = 0 then (EINVAL, s) else (0, os_void (pa_store api mutex PTHREAD_MUTEX_INITIALIZER) s))"

definition wpdk_pthread_mutex_destroy :: "'w sync_api \<Rightarrow> ptr \<Rightarrow> ('w, 'z) sys_scheme \<Rightarrow> int \<times> ('w, 'z) sys_scheme" where
  "wpdk_pthread_mutex_destroy api mutex s = (if mutex = 0 then (EINVAL, s) else (0, os_void (pa_cs_delete api mutex) s))"

definition wpdk_pthread_mutex_lock :: "'w sync_api \<Rightarrow> ptr \<Rightarrow> ('w, 'z) sys_scheme \<Rightarrow> int \<times> ('w, 'z) sys_scheme" where
  "wpdk_pthread_mutex_lock api mutex s = (if mutex = 0 then (EINVAL, s) else (0, os_void (pa_cs_enter api mutex) s))"

definition wpdk_pthread_mutex_trylock :: "'w sync_api \<Rightarrow> ptr \<Rightarrow> ('w, 'z) sys_scheme \<Rightarrow> int \<times> ('w, 'z) sys_scheme" where
  "wpdk_pthread_mutex_trylock api mutex s =
     (if mutex = 0 then (EINVAL, s)
      else let (ok, s1) = os_call (pa_cs_try api mutex) s in (if \<not> ok then EBUSY else 0, s1))"

definition wpdk_pthread_mutex_unlock :: "'w sync_api \<Rightarrow> ptr \<Rightarrow> ('w, 'z) sys_scheme \<Rightarrow> int \<times> ('w, 'z) sys_scheme" where
  "wpdk_pthread_mutex_unlock api mutex s = (if mutex = 0 then (EINVAL, s) else (0, os_void (pa_cs_leave api mutex) s))"

definition wpdk_pthread_mutex_consistent :: "ptr \<Rightarrow> int" where
  "wpdk_pthread_mutex_consistent mutex = EINVAL"

definition wpdk_pthread_spin_init ::
  "'w sync_api \<Rightarrow> ptr \<Rightarrow> int \<Rightarrow> ('w, 'z) sys_scheme \<Rightarrow> int \<times> ('w, 'z) sys_scheme" where
  "wpdk_pthread_spin_init api lock pshared s =
     (if lock = 0 then (EINVAL, s)
      else if pshared \<noteq> PTHREAD_PROCESS_PRIVATE \<and> pshared \<noteq> PTHREAD_PROCESS_SHARED then (EINVAL, s)
      else (0, os_void (pa_cs_init_spin api lock 32000) s))"

definition wpdk_pthread_spin_destroy :: "'w sync_api \<Rightarrow> ptr \<Rightarrow> ('w, 'z) sys_scheme \<Rightarrow> int \<times> ('w, 'z) sys_scheme" where
  "wpdk_pthread_spin_destroy api lock s = (if lock = 0 then (EINVAL, s) else (0, os_void (pa_cs_delete api lock) s))"

definition wpdk_pthread_spin_lock :: "'w sync_api \<Rightarrow> ptr \<Rightarrow> ('w, 'z) sys_scheme \<Rightarrow> int \<times> ('w, 'z) sys_scheme" where
  "wpdk_pthread_spin_lock api lock s = (if lock = 0 then (EINVAL, s) else (0, os_void (pa_cs_enter api lock) s))"

definition wpdk_pthread_spin_trylock :: "'w sync_api \<Rightarrow> ptr \<Rightarrow> ('w, 'z) sys_scheme \<Rightarrow> int \<times> ('w, 'z) sys_scheme" where
  "wpdk_pthread_spin_trylock api lock s =
     (if lock = 0 then (EINVAL, s)
      else let (ok, s1) = os_call (pa_cs_try api lock) s in (if \<not> ok then EBUSY else 0, s1))"

definition wpdk_pthread_spin_unlock :: "'w sync_api \<Rightarrow> ptr \<Rightarrow> ('w, 'z) sys_scheme \<Rightarrow> int \<times> ('w, 'z) sys_scheme" where
  "wpdk_pthread_spin_unlock api lock s = (if lock = 0 then (EINVAL, s) else (0, os_void (pa_cs_leave api lock) s))"

section \<open>Barriers and condition variables\<close>

definition PTHREAD_BARRIER_SERIAL_THREAD :: int where [errno_simps]: "PTHREAD_BARRIER_SERIAL_THREAD = 1"

text \<open>The count is an \<^verbatim>\<open>unsigned\<close>; \<^verbatim>\<open>InitializeSynchronizationBarrier\<close> takes a \<^verbatim>\<open>LONG\<close> and its result is ignored.\<close>

definition wpdk_pthread_barrier_init ::
  "'w sync_api \<Rightarrow> ptr \<Rightarrow> pthread_barrierattr option \<Rightarrow> int \<Rightarrow> ('w, 'z) sys_scheme \<Rightarrow> int \<times> ('w, 'z) sys_scheme" where
  "wpdk_pthread_barrier_init api barrier attr count s =
     (if barrier = 0 \<or> count = 0 then (EINVAL, s)
      else (0, os_void (pa_barrier_init api barrier (to_int32 count) (- 1)) s))"

definition wpdk_pthread_barrier_destroy :: "'w sync_api \<Rightarrow> ptr \<Rightarrow> ('w, 'z) sys_scheme \<Rightarrow> int \<times> ('w, 'z) sys_scheme" where
  "wpdk_pthread_barrier_destroy api barrier s =
     (if barrier = 0 then (EINVAL, s) else (0, os_void (pa_barrier_delete api barrier) s))"

definition wpdk_pthread_barrier_wait :: "'w sync_api \<Rightarrow> ptr \<Rightarrow> ('w, 'z) sys_scheme \<Rightarrow> int \<times> ('w, 'z) sys_scheme" where
  "wpdk_pthread_barrier_wait api barrier s =
     (if barrier = 0 then (EINVAL, s)
      else let (last, s1) = os_call (pa_barrier_enter api barrier) s
           in (if last then PTHREAD_BARRIER_SERIAL_THREAD else 0, s1))"

definition wpdk_pthread_cond_init ::
  "'w sync_api \<Rightarrow> ptr \<Rightarrow> pthread_condattr option \<Rightarrow> ('w, 'z) sys_scheme \<Rightarrow> int \<times> ('w, 'z) sys_scheme" where
  "wpdk_pthread_cond_init api cond attr s = (if cond = 0 then (EINVAL, s) else (0, os_void (pa_cv_init api cond) s))"

definition wpdk_pthread_cond_destroy :: "ptr \<Rightarrow> int" where
  "wpdk_pthread_cond_destroy cond = (if cond = 0 then EINVAL else 0)"

definition wpdk_pthread_cond_signal :: "'w sync_api \<Rightarrow> ptr \<Rightarrow> ('w, 'z) sys_scheme \<Rightarrow> int \<times> ('w, 'z) sys_scheme" where
  "wpdk_pthread_cond_signal api cond s = (if cond = 0 then (EINVAL, s) else (0, os_void (pa_cv_wake api cond) s))"

definition wpdk_pthread_cond_broadcast :: "'w sync_api \<Rightarrow> ptr \<Rightarrow> ('w, 'z) sys_scheme \<Rightarrow> int \<times> ('w, 'z) sys_scheme" where
  "wpdk_pthread_cond_broadcast api cond s = (if cond = 0 then (EINVAL, s) else (0, os_void (pa_cv_wake_all api cond) s))"

definition wpdk_cond_wait ::
  "'w sync_api \<Rightarrow> ptr \<Rightarrow> ptr \<Rightarrow> int \<Rightarrow> ('w, 'z) sys_scheme \<Rightarrow> int \<times> ('w, 'z) sys_scheme" where
  "wpdk_cond_wait api cond mutex msecs s =
     (if cond = 0 \<or> mutex = 0 then (EINVAL, s)
      else let (ok, s1) = os_call (pa_cv_sleep api cond mutex msecs) s
           in if ok then (0, s1)
              else if pa_last_error api (world s1) = Werr5 ERROR_TIMEOUT then (ETIMEDOUT, s1)
              else (0, s1))"

definition wpdk_pthread_cond_wait :: "'w sync_api \<Rightarrow> ptr \<Rightarrow> ptr \<Rightarrow> ('w, 'z) sys_scheme \<Rightarrow> int \<times> ('w, 'z) sys_scheme" where
  "wpdk_pthread_cond_wait api cond mutex s = wpdk_cond_wait api cond mutex INFINITE s"

text \<open>There is no timeout after a fault in the conversion of the time.\<close>

definition wpdk_pthread_cond_timedwait ::
  "'w sync_api \<Rightarrow> 'w clock_api \<Rightarrow> ptr \<Rightarrow> ptr \<Rightarrow> timespec option \<Rightarrow> ('w, 'z) clock_sys_scheme
    \<Rightarrow> int \<times> ('w, 'z) clock_sys_scheme" where
  "wpdk_pthread_cond_timedwait api clk cond mutex abstime s =
     (case wpdk_abstime_to_msecs clk abstime s of
        (rc, msecs, s1) \<Rightarrow>
          if rc = - 1 then (errno s1, s1)
          else (case msecs of None \<Rightarrow> (0, s1) | Some msecs \<Rightarrow> wpdk_cond_wait api cond mutex msecs s1))"

section \<open>Cancellation\<close>

definition PTHREAD_CANCEL_DISABLE :: int where [errno_simps]: "PTHREAD_CANCEL_DISABLE = 0"
definition PTHREAD_CANCEL_ENABLE :: int where [errno_simps]: "PTHREAD_CANCEL_ENABLE = 1"
definition PTHREAD_CANCEL_DEFERRED :: int where [errno_simps]: "PTHREAD_CANCEL_DEFERRED = 0"
definition PTHREAD_CANCEL_ASYNCHRONOUS :: int where [errno_simps]: "PTHREAD_CANCEL_ASYNCHRONOUS = 1"

definition wpdk_pthread_cancel :: "nat \<Rightarrow> int" where
  "wpdk_pthread_cancel thread = (if thread = 0 then EINVAL else ENOSYS)"

definition wpdk_pthread_setcancelstate :: "int \<Rightarrow> bool \<Rightarrow> int \<times> int option" where
  "wpdk_pthread_setcancelstate state oldstate =
     (if \<not> oldstate then (EINVAL, None)
      else if state = PTHREAD_CANCEL_ENABLE then (0, Some PTHREAD_CANCEL_DISABLE)
      else if state = PTHREAD_CANCEL_DISABLE then (0, Some PTHREAD_CANCEL_DISABLE)
      else (EINVAL, None))"

definition wpdk_pthread_setcanceltype :: "int \<Rightarrow> bool \<Rightarrow> int \<times> int option" where
  "wpdk_pthread_setcanceltype type oldtype =
     (if \<not> oldtype then (EINVAL, None)
      else if type = PTHREAD_CANCEL_DEFERRED \<or> type = PTHREAD_CANCEL_ASYNCHRONOUS
      then (0, Some PTHREAD_CANCEL_DEFERRED)
      else (EINVAL, None))"

section \<open>Affinity\<close>

text \<open>The access rights of \<^verbatim>\<open>winnt.h\<close>.\<close>

definition THREAD_SET_INFORMATION :: int where "THREAD_SET_INFORMATION = 0x20"
definition THREAD_QUERY_INFORMATION :: int where "THREAD_QUERY_INFORMATION = 0x40"
definition THREAD_SET_LIMITED_INFORMATION :: int where "THREAD_SET_LIMITED_INFORMATION = 0x400"
definition THREAD_QUERY_LIMITED_INFORMATION :: int where "THREAD_QUERY_LIMITED_INFORMATION = 0x800"

definition wpdk_pthread_setaffinity_np ::
  "'w sync_api \<Rightarrow> nat \<Rightarrow> nat \<Rightarrow> cpuset option \<Rightarrow> ('w, 'z) sys_scheme \<Rightarrow> int \<times> ('w, 'z) sys_scheme" where
  "wpdk_pthread_setaffinity_np api thread cpusetsize cpuset s =
     (case cpuset of
        None \<Rightarrow> (EINVAL, s)
      | Some bits \<Rightarrow>
          if thread = 0 \<or> cpusetsize < 8 then (EINVAL, s)
          else (case os_call (pa_open_thread api (THREAD_SET_INFORMATION OR THREAD_QUERY_INFORMATION) thread) s of
                  (None, s1) \<Rightarrow> errno_result api s1
                | (Some h, s1) \<Rightarrow>
                    (let (affinity, s2) = os_call (pa_affinity api h (bits ! 0)) s1;
                         (error, s3) = wpdk_last_error (pa_last_error api) s2;
                         s4 = os_void (pa_close api h) s3
                     in (if affinity \<noteq> 0 then 0 else error, s4))))"

lemma temporary_mask_zero: "push_bit k (1 :: 64 word) = 0 \<longleftrightarrow> 64 \<le> k"
  by (simp add: push_bit_eq_mult exp_eq_zero_iff)

text \<open>
  The loop over the temporary masks, of which the \<open>k\<close>th is \<open>1 << k\<close>: the first that Windows accepts
  yields the previous mask, which is put back. The result is \<open>0\<close> when none is accepted.
\<close>

function affinity_loop ::
  "'w sync_api \<Rightarrow> nat \<Rightarrow> nat \<Rightarrow> ('w, 'z) sys_scheme \<Rightarrow> 64 word \<times> ('w, 'z) sys_scheme" where
  "affinity_loop api h k s =
     (if push_bit k (1 :: 64 word) = 0 then (0, s)
      else let (affinity, s1) = os_call (pa_affinity api h (push_bit k 1)) s
           in if affinity \<noteq> 0 then (affinity, snd (os_call (pa_affinity api h affinity) s1))
              else affinity_loop api h (Suc k) s1)"
  by pat_completeness auto

termination
  by (relation "measure (\<lambda>(api, h, k, s). 64 - k)") (auto simp: temporary_mask_zero)

text \<open>\<^verbatim>\<open>memset\<close> of the first \<open>n\<close> bytes of an array of little-endian words; past its end it is a fault.\<close>

definition zero_bytes :: "nat \<Rightarrow> cpuset \<Rightarrow> cpuset" where
  "zero_bytes n bits = map (\<lambda>i. bits ! i AND NOT (mask (8 * min 8 (n - 8 * i)))) [0..<length bits]"

definition wpdk_pthread_getaffinity_np ::
  "'w sync_api \<Rightarrow> nat \<Rightarrow> nat \<Rightarrow> cpuset option \<Rightarrow> ('w, 'z) sys_scheme
    \<Rightarrow> int \<times> cpuset option \<times> ('w, 'z) sys_scheme" where
  "wpdk_pthread_getaffinity_np api thread cpusetsize cpuset s =
     (case cpuset of
        None \<Rightarrow> (EINVAL, cpuset, s)
      | Some bits \<Rightarrow>
          if thread = 0 \<or> cpusetsize < 8 then (EINVAL, cpuset, s)
          else (case os_call (pa_open_thread api (THREAD_SET_INFORMATION OR THREAD_QUERY_INFORMATION) thread) s of
                  (None, s1) \<Rightarrow> (let (rc, s2) = errno_result api s1 in (rc, cpuset, s2))
                | (Some h, s1) \<Rightarrow>
                    (let (affinity, s2) = affinity_loop api h 0 s1
                     in if affinity \<noteq> 0
                        then (let s3 = os_void (pa_close api h) s2;
                                  s4 = (if 8 * length bits < cpusetsize then set_fault s3 else s3)
                              in (0, Some ((zero_bytes cpusetsize bits)[0 := affinity]), s4))
                        else (let (error, s3) = wpdk_last_error (pa_last_error api) s2
                              in (error, cpuset, os_void (pa_close api h) s3)))))"

definition wpdk_pthread_equal :: "nat \<Rightarrow> nat \<Rightarrow> bool" where
  "wpdk_pthread_equal t1 t2 = (t1 = t2)"

section \<open>Thread-specific data\<close>

text \<open>\<open>destructor\<close> tells whether there is one; the new key is returned with the result.\<close>

definition wpdk_pthread_key_create ::
  "'w sync_api \<Rightarrow> bool \<Rightarrow> bool \<Rightarrow> ('w, 'z) sys_scheme \<Rightarrow> int \<times> nat option \<times> ('w, 'z) sys_scheme" where
  "wpdk_pthread_key_create api key destructor s =
     (if \<not> key \<or> destructor then (EINVAL, None, s)
      else (case os_call (pa_tls_alloc api) s of
              (None, s1) \<Rightarrow> (let (rc, s2) = errno_result api s1 in (rc, None, s2))
            | (Some index, s1) \<Rightarrow> (0, Some index, s1)))"

definition wpdk_pthread_key_delete :: "'w sync_api \<Rightarrow> nat \<Rightarrow> ('w, 'z) sys_scheme \<Rightarrow> int \<times> ('w, 'z) sys_scheme" where
  "wpdk_pthread_key_delete api key s =
     (let (ok, s1) = os_call (pa_tls_free api key) s in if \<not> ok then errno_result api s1 else (0, s1))"

definition wpdk_pthread_getspecific :: "'w sync_api \<Rightarrow> nat \<Rightarrow> ('w, 'z) sys_scheme \<Rightarrow> ptr" where
  "wpdk_pthread_getspecific api key s = pa_tls_get api key (world s)"

definition wpdk_pthread_setspecific ::
  "'w sync_api \<Rightarrow> nat \<Rightarrow> ptr \<Rightarrow> ('w, 'z) sys_scheme \<Rightarrow> int \<times> ('w, 'z) sys_scheme" where
  "wpdk_pthread_setspecific api key value s =
     (let (ok, s1) = os_call (pa_tls_set api key value) s in if \<not> ok then errno_result api s1 else (0, s1))"

section \<open>Names\<close>

text \<open>
  The conversions between the signed \<^verbatim>\<open>char\<close> and the 16-bit \<^verbatim>\<open>WCHAR\<close>. A string is given without its
  terminator; the buffer of \<^verbatim>\<open>wpdk_pthread_getname_np\<close> is the list of its \<open>len\<close> characters. The release of the
  string that Windows returns (\<^verbatim>\<open>LocalFree\<close>) has no effect on what is modelled.
\<close>

definition wchar_of :: "char \<Rightarrow> 16 word" where
  "wchar_of c = word_of_int (sint (of_char c :: 8 word))"

definition char_of_wchar :: "16 word \<Rightarrow> char" where
  "char_of_wchar w = char_of (unat w)"

definition wpdk_pthread_setname_np ::
  "'w sync_api \<Rightarrow> nat \<Rightarrow> string option \<Rightarrow> ('w, 'z) sys_scheme \<Rightarrow> int \<times> ('w, 'z) sys_scheme" where
  "wpdk_pthread_setname_np api thread name s =
     (case name of
        None \<Rightarrow> (EINVAL, s)
      | Some name \<Rightarrow>
          if thread = 0 then (EINVAL, s)
          else (case pa_set_desc api of
                  None \<Rightarrow> (ENOSYS, s)
                | Some set_desc \<Rightarrow>
                    (let buf = map wchar_of (take 32 name)
                     in if length buf = 0 then (EINVAL, s)
                        else if length buf = 32 then (ERANGE, s)
                        else (case os_call (pa_open_thread api THREAD_SET_LIMITED_INFORMATION thread) s of
                                (None, s1) \<Rightarrow> errno_result api s1
                              | (Some h, s1) \<Rightarrow>
                                  (let (ok, s2) = os_call (set_desc h buf) s1
                                   in (if \<not> ok then EINVAL else 0, os_void (pa_close api h) s2))))))"

definition copy_name :: "16 word list \<Rightarrow> string \<Rightarrow> nat \<times> string" where
  "copy_name str name =
     (let i = min (length (takeWhile (\<lambda>w. w \<noteq> 0) str)) (length name);
          name1 = map char_of_wchar (take i str) @ drop i name
      in (i, if i < length name then name1[i := CHR 0x00] else name1))"

definition wpdk_pthread_getname_np ::
  "'w sync_api \<Rightarrow> nat \<Rightarrow> string option \<Rightarrow> ('w, 'z) sys_scheme \<Rightarrow> int \<times> string option \<times> ('w, 'z) sys_scheme" where
  "wpdk_pthread_getname_np api thread name s =
     (case name of
        None \<Rightarrow> (EINVAL, name, s)
      | Some buf \<Rightarrow>
          if thread = 0 \<or> length buf < 1 then (EINVAL, name, s)
          else (case pa_get_desc api of
                  None \<Rightarrow> (ENOSYS, name, s)
                | Some get_desc \<Rightarrow>
                    (case os_call (pa_open_thread api THREAD_QUERY_LIMITED_INFORMATION thread) s of
                       (None, s1) \<Rightarrow> (let (rc, s2) = errno_result api s1 in (rc, name, s2))
                     | (Some h, s1) \<Rightarrow>
                         (case os_call (get_desc h) s1 of
                            (None, s2) \<Rightarrow> (EINVAL, name, os_void (pa_close api h) s2)
                          | (Some str, s2) \<Rightarrow>
                              (let (i, buf1) = copy_name str buf
                               in (if i < length buf then 0 else ERANGE, Some buf1,
                                   os_void (pa_close api h) s2))))))"

definition wpdk_pthread_set_name_np ::
  "'w sync_api \<Rightarrow> nat \<Rightarrow> string option \<Rightarrow> ('w, 'z) sys_scheme \<Rightarrow> ('w, 'z) sys_scheme" where
  "wpdk_pthread_set_name_np api thread name s = snd (wpdk_pthread_setname_np api thread name s)"

definition wpdk_pthread_get_name_np ::
  "'w sync_api \<Rightarrow> nat \<Rightarrow> string option \<Rightarrow> ('w, 'z) sys_scheme \<Rightarrow> string option \<times> ('w, 'z) sys_scheme" where
  "wpdk_pthread_get_name_np api thread name s =
     (let (rc, name1, s1) = wpdk_pthread_getname_np api thread name s
      in (if rc \<noteq> 0 then map_option (\<lambda>buf. if 0 < length buf then buf[0 := CHR 0x00] else buf) name1 else name1, s1))"

section \<open>What Windows documents\<close>

text \<open>
  \<open>target w h\<close> is the thread of the handle \<open>h\<close> in the world \<open>w\<close>. \<^verbatim>\<open>OpenThread\<close> returns a handle of its thread,
  and neither it nor \<^verbatim>\<open>CloseHandle\<close> changes what \<open>obs\<close> observes of the threads.
\<close>

definition handle_contract :: "'w sync_api \<Rightarrow> ('w \<Rightarrow> nat \<Rightarrow> nat option) \<Rightarrow> ('w \<Rightarrow> nat \<Rightarrow> 'o) \<Rightarrow> bool" where
  "handle_contract api target obs \<longleftrightarrow>
     (\<forall>acc t w. obs (snd (pa_open_thread api acc t w)) = obs w) \<and>
     (\<forall>acc t w h. fst (pa_open_thread api acc t w) = Some h \<longrightarrow> target (snd (pa_open_thread api acc t w)) h = Some t) \<and>
     (\<forall>h w. obs (pa_close api h w) = obs w)"

text \<open>
  \<^verbatim>\<open>SetThreadAffinityMask\<close> returns the previous mask of the thread and installs the new one when it is
  \<open>allowed\<close> (not empty, and within the affinity of the process); otherwise it returns \<open>0\<close> and changes nothing.
\<close>

definition affinity_contract ::
  "'w sync_api \<Rightarrow> ('w \<Rightarrow> nat \<Rightarrow> nat option) \<Rightarrow> ('w \<Rightarrow> nat \<Rightarrow> 64 word) \<Rightarrow> (64 word \<Rightarrow> bool) \<Rightarrow> bool" where
  "affinity_contract api target cur allowed \<longleftrightarrow>
     \<not> allowed 0 \<and>
     (\<forall>h m w. target (snd (pa_affinity api h m w)) = target w) \<and>
     (\<forall>h m w t. target w h = Some t \<and> allowed m \<longrightarrow>
        fst (pa_affinity api h m w) = cur w t \<and> cur (snd (pa_affinity api h m w)) = (cur w)(t := m)) \<and>
     (\<forall>h m w. \<not> allowed m \<longrightarrow> fst (pa_affinity api h m w) = 0 \<and> cur (snd (pa_affinity api h m w)) = cur w)"

text \<open>\<^verbatim>\<open>GetThreadDescription\<close> returns the description that \<^verbatim>\<open>SetThreadDescription\<close> has stored.\<close>

definition description_contract ::
  "'w sync_api \<Rightarrow> ('w \<Rightarrow> nat \<Rightarrow> nat option) \<Rightarrow> ('w \<Rightarrow> nat \<Rightarrow> 16 word list) \<Rightarrow> bool" where
  "description_contract api target desc \<longleftrightarrow>
     (\<exists>set_desc get_desc. pa_set_desc api = Some set_desc \<and> pa_get_desc api = Some get_desc \<and>
        (\<forall>h b w t. target w h = Some t \<longrightarrow> fst (set_desc h b w) \<and> desc (snd (set_desc h b w)) = (desc w)(t := b)) \<and>
        (\<forall>h w t. target w h = Some t \<longrightarrow> fst (get_desc h w) = Some (desc w t)))"

section \<open>Properties\<close>

lemmas [simp del] = affinity_loop.simps

lemma fst_last_error [simp]: "fst (wpdk_last_error gle s) = - 1"
  and world_last_error [simp]: "world (snd (wpdk_last_error gle s)) = world s"
  by (simp_all add: wpdk_last_error_def Let_def set_errno_def split_beta wpdk_posix_error_def)

lemma world_os_void [simp]: "world (os_void f s) = f (world s)"
  by (simp add: os_void_def)

lemma affinity_loop_correct:
  assumes api: "affinity_contract api target cur allowed"
    and "k \<le> j" "j < 64" "allowed (push_bit j 1)"
    and "target (world s) h = Some t" "allowed (cur (world s) t)"
  shows "fst (affinity_loop api h k s) = cur (world s) t \<and> cur (world (snd (affinity_loop api h k s))) = cur (world s)"
  using assms(2-)
proof (induction "j - k" arbitrary: k s rule: less_induct)
  case less
  let ?m = "push_bit k (1 :: 64 word)" and ?w = "world s"
  let ?r = "pa_affinity api h ?m ?w"
  have nz: "?m \<noteq> 0" using less.prems by (simp add: temporary_mask_zero)
  have cur_nz: "cur ?w t \<noteq> 0" using api less.prems(5) by (auto simp: affinity_contract_def)
  show ?case
  proof (cases "allowed ?m")
    case True
    then have r: "fst ?r = cur ?w t" "cur (snd ?r) = (cur ?w)(t := ?m)" "target (snd ?r) h = Some t"
      using api less.prems(4) by (auto simp: affinity_contract_def)
    have "cur (snd (pa_affinity api h (cur ?w t) (snd ?r))) = (cur (snd ?r))(t := cur ?w t)"
      using api r(3) less.prems(5) by (auto simp: affinity_contract_def)
    then show ?thesis using r nz cur_nz by (simp add: affinity_loop.simps [of api h k] os_call_eq)
  next
    case False
    then have r: "fst ?r = 0" "cur (snd ?r) = cur ?w" "target (snd ?r) = target ?w"
      using api by (auto simp: affinity_contract_def)
    have lt: "k < j" using False less.prems by (cases "k = j") auto
    have "fst (affinity_loop api h (Suc k) (s\<lparr>world := snd ?r\<rparr>)) = cur ?w t \<and>
        cur (world (snd (affinity_loop api h (Suc k) (s\<lparr>world := snd ?r\<rparr>)))) = cur ?w"
      using less.hyps [of "Suc k" "s\<lparr>world := snd ?r\<rparr>"] less.prems lt r by simp
    then show ?thesis using r nz by (simp add: affinity_loop.simps [of api h k] os_call_eq)
  qed
qed

lemma getaffinity_correct:
  assumes "handle_contract api target cur" "affinity_contract api target cur allowed"
    and "thread \<noteq> 0" "8 \<le> n" "bits \<noteq> []"
    and "fst (pa_open_thread api (THREAD_SET_INFORMATION OR THREAD_QUERY_INFORMATION) thread (world s)) = Some h"
    and "j < 64" "allowed (push_bit j 1)" "allowed (cur (world s) thread)"
  shows "\<exists>bits' s'. wpdk_pthread_getaffinity_np api thread n (Some bits) s = (0, Some bits', s') \<and>
    bits' = (zero_bytes n bits)[0 := cur (world s) thread] \<and> cur (world s') = cur (world s)"
proof -
  let ?o = "pa_open_thread api (THREAD_SET_INFORMATION OR THREAD_QUERY_INFORMATION) thread (world s)"
  let ?s = "s\<lparr>world := snd ?o\<rparr>"
  have o: "target (snd ?o) h = Some thread" "cur (snd ?o) = cur (world s)" "\<And>h w. cur (pa_close api h w) = cur w"
    using assms(1,6) by (auto simp: handle_contract_def)
  have loop: "fst (affinity_loop api h 0 ?s) = cur (world s) thread"
      "cur (world (snd (affinity_loop api h 0 ?s))) = cur (world s)"
    using affinity_loop_correct [OF assms(2), of 0 j ?s h thread] assms(7-9) o by simp_all
  have nz: "cur (world s) thread \<noteq> 0" using assms(2,9) by (auto simp: affinity_contract_def)
  show ?thesis using assms(3-6) loop nz o(3)
    by (simp add: wpdk_pthread_getaffinity_np_def os_call_eq split_beta Let_def set_fault_def)
qed

lemma setaffinity_correct:
  assumes "handle_contract api target cur" "affinity_contract api target cur allowed"
    and "thread \<noteq> 0" "8 \<le> n"
    and "fst (pa_open_thread api (THREAD_SET_INFORMATION OR THREAD_QUERY_INFORMATION) thread (world s)) = Some h"
    and "cur (world s) thread \<noteq> 0" "allowed (bits ! 0)"
  shows "\<exists>s'. wpdk_pthread_setaffinity_np api thread n (Some bits) s = (0, s') \<and>
    cur (world s') = (cur (world s))(thread := bits ! 0)"
proof -
  let ?o = "pa_open_thread api (THREAD_SET_INFORMATION OR THREAD_QUERY_INFORMATION) thread (world s)"
  have o: "target (snd ?o) h = Some thread" "cur (snd ?o) = cur (world s)" "\<And>h w. cur (pa_close api h w) = cur w"
    using assms(1,5) by (auto simp: handle_contract_def)
  have "fst (pa_affinity api h (bits ! 0) (snd ?o)) = cur (world s) thread"
      "cur (snd (pa_affinity api h (bits ! 0) (snd ?o))) = (cur (world s))(thread := bits ! 0)"
    using assms(2,7) o(1,2) by (simp_all add: affinity_contract_def)
  then show ?thesis using assms(3-6) o(3)
    by (simp add: wpdk_pthread_setaffinity_np_def os_call_eq split_beta Let_def)
qed

text \<open>
  C34. The affinity of a thread can be read although Windows has no function for it: after an allowed
  mask has been set, \<^verbatim>\<open>wpdk_pthread_getaffinity_np\<close> succeeds, returns that mask and leaves the affinity of every
  thread as it found it, provided that some single processor is allowed and the thread can be opened.
\<close>

theorem affinity_roundtrip:
  assumes "handle_contract api target cur" "affinity_contract api target cur allowed"
    and "\<forall>acc w. \<exists>h. fst (pa_open_thread api acc thread w) = Some h"
    and "thread \<noteq> 0" "8 \<le> n" "8 \<le> n'" "bits' \<noteq> []"
    and "cur (world s) thread \<noteq> 0" "allowed (bits ! 0)" "j < 64" "allowed (push_bit j 1)"
  shows "\<exists>s1 s2 out. wpdk_pthread_setaffinity_np api thread n (Some bits) s = (0, s1) \<and>
    wpdk_pthread_getaffinity_np api thread n' (Some bits') s1 = (0, Some out, s2) \<and>
    out ! 0 = bits ! 0 \<and> cur (world s1) = (cur (world s))(thread := bits ! 0) \<and> cur (world s2) = cur (world s1)"
proof -
  obtain h where h: "fst (pa_open_thread api (THREAD_SET_INFORMATION OR THREAD_QUERY_INFORMATION) thread (world s)) = Some h"
    using assms(3) by blast
  obtain s1 where s1: "wpdk_pthread_setaffinity_np api thread n (Some bits) s = (0, s1)"
      "cur (world s1) = (cur (world s))(thread := bits ! 0)"
    using setaffinity_correct [OF assms(1,2,4,5) h assms(8,9)] by blast
  obtain h1 where h1: "fst (pa_open_thread api (THREAD_SET_INFORMATION OR THREAD_QUERY_INFORMATION) thread (world s1)) = Some h1"
    using assms(3) by blast
  have "allowed (cur (world s1) thread)" using assms(9) s1(2) by simp
  then obtain s2 where s2: "wpdk_pthread_getaffinity_np api thread n' (Some bits') s1
        = (0, Some ((zero_bytes n' bits')[0 := cur (world s1) thread]), s2)" "cur (world s2) = cur (world s1)"
    using getaffinity_correct [OF assms(1,2,4,6,7) h1 assms(10,11)] by blast
  have "(zero_bytes n' bits')[0 := cur (world s1) thread] ! 0 = bits ! 0"
    using s1(2) assms(7) by (simp add: zero_bytes_def)
  with s1 s2 show ?thesis by blast
qed

text \<open>Windows with threads that are their own handles; a mask is allowed when it names some of the processors 4 to 7.\<close>

definition demo_allowed :: "64 word \<Rightarrow> bool" where
  "demo_allowed m = (m \<noteq> 0 \<and> m AND NOT 0xF0 = 0)"

definition demo_api :: "((nat \<Rightarrow> 64 word) \<times> (nat \<Rightarrow> 16 word list)) sync_api" where
  "demo_api = \<lparr>pa_store = \<lambda>_ _ w. w, pa_cs_init_spin = \<lambda>_ _ w. w, pa_cs_delete = \<lambda>_ w. w, pa_cs_enter = \<lambda>_ w. w,
     pa_cs_try = \<lambda>_ w. (True, w), pa_cs_leave = \<lambda>_ w. w, pa_barrier_init = \<lambda>_ _ _ w. w, pa_barrier_delete = \<lambda>_ w. w,
     pa_barrier_enter = \<lambda>_ w. (True, w), pa_cv_init = \<lambda>_ w. w, pa_cv_wake = \<lambda>_ w. w, pa_cv_wake_all = \<lambda>_ w. w,
     pa_cv_sleep = \<lambda>_ _ _ w. (True, w), pa_open_thread = \<lambda>_ t w. (Some t, w), pa_close = \<lambda>_ w. w,
     pa_affinity = \<lambda>h m w. if demo_allowed m then (fst w h, ((fst w)(h := m), snd w)) else (0, w),
     pa_tls_alloc = \<lambda>w. (None, w), pa_tls_free = \<lambda>_ w. (True, w), pa_tls_get = \<lambda>_ _. 0, pa_tls_set = \<lambda>_ _ w. (True, w),
     pa_set_desc = Some (\<lambda>h b w. (True, (fst w, (snd w)(h := b)))), pa_get_desc = Some (\<lambda>h w. (Some (snd w h), w)),
     pa_last_error = \<lambda>_. Werr1 ERROR_SUCCESS\<rparr>"

definition demo_sys :: "((nat \<Rightarrow> 64 word) \<times> (nat \<Rightarrow> 16 word list)) sys" where
  "demo_sys = \<lparr>errno = 0, fault = False, world = (\<lambda>_. 0xF0, \<lambda>_. [])\<rparr>"

theorem affinity_roundtrip_witness:
  "\<exists>s1 s2 out. wpdk_pthread_setaffinity_np demo_api 3 16 (Some [0x30, 0]) demo_sys = (0, s1) \<and>
    wpdk_pthread_getaffinity_np demo_api 3 16 (Some [7, 7]) s1 = (0, Some out, s2) \<and> out ! 0 = 0x30 \<and>
    fst (world s2) = (\<lambda>_. 0xF0)(3 := 0x30)"
proof -
  have "handle_contract demo_api (\<lambda>w h. Some h) fst" "affinity_contract demo_api (\<lambda>w h. Some h) fst demo_allowed"
    by (simp_all add: handle_contract_def affinity_contract_def demo_api_def demo_allowed_def)
  moreover have "demo_allowed (push_bit 4 1)" "demo_allowed ([0x30, 0] ! 0)" "fst (world demo_sys) 3 \<noteq> 0"
      "\<forall>acc w. \<exists>h. fst (pa_open_thread demo_api acc 3 w) = Some h"
    by (simp_all add: demo_allowed_def demo_sys_def demo_api_def)
  ultimately show ?thesis
    using affinity_roundtrip [of demo_api "\<lambda>w h. Some h" fst demo_allowed 3 16 16 "[7, 7]" demo_sys "[0x30, 0]" 4]
    by (auto simp: demo_sys_def)
qed

text \<open>An affinity that Windows refuses is reported as \<open>-1\<close> and not as an error number.\<close>

lemma setaffinity_refused:
  assumes "affinity_contract api target cur allowed" "thread \<noteq> 0" "8 \<le> n" "\<not> allowed (bits ! 0)"
    and "fst (pa_open_thread api (THREAD_SET_INFORMATION OR THREAD_QUERY_INFORMATION) thread (world s)) = Some h"
  shows "fst (wpdk_pthread_setaffinity_np api thread n (Some bits) s) = - 1"
  using assms by (simp add: wpdk_pthread_setaffinity_np_def affinity_contract_def os_call_eq split_beta Let_def)

text \<open>A wait that fails for another reason than its timeout is reported as a success.\<close>

lemma cond_wait_failure_ignored:
  assumes "cond \<noteq> 0" "mutex \<noteq> 0" "pa_cv_sleep api cond mutex msecs (world s) = (False, w)"
    and "pa_last_error api w \<noteq> Werr5 ERROR_TIMEOUT"
  shows "wpdk_cond_wait api cond mutex msecs s = (0, s\<lparr>world := w\<rparr>)"
  using assms by (simp add: wpdk_cond_wait_def os_call_eq)

lemma cond_wait_timeout:
  assumes "cond \<noteq> 0" "mutex \<noteq> 0" "pa_cv_sleep api cond mutex msecs (world s) = (False, w)"
    and "pa_last_error api w = Werr5 ERROR_TIMEOUT"
  shows "wpdk_cond_wait api cond mutex msecs s = (ETIMEDOUT, s\<lparr>world := w\<rparr>)"
  using assms by (simp add: wpdk_cond_wait_def os_call_eq)

subsection \<open>Names\<close>

lemma unat_of_char: "unat (of_char c :: 8 word) = of_char c"
proof -
  have "unat (of_nat (of_char c) :: 8 word) = of_char c"
    using nat_of_char_less_256 [of c] by (simp add: unat_of_nat take_bit_nat_eq_self)
  then show ?thesis by (simp only: of_nat_of_char)
qed

lemma low_byte: "take_bit 8 (unat (word_of_int (sint w) :: 16 word)) = unat (w :: 8 word)"
proof (rule bit_eqI)
  fix n
  show "bit (take_bit 8 (unat (word_of_int (sint w) :: 16 word))) n = bit (unat w) n"
  proof (cases "n < 8")
    case True
    then have "min 7 n = n" by simp
    with True show ?thesis by (simp add: bit_simps)
  next
    case False
    then have "\<not> bit w n" using bit_imp_le_length [of w n] by auto
    with False show ?thesis by (simp add: bit_simps)
  qed
qed

lemma char_wchar_roundtrip [simp]: "char_of_wchar (wchar_of c) = c"
proof -
  have "take_bit 8 (unat (wchar_of c)) = unat (of_char c :: 8 word)"
    by (simp only: wchar_of_def low_byte)
  then have "char_of (unat (wchar_of c)) = (char_of (of_char c :: nat) :: char)"
    by (metis char_of_take_bit_eq le_refl unat_of_char)
  then show ?thesis by (simp add: char_of_wchar_def)
qed

lemma wchar_of_0 [simp]: "wchar_of c = 0 \<longleftrightarrow> c = CHR 0x00"
proof
  assume "wchar_of c = 0"
  then have "char_of_wchar (wchar_of c) = char_of_wchar 0" by simp
  then show "c = CHR 0x00" unfolding char_wchar_roundtrip by (simp add: char_of_wchar_def char_of_def)
qed (simp add: wchar_of_def)

lemma wide_name_length: "CHR 0x00 \<notin> set name \<Longrightarrow> length (takeWhile (\<lambda>w. w \<noteq> 0) (map wchar_of name)) = length name"
  by (induction name) auto

lemma map_char_wchar [simp]: "map (char_of_wchar \<circ> wchar_of) name = name"
  by (simp add: o_def)

lemma copy_name_fits:
  assumes "CHR 0x00 \<notin> set name" "length name < length buf"
  shows "copy_name (map wchar_of name) buf = (length name, name @ CHR 0x00 # drop (Suc (length name)) buf)"
proof -
  have "drop (length name) buf = buf ! length name # drop (Suc (length name)) buf"
    using assms(2) by (rule Cons_nth_drop_Suc [symmetric])
  then show ?thesis using assms(2)
    unfolding copy_name_def wide_name_length [OF assms(1)] by (simp add: Let_def)
qed

lemma copy_name_too_long:
  assumes "CHR 0x00 \<notin> set name" "length buf \<le> length name"
  shows "copy_name (map wchar_of name) buf = (length buf, take (length buf) name)"
  using assms(2) unfolding copy_name_def wide_name_length [OF assms(1)]
  by (simp add: Let_def take_map)

lemma setname_stores:
  assumes "handle_contract api target desc" "description_contract api target desc"
    and "fst (pa_open_thread api THREAD_SET_LIMITED_INFORMATION thread (world s)) = Some h"
    and "thread \<noteq> 0" "name \<noteq> []" "length name < 32"
  shows "\<exists>s'. wpdk_pthread_setname_np api thread (Some name) s = (0, s') \<and>
    desc (world s') = (desc (world s))(thread := map wchar_of name)"
proof -
  let ?w = "snd (pa_open_thread api THREAD_SET_LIMITED_INFORMATION thread (world s))"
  obtain set_desc where f: "pa_set_desc api = Some set_desc"
      "\<And>h b w t. target w h = Some t \<Longrightarrow> fst (set_desc h b w) \<and> desc (snd (set_desc h b w)) = (desc w)(t := b)"
    using assms(2) unfolding description_contract_def by blast
  have o: "target ?w h = Some thread" "desc ?w = desc (world s)" "\<And>h w. desc (pa_close api h w) = desc w"
    using assms(1,3) by (auto simp: handle_contract_def)
  show ?thesis using assms(3-6) f(1) f(2) [OF o(1), of "map wchar_of name"] o(2,3)
    by (simp add: wpdk_pthread_setname_np_def os_call_eq split_beta Let_def)
qed

lemma getname_copies:
  assumes "handle_contract api target desc" "description_contract api target desc"
    and "fst (pa_open_thread api THREAD_QUERY_LIMITED_INFORMATION thread (world s)) = Some h"
    and "thread \<noteq> 0" "buf \<noteq> []" "copy_name (desc (world s) thread) buf = (i, buf')"
  shows "\<exists>s'. wpdk_pthread_getname_np api thread (Some buf) s = (if i < length buf then 0 else ERANGE, Some buf', s')"
proof -
  let ?w = "snd (pa_open_thread api THREAD_QUERY_LIMITED_INFORMATION thread (world s))"
  obtain get_desc where f: "pa_get_desc api = Some get_desc"
      "\<And>h w t. target w h = Some t \<Longrightarrow> fst (get_desc h w) = Some (desc w t)"
    using assms(2) unfolding description_contract_def by blast
  have o: "target ?w h = Some thread" "desc ?w = desc (world s)"
    using assms(1,3) by (auto simp: handle_contract_def)
  show ?thesis using assms(3-6) f(1) f(2) [OF o(1)] o(2)
    by (simp add: wpdk_pthread_getname_np_def os_call_eq Suc_le_eq)
qed

text \<open>
  A name of 1 to 31 characters, of any bytes but NUL, that is given to a thread is read back
  unchanged: with its terminator when the buffer is larger than the name, and otherwise with the error
  \<^verbatim>\<open>ERANGE\<close> and as many characters as the buffer holds, without a terminator.
\<close>

theorem thread_name_roundtrip:
  assumes "handle_contract api target desc" "description_contract api target desc"
    and "\<forall>acc w. \<exists>h. fst (pa_open_thread api acc thread w) = Some h"
    and "thread \<noteq> 0" "name \<noteq> []" "length name < 32" "CHR 0x00 \<notin> set name" "buf \<noteq> []"
  shows "\<exists>s1 s2. wpdk_pthread_setname_np api thread (Some name) s = (0, s1) \<and>
    wpdk_pthread_getname_np api thread (Some buf) s1 =
      (if length name < length buf then (0, Some (name @ CHR 0x00 # drop (Suc (length name)) buf), s2)
       else (ERANGE, Some (take (length buf) name), s2))"
proof -
  obtain h where h: "fst (pa_open_thread api THREAD_SET_LIMITED_INFORMATION thread (world s)) = Some h"
    using assms(3) by blast
  obtain s1 where s1: "wpdk_pthread_setname_np api thread (Some name) s = (0, s1)"
      "desc (world s1) = (desc (world s))(thread := map wchar_of name)"
    using setname_stores [OF assms(1,2) h assms(4-6)] by blast
  obtain h1 where h1: "fst (pa_open_thread api THREAD_QUERY_LIMITED_INFORMATION thread (world s1)) = Some h1"
    using assms(3) by blast
  have d: "desc (world s1) thread = map wchar_of name" using s1(2) by simp
  note get = getname_copies [OF assms(1,2) h1 assms(4,8), unfolded d]
  show ?thesis
  proof (cases "length name < length buf")
    case True
    then show ?thesis using s1(1) get [OF copy_name_fits [OF assms(7) True]] by auto
  next
    case False
    then have "length buf \<le> length name" by simp
    then show ?thesis using s1(1) get [OF copy_name_too_long [OF assms(7)]] False by auto
  qed
qed

theorem thread_name_roundtrip_witness:
  "\<exists>s1 s2. wpdk_pthread_setname_np demo_api 3 (Some ''io'') demo_sys = (0, s1) \<and>
    wpdk_pthread_getname_np demo_api 3 (Some ''xxxx'') s1 = (0, Some [CHR ''i'', CHR ''o'', CHR 0x00, CHR ''x''], s2)"
proof -
  have "handle_contract demo_api (\<lambda>w h. Some h) snd" "description_contract demo_api (\<lambda>w h. Some h) snd"
      "\<forall>acc w. \<exists>h. fst (pa_open_thread demo_api acc 3 w) = Some h"
    by (simp_all add: handle_contract_def description_contract_def demo_api_def)
  from thread_name_roundtrip [OF this, of "''io''" "''xxxx''" demo_sys] show ?thesis by simp
qed

end
