(* ===== verification/Signals.thy ===== *)
theory Signals
  imports Error_Map Set_Interface
begin

text \<open>
  \<^verbatim>\<open>src/signal.c\<close>: sets of signals, the table of signal actions, the delivery of a signal, and the worker
  thread that delivers the signals of other processes.

  A handler is an address; \<^verbatim>\<open>SIG_DFL\<close> and \<^verbatim>\<open>SIG_IGN\<close> are the addresses 0 and 1, as in the C runtime. The
  critical section \<^verbatim>\<open>wpdk_sig_lock\<close> makes each function below one step.
\<close>

unbundle bit_operations_syntax

section \<open>Constants\<close>

text \<open>The numbers of the C runtime, and the additional ones of \<^verbatim>\<open>inc/signal.h\<close>.\<close>

definition NSIG :: int where [errno_simps]: "NSIG = 23"
definition SIGINT :: int where [errno_simps]: "SIGINT = 2"
definition SIGILL :: int where [errno_simps]: "SIGILL = 4"
definition SIGFPE :: int where [errno_simps]: "SIGFPE = 8"
definition SIGSEGV :: int where [errno_simps]: "SIGSEGV = 11"
definition SIGTERM :: int where [errno_simps]: "SIGTERM = 15"
definition SIGABRT :: int where [errno_simps]: "SIGABRT = 22"
definition SIG_DFL :: int where [errno_simps]: "SIG_DFL = 0"
definition SIG_IGN :: int where [errno_simps]: "SIG_IGN = 1"
definition SIG_ERR :: int where [errno_simps]: "SIG_ERR = - 1"
definition SA_SIGINFO :: "32 word" where "SA_SIGINFO = 1"
definition SA_RESETHAND :: "32 word" where "SA_RESETHAND = 2"

section \<open>Sets of signals\<close>

type_synonym sigset = "32 word"

text \<open>A pointer to a set is \<open>None\<close> for NULL; the new contents are returned.\<close>

definition wpdk_sigemptyset :: "sigset option \<Rightarrow> ('w, 'z) sys_scheme \<Rightarrow> int \<times> sigset option \<times> ('w, 'z) sys_scheme" where
  "wpdk_sigemptyset the_set s = (if the_set = None then (- 1, None, set_errno EINVAL s) else (0, Some 0, s))"

definition wpdk_sigfillset :: "sigset option \<Rightarrow> ('w, 'z) sys_scheme \<Rightarrow> int \<times> sigset option \<times> ('w, 'z) sys_scheme" where
  "wpdk_sigfillset the_set s =
     (if the_set = None then (- 1, None, set_errno EINVAL s) else (0, Some (push_bit (nat (NSIG - 1)) 1 - 1), s))"

definition wpdk_sigaddset ::
  "sigset option \<Rightarrow> int \<Rightarrow> ('w, 'z) sys_scheme \<Rightarrow> int \<times> sigset option \<times> ('w, 'z) sys_scheme" where
  "wpdk_sigaddset the_set signo s =
     (case the_set of
        Some bits \<Rightarrow>
          if signo < 1 \<or> NSIG \<le> signo then (- 1, the_set, set_errno EINVAL s)
          else (0, Some (bits OR push_bit (nat (signo - 1)) 1), s)
      | None \<Rightarrow> (- 1, None, set_errno EINVAL s))"

definition wpdk_sigdelset ::
  "sigset option \<Rightarrow> int \<Rightarrow> ('w, 'z) sys_scheme \<Rightarrow> int \<times> sigset option \<times> ('w, 'z) sys_scheme" where
  "wpdk_sigdelset the_set signo s =
     (case the_set of
        Some bits \<Rightarrow>
          if signo < 1 \<or> NSIG \<le> signo then (- 1, the_set, set_errno EINVAL s)
          else (0, Some (bits AND NOT (push_bit (nat (signo - 1)) 1)), s)
      | None \<Rightarrow> (- 1, None, set_errno EINVAL s))"

definition wpdk_sigismember :: "sigset option \<Rightarrow> int \<Rightarrow> ('w, 'z) sys_scheme \<Rightarrow> int \<times> ('w, 'z) sys_scheme" where
  "wpdk_sigismember the_set signo s =
     (case the_set of
        Some bits \<Rightarrow>
          if signo < 1 \<or> NSIG \<le> signo then (- 1, set_errno EINVAL s)
          else (of_bool (bits AND push_bit (nat (signo - 1)) 1 \<noteq> 0), s)
      | None \<Rightarrow> (- 1, set_errno EINVAL s))"

section \<open>State\<close>

record sigaction =
  sa_handler :: int
  sa_mask :: sigset
  sa_flags :: "32 word"

definition wpdk_sig_default :: sigaction where
  "wpdk_sig_default = \<lparr>sa_handler = SIG_DFL, sa_mask = 0, sa_flags = 0\<rparr>"

text \<open>
  \<open>sg_table\<close> is \<^verbatim>\<open>wpdk_signals\<close>, and \<open>sg_once\<close> tells whether the initialisation has run, which starts the
  worker. The handlers that are given to the C runtime are its own two and \<^verbatim>\<open>wpdk_signal_handler\<close>.
\<close>

record 'w sig_sys = "'w sys" +
  sg_table :: "sigaction list"
  sg_once :: bool

datatype crt_handler = Crt_default | Crt_ignore | Crt_wpdk_signal_handler

text \<open>
  \<^verbatim>\<open>signal\<close> of the C runtime (\<open>False\<close> is \<^verbatim>\<open>SIG_ERR\<close>, with the \<^verbatim>\<open>errno\<close> it sets), \<^verbatim>\<open>raise\<close>, the creation of the
  worker, \<^verbatim>\<open>getpid\<close>, and the functions on named events, where \<open>None\<close> is NULL.
\<close>

record 'w sig_api =
  sg_signal :: "int \<Rightarrow> crt_handler \<Rightarrow> 'w \<Rightarrow> (bool \<times> int) \<times> 'w"
  sg_raise :: "int \<Rightarrow> 'w \<Rightarrow> int \<times> 'w"
  sg_begin_worker :: "'w \<Rightarrow> 'w"
  sg_getpid :: "'w \<Rightarrow> int"
  sg_create_event :: "string \<Rightarrow> 'w \<Rightarrow> nat option \<times> 'w"
  sg_open_event :: "string \<Rightarrow> 'w \<Rightarrow> nat option \<times> 'w"
  sg_set_event :: "nat \<Rightarrow> 'w \<Rightarrow> bool \<times> 'w"
  sg_reset_event :: "nat \<Rightarrow> 'w \<Rightarrow> 'w"
  sg_close :: "nat \<Rightarrow> 'w \<Rightarrow> 'w"

section \<open>Actions\<close>

definition wpdk_signal_init :: "'w sig_api \<Rightarrow> ('w, 'z) sig_sys_scheme \<Rightarrow> ('w, 'z) sig_sys_scheme" where
  "wpdk_signal_init api s =
     (if sg_once s then s else s\<lparr>world := sg_begin_worker api (world s), sg_once := True\<rparr>)"

definition crt_signal ::
  "'w sig_api \<Rightarrow> int \<Rightarrow> crt_handler \<Rightarrow> ('w, 'z) sig_sys_scheme \<Rightarrow> bool \<times> ('w, 'z) sig_sys_scheme" where
  "crt_signal api sig h s =
     (let ((ok, e), s1) = os_call (sg_signal api sig h) s in (ok, if ok then s1 else set_errno e s1))"

definition crt_signals :: "int list" where
  "crt_signals = [SIGABRT, SIGFPE, SIGILL, SIGINT, SIGSEGV, SIGTERM]"

text \<open>\<open>oact\<close> tells whether the pointer to the previous action is not NULL; that action is returned.\<close>

definition wpdk_sigaction ::
  "'w sig_api \<Rightarrow> int \<Rightarrow> sigaction option \<Rightarrow> bool \<Rightarrow> ('w, 'z) sig_sys_scheme
    \<Rightarrow> int \<times> sigaction option \<times> ('w, 'z) sig_sys_scheme" where
  "wpdk_sigaction api sig act oact s =
     (if sig < 1 \<or> NSIG \<le> sig then (- 1, None, set_errno EINVAL s)
      else
        (let s1 = wpdk_signal_init api s;
             old = (if oact then Some (sg_table s1 ! nat sig) else None)
         in case act of
              None \<Rightarrow> (0, old, s1)
            | Some a \<Rightarrow>
                (let s2 = s1\<lparr>sg_table := (sg_table s1)[nat sig := a]\<rparr>
                 in if sig \<in> set crt_signals
                    then (let handler = (if sa_handler a = SIG_DFL then Crt_default
                                         else if sa_handler a = SIG_IGN then Crt_ignore
                                         else Crt_wpdk_signal_handler);
                              (ok, s3) = crt_signal api sig handler s2
                          in (if \<not> ok then - 1 else 0, old, s3))
                    else (0, old, s2))))"

definition wpdk_signal ::
  "'w sig_api \<Rightarrow> int \<Rightarrow> int \<Rightarrow> ('w, 'z) sig_sys_scheme \<Rightarrow> int \<times> ('w, 'z) sig_sys_scheme" where
  "wpdk_signal api sig handler s =
     (let act = \<lparr>sa_handler = handler, sa_mask = 0, sa_flags = SA_RESETHAND\<rparr>;
          (rc, oact, s1) = wpdk_sigaction api sig (Some act) True s
      in (if rc = - 1 then SIG_ERR else (case oact of None \<Rightarrow> SIG_DFL | Some a \<Rightarrow> sa_handler a), s1))"

text \<open>\<open>oset\<close> is the set to be written, if any.\<close>

definition wpdk_pthread_sigmask ::
  "int \<Rightarrow> sigset option \<Rightarrow> sigset option \<Rightarrow> ('w, 'z) sys_scheme \<Rightarrow> int \<times> sigset option \<times> ('w, 'z) sys_scheme" where
  "wpdk_pthread_sigmask how the_set oset s =
     (if oset \<noteq> None then (let (_, oset1, s1) = wpdk_sigemptyset oset s in (0, oset1, s1)) else (0, None, s))"

section \<open>Delivery\<close>

text \<open>What the delivery of a signal ends with, after the table has been updated.\<close>

datatype delivery =
    Deliver_nothing
  | Deliver_exit int
  | Deliver_call int int
  | Deliver_call_info int int

definition wpdk_signal_handler ::
  "'w sig_api \<Rightarrow> int \<Rightarrow> ('w, 'z) sig_sys_scheme \<Rightarrow> delivery \<times> ('w, 'z) sig_sys_scheme" where
  "wpdk_signal_handler api sig s =
     (if sig < 1 \<or> NSIG \<le> sig then (Deliver_nothing, s)
      else
        (let act = sg_table s ! nat sig;
             s1 = (if sa_flags act AND SA_RESETHAND \<noteq> 0
                   then s\<lparr>sg_table := (sg_table s)[nat sig := wpdk_sig_default]\<rparr>
                   else snd (crt_signal api sig Crt_wpdk_signal_handler s))
         in if sa_flags act AND SA_SIGINFO = 0
            then (if sa_handler act \<noteq> SIG_IGN
                  then if sa_handler act = SIG_DFL then Deliver_exit 3 else Deliver_call (sa_handler act) sig
                  else Deliver_nothing, s1)
            else (Deliver_call_info (sa_handler act) sig, s1)))"

section \<open>Signals between processes\<close>

text \<open>\<^verbatim>\<open>sprintf\<close> of the name \<^verbatim>\<open>Global\\WPDK_%lu_%d\<close>.\<close>

fun decimal :: "nat \<Rightarrow> string" where
  "decimal n = (if n < 10 then [char_of (48 + n)] else decimal (n div 10) @ [char_of (48 + n mod 10)])"

definition format_d :: "int \<Rightarrow> string" where
  "format_d i = (if i < 0 then CHR ''-'' # decimal (nat (- i)) else decimal (nat i))"

definition SIGNAL_EVENT :: "int \<Rightarrow> int \<Rightarrow> string" where
  "SIGNAL_EVENT pid sig = ''Global'' @ [CHR 0x5C] @ ''WPDK_'' @ decimal (nat (to_uint32 pid)) @ ''_'' @ format_d sig"

definition wpdk_siglist :: "int list" where
  "wpdk_siglist = [SIGINT, SIGTERM]"

text \<open>The events of the worker, each with its signal.\<close>

fun worker_events ::
  "'w sig_api \<Rightarrow> int list \<Rightarrow> ('w, 'z) sig_sys_scheme \<Rightarrow> (nat \<times> int) list \<times> ('w, 'z) sig_sys_scheme" where
  "worker_events api [] s = ([], s)"
| "worker_events api (sig # sigs) s =
     (case os_call (sg_create_event api (SIGNAL_EVENT (sg_getpid api (world s)) sig)) s of
        (None, s1) \<Rightarrow> worker_events api sigs s1
      | (Some h, s1) \<Rightarrow> (let (hs, s2) = worker_events api sigs s1 in ((h, sig) # hs, s2)))"

text \<open>
  The loop of the worker, over the results of its successive waits: \<open>None\<close> is \<^verbatim>\<open>WAIT_FAILED\<close>, \<open>Some i\<close> is
  \<^verbatim>\<open>WAIT_OBJECT_0 + i\<close>, where an \<open>i\<close> that is not an index stands for the other results. The deliveries are
  collected; one that ends the process ends the loop.
\<close>

fun worker_loop ::
  "'w sig_api \<Rightarrow> (nat \<times> int) list \<Rightarrow> nat option list \<Rightarrow> ('w, 'z) sig_sys_scheme
    \<Rightarrow> delivery list \<times> ('w, 'z) sig_sys_scheme" where
  "worker_loop api hs [] s = ([], s)"
| "worker_loop api hs (None # rcs) s = ([], s)"
| "worker_loop api hs (Some i # rcs) s =
     (if hs = [] then ([], s)
      else if i < length hs
      then (let s1 = s\<lparr>world := sg_reset_event api (fst (hs ! i)) (world s)\<rparr>;
                (d, s2) = wpdk_signal_handler api (snd (hs ! i)) s1
            in if d = Deliver_exit 3 then ([d], s2)
               else let (ds, s3) = worker_loop api hs rcs s2 in (d # ds, s3))
      else worker_loop api hs rcs s)"

text \<open>The worker closes its events when a wait has failed, or when it has none.\<close>

definition wpdk_signal_worker ::
  "'w sig_api \<Rightarrow> nat option list \<Rightarrow> ('w, 'z) sig_sys_scheme \<Rightarrow> delivery list \<times> ('w, 'z) sig_sys_scheme" where
  "wpdk_signal_worker api rcs s =
     (let (hs, s1) = worker_events api wpdk_siglist s;
          (ds, s2) = worker_loop api hs rcs s1
      in (ds, if (None \<in> set rcs \<or> hs = []) \<and> Deliver_exit 3 \<notin> set ds
              then fold (\<lambda>(h, sig) s. s\<lparr>world := sg_close api h (world s)\<rparr>) (rev hs) s2 else s2))"

definition wpdk_kill :: "'w sig_api \<Rightarrow> int \<Rightarrow> int \<Rightarrow> ('w, 'z) sig_sys_scheme \<Rightarrow> int \<times> ('w, 'z) sig_sys_scheme" where
  "wpdk_kill api pid sig s =
     (if pid = 0 \<or> pid = - 1 \<or> pid = sg_getpid api (world s) \<or> to_int32 (- pid) = sg_getpid api (world s)
      then (if sig \<noteq> 0 then os_call (sg_raise api sig) s else (0, s))
      else
        (case os_call (sg_open_event api (SIGNAL_EVENT (if 0 < pid then pid else to_int32 (- pid)) sig)) s of
           (Some h, s1) \<Rightarrow>
             (let (ok, s2) = os_call (sg_set_event api h) s1;
                  s3 = s2\<lparr>world := sg_close api h (world s2)\<rparr>
              in if ok then (0, s3) else wpdk_posix_error ENOSYS s3)
         | (None, s1) \<Rightarrow> wpdk_posix_error ENOSYS s1))"

section \<open>Sets of signals are sets\<close>

definition unit_sys :: "unit sys" where
  "unit_sys = \<lparr>errno = 0, fault = False, world = ()\<rparr>"

definition sig_ins :: "int \<Rightarrow> sigset \<Rightarrow> sigset" where
  "sig_ins signo b = the (fst (snd (wpdk_sigaddset (Some b) signo unit_sys)))"

definition sig_del :: "int \<Rightarrow> sigset \<Rightarrow> sigset" where
  "sig_del signo b = the (fst (snd (wpdk_sigdelset (Some b) signo unit_sys)))"

definition sig_mem :: "int \<Rightarrow> sigset \<Rightarrow> bool" where
  "sig_mem signo b = (fst (wpdk_sigismember (Some b) signo unit_sys) = 1)"

definition sig_valid :: "int \<Rightarrow> bool" where
  "sig_valid signo = (1 \<le> signo \<and> signo < NSIG)"

lemma sig_mem_bit: "sig_mem signo b \<longleftrightarrow> sig_valid signo \<and> bit b (nat (signo - 1))"
  by (auto simp: sig_mem_def sig_valid_def wpdk_sigismember_def and_exp_eq_0_iff_not_bit)

lemma sig_bit_bound: "sig_valid signo \<Longrightarrow> nat (signo - 1) < 22"
  by (auto simp: sig_valid_def NSIG_def)

lemma sig_bit_inj: "sig_valid a \<Longrightarrow> sig_valid b \<Longrightarrow> nat (a - 1) = nat (b - 1) \<longleftrightarrow> a = b"
  by (auto simp: sig_valid_def)

lemma sig_mem_ins: "sig_valid x \<Longrightarrow> sig_mem y (sig_ins x b) \<longleftrightarrow> y = x \<or> sig_mem y b"
  using sig_bit_bound [of x] sig_bit_inj [of x y]
  by (auto simp: sig_mem_bit sig_ins_def wpdk_sigaddset_def bit_simps) (auto simp: sig_valid_def)

lemma sig_mem_del: "sig_mem y (sig_del x b) \<longleftrightarrow> y \<noteq> x \<and> sig_mem y b"
proof (cases "sig_valid x")
  case True
  then show ?thesis using sig_bit_bound [of y] sig_bit_inj [of x y]
    by (auto simp: sig_mem_bit sig_del_def wpdk_sigdelset_def bit_simps) (auto simp: sig_valid_def)
next
  case False
  then show ?thesis by (auto simp: sig_mem_bit sig_del_def wpdk_sigdelset_def sig_valid_def)
qed

interpretation sigset: set_impl "0 :: sigset" sig_ins sig_del sig_mem "\<lambda>x b. sig_valid x" "\<lambda>b. True"
  by unfold_locales (simp_all add: sig_mem_ins sig_mem_del, simp add: sig_mem_bit)

lemma sigfillset_members: "wpdk_sigfillset (Some b) s = (0, Some c, s') \<Longrightarrow> sigset.members c = {x. sig_valid x}"
proof -
  assume "wpdk_sigfillset (Some b) s = (0, Some c, s')"
  then have "c = mask 22" by (auto simp: wpdk_sigfillset_def NSIG_def mask_eq_exp_minus_1)
  then show ?thesis by (auto simp: sigset.members_def sig_mem_bit bit_simps dest: sig_bit_bound)
qed

section \<open>Delivery\<close>

definition delivery_of :: "sigaction \<Rightarrow> int \<Rightarrow> delivery" where
  "delivery_of act sig =
     (if sa_flags act AND SA_SIGINFO \<noteq> 0 then Deliver_call_info (sa_handler act) sig
      else if sa_handler act = SIG_IGN then Deliver_nothing
      else if sa_handler act = SIG_DFL then Deliver_exit 3
      else Deliver_call (sa_handler act) sig)"

definition remaining_action :: "sigaction \<Rightarrow> sigaction" where
  "remaining_action act = (if sa_flags act AND SA_RESETHAND \<noteq> 0 then wpdk_sig_default else act)"

lemma crt_signal_table [simp]: "sg_table (snd (crt_signal api sig h s)) = sg_table s"
  by (simp add: crt_signal_def os_call_eq split_beta Let_def set_errno_def)

lemma signal_init_table [simp]: "sg_table (wpdk_signal_init api s) = sg_table s"
  by (simp add: wpdk_signal_init_def)

lemma signal_handler_effect:
  assumes "sig_valid sig" "length (sg_table s) = nat NSIG"
  shows "\<exists>s'. wpdk_signal_handler api sig s = (delivery_of (sg_table s ! nat sig) sig, s') \<and>
    sg_table s' = (sg_table s)[nat sig := remaining_action (sg_table s ! nat sig)]"
  using assms
  by (auto simp: wpdk_signal_handler_def Let_def sig_valid_def delivery_of_def remaining_action_def)

lemma sigaction_table:
  assumes "sig_valid sig" "wpdk_sigaction api sig (Some act) oact s = (rc, old, s1)"
  shows "old = (if oact then Some (sg_table s ! nat sig) else None)" "sg_table s1 = (sg_table s)[nat sig := act]"
  using assms by (auto simp: wpdk_sigaction_def Let_def split_beta sig_valid_def split: if_splits)


text \<open>A C runtime that accepts every handler.\<close>

definition demo_sig_api :: "(string \<Rightarrow> bool) sig_api" where
  "demo_sig_api = \<lparr>sg_signal = \<lambda>_ _ w. ((True, 0), w), sg_raise = \<lambda>_ w. (0, w), sg_begin_worker = \<lambda>w. w,
     sg_getpid = \<lambda>_. 4, sg_create_event = \<lambda>n w. (Some 0, w),
     sg_open_event = \<lambda>n w. (if n = SIGNAL_EVENT 8 SIGTERM then Some 0 else None, w),
     sg_set_event = \<lambda>h w. (True, w(SIGNAL_EVENT 8 SIGTERM := True)), sg_reset_event = \<lambda>_ w. w, sg_close = \<lambda>_ w. w\<rparr>"

definition demo_sig_sys :: "(string \<Rightarrow> bool) sig_sys" where
  "demo_sig_sys = \<lparr>errno = 0, fault = False, world = \<lambda>_. False, sg_table = replicate 23 wpdk_sig_default, sg_once = False\<rparr>"

definition demo_action :: sigaction where
  "demo_action = \<lparr>sa_handler = 4096, sa_mask = 0, sa_flags = SA_RESETHAND\<rparr>"


section \<open>Signals between processes\<close>

declare decimal.simps [simp del]

definition undecimal :: "string \<Rightarrow> nat" where
  "undecimal = foldl (\<lambda>n c. 10 * n + (of_char c - 48)) 0"

lemma of_char_digit: "n < 10 \<Longrightarrow> of_char (char_of (48 + n) :: char) = (48 + n :: nat)"
  by (simp add: of_char_of)

lemma undecimal_decimal: "undecimal (decimal n) = n"
proof (induction n rule: decimal.induct)
  case (1 n)
  show ?case
  proof (cases "n < 10")
    case True
    then show ?thesis by (simp add: decimal.simps [of n] undecimal_def of_char_digit)
  next
    case False
    then have "undecimal (decimal n) = 10 * undecimal (decimal (n div 10)) + n mod 10"
      by (simp add: decimal.simps [of n] undecimal_def of_char_digit)
    then show ?thesis using 1 [OF False] by simp
  qed
qed

lemma decimal_inj [simp]: "decimal m = decimal n \<longleftrightarrow> m = n"
  by (metis undecimal_decimal)

lemma decimal_digits: "c \<in> set (decimal n) \<Longrightarrow> 48 \<le> (of_char c :: nat) \<and> (of_char c :: nat) < 58"
proof (induction n rule: decimal.induct)
  case (1 n)
  show ?case
  proof (cases "n < 10")
    case True
    then show ?thesis using 1(2) by (simp add: decimal.simps [of n] of_char_digit)
  next
    case False
    then have "c \<in> set (decimal (n div 10)) \<or> c = char_of (48 + n mod 10)"
      using 1(2) by (auto simp: decimal.simps [of n])
    then show ?thesis using 1(1) [OF False] by (auto simp: of_char_digit)
  qed
qed

lemma decimal_no_sign: "CHR ''_'' \<notin> set (decimal n)" "CHR ''-'' \<notin> set (decimal n)"
  using decimal_digits [of "CHR ''_''" n] decimal_digits [of "CHR ''-''" n] by auto

lemma decimal_not_minus: "decimal n \<noteq> CHR ''-'' # xs"
  using decimal_no_sign(2) [of n] by auto

lemma format_d_inj: "format_d a = format_d b \<longleftrightarrow> a = b"
  using decimal_not_minus decimal_not_minus [THEN not_sym] by (auto simp: format_d_def)

lemma split_at_underscore:
  assumes "decimal a @ CHR ''_'' # xs = decimal b @ CHR ''_'' # ys"
  shows "a = b \<and> xs = ys"
proof -
  have "takeWhile (\<lambda>c. c \<noteq> CHR ''_'') (decimal n @ CHR ''_'' # zs) = decimal n" for n zs
    using decimal_no_sign(1) [of n] by (subst takeWhile_append2) auto
  then have "decimal a = decimal b" using arg_cong [OF assms, of "takeWhile (\<lambda>c. c \<noteq> CHR ''_'')"] by simp
  then show ?thesis using assms by simp
qed

lemma signal_event_inj:
  assumes "0 \<le> p" "p \<le> INT_MAX" "0 \<le> q" "q \<le> INT_MAX"
  shows "SIGNAL_EVENT p a = SIGNAL_EVENT q b \<longleftrightarrow> p = q \<and> a = b"
proof
  assume "SIGNAL_EVENT p a = SIGNAL_EVENT q b"
  then have "nat (to_uint32 p) = nat (to_uint32 q) \<and> format_d a = format_d b"
    by (intro split_at_underscore) (simp add: SIGNAL_EVENT_def)
  then show "p = q \<and> a = b" using assms by (auto simp: format_d_inj to_uint32_id INT_MAX_def)
qed simp

text \<open>
  What Windows documents of named events: \<open>name_of w h\<close> is the name of the event of the handle \<open>h\<close>, and \<open>signalled w n\<close>
  tells whether the event of the name \<open>n\<close> is set.
\<close>

definition event_contract ::
  "'w sig_api \<Rightarrow> ('w \<Rightarrow> nat \<Rightarrow> string option) \<Rightarrow> ('w \<Rightarrow> string \<Rightarrow> bool) \<Rightarrow> bool" where
  "event_contract api name_of signalled \<longleftrightarrow>
     (\<forall>n w. signalled (snd (sg_open_event api n w)) = signalled w) \<and>
     (\<forall>n w h. fst (sg_open_event api n w) = Some h \<longrightarrow> name_of (snd (sg_open_event api n w)) h = Some n) \<and>
     (\<forall>h w n. name_of w h = Some n \<and> fst (sg_set_event api h w) \<longrightarrow>
        signalled (snd (sg_set_event api h w)) = (signalled w)(n := True)) \<and>
     (\<forall>h w. signalled (sg_close api h w) = signalled w)"

lemma kill_other_sets:
  assumes "event_contract api name_of signalled" "0 < p" "p \<le> INT_MAX"
    and "0 < sg_getpid api (world s)" "sg_getpid api (world s) \<noteq> p"
    and "wpdk_kill api p sig s = (0, s')"
  shows "signalled (world s') = (signalled (world s))(SIGNAL_EVENT p sig := True)"
proof -
  let ?o = "sg_open_event api (SIGNAL_EVENT p sig) (world s)"
  have neg: "to_int32 (- p) = - p" using assms(2,3) by (intro to_int32_id) (simp_all add: INT_MAX_def)
  then have own: "\<not> (p = 0 \<or> p = - 1 \<or> p = sg_getpid api (world s) \<or> to_int32 (- p) = sg_getpid api (world s))"
    using assms(2,4,5) by auto
  show ?thesis
  proof (cases "fst ?o")
    case None
    then show ?thesis using assms(2,6) own by (simp add: wpdk_kill_def os_call_eq wpdk_posix_error_def)
  next
    case (Some h)
    let ?e = "sg_set_event api h (snd ?o)"
    have "fst ?e" "world s' = sg_close api h (snd ?e)"
      using assms(2,6) own Some
      by (auto simp: wpdk_kill_def os_call_eq wpdk_posix_error_def Let_def split_beta split: if_splits)
    then show ?thesis using assms(1) Some by (simp add: event_contract_def)
  qed
qed

text \<open>The worker of a process waits for the events of its signals, under their names.\<close>

lemma worker_events_names:
  assumes "worker_events api sigs s = (hs, s')"
    and "\<And>n w h. fst (sg_create_event api n w) = Some h \<Longrightarrow> created h n"
    and "\<And>w. sg_getpid api w = p" "(h, sig) \<in> set hs"
  shows "created h (SIGNAL_EVENT p sig) \<and> sig \<in> set sigs"
  using assms(1,4)
proof (induction sigs arbitrary: s s' hs)
  case (Cons x sigs)
  obtain hs1 s1 where rest: "worker_events api sigs
      (s\<lparr>world := snd (sg_create_event api (SIGNAL_EVENT p x) (world s))\<rparr>) = (hs1, s1)" by fastforce
  show ?case
  proof (cases "fst (sg_create_event api (SIGNAL_EVENT p x) (world s))")
    case None
    then show ?thesis using Cons rest by (auto simp: os_call_eq assms(3))
  next
    case (Some k)
    then have "hs = (k, x) # hs1" using Cons.prems(1) rest by (simp add: os_call_eq assms(3))
    then show ?thesis using Cons.IH [OF rest] Cons.prems(2) assms(2) [OF Some] by auto
  qed
qed simp

text \<open>When one of them is set, the worker delivers its signal.\<close>

lemma worker_delivers:
  assumes "i < length hs" "sig_valid (snd (hs ! i))" "length (sg_table s) = nat NSIG"
  shows "\<exists>ds. fst (worker_loop api hs (Some i # rcs) s) = delivery_of (sg_table s ! nat (snd (hs ! i))) (snd (hs ! i)) # ds"
proof -
  have "hs \<noteq> []" using assms(1) by auto
  then show ?thesis
    using assms signal_handler_effect [OF assms(2), of "s\<lparr>world := sg_reset_event api (fst (hs ! i)) (world s)\<rparr>" api]
    by (auto simp: Let_def split_beta)
qed

text \<open>
  C22. A signal that \<^verbatim>\<open>wpdk_kill\<close> has sent to another process sets the event of that process and that signal,
  and of all events of all processes no other: the names that the sender and the workers derive from
  process and signal never coincide for different ones.
\<close>

theorem kill_signals_exactly:
  assumes "event_contract api name_of signalled" "0 < p" "p \<le> INT_MAX"
    and "0 < sg_getpid api (world s)" "sg_getpid api (world s) \<noteq> p"
    and "wpdk_kill api p sig s = (0, s')"
    and "0 \<le> q" "q \<le> INT_MAX"
  shows "signalled (world s') (SIGNAL_EVENT q x) \<longleftrightarrow> q = p \<and> x = sig \<or> signalled (world s) (SIGNAL_EVENT q x)"
proof -
  have "SIGNAL_EVENT q x = SIGNAL_EVENT p sig \<longleftrightarrow> q = p \<and> x = sig"
    using assms(2,3,7,8) by (intro signal_event_inj) simp_all
  then show ?thesis unfolding kill_other_sets [OF assms(1-6)] by auto
qed

theorem kill_signals_exactly_witness:
  "\<exists>s'. wpdk_kill demo_sig_api 8 SIGTERM demo_sig_sys = (0, s') \<and> world s' (SIGNAL_EVENT 8 SIGTERM) \<and>
    \<not> world s' (SIGNAL_EVENT 8 SIGINT) \<and> \<not> world s' (SIGNAL_EVENT 9 SIGTERM)"
proof -
  have c: "event_contract demo_sig_api (\<lambda>w h. Some (SIGNAL_EVENT 8 SIGTERM)) (\<lambda>w. w)"
    by (auto simp: event_contract_def demo_sig_api_def)
  obtain s' where s': "wpdk_kill demo_sig_api 8 SIGTERM demo_sig_sys = (0, s')"
    by (simp add: wpdk_kill_def os_call_eq demo_sig_api_def to_int32_def Let_def)
  have pid: "sg_getpid demo_sig_api (world demo_sig_sys) = 4" by (simp add: demo_sig_api_def)
  have "world s' (SIGNAL_EVENT q x) \<longleftrightarrow> q = 8 \<and> x = SIGTERM \<or> world demo_sig_sys (SIGNAL_EVENT q x)"
    if "0 \<le> q" "q \<le> INT_MAX" for q x
    by (rule kill_signals_exactly [OF c _ _ _ _ s' that]) (simp_all add: pid INT_MAX_def)
  then have "world s' (SIGNAL_EVENT q x) \<longleftrightarrow> q = 8 \<and> x = SIGTERM" if "0 \<le> q" "q \<le> INT_MAX" for q x
    using that by (simp add: demo_sig_sys_def)
  then show ?thesis using s' by (simp add: errno_simps)
qed

end
