(* ===== verification/File_Lock.thy ===== *)
theory File_Lock
  imports Sockets "HOL-Library.Multiset"
begin

text \<open>
  File locks: \<^verbatim>\<open>wpdk_fcntl\<close>, \<^verbatim>\<open>wpdk_lockfile_get_range\<close> and \<^verbatim>\<open>wpdk_lockfile\<close> of \<^verbatim>\<open>src/fcntl.c\<close>, \<^verbatim>\<open>wpdk_flock\<close> of
  \<^verbatim>\<open>src/file.c\<close> and \<^verbatim>\<open>wpdk_lockf\<close> of \<^verbatim>\<open>src/unistd.c\<close>.

  Windows locks are mandatory, so the code moves the locked range out of the file, to an offset from
  \<^verbatim>\<open>LOCKFILE_MAX\<close> on. A lock that must not wait is protected by a guard lock on the last byte.
\<close>

unbundle bit_operations_syntax

section \<open>Constants and Windows\<close>

definition F_GETFD :: int where [errno_simps]: "F_GETFD = 1"
definition F_SETFD :: int where [errno_simps]: "F_SETFD = 2"
definition F_GETLK :: int where [errno_simps]: "F_GETLK = 5"
definition F_SETLK :: int where [errno_simps]: "F_SETLK = 6"
definition F_SETLKW :: int where [errno_simps]: "F_SETLKW = 7"
definition F_RDLCK :: int where [errno_simps]: "F_RDLCK = 0"
definition F_WRLCK :: int where [errno_simps]: "F_WRLCK = 1"
definition F_UNLCK :: int where [errno_simps]: "F_UNLCK = 2"
definition SEEK_SET :: int where [errno_simps]: "SEEK_SET = 0"
definition SEEK_CUR :: int where [errno_simps]: "SEEK_CUR = 1"
definition SEEK_END :: int where [errno_simps]: "SEEK_END = 2"

definition LOCKFILE_MAX :: int where [errno_simps]: "LOCKFILE_MAX = (INT64_MAX - 1) div 2"
definition LOCKFILE_GUARD :: int where [errno_simps]: "LOCKFILE_GUARD = INT64_MAX - LOCKFILE_MAX"

record flock =
  l_type :: int
  l_whence :: int
  l_start :: int
  l_len :: int
  l_pid :: int

text \<open>
  \<^verbatim>\<open>_get_osfhandle\<close> (\<open>None\<close> is an invalid handle, with \<^verbatim>\<open>errno\<close> set to \<^verbatim>\<open>EBADF\<close>), \<^verbatim>\<open>_telli64\<close> (\<open>None\<close> is \<open>-1\<close>, with the
  \<^verbatim>\<open>errno\<close> it sets), \<^verbatim>\<open>GetFileSizeEx\<close>, \<^verbatim>\<open>LockFileEx\<close> (exclusive, fail immediately, offset, length),
  \<^verbatim>\<open>UnlockFileEx\<close> and \<^verbatim>\<open>GetLastError\<close>.
\<close>

record 'w lock_api =
  lk_handle :: "int \<Rightarrow> 'w \<Rightarrow> nat option"
  lk_tell :: "int \<Rightarrow> 'w \<Rightarrow> int + int"
  lk_file_size :: "nat \<Rightarrow> 'w \<Rightarrow> int option"
  lk_lock :: "nat \<Rightarrow> bool \<Rightarrow> bool \<Rightarrow> int \<Rightarrow> int \<Rightarrow> 'w \<Rightarrow> bool \<times> 'w"
  lk_unlock :: "nat \<Rightarrow> int \<Rightarrow> int \<Rightarrow> 'w \<Rightarrow> bool \<times> 'w"
  lk_last_error :: "'w \<Rightarrow> win_error"

section \<open>The range of a lock\<close>

text \<open>Signed arithmetic is taken modulo \<open>2\<^sup>6\<^sup>4\<close>. The result is the range, start and length.\<close>

definition range_position ::
  "'w lock_api \<Rightarrow> int \<Rightarrow> int \<Rightarrow> ('w, 'z) sys_scheme \<Rightarrow> int option \<times> ('w, 'z) sys_scheme" where
  "range_position api fildes whence s =
     (if whence = SEEK_SET then (Some 0, s)
      else if whence = SEEK_CUR
      then (case lk_tell api fildes (world s) of Inl e \<Rightarrow> (None, set_errno e s) | Inr posn \<Rightarrow> (Some posn, s))
      else if whence = SEEK_END
      then (case lk_handle api fildes (world s) of
              None \<Rightarrow> (None, set_errno EBADF s)
            | Some h \<Rightarrow>
                (case lk_file_size api h (world s) of
                   None \<Rightarrow> (None, snd (wpdk_last_error (lk_last_error api) s))
                 | Some eof \<Rightarrow> (Some eof, s)))
      else (None, set_errno EINVAL s))"

definition range_of :: "int \<Rightarrow> int \<Rightarrow> int \<Rightarrow> (int \<times> int) option" where
  "range_of posn offset len =
     (if LOCKFILE_MAX \<le> posn then None
      else if (offset < 0 \<and> posn < to_int64 (- offset)) \<or> LOCKFILE_MAX \<le> offset then None
      else
        (let posn1 = to_int64 (posn + offset)
         in if len < 0
            then if posn1 < to_int64 (- len) \<or> LOCKFILE_MAX < to_int64 (- len) then None
                 else Some (to_int64 (posn1 + len), to_int64 (- len))
            else if LOCKFILE_MAX < len \<or> LOCKFILE_MAX < to_int64 (posn1 + len) then None
                 else Some (posn1, if len = 0 then to_int64 (LOCKFILE_MAX - posn1) else len)))"

definition wpdk_lockfile_get_range ::
  "'w lock_api \<Rightarrow> int \<Rightarrow> int \<Rightarrow> int \<Rightarrow> int \<Rightarrow> ('w, 'z) sys_scheme \<Rightarrow> (int \<times> int) option \<times> ('w, 'z) sys_scheme" where
  "wpdk_lockfile_get_range api fildes whence offset len s =
     (case range_position api fildes whence s of
        (None, s1) \<Rightarrow> (None, s1)
      | (Some posn, s1) \<Rightarrow>
          (case range_of posn offset len of
             None \<Rightarrow> (None, set_errno EINVAL s1)
           | Some r \<Rightarrow> (Some r, s1)))"

section \<open>Locking\<close>

text \<open>The three operations; \<open>None\<close> is the default branch of the switch.\<close>

definition lock_request ::
  "'w lock_api \<Rightarrow> nat \<Rightarrow> int \<Rightarrow> int \<Rightarrow> int \<Rightarrow> bool \<Rightarrow> ('w, 'z) sys_scheme \<Rightarrow> (bool \<times> ('w, 'z) sys_scheme) option" where
  "lock_request api h op offset nbytes nowait s =
     (if op = F_WRLCK then Some (os_call (lk_lock api h True nowait offset nbytes) s)
      else if op = F_RDLCK then Some (os_call (lk_lock api h False nowait offset nbytes) s)
      else if op = F_UNLCK then Some (os_call (lk_unlock api h offset nbytes) s)
      else None)"

function wpdk_lockfile ::
  "'w lock_api \<Rightarrow> int \<Rightarrow> int \<Rightarrow> int \<Rightarrow> int \<Rightarrow> bool \<Rightarrow> ('w, 'z) sys_scheme \<Rightarrow> int \<times> ('w, 'z) sys_scheme" where
  "wpdk_lockfile api op fildes start nbytes nowait s =
     (case lk_handle api fildes (world s) of
        None \<Rightarrow> (- 1, set_errno EBADF s)
      | Some h \<Rightarrow>
          (let (guard, s1) = (if nowait then wpdk_lockfile api F_WRLCK fildes LOCKFILE_GUARD 1 False s else (0, s))
           in if guard = - 1 then (- 1, s1)
              else (case lock_request api h op (to_int64 (LOCKFILE_MAX + start)) nbytes nowait s1 of
                      None \<Rightarrow> wpdk_posix_error EINVAL s1
                    | Some (rc, s2) \<Rightarrow>
                        (let error = lk_last_error api (world s2);
                             s3 = (if nowait then snd (wpdk_lockfile api F_UNLCK fildes LOCKFILE_GUARD 1 False s2) else s2)
                         in if \<not> rc then wpdk_windows_error error s3 else (0, s3)))))"
  by pat_completeness auto

termination
  by (relation "measure (\<lambda>(api, op, fildes, start, nbytes, nowait, s). of_bool nowait)") auto

text \<open>
  \<^verbatim>\<open>flockp\<close> is dereferenced before it is tested. The structure is returned, since \<^verbatim>\<open>F_GETLK\<close> changes it.
\<close>

definition wpdk_fcntl_lockfile ::
  "'w lock_api \<Rightarrow> int \<Rightarrow> int \<Rightarrow> flock option \<Rightarrow> ('w, 'z) sys_scheme \<Rightarrow> int \<times> flock option \<times> ('w, 'z) sys_scheme" where
  "wpdk_fcntl_lockfile api fildes cmd flockp s =
     (case flockp of
        None \<Rightarrow> (- 1, None, set_errno EINVAL (set_fault s))
      | Some fl \<Rightarrow>
          if l_type fl \<noteq> F_RDLCK \<and> l_type fl \<noteq> F_WRLCK \<and> l_type fl \<noteq> F_UNLCK then (- 1, flockp, set_errno EINVAL s)
          else
            (case wpdk_lockfile_get_range api fildes (l_whence fl) (l_start fl) (l_len fl) s of
               (None, s1) \<Rightarrow> (- 1, flockp, s1)
             | (Some (start, nbytes), s1) \<Rightarrow>
                 if cmd = F_GETLK
                 then if l_type fl = F_UNLCK then (- 1, flockp, set_errno EINVAL s1)
                      else (case wpdk_lockfile api (l_type fl) fildes start nbytes True s1 of
                              (rc, s2) \<Rightarrow>
                                if rc \<noteq> - 1
                                then (0, Some (fl\<lparr>l_type := F_UNLCK, l_pid := - 1\<rparr>),
                                      snd (wpdk_lockfile api F_UNLCK fildes start nbytes False s2))
                                else (0, Some (fl\<lparr>l_pid := - 1\<rparr>), s2))
                 else if cmd = F_SETLK
                 then (let (rc, s2) = wpdk_lockfile api (l_type fl) fildes start nbytes True s1 in (rc, flockp, s2))
                 else if cmd = F_SETLKW
                 then (let (rc, s2) = wpdk_lockfile api (l_type fl) fildes start nbytes False s1 in (rc, flockp, s2))
                 else (- 1, flockp, set_errno EINVAL s1)))"

text \<open>The third argument is \<open>arg\<close> or \<open>flockp\<close>, according to the command.\<close>

definition wpdk_fcntl ::
  "'w winsock \<Rightarrow> 'w lock_api \<Rightarrow> int \<Rightarrow> int \<Rightarrow> int \<Rightarrow> flock option \<Rightarrow> ('w, 'z) sock_sys_scheme
    \<Rightarrow> int \<times> flock option \<times> ('w, 'z) sock_sys_scheme" where
  "wpdk_fcntl ws api fildes cmd arg flockp s =
     (if cmd = F_GETFD \<or> cmd = F_SETFD
      then (if lk_handle api fildes (world s) = None then (- 1, flockp, set_errno EBADF s) else (0, flockp, s))
      else if cmd = F_GETFL \<or> cmd = F_SETFL
      then if wpdk_is_socket fildes
           then (let (rc, s1) = wpdk_socket_fcntl ws fildes cmd (if cmd = F_GETFL then 0 else arg) s in (rc, flockp, s1))
           else if lk_handle api fildes (world s) = None then (- 1, flockp, set_errno EBADF s) else (0, flockp, s)
      else if cmd = F_GETLK \<or> cmd = F_SETLK \<or> cmd = F_SETLKW then wpdk_fcntl_lockfile api fildes cmd flockp s
      else (- 1, flockp, set_errno EINVAL s))"

section \<open>The callers\<close>

definition LOCK_SH :: int where [errno_simps]: "LOCK_SH = 1"
definition LOCK_EX :: int where [errno_simps]: "LOCK_EX = 2"
definition LOCK_NB :: int where [errno_simps]: "LOCK_NB = 4"
definition LOCK_UN :: int where [errno_simps]: "LOCK_UN = 8"

definition F_LOCK :: int where [errno_simps]: "F_LOCK = 1"
definition F_ULOCK :: int where [errno_simps]: "F_ULOCK = 2"
definition F_TLOCK :: int where [errno_simps]: "F_TLOCK = 3"
definition F_TEST :: int where [errno_simps]: "F_TEST = 4"

definition wpdk_flock :: "'w lock_api \<Rightarrow> int \<Rightarrow> int \<Rightarrow> ('w, 'z) sys_scheme \<Rightarrow> int \<times> ('w, 'z) sys_scheme" where
  "wpdk_flock api fd operation s =
     (let op = operation AND NOT LOCK_NB
      in if op \<noteq> LOCK_SH \<and> op \<noteq> LOCK_EX \<and> op \<noteq> LOCK_UN then wpdk_posix_error EINVAL s
         else (case wpdk_lockfile_get_range api fd SEEK_SET 0 0 s of
                 (None, s1) \<Rightarrow> (- 1, s1)
               | (Some (start, nbytes), s1) \<Rightarrow>
                   (let s2 = snd (wpdk_lockfile api F_UNLCK fd start nbytes False s1);
                        nowait = (operation AND LOCK_NB \<noteq> 0)
                    in if op = LOCK_UN then (0, s2)
                       else (let (rc, s3) = wpdk_lockfile api (if op = LOCK_SH then F_RDLCK else F_WRLCK) fd start nbytes nowait s2
                             in if rc = - 1 \<and> errno s3 = EACCES \<and> nowait then wpdk_posix_error EWOULDBLOCK s3
                                else (rc, s3)))))"

definition wpdk_lockf :: "'w lock_api \<Rightarrow> int \<Rightarrow> int \<Rightarrow> int \<Rightarrow> ('w, 'z) sys_scheme \<Rightarrow> int \<times> ('w, 'z) sys_scheme" where
  "wpdk_lockf api fildes func len s =
     (case wpdk_lockfile_get_range api fildes SEEK_CUR 0 len s of
        (None, s1) \<Rightarrow> (- 1, s1)
      | (Some (start, nbytes), s1) \<Rightarrow>
          if func = F_LOCK then wpdk_lockfile api F_WRLCK fildes start nbytes False s1
          else if func = F_TLOCK then wpdk_lockfile api F_WRLCK fildes start nbytes True s1
          else if func = F_ULOCK then wpdk_lockfile api F_UNLCK fildes start nbytes False s1
          else if func = F_TEST
          then (let (rc, s2) = wpdk_lockfile api F_WRLCK fildes start nbytes True s1
                in if rc \<noteq> - 1 then (rc, snd (wpdk_lockfile api F_UNLCK fildes start nbytes False s2)) else (rc, s2))
          else wpdk_posix_error EINVAL s1)"

section \<open>Ranges\<close>

text \<open>
  The range that POSIX specifies for a position and a length: towards the end of the file, where a
  length of \<open>0\<close> stands for all that follows, or backwards for a negative length.
\<close>

definition posix_range :: "int \<Rightarrow> int \<Rightarrow> int set" where
  "posix_range posn len =
     (if len < 0 then {posn + len..<posn} else if len = 0 then {posn..<LOCKFILE_MAX} else {posn..<posn + len})"

lemma lockfile_max: "LOCKFILE_MAX = 2 ^ 62 - 1" "LOCKFILE_GUARD = 2 ^ 62" "INT64_MAX = 2 ^ 63 - 1"
  by (simp_all add: LOCKFILE_MAX_def LOCKFILE_GUARD_def INT64_MAX_def)

lemma range_of_eq:
  assumes "0 \<le> posn" "posn < LOCKFILE_MAX" "INT64_MIN < offset" "offset < LOCKFILE_MAX"
    and "INT64_MIN < len" "len \<le> INT64_MAX" "posn + offset \<le> LOCKFILE_MAX"
  shows "range_of posn offset len =
    (if posn + offset < 0 \<or> posn + offset + len < 0 \<or> LOCKFILE_MAX < posn + offset + len then None
     else if len < 0 then Some (posn + offset + len, - len)
     else Some (posn + offset, if len = 0 then LOCKFILE_MAX - (posn + offset) else len))"
proof -
  have id: "to_int64 x = x" if "- (2 ^ 63) \<le> x" "x < 2 ^ 63" for x
    using that by (intro to_int64_id) simp_all
  have "to_int64 (- offset) = - offset" "to_int64 (- len) = - len" "to_int64 (posn + offset) = posn + offset"
    by (rule id; use assms in \<open>simp add: lockfile_max INT64_MIN_def\<close>)+
  moreover have "to_int64 (posn + offset + len) = posn + offset + len" if "0 \<le> posn + offset" "len \<le> LOCKFILE_MAX"
    by (rule id; use assms that in \<open>simp add: lockfile_max INT64_MIN_def\<close>)
  moreover have "to_int64 (LOCKFILE_MAX - (posn + offset)) = LOCKFILE_MAX - (posn + offset)" if "0 \<le> posn + offset"
    by (rule id; use assms that in \<open>simp add: lockfile_max INT64_MIN_def\<close>)
  ultimately show ?thesis using assms by (auto simp: range_of_def Let_def)
qed

lemma posix_range_inside:
  assumes "posn \<le> LOCKFILE_MAX"
  shows "posix_range posn len \<subseteq> {0..<LOCKFILE_MAX} \<longleftrightarrow> \<not> (posn < 0 \<or> posn + len < 0 \<or> LOCKFILE_MAX < posn + len)"
proof -
  have "0 < LOCKFILE_MAX" by (simp add: lockfile_max)
  then show ?thesis using assms by (auto simp: posix_range_def)
qed


text \<open>
  Without the bound on the position the sum of position and length may overflow, and a range is accepted that
  lies outside.
\<close>

lemma range_overflow: "range_of (2 ^ 62 - 2) (2 ^ 62 - 2) (2 ^ 62 - 1) = Some (2 ^ 63 - 4, 2 ^ 62 - 1)"
  by (simp add: range_of_def lockfile_max to_int64_def)

section \<open>Locks\<close>

text \<open>
  What Windows documents: \<open>locks w h\<close> are the locks held through the handle \<open>h\<close>, each exclusive or shared with
  its offset and length. A lock that is granted is added; an unlock needs the exact range, and releases an
  exclusive lock of it before a shared one.
\<close>

type_synonym file_lock = "bool \<times> int \<times> int"

definition unlocked :: "int \<Rightarrow> int \<Rightarrow> file_lock multiset \<Rightarrow> file_lock multiset" where
  "unlocked offset n M = (if (True, offset, n) \<in># M then M - {#(True, offset, n)#} else M - {#(False, offset, n)#})"

definition lock_contract :: "'w lock_api \<Rightarrow> ('w \<Rightarrow> nat \<Rightarrow> file_lock multiset) \<Rightarrow> bool" where
  "lock_contract api locks \<longleftrightarrow>
     (\<forall>h ex nowait offset n w. locks (snd (lk_lock api h ex nowait offset n w)) =
        (if fst (lk_lock api h ex nowait offset n w) then (locks w)(h := add_mset (ex, offset, n) (locks w h)) else locks w)) \<and>
     (\<forall>h offset n w. fst (lk_unlock api h offset n w) \<longleftrightarrow> (\<exists>ex. (ex, offset, n) \<in># locks w h)) \<and>
     (\<forall>h offset n w. locks (snd (lk_unlock api h offset n w)) = (locks w)(h := unlocked offset n (locks w h))) \<and>
     (\<forall>h ex nowait offset n w fd. lk_handle api fd (snd (lk_lock api h ex nowait offset n w)) = lk_handle api fd w) \<and>
     (\<forall>h offset n w fd. lk_handle api fd (snd (lk_unlock api h offset n w)) = lk_handle api fd w)"

definition lock_effect :: "int \<Rightarrow> bool \<Rightarrow> int \<Rightarrow> int \<Rightarrow> file_lock multiset \<Rightarrow> file_lock multiset" where
  "lock_effect op ok offset n M =
     (if \<not> ok then M else if op = F_UNLCK then unlocked offset n M else add_mset (op = F_WRLCK, offset, n) M)"

lemma unlocked_absent: "\<forall>ex. (ex, offset, n) \<notin># M \<Longrightarrow> unlocked offset n M = M"
  by (simp add: unlocked_def diff_single_trivial)

lemma unlocked_other: "x \<noteq> offset \<Longrightarrow> unlocked offset n (add_mset (b, x, m) M) = add_mset (b, x, m) (unlocked offset n M)"
  by (simp add: unlocked_def)

lemma unlocked_exclusive: "unlocked offset n (add_mset (True, offset, n) M) = M"
  by (simp add: unlocked_def)

lemmas [simp del] = wpdk_lockfile.simps

lemma lock_request_effect:
  assumes "lock_contract api locks" "op \<in> {F_RDLCK, F_WRLCK, F_UNLCK}"
  shows "\<exists>rc s'. lock_request api h op offset n nowait s = Some (rc, s') \<and>
    locks (world s') = (locks (world s))(h := lock_effect op rc offset n (locks (world s) h)) \<and>
    lk_handle api fd (world s') = lk_handle api fd (world s)"
  using assms
  by (auto simp: lock_request_def lock_effect_def lock_contract_def os_call_eq errno_simps fun_upd_idem unlocked_absent)

lemma lockfile_wait_effect:
  assumes "lock_contract api locks" "op \<in> {F_RDLCK, F_WRLCK, F_UNLCK}" "lk_handle api fd (world s) = Some h"
  shows "\<exists>rc s'. wpdk_lockfile api op fd start n False s = (rc, s') \<and> rc \<in> {0, - 1} \<and>
    locks (world s') = (locks (world s))(h := lock_effect op (rc = 0) (to_int64 (LOCKFILE_MAX + start)) n (locks (world s) h)) \<and>
    lk_handle api fd (world s') = lk_handle api fd (world s)"
proof -
  obtain rc s' where r: "lock_request api h op (to_int64 (LOCKFILE_MAX + start)) n False s = Some (rc, s')"
      "locks (world s') = (locks (world s))(h := lock_effect op rc (to_int64 (LOCKFILE_MAX + start)) n (locks (world s) h))"
      "lk_handle api fd (world s') = lk_handle api fd (world s)"
    using lock_request_effect [OF assms(1,2)] by blast
  then show ?thesis using assms(3)
    by (auto simp: wpdk_lockfile.simps [of api op] wpdk_windows_error_def set_errno_def Let_def)
qed

lemma guard_offset: "to_int64 (LOCKFILE_MAX + LOCKFILE_GUARD) = INT64_MAX"
  by (simp add: LOCKFILE_GUARD_def to_int64_id INT64_MAX_def)

lemma guard_released:
  assumes "offset \<noteq> INT64_MAX"
  shows "unlocked INT64_MAX 1 (lock_effect op ok offset n (add_mset (True, INT64_MAX, 1) M)) = lock_effect op ok offset n M"
  using assms
  by (auto simp: lock_effect_def unlocked_exclusive unlocked_other add_mset_commute [of _ "(True, INT64_MAX, 1)"])

lemma guard_lock_held:
  "offset \<noteq> INT64_MAX \<Longrightarrow> (True, INT64_MAX, 1) \<in># lock_effect op ok offset n (add_mset (True, INT64_MAX, 1) M)"
  by (auto simp: lock_effect_def unlocked_other)

lemma unlock_held:
  assumes "lock_contract api locks" "lk_handle api fd (world s) = Some h"
    and "(ex, to_int64 (LOCKFILE_MAX + start), n) \<in># locks (world s) h"
  shows "fst (wpdk_lockfile api F_UNLCK fd start n False s) = 0"
proof -
  have "fst (lk_unlock api h (to_int64 (LOCKFILE_MAX + start)) n (world s))"
    using assms(1,3) by (auto simp: lock_contract_def)
  then show ?thesis using assms(2)
    by (subst wpdk_lockfile.simps) (simp add: lock_request_def os_call_eq F_UNLCK_def F_WRLCK_def F_RDLCK_def Let_def)
qed

text \<open>A lock that does not wait has the same effect, and the guard lock is released in every case.\<close>

lemma lockfile_effect:
  assumes "lock_contract api locks" "op \<in> {F_RDLCK, F_WRLCK, F_UNLCK}" "lk_handle api fd (world s) = Some h"
    and "to_int64 (LOCKFILE_MAX + start) \<noteq> INT64_MAX"
  shows "\<exists>rc s'. wpdk_lockfile api op fd start n nowait s = (rc, s') \<and> rc \<in> {0, - 1} \<and>
    locks (world s') = (locks (world s))(h := lock_effect op (rc = 0) (to_int64 (LOCKFILE_MAX + start)) n (locks (world s) h)) \<and>
    lk_handle api fd (world s') = Some h"
proof (cases nowait)
  case False
  then show ?thesis using lockfile_wait_effect [OF assms(1-3)] assms(3) by simp
next
  case True
  let ?o = "to_int64 (LOCKFILE_MAX + start)" and ?M = "locks (world s) h"
  obtain g s1 where g: "wpdk_lockfile api F_WRLCK fd LOCKFILE_GUARD 1 False s = (g, s1)" "g \<in> {0, - 1}"
      "locks (world s1) = (locks (world s))(h := lock_effect F_WRLCK (g = 0) INT64_MAX 1 ?M)"
      "lk_handle api fd (world s1) = Some h"
    using lockfile_wait_effect [OF assms(1) _ assms(3), of F_WRLCK LOCKFILE_GUARD 1] assms(3)
    by (auto simp: guard_offset)
  show ?thesis
  proof (cases "g = - 1")
    case True
    then show ?thesis using \<open>nowait\<close> g assms(3)
      by (simp add: wpdk_lockfile.simps [of api op] lock_effect_def fun_upd_idem)
  next
    case False
    then have held: "locks (world s1) h = add_mset (True, INT64_MAX, 1) ?M"
      using g(2,3) by (auto simp: lock_effect_def errno_simps)
    obtain rc s2 where r: "lock_request api h op ?o n True s1 = Some (rc, s2)"
        "locks (world s2) = (locks (world s1))(h := lock_effect op rc ?o n (locks (world s1) h))"
        "lk_handle api fd (world s2) = Some h"
      using lock_request_effect [OF assms(1,2), of h ?o n True s1 fd] g(4) by auto
    obtain u s3 where u: "wpdk_lockfile api F_UNLCK fd LOCKFILE_GUARD 1 False s2 = (u, s3)" "u \<in> {0, - 1}"
        "locks (world s3) = (locks (world s2))(h := lock_effect F_UNLCK (u = 0) INT64_MAX 1 (locks (world s2) h))"
        "lk_handle api fd (world s3) = Some h"
      using lockfile_wait_effect [OF assms(1) _ r(3), of F_UNLCK LOCKFILE_GUARD 1] r(3)
      by (auto simp: guard_offset)
    have "(True, INT64_MAX, 1) \<in># locks (world s2) h"
      using r(2) held guard_lock_held [OF assms(4)] by simp
    then have "u = 0" using unlock_held [OF assms(1) r(3), of True LOCKFILE_GUARD 1] u(1) by (simp add: guard_offset)
    then have "locks (world s3) = (locks (world s))(h := lock_effect op rc ?o n ?M)"
      using u(3) r(2) g(3) held guard_released [OF assms(4)]
      by (simp add: lock_effect_def [of F_UNLCK])
    then show ?thesis using \<open>nowait\<close> g(1) False assms(3) r(1) u
      by (auto simp: wpdk_lockfile.simps [of api op] wpdk_windows_error_def set_errno_def Let_def)
  qed
qed

lemma test_lock_restores:
  assumes "op = F_WRLCK \<or> op = F_RDLCK \<and> (True, offset, n) \<notin># M"
  shows "unlocked offset n (lock_effect op True offset n M) = M"
  using assms by (auto simp: lock_effect_def unlocked_def errno_simps)


text \<open>An operation that is none of the three leaves the guard lock behind when it does not wait.\<close>

lemma bad_operation_keeps_guard:
  assumes "lock_contract api locks" "lk_handle api fd (world s) = Some h" "op \<notin> {F_RDLCK, F_WRLCK, F_UNLCK}"
    and "wpdk_lockfile api F_WRLCK fd LOCKFILE_GUARD 1 False s = (0, s1)"
  shows "\<exists>s'. wpdk_lockfile api op fd start n True s = (- 1, s') \<and> (True, INT64_MAX, 1) \<in># locks (world s') h"
proof -
  have "locks (world s1) = (locks (world s))(h := lock_effect F_WRLCK True INT64_MAX 1 (locks (world s) h))"
    using lockfile_wait_effect [OF assms(1) _ assms(2), of F_WRLCK LOCKFILE_GUARD 1] assms(4) by (simp add: guard_offset)
  then show ?thesis using assms(2-4)
    by (subst wpdk_lockfile.simps) (auto simp: lock_request_def wpdk_posix_error_def set_errno_def lock_effect_def F_WRLCK_def F_UNLCK_def)
qed

text \<open>A NULL pointer is used before it is refused.\<close>

lemma fcntl_null_flock: "fault (snd (snd (wpdk_fcntl_lockfile api fd cmd None s)))"
  by (simp add: wpdk_fcntl_lockfile_def set_fault_def set_errno_def)

section \<open>Instances\<close>

text \<open>A file at position 100, whose locks are always granted.\<close>

definition demo_lock_api :: "(nat \<Rightarrow> file_lock multiset) lock_api" where
  "demo_lock_api = \<lparr>lk_handle = \<lambda>_ _. Some 0, lk_tell = \<lambda>_ _. Inr 100, lk_file_size = \<lambda>_ _. Some 4096,
     lk_lock = \<lambda>h ex _ offset n w. (True, w(h := add_mset (ex, offset, n) (w h))),
     lk_unlock = \<lambda>h offset n w. ((True, offset, n) \<in># w h \<or> (False, offset, n) \<in># w h, w(h := unlocked offset n (w h))),
     lk_last_error = \<lambda>_. Werr1 ERROR_SUCCESS\<rparr>"

definition demo_lock_sys :: "(nat \<Rightarrow> file_lock multiset) sys" where
  "demo_lock_sys = \<lparr>errno = 0, fault = False, world = \<lambda>_. {#}\<rparr>"



end
