(* ===== verification/Queue_Links.thy ===== *)
theory Queue_Links
  imports WPDK_Prelude
begin

text \<open>
  The links of the lists and queues of \<^verbatim>\<open>inc/sys/queue.h\<close>. A place that holds a link is the head of a queue
  (\<open>H h\<close>) or an element (\<open>E e\<close>). Each has a first field, the pointer to the next element (\<open>None\<close> is NULL), and a
  second one, the address of such a pointer: \<^verbatim>\<open>prev\<close> of an element and \<^verbatim>\<open>last\<close> of a head. Heads and entries have the
  same layout, on which \<^verbatim>\<open>TAILQ_LAST\<close> and \<^verbatim>\<open>TAILQ_PREV\<close> rely; so the memory is a pair of functions on places, and
  the address of a pointer is the place it is in.

  This theory relates the links to lists of elements, for every kind of queue alike.
\<close>

datatype node = H nat | E nat

fun path :: "(node \<Rightarrow> nat option) \<Rightarrow> node \<Rightarrow> nat list \<Rightarrow> bool" where
  "path f p [] \<longleftrightarrow> f p = None"
| "path f p (x # xs) \<longleftrightarrow> f p = Some x \<and> path f (E x) xs"

fun backs :: "(node \<Rightarrow> node) \<Rightarrow> node \<Rightarrow> nat list \<Rightarrow> bool" where
  "backs g p [] \<longleftrightarrow> True"
| "backs g p (x # xs) \<longleftrightarrow> g (E x) = p \<and> backs g (E x) xs"

lemma node_image [simp]: "E x \<in> E ` A \<longleftrightarrow> x \<in> A" "H h \<notin> E ` A"
  by auto

definition lastn :: "node \<Rightarrow> nat list \<Rightarrow> node" where
  "lastn p xs = (if xs = [] then p else E (last xs))"

lemma lastn_simps [simp]:
  "lastn p [] = p" "lastn p (x # xs) = lastn (E x) xs" "lastn p (xs @ [x]) = E x"
  by (simp_all add: lastn_def)

lemma lastn_append: "lastn p (xs @ ys) = lastn (lastn p xs) ys"
  by (simp add: lastn_def)

lemma lastn_cases: "lastn p xs = p \<and> xs = [] \<or> (\<exists>x \<in> set xs. lastn p xs = E x)"
  by (auto simp: lastn_def)

lemma lastn_in: "lastn p xs \<in> insert p (E ` set xs)"
  by (auto simp: lastn_def)

subsection \<open>Changes elsewhere\<close>

lemma path_cong: "(\<And>n. n \<in> insert p (E ` set xs) \<Longrightarrow> f' n = f n) \<Longrightarrow> path f' p xs \<longleftrightarrow> path f p xs"
  by (induction xs arbitrary: p) auto

lemma back_cong: "(\<And>x. x \<in> set xs \<Longrightarrow> g' (E x) = g (E x)) \<Longrightarrow> backs g' p xs \<longleftrightarrow> backs g p xs"
  by (induction xs arbitrary: p) auto

lemma path_upd [simp]: "n \<noteq> p \<Longrightarrow> n \<notin> E ` set xs \<Longrightarrow> path (f(n := v)) p xs \<longleftrightarrow> path f p xs"
  by (rule path_cong) auto

lemma back_upd [simp]: "n \<notin> E ` set xs \<Longrightarrow> backs (g(n := v)) p xs \<longleftrightarrow> backs g p xs"
  by (rule back_cong) auto

subsection \<open>Appending and splitting\<close>

lemma path_end: "path f p xs \<Longrightarrow> f (lastn p xs) = None"
  by (induction xs arbitrary: p) auto

lemma path_at: "path f p (us @ x # vs) \<Longrightarrow> f (lastn p us) = Some x \<and> path f (E x) vs"
  by (induction us arbitrary: p) auto

lemma path_suffix: "path f p (us @ vs) \<Longrightarrow> path f (lastn p us) vs"
  by (induction us arbitrary: p) auto

lemma back_append: "backs g p (us @ vs) \<longleftrightarrow> backs g p us \<and> backs g (lastn p us) vs"
  by (induction us arbitrary: p) auto

lemma back_at: "backs g p (us @ x # vs) \<Longrightarrow> g (E x) = lastn p us"
  by (simp add: back_append)

lemma path_unique: "path f p xs \<Longrightarrow> path f p ys \<Longrightarrow> xs = ys"
proof (induction xs arbitrary: p ys)
  case Nil
  then show ?case by (cases ys) auto
next
  case (Cons x xs)
  then show ?case by (cases ys) auto
qed

subsection \<open>Inserting and removing\<close>

lemma path_insert:
  assumes "path f p (us @ vs)" "distinct (us @ vs)" "e \<notin> set (us @ vs)" "p \<notin> E ` set (us @ vs)" "p \<noteq> E e"
  shows "path (f(E e := f (lastn p us), lastn p us := Some e)) p (us @ e # vs)"
  using assms
proof (induction us arbitrary: p)
  case Nil
  show ?case
  proof (cases vs)
    case (Cons v ws)
    then have "path (f(E e := f p, p := Some e)) (E v) ws \<longleftrightarrow> path f (E v) ws"
      using Nil.prems by (intro path_cong) auto
    then show ?thesis using Nil.prems
      unfolding Cons append_Nil lastn_simps path.simps by simp
  qed (use Nil.prems in simp)
next
  case (Cons u us)
  have "lastn (E u) us \<noteq> p" using Cons.prems(4) lastn_in [of "E u" us] by auto
  then show ?case using Cons.IH [of "E u"] Cons.prems by auto
qed

lemma path_remove:
  assumes "path f p (us @ x # vs)" "distinct (us @ x # vs)" "p \<notin> E ` set (us @ x # vs)"
  shows "path (f(lastn p us := f (E x))) p (us @ vs)"
  using assms
proof (induction us arbitrary: p)
  case Nil
  show ?case
  proof (cases vs)
    case (Cons v ws)
    then have "path (f(p := f (E x))) (E v) ws \<longleftrightarrow> path f (E v) ws"
      using Nil.prems by (intro path_upd) auto
    then show ?thesis using Nil.prems unfolding Cons append_Nil lastn_simps path.simps by simp
  qed (use Nil.prems in simp)
next
  case (Cons u us)
  have "lastn (E u) us \<noteq> p" using Cons.prems(3) lastn_in [of "E u" us] by auto
  then show ?case using Cons.IH [of "E u"] Cons.prems by auto
qed

lemma path_concat:
  assumes "path f p us" "path f q vs" "vs \<noteq> []" "distinct us" "p \<notin> E ` set us" "p \<notin> E ` set vs"
    and "set us \<inter> set vs = {}"
  shows "path (f(lastn p us := f q)) p (us @ vs)"
  using assms
proof (induction us arbitrary: p)
  case Nil
  then obtain v ws where vs: "vs = v # ws" by (cases vs) auto
  then have "path (f(p := f q)) (E v) ws \<longleftrightarrow> path f (E v) ws"
    using Nil.prems by (intro path_upd) auto
  then show ?case using Nil.prems unfolding vs append_Nil lastn_simps path.simps by simp
next
  case (Cons u us)
  have "lastn (E u) us \<noteq> p" using Cons.prems(5) lastn_in [of "E u" us] by auto
  moreover have "path (f(lastn (E u) us := f q)) (E u) (us @ vs)"
    using Cons.prems by (intro Cons.IH) auto
  ultimately show ?case using Cons.prems(1) unfolding append_Cons lastn_simps path.simps by simp
qed

text \<open>The back link of the element that follows, if there is one.\<close>

definition relink :: "nat list \<Rightarrow> node \<Rightarrow> (node \<Rightarrow> node) \<Rightarrow> node \<Rightarrow> node" where
  "relink vs n g = (case vs of [] \<Rightarrow> g | v # _ \<Rightarrow> g(E v := n))"

lemma relink_simps [simp]: "relink [] n g = g" "relink (v # vs) n g = g(E v := n)"
  by (simp_all add: relink_def)

lemma relink_other: "m \<notin> E ` set vs \<Longrightarrow> relink vs n g m = g m"
  by (cases vs) auto

lemma back_relink_other: "set us \<inter> set vs = {} \<Longrightarrow> backs (relink vs n g) p us \<longleftrightarrow> backs g p us"
  by (cases vs) auto

lemma back_relink: "backs g p vs \<Longrightarrow> distinct vs \<Longrightarrow> backs (relink vs n g) n vs"
  by (cases vs) auto

lemma back_insert:
  assumes "backs g p (us @ vs)" "distinct (us @ vs)" "e \<notin> set (us @ vs)"
  shows "backs ((relink vs (E e) g)(E e := lastn p us)) p (us @ e # vs)"
proof -
  have "backs (relink vs (E e) g) p us"
    using assms by (simp add: back_relink_other back_append)
  moreover have "backs (relink vs (E e) g) (E e) vs"
    using assms back_relink [of g "lastn p us" vs] by (auto simp: back_append)
  ultimately show ?thesis using assms(3) by (auto simp: back_append)
qed

lemma back_remove:
  assumes "backs g p (us @ x # vs)" "distinct (us @ x # vs)"
  shows "backs (relink vs (lastn p us) g) p (us @ vs)"
proof -
  have "backs (relink vs (lastn p us) g) p us"
    using assms by (simp add: back_relink_other back_append)
  then show ?thesis using assms back_relink [of g "E x" vs "lastn p us"] by (simp add: back_append)
qed

lemma back_concat:
  assumes "backs g p us" "backs g q vs" "distinct vs" "set us \<inter> set vs = {}"
  shows "backs (relink vs (lastn p us) g) p (us @ vs)"
proof -
  have "backs (relink vs (lastn p us) g) p us"
    using assms by (simp add: back_relink_other)
  then show ?thesis using assms back_relink [of g q vs "lastn p us"] by (simp add: back_append)
qed

end
