(* ===== verification/Queue.thy ===== *)
theory Queue
  imports Queue_Links
begin

text \<open>
  The macros of \<^verbatim>\<open>inc/sys/queue.h\<close> for singly-linked lists (\<^verbatim>\<open>SLIST\<close>), singly-linked tail queues (\<^verbatim>\<open>STAILQ\<close>), lists
  (\<^verbatim>\<open>LIST\<close>) and tail queues (\<^verbatim>\<open>TAILQ\<close>), as they expand outside a kernel and without the debugging options. Each
  assignment of a macro is an update of the memory, in the order of the source. The argument \<^verbatim>\<open>field\<close>, which
  selects the entry of an element, has no counterpart.

  A macro that dereferences a NULL pointer yields \<open>None\<close>, as does a loop that does not end.
\<close>

section \<open>Memory\<close>

record qmem =
  q_next :: "node \<Rightarrow> nat option"
  q_prev :: "node \<Rightarrow> node"

definition set_next :: "node \<Rightarrow> nat option \<Rightarrow> qmem \<Rightarrow> qmem" where
  "set_next n v m = m\<lparr>q_next := (q_next m)(n := v)\<rparr>"

definition set_prev :: "node \<Rightarrow> node \<Rightarrow> qmem \<Rightarrow> qmem" where
  "set_prev n v m = m\<lparr>q_prev := (q_prev m)(n := v)\<rparr>"

text \<open>\<^verbatim>\<open>__containerof\<close>: the element whose entry is at the address.\<close>

definition containerof :: "node \<Rightarrow> nat option" where
  "containerof n = (case n of E x \<Rightarrow> Some x | H _ \<Rightarrow> None)"

section \<open>Singly-linked lists\<close>

definition SLIST_FIRST :: "nat \<Rightarrow> qmem \<Rightarrow> nat option" where "SLIST_FIRST head m = q_next m (H head)"

definition SLIST_NEXT :: "nat \<Rightarrow> qmem \<Rightarrow> nat option" where "SLIST_NEXT elm m = q_next m (E elm)"

definition SLIST_EMPTY :: "nat \<Rightarrow> qmem \<Rightarrow> bool" where "SLIST_EMPTY head m = (SLIST_FIRST head m = None)"

definition SLIST_INIT :: "nat \<Rightarrow> qmem \<Rightarrow> qmem" where "SLIST_INIT head m = set_next (H head) None m"

definition SLIST_INSERT_AFTER :: "nat \<Rightarrow> nat \<Rightarrow> qmem \<Rightarrow> qmem" where
  "SLIST_INSERT_AFTER slistelm elm m =
     (let m1 = set_next (E elm) (SLIST_NEXT slistelm m) m in set_next (E slistelm) (Some elm) m1)"

definition SLIST_INSERT_HEAD :: "nat \<Rightarrow> nat \<Rightarrow> qmem \<Rightarrow> qmem" where
  "SLIST_INSERT_HEAD head elm m =
     (let m1 = set_next (E elm) (SLIST_FIRST head m) m in set_next (H head) (Some elm) m1)"

definition SLIST_REMOVE_AFTER :: "nat \<Rightarrow> qmem \<Rightarrow> qmem option" where
  "SLIST_REMOVE_AFTER elm m =
     (case SLIST_NEXT elm m of None \<Rightarrow> None | Some x \<Rightarrow> Some (set_next (E elm) (SLIST_NEXT x m) m))"

definition SLIST_REMOVE_HEAD :: "nat \<Rightarrow> qmem \<Rightarrow> qmem option" where
  "SLIST_REMOVE_HEAD head m =
     (case SLIST_FIRST head m of None \<Rightarrow> None | Some x \<Rightarrow> Some (set_next (H head) (SLIST_NEXT x m) m))"

definition SLIST_REMOVE_PREVPTR :: "node \<Rightarrow> nat \<Rightarrow> qmem \<Rightarrow> qmem" where
  "SLIST_REMOVE_PREVPTR prevp elm m = set_next prevp (SLIST_NEXT elm m) m"

text \<open>The loops of \<^verbatim>\<open>REMOVE\<close> and \<^verbatim>\<open>CONCAT\<close>, which find the element before \<open>elm\<close> and the last element.\<close>

partial_function (option) find_before :: "qmem \<Rightarrow> nat \<Rightarrow> nat \<Rightarrow> nat option" where
  "find_before m elm curelm =
     (if q_next m (E curelm) \<noteq> Some elm
      then (case q_next m (E curelm) of None \<Rightarrow> None | Some c \<Rightarrow> find_before m elm c)
      else Some curelm)"

partial_function (option) find_last :: "qmem \<Rightarrow> nat \<Rightarrow> nat option" where
  "find_last m curelm = (case q_next m (E curelm) of None \<Rightarrow> Some curelm | Some c \<Rightarrow> find_last m c)"

definition SLIST_REMOVE :: "nat \<Rightarrow> nat \<Rightarrow> qmem \<Rightarrow> qmem option" where
  "SLIST_REMOVE head elm m =
     (if SLIST_FIRST head m = Some elm then SLIST_REMOVE_HEAD head m
      else (case SLIST_FIRST head m of
              None \<Rightarrow> None
            | Some curelm \<Rightarrow> Option.bind (find_before m elm curelm) (\<lambda>c. SLIST_REMOVE_AFTER c m)))"

definition SLIST_CONCAT :: "nat \<Rightarrow> nat \<Rightarrow> qmem \<Rightarrow> qmem option" where
  "SLIST_CONCAT head1 head2 m =
     (case SLIST_FIRST head1 m of
        None \<Rightarrow>
          (let m1 = set_next (H head1) (SLIST_FIRST head2 m) m
           in Some (if SLIST_FIRST head1 m1 \<noteq> None then SLIST_INIT head2 m1 else m1))
      | Some curelm \<Rightarrow>
          if SLIST_FIRST head2 m \<noteq> None
          then map_option (\<lambda>c. SLIST_INIT head2 (set_next (E c) (SLIST_FIRST head2 m) m)) (find_last m curelm)
          else Some m)"

definition SLIST_SWAP :: "nat \<Rightarrow> nat \<Rightarrow> qmem \<Rightarrow> qmem" where
  "SLIST_SWAP head1 head2 m =
     (let swap_first = SLIST_FIRST head1 m;
          m1 = set_next (H head1) (SLIST_FIRST head2 m) m
      in set_next (H head2) swap_first m1)"

text \<open>
  The elements that \<^verbatim>\<open>FOREACH\<close> visits from \<open>var\<close> on, for every kind of list, when the body leaves the memory
  alone; and \<^verbatim>\<open>FOREACH_SAFE\<close>, whose body may change it.
\<close>

partial_function (option) FOREACH_FROM :: "qmem \<Rightarrow> nat option \<Rightarrow> nat list option" where
  "FOREACH_FROM m var =
     (case var of None \<Rightarrow> Some [] | Some v \<Rightarrow> Option.bind (FOREACH_FROM m (q_next m (E v))) (\<lambda>vs. Some (v # vs)))"

definition FOREACH :: "nat \<Rightarrow> qmem \<Rightarrow> nat list option" where
  "FOREACH head m = FOREACH_FROM m (q_next m (H head))"

partial_function (option) FOREACH_FROM_SAFE :: "(nat \<Rightarrow> qmem \<Rightarrow> qmem option) \<Rightarrow> nat option \<Rightarrow> qmem \<Rightarrow> qmem option" where
  "FOREACH_FROM_SAFE body var m =
     (case var of
        None \<Rightarrow> Some m
      | Some v \<Rightarrow>
          (let tvar = q_next m (E v) in Option.bind (body v m) (\<lambda>m1. FOREACH_FROM_SAFE body tvar m1)))"

definition FOREACH_SAFE :: "(nat \<Rightarrow> qmem \<Rightarrow> qmem option) \<Rightarrow> nat \<Rightarrow> qmem \<Rightarrow> qmem option" where
  "FOREACH_SAFE body head m = FOREACH_FROM_SAFE body (q_next m (H head)) m"

section \<open>Singly-linked tail queues\<close>

definition STAILQ_FIRST :: "nat \<Rightarrow> qmem \<Rightarrow> nat option" where "STAILQ_FIRST head m = q_next m (H head)"

definition STAILQ_NEXT :: "nat \<Rightarrow> qmem \<Rightarrow> nat option" where "STAILQ_NEXT elm m = q_next m (E elm)"

definition STAILQ_EMPTY :: "nat \<Rightarrow> qmem \<Rightarrow> bool" where "STAILQ_EMPTY head m = (STAILQ_FIRST head m = None)"

definition STAILQ_INIT :: "nat \<Rightarrow> qmem \<Rightarrow> qmem" where
  "STAILQ_INIT head m = set_prev (H head) (H head) (set_next (H head) None m)"

definition STAILQ_INSERT_AFTER :: "nat \<Rightarrow> nat \<Rightarrow> nat \<Rightarrow> qmem \<Rightarrow> qmem" where
  "STAILQ_INSERT_AFTER head tqelm elm m =
     (let m1 = set_next (E elm) (STAILQ_NEXT tqelm m) m;
          m2 = (if STAILQ_NEXT elm m1 = None then set_prev (H head) (E elm) m1 else m1)
      in set_next (E tqelm) (Some elm) m2)"

definition STAILQ_INSERT_HEAD :: "nat \<Rightarrow> nat \<Rightarrow> qmem \<Rightarrow> qmem" where
  "STAILQ_INSERT_HEAD head elm m =
     (let m1 = set_next (E elm) (STAILQ_FIRST head m) m;
          m2 = (if STAILQ_NEXT elm m1 = None then set_prev (H head) (E elm) m1 else m1)
      in set_next (H head) (Some elm) m2)"

definition STAILQ_INSERT_TAIL :: "nat \<Rightarrow> nat \<Rightarrow> qmem \<Rightarrow> qmem" where
  "STAILQ_INSERT_TAIL head elm m =
     (let m1 = set_next (E elm) None m;
          m2 = set_next (q_prev m1 (H head)) (Some elm) m1
      in set_prev (H head) (E elm) m2)"

definition STAILQ_LAST :: "nat \<Rightarrow> qmem \<Rightarrow> nat option" where
  "STAILQ_LAST head m = (if STAILQ_EMPTY head m then None else containerof (q_prev m (H head)))"

definition STAILQ_REMOVE_AFTER :: "nat \<Rightarrow> nat \<Rightarrow> qmem \<Rightarrow> qmem option" where
  "STAILQ_REMOVE_AFTER head elm m =
     (case STAILQ_NEXT elm m of
        None \<Rightarrow> None
      | Some x \<Rightarrow>
          (let m1 = set_next (E elm) (STAILQ_NEXT x m) m
           in Some (if STAILQ_NEXT elm m1 = None then set_prev (H head) (E elm) m1 else m1)))"

definition STAILQ_REMOVE_HEAD :: "nat \<Rightarrow> qmem \<Rightarrow> qmem option" where
  "STAILQ_REMOVE_HEAD head m =
     (case STAILQ_FIRST head m of
        None \<Rightarrow> None
      | Some x \<Rightarrow>
          (let m1 = set_next (H head) (STAILQ_NEXT x m) m
           in Some (if STAILQ_FIRST head m1 = None then set_prev (H head) (H head) m1 else m1)))"

definition STAILQ_REMOVE :: "nat \<Rightarrow> nat \<Rightarrow> qmem \<Rightarrow> qmem option" where
  "STAILQ_REMOVE head elm m =
     (if STAILQ_FIRST head m = Some elm then STAILQ_REMOVE_HEAD head m
      else (case STAILQ_FIRST head m of
              None \<Rightarrow> None
            | Some curelm \<Rightarrow> Option.bind (find_before m elm curelm) (\<lambda>c. STAILQ_REMOVE_AFTER head c m)))"

definition STAILQ_CONCAT :: "nat \<Rightarrow> nat \<Rightarrow> qmem \<Rightarrow> qmem" where
  "STAILQ_CONCAT head1 head2 m =
     (if \<not> STAILQ_EMPTY head2 m
      then (let m1 = set_next (q_prev m (H head1)) (q_next m (H head2)) m;
                m2 = set_prev (H head1) (q_prev m1 (H head2)) m1
            in STAILQ_INIT head2 m2)
      else m)"

definition STAILQ_SWAP :: "nat \<Rightarrow> nat \<Rightarrow> qmem \<Rightarrow> qmem" where
  "STAILQ_SWAP head1 head2 m =
     (let swap_first = STAILQ_FIRST head1 m;
          swap_last = q_prev m (H head1);
          m1 = set_next (H head1) (STAILQ_FIRST head2 m) m;
          m2 = set_prev (H head1) (q_prev m1 (H head2)) m1;
          m3 = set_next (H head2) swap_first m2;
          m4 = set_prev (H head2) swap_last m3;
          m5 = (if STAILQ_EMPTY head1 m4 then set_prev (H head1) (H head1) m4 else m4)
      in if STAILQ_EMPTY head2 m5 then set_prev (H head2) (H head2) m5 else m5)"

section \<open>Lists\<close>

definition LIST_FIRST :: "nat \<Rightarrow> qmem \<Rightarrow> nat option" where "LIST_FIRST head m = q_next m (H head)"

definition LIST_NEXT :: "nat \<Rightarrow> qmem \<Rightarrow> nat option" where "LIST_NEXT elm m = q_next m (E elm)"

definition LIST_EMPTY :: "nat \<Rightarrow> qmem \<Rightarrow> bool" where "LIST_EMPTY head m = (LIST_FIRST head m = None)"

definition LIST_INIT :: "nat \<Rightarrow> qmem \<Rightarrow> qmem" where "LIST_INIT head m = set_next (H head) None m"

definition LIST_INSERT_AFTER :: "nat \<Rightarrow> nat \<Rightarrow> qmem \<Rightarrow> qmem" where
  "LIST_INSERT_AFTER listelm elm m =
     (let m1 = set_next (E elm) (LIST_NEXT listelm m) m;
          m2 = (if LIST_NEXT elm m1 \<noteq> None
                then (case LIST_NEXT listelm m1 of None \<Rightarrow> m1 | Some x \<Rightarrow> set_prev (E x) (E elm) m1) else m1);
          m3 = set_next (E listelm) (Some elm) m2
      in set_prev (E elm) (E listelm) m3)"

definition LIST_INSERT_BEFORE :: "nat \<Rightarrow> nat \<Rightarrow> qmem \<Rightarrow> qmem" where
  "LIST_INSERT_BEFORE listelm elm m =
     (let m1 = set_prev (E elm) (q_prev m (E listelm)) m;
          m2 = set_next (E elm) (Some listelm) m1;
          m3 = set_next (q_prev m2 (E listelm)) (Some elm) m2
      in set_prev (E listelm) (E elm) m3)"

definition LIST_INSERT_HEAD :: "nat \<Rightarrow> nat \<Rightarrow> qmem \<Rightarrow> qmem" where
  "LIST_INSERT_HEAD head elm m =
     (let m1 = set_next (E elm) (LIST_FIRST head m) m;
          m2 = (case LIST_FIRST head m1 of None \<Rightarrow> m1 | Some x \<Rightarrow> set_prev (E x) (E elm) m1);
          m3 = set_next (H head) (Some elm) m2
      in set_prev (E elm) (H head) m3)"

definition LIST_PREV :: "nat \<Rightarrow> nat \<Rightarrow> qmem \<Rightarrow> nat option" where
  "LIST_PREV elm head m = (if q_prev m (E elm) = H head then None else containerof (q_prev m (E elm)))"

definition LIST_REMOVE :: "nat \<Rightarrow> qmem \<Rightarrow> qmem" where
  "LIST_REMOVE elm m =
     (let m1 = (case LIST_NEXT elm m of None \<Rightarrow> m | Some x \<Rightarrow> set_prev (E x) (q_prev m (E elm)) m)
      in set_next (q_prev m1 (E elm)) (LIST_NEXT elm m1) m1)"

definition LIST_CONCAT :: "nat \<Rightarrow> nat \<Rightarrow> qmem \<Rightarrow> qmem option" where
  "LIST_CONCAT head1 head2 m =
     (case LIST_FIRST head1 m of
        None \<Rightarrow>
          (let m1 = set_next (H head1) (LIST_FIRST head2 m) m
           in case LIST_FIRST head2 m1 of
                None \<Rightarrow> Some m1
              | Some x \<Rightarrow> Some (LIST_INIT head2 (set_prev (E x) (H head1) m1)))
      | Some curelm \<Rightarrow>
          (case LIST_FIRST head2 m of
             None \<Rightarrow> Some m
           | Some x \<Rightarrow>
               map_option (\<lambda>c. LIST_INIT head2 (set_prev (E x) (E c) (set_next (E c) (Some x) m))) (find_last m curelm)))"

definition LIST_SWAP :: "nat \<Rightarrow> nat \<Rightarrow> qmem \<Rightarrow> qmem" where
  "LIST_SWAP head1 head2 m =
     (let swap_tmp = LIST_FIRST head1 m;
          m1 = set_next (H head1) (LIST_FIRST head2 m) m;
          m2 = set_next (H head2) swap_tmp m1;
          m3 = (case LIST_FIRST head1 m2 of None \<Rightarrow> m2 | Some x \<Rightarrow> set_prev (E x) (H head1) m2)
      in case LIST_FIRST head2 m3 of None \<Rightarrow> m3 | Some x \<Rightarrow> set_prev (E x) (H head2) m3)"

section \<open>Tail queues\<close>

definition TAILQ_FIRST :: "nat \<Rightarrow> qmem \<Rightarrow> nat option" where "TAILQ_FIRST head m = q_next m (H head)"

definition TAILQ_NEXT :: "nat \<Rightarrow> qmem \<Rightarrow> nat option" where "TAILQ_NEXT elm m = q_next m (E elm)"

definition TAILQ_EMPTY :: "nat \<Rightarrow> qmem \<Rightarrow> bool" where "TAILQ_EMPTY head m = (TAILQ_FIRST head m = None)"

definition TAILQ_INIT :: "nat \<Rightarrow> qmem \<Rightarrow> qmem" where
  "TAILQ_INIT head m = set_prev (H head) (H head) (set_next (H head) None m)"

definition TAILQ_INSERT_AFTER :: "nat \<Rightarrow> nat \<Rightarrow> nat \<Rightarrow> qmem \<Rightarrow> qmem" where
  "TAILQ_INSERT_AFTER head listelm elm m =
     (let m1 = set_next (E elm) (TAILQ_NEXT listelm m) m;
          m2 = (case TAILQ_NEXT elm m1 of
                  Some x \<Rightarrow> set_prev (E x) (E elm) m1
                | None \<Rightarrow> set_prev (H head) (E elm) m1);
          m3 = set_next (E listelm) (Some elm) m2
      in set_prev (E elm) (E listelm) m3)"

definition TAILQ_INSERT_BEFORE :: "nat \<Rightarrow> nat \<Rightarrow> qmem \<Rightarrow> qmem" where
  "TAILQ_INSERT_BEFORE listelm elm m =
     (let m1 = set_prev (E elm) (q_prev m (E listelm)) m;
          m2 = set_next (E elm) (Some listelm) m1;
          m3 = set_next (q_prev m2 (E listelm)) (Some elm) m2
      in set_prev (E listelm) (E elm) m3)"

definition TAILQ_INSERT_HEAD :: "nat \<Rightarrow> nat \<Rightarrow> qmem \<Rightarrow> qmem" where
  "TAILQ_INSERT_HEAD head elm m =
     (let m1 = set_next (E elm) (TAILQ_FIRST head m) m;
          m2 = (case TAILQ_FIRST head m1 of
                  Some x \<Rightarrow> set_prev (E x) (E elm) m1
                | None \<Rightarrow> set_prev (H head) (E elm) m1);
          m3 = set_next (H head) (Some elm) m2
      in set_prev (E elm) (H head) m3)"

definition TAILQ_INSERT_TAIL :: "nat \<Rightarrow> nat \<Rightarrow> qmem \<Rightarrow> qmem" where
  "TAILQ_INSERT_TAIL head elm m =
     (let m1 = set_next (E elm) None m;
          m2 = set_prev (E elm) (q_prev m1 (H head)) m1;
          m3 = set_next (q_prev m2 (H head)) (Some elm) m2
      in set_prev (H head) (E elm) m3)"

text \<open>The address of a pointer is read as that of a head, whose second field is at the same offset.\<close>

definition TAILQ_LAST :: "nat \<Rightarrow> qmem \<Rightarrow> nat option" where
  "TAILQ_LAST head m = q_next m (q_prev m (q_prev m (H head)))"

definition TAILQ_LAST_FAST :: "nat \<Rightarrow> qmem \<Rightarrow> nat option" where
  "TAILQ_LAST_FAST head m = (if TAILQ_EMPTY head m then None else containerof (q_prev m (H head)))"

definition TAILQ_PREV :: "nat \<Rightarrow> qmem \<Rightarrow> nat option" where
  "TAILQ_PREV elm m = q_next m (q_prev m (q_prev m (E elm)))"

definition TAILQ_PREV_FAST :: "nat \<Rightarrow> nat \<Rightarrow> qmem \<Rightarrow> nat option" where
  "TAILQ_PREV_FAST elm head m = (if q_prev m (E elm) = H head then None else containerof (q_prev m (E elm)))"

definition TAILQ_REMOVE :: "nat \<Rightarrow> nat \<Rightarrow> qmem \<Rightarrow> qmem" where
  "TAILQ_REMOVE head elm m =
     (let m1 = (case TAILQ_NEXT elm m of
                  Some x \<Rightarrow> set_prev (E x) (q_prev m (E elm)) m
                | None \<Rightarrow> set_prev (H head) (q_prev m (E elm)) m)
      in set_next (q_prev m1 (E elm)) (TAILQ_NEXT elm m1) m1)"

definition TAILQ_CONCAT :: "nat \<Rightarrow> nat \<Rightarrow> qmem \<Rightarrow> qmem" where
  "TAILQ_CONCAT head1 head2 m =
     (case TAILQ_FIRST head2 m of
        None \<Rightarrow> m
      | Some x \<Rightarrow>
          (let m1 = set_next (q_prev m (H head1)) (Some x) m;
               m2 = set_prev (E x) (q_prev m1 (H head1)) m1;
               m3 = set_prev (H head1) (q_prev m2 (H head2)) m2
           in TAILQ_INIT head2 m3))"

definition TAILQ_SWAP :: "nat \<Rightarrow> nat \<Rightarrow> qmem \<Rightarrow> qmem" where
  "TAILQ_SWAP head1 head2 m =
     (let swap_first = q_next m (H head1);
          swap_last = q_prev m (H head1);
          m1 = set_next (H head1) (q_next m (H head2)) m;
          m2 = set_prev (H head1) (q_prev m1 (H head2)) m1;
          m3 = set_next (H head2) swap_first m2;
          m4 = set_prev (H head2) swap_last m3;
          m5 = (case q_next m4 (H head1) of
                  Some x \<Rightarrow> set_prev (E x) (H head1) m4
                | None \<Rightarrow> set_prev (H head1) (H head1) m4)
      in case q_next m5 (H head2) of
           Some x \<Rightarrow> set_prev (E x) (H head2) m5
         | None \<Rightarrow> set_prev (H head2) (H head2) m5)"

partial_function (option) FOREACH_REVERSE_FROM :: "qmem \<Rightarrow> nat option \<Rightarrow> nat list option" where
  "FOREACH_REVERSE_FROM m var =
     (case var of None \<Rightarrow> Some [] | Some v \<Rightarrow> Option.bind (FOREACH_REVERSE_FROM m (TAILQ_PREV v m)) (\<lambda>vs. Some (v # vs)))"

definition FOREACH_REVERSE :: "nat \<Rightarrow> qmem \<Rightarrow> nat list option" where
  "FOREACH_REVERSE head m = FOREACH_REVERSE_FROM m (TAILQ_LAST head m)"

partial_function (option) FOREACH_REVERSE_FROM_SAFE ::
  "(nat \<Rightarrow> qmem \<Rightarrow> qmem option) \<Rightarrow> nat option \<Rightarrow> qmem \<Rightarrow> qmem option" where
  "FOREACH_REVERSE_FROM_SAFE body var m =
     (case var of
        None \<Rightarrow> Some m
      | Some v \<Rightarrow>
          (let tvar = TAILQ_PREV v m in Option.bind (body v m) (\<lambda>m1. FOREACH_REVERSE_FROM_SAFE body tvar m1)))"

definition FOREACH_REVERSE_SAFE :: "(nat \<Rightarrow> qmem \<Rightarrow> qmem option) \<Rightarrow> nat \<Rightarrow> qmem \<Rightarrow> qmem option" where
  "FOREACH_REVERSE_SAFE body head m = FOREACH_REVERSE_FROM_SAFE body (TAILQ_LAST head m) m"

text \<open>The traversal that also yields the address of the pointer to each element.\<close>

partial_function (option) prevptr_from :: "qmem \<Rightarrow> node \<Rightarrow> (node \<times> nat) list option" where
  "prevptr_from m varp =
     (case q_next m varp of
        None \<Rightarrow> Some []
      | Some var \<Rightarrow> Option.bind (prevptr_from m (E var)) (\<lambda>vs. Some ((varp, var) # vs)))"

definition SLIST_FOREACH_PREVPTR :: "nat \<Rightarrow> qmem \<Rightarrow> (node \<times> nat) list option" where
  "SLIST_FOREACH_PREVPTR head m = prevptr_from m (H head)"

end
