(* ===== verification/Queue_Refine.thy ===== *)
theory Queue_Refine
  imports Queue Fifo
begin

text \<open>
  The lists and queues of \<^verbatim>\<open>inc/sys/queue.h\<close> implement lists of elements. The memory is related to a family of
  lists, one for every head, that have no element in common.
\<close>

section \<open>Representation\<close>

definition slist :: "qmem \<Rightarrow> nat \<Rightarrow> nat list \<Rightarrow> bool" where
  "slist m h xs \<longleftrightarrow> path (q_next m) (H h) xs \<and> distinct xs"

definition stailq :: "qmem \<Rightarrow> nat \<Rightarrow> nat list \<Rightarrow> bool" where
  "stailq m h xs \<longleftrightarrow> slist m h xs \<and> q_prev m (H h) = lastn (H h) xs"

definition dlist :: "qmem \<Rightarrow> nat \<Rightarrow> nat list \<Rightarrow> bool" where
  "dlist m h xs \<longleftrightarrow> slist m h xs \<and> backs (q_prev m) (H h) xs"

definition tailq :: "qmem \<Rightarrow> nat \<Rightarrow> nat list \<Rightarrow> bool" where
  "tailq m h xs \<longleftrightarrow> dlist m h xs \<and> q_prev m (H h) = lastn (H h) xs"

lemmas queue_reps = slist_def stailq_def dlist_def tailq_def

lemma set_next_sel [simp]: "q_next (set_next n v m) = (q_next m)(n := v)" "q_prev (set_next n v m) = q_prev m"
  by (simp_all add: set_next_def)

lemma set_prev_sel [simp]: "q_prev (set_prev n v m) = (q_prev m)(n := v)" "q_next (set_prev n v m) = q_next m"
  by (simp_all add: set_prev_def)

definition same_outside :: "node set \<Rightarrow> qmem \<Rightarrow> qmem \<Rightarrow> bool" where
  "same_outside A m m' \<longleftrightarrow> (\<forall>n. n \<notin> A \<longrightarrow> q_next m' n = q_next m n \<and> q_prev m' n = q_prev m n)"

lemma tailq_frame:
  assumes "tailq m h xs" "same_outside A m m'" "A \<inter> insert (H h) (E ` set xs) = {}"
  shows "tailq m' h xs"
proof -
  have same: "q_next m' n = q_next m n" "q_prev m' n = q_prev m n" if "n \<in> insert (H h) (E ` set xs)" for n
    using assms(2,3) that by (auto simp: same_outside_def)
  have "path (q_next m') (H h) xs \<longleftrightarrow> path (q_next m) (H h) xs" by (rule path_cong) (rule same)
  moreover have "backs (q_prev m') (H h) xs \<longleftrightarrow> backs (q_prev m) (H h) xs" by (rule back_cong) (simp add: same)
  ultimately show ?thesis using assms(1) same(2) [of "H h"] by (simp add: queue_reps)
qed

section \<open>Links of a tail queue\<close>

lemma tailq_insert:
  assumes "tailq m h (us @ vs)" "e \<notin> set (us @ vs)"
    and "q_next m' = (q_next m)(E e := q_next m (lastn (H h) us), lastn (H h) us := Some e)"
    and "q_prev m' = (if vs = [] then (q_prev m)(H h := E e) else relink vs (E e) (q_prev m))(E e := lastn (H h) us)"
  shows "tailq m' h (us @ e # vs) \<and> same_outside (insert (H h) (E ` set (us @ e # vs))) m m'"
proof
  have p: "path (q_next m) (H h) (us @ vs)" "distinct (us @ vs)" "backs (q_prev m) (H h) (us @ vs)"
    using assms(1) by (simp_all add: queue_reps)
  have "path (q_next m') (H h) (us @ e # vs)" unfolding assms(3) by (rule path_insert) (use p assms(2) in auto)
  moreover have "backs (q_prev m') (H h) (us @ e # vs)"
    using back_insert [OF p(3,2) assms(2)] p(3) assms(2) unfolding assms(4) by (auto simp: back_append)
  moreover have "q_prev m' (H h) = lastn (H h) (us @ e # vs)"
    using assms(1) unfolding assms(4) by (cases vs) (auto simp: queue_reps lastn_append)
  ultimately show "tailq m' h (us @ e # vs)" using p(2) assms(2) by (auto simp: queue_reps)
  show "same_outside (insert (H h) (E ` set (us @ e # vs))) m m'"
    using lastn_in [of "H h" us] unfolding same_outside_def assms(3,4) by (cases vs) auto
qed

lemma tailq_remove:
  assumes "tailq m h (us @ x # vs)"
    and "q_next m' = (q_next m)(lastn (H h) us := q_next m (E x))"
    and "q_prev m' = (if vs = [] then (q_prev m)(H h := lastn (H h) us) else relink vs (lastn (H h) us) (q_prev m))"
  shows "tailq m' h (us @ vs) \<and> same_outside (insert (H h) (E ` set (us @ x # vs))) m m'"
proof
  have p: "path (q_next m) (H h) (us @ x # vs)" "distinct (us @ x # vs)" "backs (q_prev m) (H h) (us @ x # vs)"
    using assms(1) by (simp_all add: queue_reps)
  have "path (q_next m') (H h) (us @ vs)" unfolding assms(2) by (rule path_remove) (use p in auto)
  moreover have "backs (q_prev m') (H h) (us @ vs)"
    using back_remove [OF p(3,2)] p(3) unfolding assms(3) by (auto simp: back_append)
  moreover have "q_prev m' (H h) = lastn (H h) (us @ vs)"
    using assms(1) unfolding assms(3) by (cases vs) (auto simp: queue_reps lastn_append)
  ultimately show "tailq m' h (us @ vs)" using p(2) by (auto simp: queue_reps)
  show "same_outside (insert (H h) (E ` set (us @ x # vs))) m m'"
    using lastn_in [of "H h" us] unfolding same_outside_def assms(2,3) by (cases vs) auto
qed

text \<open>What the fields of the memory hold.\<close>

lemma dlist_fields:
  assumes "dlist m h (us @ x # vs)"
  shows "q_next m (lastn (H h) us) = Some x" "q_prev m (E x) = lastn (H h) us"
    "q_next m (E x) = (case vs of [] \<Rightarrow> None | v # _ \<Rightarrow> Some v)"
proof -
  have p: "path (q_next m) (H h) (us @ x # vs)" "backs (q_prev m) (H h) (us @ x # vs)"
    using assms by (simp_all add: queue_reps)
  show "q_next m (lastn (H h) us) = Some x" using path_at [OF p(1)] by simp
  show "q_prev m (E x) = lastn (H h) us" using back_at [OF p(2)] .
  have "path (q_next m) (E x) vs" using path_at [OF p(1)] by simp
  then show "q_next m (E x) = (case vs of [] \<Rightarrow> None | v # _ \<Rightarrow> Some v)" by (cases vs) auto
qed

lemma tailq_fields:
  assumes "tailq m h (us @ x # vs)"
  shows "q_next m (lastn (H h) us) = Some x" "q_prev m (E x) = lastn (H h) us"
    "q_next m (E x) = (case vs of [] \<Rightarrow> None | v # _ \<Rightarrow> Some v)"
  using dlist_fields [of m h us x vs] assms by (simp_all add: tailq_def)

lemma tailq_head_fields:
  assumes "tailq m h xs"
  shows "q_next m (H h) = (case xs of [] \<Rightarrow> None | v # _ \<Rightarrow> Some v)" "q_prev m (H h) = lastn (H h) xs"
    "q_next m (lastn (H h) xs) = None"
  using assms path_end [of "q_next m" "H h" xs] by (cases xs; simp add: queue_reps)+

section \<open>The macros on tail queues\<close>

lemma TAILQ_INSERT_HEAD_refines:
  assumes "tailq m h xs" "e \<notin> set xs"
  shows "tailq (TAILQ_INSERT_HEAD h e m) h (e # xs) \<and>
    same_outside (insert (H h) (E ` set (e # xs))) m (TAILQ_INSERT_HEAD h e m)"
  using tailq_insert [of m h "[]" xs e "TAILQ_INSERT_HEAD h e m"] assms tailq_head_fields [OF assms(1)]
  by (cases xs) (simp_all add: TAILQ_INSERT_HEAD_def Let_def TAILQ_FIRST_def)

lemma TAILQ_INSERT_TAIL_refines:
  assumes "tailq m h xs" "e \<notin> set xs"
  shows "tailq (TAILQ_INSERT_TAIL h e m) h (xs @ [e]) \<and>
    same_outside (insert (H h) (E ` set (xs @ [e]))) m (TAILQ_INSERT_TAIL h e m)"
proof (rule tailq_insert [of m h xs "[]" e])
  show "q_next (TAILQ_INSERT_TAIL h e m) = (q_next m)(E e := q_next m (lastn (H h) xs), lastn (H h) xs := Some e)"
    using tailq_head_fields [OF assms(1)] by (simp add: TAILQ_INSERT_TAIL_def Let_def)
  show "q_prev (TAILQ_INSERT_TAIL h e m) =
      (if [] = [] then (q_prev m)(H h := E e) else relink [] (E e) (q_prev m))(E e := lastn (H h) xs)"
    using tailq_head_fields [OF assms(1)] by (simp add: TAILQ_INSERT_TAIL_def Let_def fun_upd_twist)
qed (use assms in simp_all)

lemma TAILQ_INSERT_AFTER_refines:
  assumes "tailq m h (us @ a # vs)" "e \<notin> set (us @ a # vs)"
  shows "tailq (TAILQ_INSERT_AFTER h a e m) h (us @ a # e # vs) \<and>
    same_outside (insert (H h) (E ` set (us @ a # e # vs))) m (TAILQ_INSERT_AFTER h a e m)"
  using tailq_insert [of m h "us @ [a]" vs e "TAILQ_INSERT_AFTER h a e m"] assms tailq_fields [OF assms(1)]
  by (cases vs) (simp_all add: TAILQ_INSERT_AFTER_def Let_def TAILQ_NEXT_def)

lemma TAILQ_INSERT_BEFORE_refines:
  assumes "tailq m h (us @ a # vs)" "e \<notin> set (us @ a # vs)"
  shows "tailq (TAILQ_INSERT_BEFORE a e m) h (us @ e # a # vs) \<and>
    same_outside (insert (H h) (E ` set (us @ e # a # vs))) m (TAILQ_INSERT_BEFORE a e m)"
proof -
  have "e \<noteq> a" using assms(2) by auto
  then show ?thesis
    using tailq_insert [of m h us "a # vs" e "TAILQ_INSERT_BEFORE a e m"] assms tailq_fields [OF assms(1)]
    by (simp add: TAILQ_INSERT_BEFORE_def Let_def fun_upd_twist)
qed

lemma TAILQ_REMOVE_refines:
  assumes "tailq m h (us @ x # vs)"
  shows "tailq (TAILQ_REMOVE h x m) h (us @ vs) \<and>
    same_outside (insert (H h) (E ` set (us @ x # vs))) m (TAILQ_REMOVE h x m)"
proof -
  have "distinct (us @ x # vs)" using assms by (simp add: queue_reps)
  then show ?thesis
    using tailq_remove [OF assms, of "TAILQ_REMOVE h x m"] tailq_fields [OF assms]
    by (cases vs) (auto simp: TAILQ_REMOVE_def Let_def TAILQ_NEXT_def)
qed

lemma TAILQ_INIT_refines: "tailq (TAILQ_INIT h m) h [] \<and> same_outside {H h} m (TAILQ_INIT h m)"
  by (simp add: queue_reps TAILQ_INIT_def same_outside_def)

lemma TAILQ_CONCAT_refines:
  assumes "tailq m h1 xs" "tailq m h2 ys" "h1 \<noteq> h2" "set xs \<inter> set ys = {}"
  shows "tailq (TAILQ_CONCAT h1 h2 m) h1 (xs @ ys) \<and> tailq (TAILQ_CONCAT h1 h2 m) h2 [] \<and>
    same_outside ({H h1, H h2} \<union> E ` (set xs \<union> set ys)) m (TAILQ_CONCAT h1 h2 m)"
proof (cases ys)
  case Nil
  then show ?thesis using assms tailq_head_fields [OF assms(2)]
    by (simp add: TAILQ_CONCAT_def TAILQ_FIRST_def same_outside_def)
next
  case (Cons y zs)
  let ?m = "TAILQ_CONCAT h1 h2 m" and ?n = "lastn (H h1) xs"
  have n: "?n \<noteq> H h2" "?n \<notin> E ` set ys" using lastn_in [of "H h1" xs] assms(3,4) by auto
  have f: "q_next ?m = (q_next m)(?n := q_next m (H h2), H h2 := None)"
      "q_prev ?m = (relink ys ?n (q_prev m))(H h1 := lastn (H h1) (xs @ ys), H h2 := H h2)"
    using n tailq_head_fields [OF assms(1)] tailq_head_fields [OF assms(2)] assms(3) Cons
    by (simp_all add: TAILQ_CONCAT_def TAILQ_FIRST_def Let_def TAILQ_INIT_def lastn_append)
  have "path ((q_next m)(?n := q_next m (H h2))) (H h1) (xs @ ys)"
    by (rule path_concat) (use assms Cons in \<open>auto simp: queue_reps\<close>)
  then have "path (q_next ?m) (H h1) (xs @ ys)" unfolding f(1) using assms(3) by (subst path_upd) auto
  moreover have "backs (q_prev ?m) (H h1) (xs @ ys)"
    using back_concat [of "q_prev m" "H h1" xs "H h2" ys] assms unfolding f(2) by (simp add: queue_reps)
  moreover have "q_prev ?m (H h1) = lastn (H h1) (xs @ ys)" unfolding f(2) using assms(3) by simp
  moreover have "tailq ?m h2 []" unfolding queue_reps f by simp
  moreover have "same_outside ({H h1, H h2} \<union> E ` (set xs \<union> set ys)) m ?m"
    using lastn_in [of "H h1" xs] Cons unfolding same_outside_def f by auto
  ultimately show ?thesis using assms(1,2,4) by (simp add: queue_reps)
qed

text \<open>A list that is moved to another head.\<close>

lemma path_move: "path f p xs \<Longrightarrow> f' q = f p \<Longrightarrow> (\<And>x. x \<in> set xs \<Longrightarrow> f' (E x) = f (E x)) \<Longrightarrow> path f' q xs"
proof (cases xs)
  case (Cons y ys)
  assume a: "path f p xs" "f' q = f p" "\<And>x. x \<in> set xs \<Longrightarrow> f' (E x) = f (E x)"
  then have "path f' (E y) ys \<longleftrightarrow> path f (E y) ys" using Cons by (intro path_cong) auto
  then show ?thesis using a Cons by simp
qed simp

lemma lastn_move: "xs \<noteq> [] \<Longrightarrow> lastn p xs = lastn q xs"
  by (cases xs) auto

lemma TAILQ_SWAP_refines:
  assumes "tailq m h1 xs" "tailq m h2 ys" "h1 \<noteq> h2" "set xs \<inter> set ys = {}"
  shows "tailq (TAILQ_SWAP h1 h2 m) h1 ys \<and> tailq (TAILQ_SWAP h1 h2 m) h2 xs \<and>
    same_outside ({H h1, H h2} \<union> E ` (set xs \<union> set ys)) m (TAILQ_SWAP h1 h2 m)"
proof -
  let ?m = "TAILQ_SWAP h1 h2 m"
  have f: "q_next ?m = (q_next m)(H h1 := q_next m (H h2), H h2 := q_next m (H h1))"
      "q_prev ?m = (relink xs (H h2) (relink ys (H h1) (q_prev m)))(H h1 := lastn (H h1) ys, H h2 := lastn (H h2) xs)"
    using tailq_head_fields [OF assms(1)] tailq_head_fields [OF assms(2)] assms(3)
    by (cases xs; cases ys; simp add: TAILQ_SWAP_def Let_def fun_upd_twist)+
  have "path (q_next ?m) (H h1) ys" "path (q_next ?m) (H h2) xs" unfolding f(1)
    using path_move [of "q_next m" "H h2" ys _ "H h1"] path_move [of "q_next m" "H h1" xs _ "H h2"] assms
    by (auto simp: queue_reps)
  moreover have "backs (q_prev ?m) (H h1) ys" "backs (q_prev ?m) (H h2) xs" unfolding f(2)
    using back_relink [of "q_prev m" "H h2" ys "H h1"] back_relink [of "relink ys (H h1) (q_prev m)" "H h1" xs "H h2"] assms
    by (auto simp: queue_reps back_relink_other Int_commute)
  moreover have "q_prev ?m (H h1) = lastn (H h1) ys" "q_prev ?m (H h2) = lastn (H h2) xs"
    unfolding f(2) using assms(3) by simp_all
  moreover have "same_outside ({H h1, H h2} \<union> E ` (set xs \<union> set ys)) m ?m"
    unfolding same_outside_def f by (simp add: relink_other image_Un)
  ultimately show ?thesis using assms(1,2) by (simp add: queue_reps)
qed

section \<open>Traversals\<close>

lemma foreach_path: "path (q_next m) p xs \<Longrightarrow> FOREACH_FROM m (q_next m p) = Some xs"
  by (induction xs arbitrary: p) (simp_all add: FOREACH_FROM.simps)

lemma tailq_prev_link:
  assumes "tailq m h (us @ vs)"
  shows "q_next m (q_prev m (lastn (H h) us)) = (if us = [] then None else Some (last us))"
proof (cases us rule: rev_cases)
  case Nil
  then show ?thesis using tailq_head_fields [of m h vs] assms by simp
next
  case (snoc ws x)
  then show ?thesis using tailq_fields [of m h ws x vs] assms by simp
qed

lemma foreach_reverse_links:
  "tailq m h (us @ vs) \<Longrightarrow> FOREACH_REVERSE_FROM m (q_next m (q_prev m (lastn (H h) us))) = Some (rev us)"
proof (induction us arbitrary: vs rule: rev_induct)
  case Nil
  then show ?case using tailq_prev_link [of m h "[]" vs] by (simp add: FOREACH_REVERSE_FROM.simps)
next
  case (snoc x us)
  have q: "tailq m h (us @ x # vs)" using snoc.prems by simp
  have "TAILQ_PREV x m = q_next m (q_prev m (lastn (H h) us))"
    using tailq_fields(2) [OF q] by (simp add: TAILQ_PREV_def)
  then have "FOREACH_REVERSE_FROM m (TAILQ_PREV x m) = Some (rev us)" using snoc.IH [OF q] by simp
  moreover have "q_next m (q_prev m (lastn (H h) (us @ [x]))) = Some x"
    using tailq_prev_link [of m h "us @ [x]" vs] snoc.prems by simp
  ultimately show ?case by (simp add: FOREACH_REVERSE_FROM.simps [of m "Some x"])
qed

section \<open>Families of tail queues\<close>

definition tailqs :: "qmem \<Rightarrow> (nat \<Rightarrow> nat list) \<Rightarrow> bool" where
  "tailqs m Q \<longleftrightarrow> (\<forall>h. tailq m h (Q h)) \<and> (\<forall>h k. h \<noteq> k \<longrightarrow> set (Q h) \<inter> set (Q k) = {})"

datatype tailq_call =
    Insert_head nat nat
  | Insert_tail nat nat
  | Insert_after nat nat nat
  | Insert_before nat nat
  | Remove nat nat
  | Concat nat nat
  | Swap nat nat
  | Init nat

fun tailq_exec :: "tailq_call \<Rightarrow> qmem \<Rightarrow> qmem" where
  "tailq_exec (Insert_head h e) = TAILQ_INSERT_HEAD h e"
| "tailq_exec (Insert_tail h e) = TAILQ_INSERT_TAIL h e"
| "tailq_exec (Insert_after h a e) = TAILQ_INSERT_AFTER h a e"
| "tailq_exec (Insert_before a e) = TAILQ_INSERT_BEFORE a e"
| "tailq_exec (Remove h x) = TAILQ_REMOVE h x"
| "tailq_exec (Concat h k) = TAILQ_CONCAT h k"
| "tailq_exec (Swap h k) = TAILQ_SWAP h k"
| "tailq_exec (Init h) = TAILQ_INIT h"

text \<open>The same on lists.\<close>

fun insert_after :: "nat \<Rightarrow> nat \<Rightarrow> nat list \<Rightarrow> nat list" where
  "insert_after a e [] = []"
| "insert_after a e (x # xs) = (if x = a then x # e # xs else x # insert_after a e xs)"

fun insert_before :: "nat \<Rightarrow> nat \<Rightarrow> nat list \<Rightarrow> nat list" where
  "insert_before a e [] = []"
| "insert_before a e (x # xs) = (if x = a then e # x # xs else x # insert_before a e xs)"

fun tailq_spec :: "tailq_call \<Rightarrow> (nat \<Rightarrow> nat list) \<Rightarrow> nat \<Rightarrow> nat list" where
  "tailq_spec (Insert_head h e) Q = Q(h := e # Q h)"
| "tailq_spec (Insert_tail h e) Q = Q(h := Q h @ [e])"
| "tailq_spec (Insert_after h a e) Q = Q(h := insert_after a e (Q h))"
| "tailq_spec (Insert_before a e) Q = (\<lambda>h. insert_before a e (Q h))"
| "tailq_spec (Remove h x) Q = Q(h := remove1 x (Q h))"
| "tailq_spec (Concat h k) Q = Q(h := Q h @ Q k, k := [])"
| "tailq_spec (Swap h k) Q = Q(h := Q k, k := Q h)"
| "tailq_spec (Init h) Q = Q(h := [])"

text \<open>What the caller has to ensure: a new element is in no queue, and an old one is in the queue that is named.\<close>

definition unused :: "nat \<Rightarrow> (nat \<Rightarrow> nat list) \<Rightarrow> bool" where
  "unused e Q \<longleftrightarrow> (\<forall>h. e \<notin> set (Q h))"

fun tailq_pre :: "tailq_call \<Rightarrow> (nat \<Rightarrow> nat list) \<Rightarrow> bool" where
  "tailq_pre (Insert_head h e) Q \<longleftrightarrow> unused e Q"
| "tailq_pre (Insert_tail h e) Q \<longleftrightarrow> unused e Q"
| "tailq_pre (Insert_after h a e) Q \<longleftrightarrow> unused e Q \<and> a \<in> set (Q h)"
| "tailq_pre (Insert_before a e) Q \<longleftrightarrow> unused e Q \<and> (\<exists>h. a \<in> set (Q h))"
| "tailq_pre (Remove h x) Q \<longleftrightarrow> x \<in> set (Q h)"
| "tailq_pre (Concat h k) Q \<longleftrightarrow> h \<noteq> k"
| "tailq_pre (Swap h k) Q \<longleftrightarrow> h \<noteq> k"
| "tailq_pre (Init h) Q \<longleftrightarrow> True"

lemma insert_after_split: "a \<notin> set us \<Longrightarrow> insert_after a e (us @ a # vs) = us @ a # e # vs"
  by (induction us) auto

lemma insert_before_split: "a \<notin> set us \<Longrightarrow> insert_before a e (us @ a # vs) = us @ e # a # vs"
  by (induction us) auto

lemma insert_before_absent: "a \<notin> set xs \<Longrightarrow> insert_before a e xs = xs"
  by (induction xs) auto

text \<open>A call that concerns one queue.\<close>

lemma tailqs_one:
  assumes "tailqs m Q" "tailq m' h ys \<and> same_outside (insert (H h) (E ` A)) m m'"
    and disj: "\<And>k. k \<noteq> h \<Longrightarrow> set (Q k) \<inter> (A \<union> set ys) = {}"
  shows "tailqs m' (Q(h := ys))"
proof -
  have sep: "set (Q k) \<inter> set (Q l) = {}" if "k \<noteq> l" for k l using assms(1) that by (simp add: tailqs_def)
  have other: "tailq m' k (Q k)" if "k \<noteq> h" for k
  proof (rule tailq_frame)
    show "tailq m k (Q k)" using assms(1) by (simp add: tailqs_def)
    show "insert (H h) (E ` A) \<inter> insert (H k) (E ` set (Q k)) = {}" using disj [OF that] that by auto
  qed (use assms(2) in blast)
  have ys: "set (Q k) \<inter> set ys = {}" if "k \<noteq> h" for k using disj [OF that] by blast
  show ?thesis unfolding tailqs_def
  proof (intro conjI allI impI)
    show "tailq m' k ((Q(h := ys)) k)" for k using other assms(2) by (cases "k = h") simp_all
    show "set ((Q(h := ys)) k) \<inter> set ((Q(h := ys)) l) = {}" if "k \<noteq> l" for k l
      using ys [of k] ys [of l] sep [OF that] that by (cases "k = h"; cases "l = h") (simp_all add: Int_commute)
  qed
qed

text \<open>A call that concerns two.\<close>

lemma tailqs_two:
  assumes "tailqs m Q" "h \<noteq> k"
    and "tailq m' h xs \<and> tailq m' k ys \<and> same_outside ({H h, H k} \<union> E ` (set (Q h) \<union> set (Q k))) m m'"
    and "set xs \<union> set ys \<subseteq> set (Q h) \<union> set (Q k)" "set xs \<inter> set ys = {}"
  shows "tailqs m' (Q(h := xs, k := ys))"
proof -
  let ?Q = "Q(h := xs, k := ys)"
  have sep: "set (Q i) \<inter> set (Q j) = {}" if "i \<noteq> j" for i j using assms(1) that by (simp add: tailqs_def)
  have disj: "set (Q l) \<inter> (set (Q h) \<union> set (Q k)) = {}" if "l \<noteq> h" "l \<noteq> k" for l
    using sep [OF that(1)] sep [OF that(2)] by blast
  have other: "tailq m' l (Q l)" if "l \<noteq> h" "l \<noteq> k" for l
  proof (rule tailq_frame)
    show "tailq m l (Q l)" using assms(1) by (simp add: tailqs_def)
    show "({H h, H k} \<union> E ` (set (Q h) \<union> set (Q k))) \<inter> insert (H l) (E ` set (Q l)) = {}" using disj [OF that] that by auto
  qed (use assms(3) in blast)
  have new: "set (Q l) \<inter> set xs = {}" "set (Q l) \<inter> set ys = {}" if "l \<noteq> h" "l \<noteq> k" for l
    using disj [OF that] assms(4) by blast+
  show ?thesis unfolding tailqs_def
  proof (intro conjI allI impI)
    show "tailq m' l (?Q l)" for l using other assms(2,3) by (cases "l = h"; cases "l = k") simp_all
    show "set (?Q i) \<inter> set (?Q j) = {}" if "i \<noteq> j" for i j
    proof -
      note ne = that
      consider "i \<noteq> h" "i \<noteq> k" "j \<noteq> h" "j \<noteq> k" | "i \<in> {h, k}" "j \<noteq> h" "j \<noteq> k" | "i \<noteq> h" "i \<noteq> k" "j \<in> {h, k}" | "i = h" "j = k" | "i = k" "j = h"
        using ne by blast
      then show ?thesis
        by cases (use sep [OF ne] new [of i] new [of j] assms(2,5) ne in \<open>auto simp: Int_commute\<close>)
    qed
  qed
qed

lemma tailqs_insert:
  assumes "tailqs m Q" "unused e Q" "tailq m' h ys \<and> same_outside (insert (H h) (E ` set ys)) m m'"
    and "set ys = insert e (set (Q h))"
  shows "tailqs m' (Q(h := ys))"
proof (rule tailqs_one [OF assms(1,3)])
  show "set (Q k) \<inter> (set ys \<union> set ys) = {}" if "k \<noteq> h" for k
    using assms(1,2) that by (auto simp: assms(4) tailqs_def unused_def)
qed

lemma tailq_exec_insert:
  assumes "tailqs m Q" "unused e Q"
  shows "tailqs (TAILQ_INSERT_HEAD h e m) (Q(h := e # Q h))" "tailqs (TAILQ_INSERT_TAIL h e m) (Q(h := Q h @ [e]))"
    "a \<in> set (Q h) \<Longrightarrow> tailqs (TAILQ_INSERT_AFTER h a e m) (Q(h := insert_after a e (Q h)))"
    "a \<in> set (Q h) \<Longrightarrow> tailqs (TAILQ_INSERT_BEFORE a e m) (Q(h := insert_before a e (Q h)))"
proof -
  have q: "tailq m h (Q h)" "e \<notin> set (Q h)" "distinct (Q h)"
    using assms by (auto simp: tailqs_def unused_def queue_reps)
  show "tailqs (TAILQ_INSERT_HEAD h e m) (Q(h := e # Q h))"
    using TAILQ_INSERT_HEAD_refines [OF q(1,2)] by (intro tailqs_insert [OF assms]) auto
  show "tailqs (TAILQ_INSERT_TAIL h e m) (Q(h := Q h @ [e]))"
    using TAILQ_INSERT_TAIL_refines [OF q(1,2)] by (intro tailqs_insert [OF assms]) auto
  assume "a \<in> set (Q h)"
  then obtain us vs where s: "Q h = us @ a # vs" "a \<notin> set us" by (meson split_list_first)
  show "tailqs (TAILQ_INSERT_AFTER h a e m) (Q(h := insert_after a e (Q h)))"
    using TAILQ_INSERT_AFTER_refines [of m h us a vs e] q s
    by (intro tailqs_insert [OF assms]) (auto simp: insert_after_split)
  show "tailqs (TAILQ_INSERT_BEFORE a e m) (Q(h := insert_before a e (Q h)))"
    using TAILQ_INSERT_BEFORE_refines [of m h us a vs e] q s
    by (intro tailqs_insert [OF assms]) (auto simp: insert_before_split)
qed

lemma insert_before_one:
  assumes "tailqs m Q" "a \<in> set (Q h)"
  shows "(\<lambda>k. insert_before a e (Q k)) = Q(h := insert_before a e (Q h))"
proof
  fix k
  have "k = h \<or> a \<notin> set (Q k)" using assms by (auto simp: tailqs_def)
  then show "insert_before a e (Q k) = (Q(h := insert_before a e (Q h))) k" by (auto simp: insert_before_absent)
qed

lemma tailq_exec_remove:
  assumes "tailqs m Q" "x \<in> set (Q h)"
  shows "tailqs (TAILQ_REMOVE h x m) (Q(h := remove1 x (Q h)))"
proof -
  obtain us vs where s: "Q h = us @ x # vs" "x \<notin> set us" using assms(2) by (meson split_list_first)
  have "tailq m h (us @ x # vs)" using assms(1) s(1) by (metis tailqs_def)
  then have r: "tailq (TAILQ_REMOVE h x m) h (remove1 x (Q h)) \<and> same_outside (insert (H h) (E ` set (Q h))) m (TAILQ_REMOVE h x m)"
    using TAILQ_REMOVE_refines by (simp add: s remove1_append)
  show ?thesis
  proof (rule tailqs_one [OF assms(1) r])
    show "set (Q k) \<inter> (set (Q h) \<union> set (remove1 x (Q h))) = {}" if "k \<noteq> h" for k
      using assms(1) that set_remove1_subset [of x "Q h"] unfolding tailqs_def by blast
  qed
qed

lemma tailq_step_refines:
  assumes "tailqs m Q" "tailq_pre c Q"
  shows "tailqs (tailq_exec c m) (tailq_spec c Q)"
proof (cases c)
  case (Insert_before a e)
  then obtain h where "unused e Q" "a \<in> set (Q h)" using assms(2) by auto
  then show ?thesis using Insert_before tailq_exec_insert(4) [OF assms(1)] insert_before_one [OF assms(1)] by simp
next
  case (Concat h k)
  then have "tailq m h (Q h)" "tailq m k (Q k)" "h \<noteq> k" "set (Q h) \<inter> set (Q k) = {}"
    using assms by (auto simp: tailqs_def)
  from TAILQ_CONCAT_refines [OF this] this(3) show ?thesis using Concat
    by (simp only: tailq_exec.simps tailq_spec.simps) (rule tailqs_two [OF assms(1)]; auto)
next
  case (Swap h k)
  then have s: "tailq m h (Q h)" "tailq m k (Q k)" "h \<noteq> k" "set (Q h) \<inter> set (Q k) = {}"
    using assms by (auto simp: tailqs_def)
  from TAILQ_SWAP_refines [OF this] s(3,4) show ?thesis using Swap
    by (simp only: tailq_exec.simps tailq_spec.simps) (rule tailqs_two [OF assms(1)]; auto)
next
  case (Init h)
  have "tailq (TAILQ_INIT h m) h [] \<and> same_outside (insert (H h) (E ` {})) m (TAILQ_INIT h m)"
    using TAILQ_INIT_refines [of h m] by simp
  from tailqs_one [OF assms(1) this] show ?thesis using Init by simp
qed (use assms tailq_exec_insert tailq_exec_remove in auto)

fun calls_ok :: "tailq_call list \<Rightarrow> (nat \<Rightarrow> nat list) \<Rightarrow> bool" where
  "calls_ok [] Q \<longleftrightarrow> True"
| "calls_ok (c # cs) Q \<longleftrightarrow> tailq_pre c Q \<and> calls_ok cs (tailq_spec c Q)"

lemma tailq_calls_refine: "tailqs m Q \<Longrightarrow> calls_ok cs Q \<Longrightarrow> tailqs (fold tailq_exec cs m) (fold tailq_spec cs Q)"
  by (induction cs arbitrary: m Q) (auto simp: tailq_step_refines)

lemma tailq_forward: "tailq m h xs \<Longrightarrow> FOREACH h m = Some xs"
  by (simp add: FOREACH_def foreach_path queue_reps)

lemma tailq_backward: "tailq m h xs \<Longrightarrow> FOREACH_REVERSE h m = Some (rev xs)"
  using foreach_reverse_links [of m h xs "[]"] tailq_head_fields(2) [of m h xs]
  by (simp add: FOREACH_REVERSE_def TAILQ_LAST_def)

text \<open>
  C11. Tail queues implement lists: after any sequence of insertions at either end or next to an element, of
  removals, concatenations, exchanges and initialisations of any number of queues, in which new
  elements are in no queue and old ones where the caller says, every queue holds the elements of the list
  that the same operations on lists yield. A traversal of each queue ends and visits them in order, and
  a reverse traversal, which reads addresses of links as heads, visits them in reverse order.
\<close>

theorem tailq_refines_lists:
  assumes "tailqs m Q" "calls_ok cs Q"
  shows "tailqs (fold tailq_exec cs m) (fold tailq_spec cs Q) \<and>
    FOREACH h (fold tailq_exec cs m) = Some (fold tailq_spec cs Q h) \<and>
    FOREACH_REVERSE h (fold tailq_exec cs m) = Some (rev (fold tailq_spec cs Q h))"
proof -
  have "tailqs (fold tailq_exec cs m) (fold tailq_spec cs Q)" using tailq_calls_refine [OF assms] .
  moreover from this have "tailq (fold tailq_exec cs m) h (fold tailq_spec cs Q h)" by (simp add: tailqs_def)
  ultimately show ?thesis using tailq_forward tailq_backward by blast
qed

text \<open>Memory in which all heads have been initialised.\<close>

definition demo_qmem :: qmem where
  "demo_qmem = \<lparr>q_next = \<lambda>_. None, q_prev = \<lambda>n. n\<rparr>"

definition demo_calls :: "tailq_call list" where
  "demo_calls = [Insert_tail 0 10, Insert_tail 0 11, Insert_head 1 20, Insert_after 0 10 12, Insert_before 10 13,
     Remove 0 11, Concat 1 0]"

theorem tailq_refines_lists_witness:
  "FOREACH 1 (fold tailq_exec demo_calls demo_qmem) = Some [20, 13, 10, 12] \<and>
   FOREACH_REVERSE 1 (fold tailq_exec demo_calls demo_qmem) = Some [12, 10, 13, 20] \<and>
   FOREACH 0 (fold tailq_exec demo_calls demo_qmem) = Some []"
proof -
  have "tailqs demo_qmem (\<lambda>_. [])" by (simp add: tailqs_def queue_reps demo_qmem_def)
  moreover have "calls_ok demo_calls (\<lambda>_. [])" by (auto simp: demo_calls_def unused_def)
  moreover have "fold tailq_spec demo_calls (\<lambda>_. []) 1 = [20, 13, 10, 12]" "fold tailq_spec demo_calls (\<lambda>_. []) 0 = []"
    by (simp_all add: demo_calls_def)
  ultimately show ?thesis
    using tailq_refines_lists [of demo_qmem "\<lambda>_. []" demo_calls 1] tailq_refines_lists [of demo_qmem "\<lambda>_. []" demo_calls 0]
    by simp
qed

section \<open>Singly-linked tail queues are queues\<close>

lemma stailq_fields:
  assumes "stailq m h xs"
  shows "q_next m (H h) = (case xs of [] \<Rightarrow> None | v # _ \<Rightarrow> Some v)" "q_prev m (H h) = lastn (H h) xs"
    "q_next m (lastn (H h) xs) = None"
  using assms path_end [of "q_next m" "H h" xs] by (cases xs; simp add: queue_reps)+

lemma STAILQ_INSERT_TAIL_refines:
  assumes "stailq m h xs" "e \<notin> set xs"
  shows "stailq (STAILQ_INSERT_TAIL h e m) h (xs @ [e])"
proof -
  have "path ((q_next m)(E e := q_next m (lastn (H h) xs), lastn (H h) xs := Some e)) (H h) (xs @ [e])"
    using path_insert [of "q_next m" "H h" xs "[]" e] assms by (simp add: queue_reps)
  then show ?thesis using assms stailq_fields [OF assms(1)]
    by (simp add: queue_reps STAILQ_INSERT_TAIL_def Let_def)
qed

lemma STAILQ_REMOVE_HEAD_refines:
  assumes "stailq m h (x # xs)"
  shows "\<exists>m'. STAILQ_REMOVE_HEAD h m = Some m' \<and> stailq m' h xs"
proof -
  have "path ((q_next m)(H h := q_next m (E x))) (H h) xs"
    using path_remove [of "q_next m" "H h" "[]" x xs] assms by (simp add: queue_reps)
  then show ?thesis using assms
    by (cases xs) (auto simp: queue_reps STAILQ_REMOVE_HEAD_def STAILQ_FIRST_def STAILQ_NEXT_def Let_def)
qed

lemma STAILQ_REMOVE_HEAD_empty: "stailq m h [] \<Longrightarrow> STAILQ_REMOVE_HEAD h m = None"
  by (simp add: STAILQ_REMOVE_HEAD_def STAILQ_FIRST_def queue_reps)

text \<open>A client that takes a new element for every value that it puts into the queue at head \<open>0\<close>.\<close>

record 'x stq =
  st_mem :: qmem
  st_new :: nat
  st_value :: "nat \<Rightarrow> 'x"

definition stq_enq :: "'x \<Rightarrow> 'x stq \<Rightarrow> 'x stq" where
  "stq_enq x q = q\<lparr>st_mem := STAILQ_INSERT_TAIL 0 (st_new q) (st_mem q), st_value := (st_value q)(st_new q := x),
     st_new := Suc (st_new q)\<rparr>"

definition stq_deq :: "'x stq \<Rightarrow> ('x \<times> 'x stq) option" where
  "stq_deq q =
     (case STAILQ_FIRST 0 (st_mem q) of
        None \<Rightarrow> None
      | Some e \<Rightarrow> map_option (\<lambda>m. (st_value q e, q\<lparr>st_mem := m\<rparr>)) (STAILQ_REMOVE_HEAD 0 (st_mem q)))"

definition stq_contents :: "'x stq \<Rightarrow> 'x list" where
  "stq_contents q = map (st_value q) (the (FOREACH 0 (st_mem q)))"

definition stq_inv :: "'x stq \<Rightarrow> bool" where
  "stq_inv q \<longleftrightarrow> (\<exists>xs. stailq (st_mem q) 0 xs \<and> (\<forall>x\<in>set xs. x < st_new q))"

lemma stailq_foreach: "stailq m h xs \<Longrightarrow> FOREACH h m = Some xs"
  by (simp add: FOREACH_def foreach_path queue_reps)

lemma stq_enq_correct:
  assumes "stq_inv q"
  shows "stq_inv (stq_enq x q) \<and> stq_contents (stq_enq x q) = stq_contents q @ [x]"
proof -
  obtain xs where xs: "stailq (st_mem q) 0 xs" "\<forall>x\<in>set xs. x < st_new q" using assms by (auto simp: stq_inv_def)
  then have "stailq (st_mem (stq_enq x q)) 0 (xs @ [st_new q])"
    by (simp add: stq_enq_def) (rule STAILQ_INSERT_TAIL_refines; auto)
  then show ?thesis using xs stailq_foreach
    by (auto simp: stq_inv_def stq_contents_def stq_enq_def less_Suc_eq intro!: exI [of _ "xs @ [st_new q]"])
qed

lemma stq_deq_correct:
  assumes "stq_inv q"
  shows "case stq_deq q of None \<Rightarrow> stq_contents q = [] | Some (x, q') \<Rightarrow> stq_inv q' \<and> stq_contents q = x # stq_contents q'"
proof -
  obtain xs where xs: "stailq (st_mem q) 0 xs" "\<forall>x\<in>set xs. x < st_new q" using assms by (auto simp: stq_inv_def)
  show ?thesis
  proof (cases xs)
    case Nil
    then show ?thesis using xs stailq_foreach [of "st_mem q" 0 "[]"] stailq_fields(1) [OF xs(1)]
      by (simp add: stq_deq_def STAILQ_FIRST_def stq_contents_def)
  next
    case (Cons e es)
    then obtain m' where m': "STAILQ_REMOVE_HEAD 0 (st_mem q) = Some m'" "stailq m' 0 es"
      using STAILQ_REMOVE_HEAD_refines [of "st_mem q" 0 e es] xs by auto
    then show ?thesis using Cons xs stailq_foreach [OF xs(1)] stailq_foreach [OF m'(2)] stailq_fields(1) [OF xs(1)]
      by (auto simp: stq_deq_def STAILQ_FIRST_def stq_contents_def stq_inv_def)
  qed
qed

interpretation stq: fifo stq_enq stq_deq stq_contents "\<lambda>_. n" stq_inv for n
proof
  fix q :: "'a stq" and x q'
  assume inv: "stq_inv q"
  show "stq_deq q = None \<longleftrightarrow> stq_contents q = []" using stq_deq_correct [OF inv] by (auto split: option.splits)
  show "stq_inv q' \<and> stq_contents q = x # stq_contents q'" if "stq_deq q = Some (x, q')"
    using stq_deq_correct [OF inv] that by simp
qed (simp_all add: stq_enq_correct)

text \<open>What is put into the queue comes out once, in order.\<close>

lemma stq_order: "stq_inv q \<Longrightarrow> stq_contents q = [] \<Longrightarrow> fst (stq.drain (length xs) (fold stq_enq xs q)) = xs"
  by (rule stq.fill_drain [where n = "length xs" and na = "length xs"]) simp_all

section \<open>Singly-linked lists\<close>

lemma find_before_found:
  "path (q_next m) (E c) (us @ x # vs) \<Longrightarrow> x \<notin> set us \<Longrightarrow> find_before m x c = Some (last (c # us))"
  by (induction us arbitrary: c) (simp_all add: find_before.simps [of m x])

lemma find_before_absent: "path (q_next m) (E c) xs \<Longrightarrow> x \<notin> set xs \<Longrightarrow> find_before m x c = None"
  by (induction xs arbitrary: c) (simp_all add: find_before.simps [of m x])

lemma SLIST_INSERT_HEAD_refines: "slist m h xs \<Longrightarrow> e \<notin> set xs \<Longrightarrow> slist (SLIST_INSERT_HEAD h e m) h (e # xs)"
  using path_insert [of "q_next m" "H h" "[]" xs e]
  by (simp add: slist_def SLIST_INSERT_HEAD_def SLIST_FIRST_def Let_def)

lemma SLIST_INSERT_AFTER_refines:
  assumes "slist m h (us @ a # vs)" "e \<notin> set (us @ a # vs)"
  shows "slist (SLIST_INSERT_AFTER a e m) h (us @ a # e # vs)"
  using path_insert [of "q_next m" "H h" "us @ [a]" vs e] assms
  by (simp add: slist_def SLIST_INSERT_AFTER_def SLIST_NEXT_def Let_def)

lemma slist_remove_found:
  assumes "slist m h (us @ x # vs)"
  shows "\<exists>m'. SLIST_REMOVE h x m = Some m' \<and> slist m' h (us @ vs)"
proof -
  have p: "path ((q_next m)(lastn (H h) us := q_next m (E x))) (H h) (us @ vs)"
    using path_remove [of "q_next m" "H h" us x vs] assms by (simp add: slist_def)
  have at: "q_next m (lastn (H h) us) = Some x" using assms path_at by (auto simp: slist_def)
  show ?thesis
  proof (cases us)
    case Nil
    then show ?thesis using p at assms
      by (auto simp: slist_def SLIST_REMOVE_def SLIST_REMOVE_HEAD_def SLIST_FIRST_def SLIST_NEXT_def)
  next
    case (Cons u ws)
    then have c: "find_before m x u = Some (last us)" "q_next m (H h) = Some u" "u \<noteq> x"
      using assms find_before_found [of m u ws x vs] by (auto simp: slist_def)
    have n: "lastn (H h) us = E (last us)" using Cons by (simp add: lastn_def)
    show ?thesis using p at c assms unfolding n
      by (simp add: slist_def SLIST_REMOVE_def SLIST_REMOVE_AFTER_def SLIST_FIRST_def SLIST_NEXT_def)
  qed
qed

text \<open>
  Removing an element from a singly-linked list, for which the list is searched, ends: an element of the
  list is taken out and the others stay in order. For an element that is not in the list the search
  runs off its end and dereferences NULL.
\<close>

theorem slist_remove:
  assumes "slist m h xs"
  shows "if x \<in> set xs then \<exists>m'. SLIST_REMOVE h x m = Some m' \<and> slist m' h (remove1 x xs) else SLIST_REMOVE h x m = None"
proof (cases "x \<in> set xs")
  case True
  then obtain us vs where s: "xs = us @ x # vs" "x \<notin> set us" by (meson split_list_first)
  then show ?thesis using slist_remove_found [of m h us x vs] assms by (simp add: remove1_append)
next
  case False
  then show ?thesis using assms find_before_absent
    by (cases xs) (auto simp: slist_def SLIST_REMOVE_def SLIST_FIRST_def)
qed

theorem slist_remove_witness:
  "\<exists>m'. SLIST_REMOVE 0 11 (SLIST_INSERT_HEAD 0 10 (SLIST_INSERT_HEAD 0 11 demo_qmem)) = Some m' \<and> slist m' 0 [10]"
proof -
  have "slist demo_qmem 0 []" by (simp add: slist_def demo_qmem_def)
  then have "slist (SLIST_INSERT_HEAD 0 10 (SLIST_INSERT_HEAD 0 11 demo_qmem)) 0 [10, 11]"
    by (intro SLIST_INSERT_HEAD_refines) simp_all
  from slist_remove [OF this, of 11] show ?thesis by simp
qed

section \<open>Lists\<close>

lemma dlist_insert:
  assumes "dlist m h (us @ vs)" "e \<notin> set (us @ vs)"
    and "q_next m' = (q_next m)(E e := q_next m (lastn (H h) us), lastn (H h) us := Some e)"
    and "q_prev m' = (relink vs (E e) (q_prev m))(E e := lastn (H h) us)"
  shows "dlist m' h (us @ e # vs)"
proof -
  have p: "path (q_next m) (H h) (us @ vs)" "distinct (us @ vs)" "backs (q_prev m) (H h) (us @ vs)"
    using assms(1) by (simp_all add: queue_reps)
  have "path (q_next m') (H h) (us @ e # vs)" unfolding assms(3) by (rule path_insert) (use p assms(2) in auto)
  moreover have "backs (q_prev m') (H h) (us @ e # vs)" unfolding assms(4) by (rule back_insert [OF p(3,2) assms(2)])
  ultimately show ?thesis using p(2) assms(2) by (auto simp: queue_reps)
qed

lemma LIST_INSERT_HEAD_refines:
  assumes "dlist m h xs" "e \<notin> set xs"
  shows "dlist (LIST_INSERT_HEAD h e m) h (e # xs)"
  using dlist_insert [of m h "[]" xs e "LIST_INSERT_HEAD h e m"] assms
  by (cases xs) (simp_all add: LIST_INSERT_HEAD_def Let_def LIST_FIRST_def queue_reps)

lemma LIST_INSERT_AFTER_refines:
  assumes "dlist m h (us @ a # vs)" "e \<notin> set (us @ a # vs)"
  shows "dlist (LIST_INSERT_AFTER a e m) h (us @ a # e # vs)"
  using dlist_insert [of m h "us @ [a]" vs e "LIST_INSERT_AFTER a e m"] assms dlist_fields [OF assms(1)]
  by (cases vs) (auto simp: LIST_INSERT_AFTER_def Let_def LIST_NEXT_def)

lemma LIST_INSERT_BEFORE_refines:
  assumes "dlist m h (us @ a # vs)" "e \<notin> set (us @ a # vs)"
  shows "dlist (LIST_INSERT_BEFORE a e m) h (us @ e # a # vs)"
proof -
  have "e \<noteq> a" using assms(2) by auto
  then show ?thesis
    using dlist_insert [of m h us "a # vs" e "LIST_INSERT_BEFORE a e m"] assms dlist_fields [OF assms(1)]
    by (simp add: LIST_INSERT_BEFORE_def Let_def fun_upd_twist)
qed

lemma LIST_REMOVE_refines:
  assumes "dlist m h (us @ x # vs)"
  shows "dlist (LIST_REMOVE x m) h (us @ vs)"
proof -
  have p: "path (q_next m) (H h) (us @ x # vs)" "distinct (us @ x # vs)" "backs (q_prev m) (H h) (us @ x # vs)"
    using assms by (simp_all add: queue_reps)
  have f: "q_next (LIST_REMOVE x m) = (q_next m)(lastn (H h) us := q_next m (E x))"
      "q_prev (LIST_REMOVE x m) = relink vs (lastn (H h) us) (q_prev m)"
    using dlist_fields [OF assms] p(2) by (cases vs; simp add: LIST_REMOVE_def Let_def LIST_NEXT_def)+
  have "path (q_next (LIST_REMOVE x m)) (H h) (us @ vs)" unfolding f by (rule path_remove) (use p in auto)
  moreover have "backs (q_prev (LIST_REMOVE x m)) (H h) (us @ vs)" unfolding f by (rule back_remove [OF p(3,2)])
  ultimately show ?thesis using p(2) by (simp add: queue_reps)
qed

end
