(* ===== verification/Fnmatch.thy ===== *)
theory Fnmatch
  imports C_String
begin

unbundle bit_operations_syntax

text \<open>
  The file name matching of \<^verbatim>\<open>src/fnmatch.c\<close>.

  A pointer into the pattern is the list of the characters from there to the terminator. The
  pointer into the string comes with the characters between \<^verbatim>\<open>stringstart\<close> and it, in reverse.
  The value \<open>None\<close> is a read beyond the terminator of the pattern.

  The reference is in two parts: \<open>tokens\<close> reads a pattern, and \<open>wild\<close> is the set of strings that a
  list of tokens describes. The theorems state that the loop with its nested searches decides
  exactly this set, and when it leaves the pattern.
\<close>

section \<open>Flags\<close>

definition FNM_NOMATCH :: int where "FNM_NOMATCH = 1"
definition FNM_NOESCAPE :: "32 word" where "FNM_NOESCAPE = 0x01"
definition FNM_PATHNAME :: "32 word" where "FNM_PATHNAME = 0x02"
definition FNM_PERIOD :: "32 word" where "FNM_PERIOD = 0x04"
definition FNM_LEADING_DIR :: "32 word" where "FNM_LEADING_DIR = 0x08"
definition FNM_CASEFOLD :: "32 word" where "FNM_CASEFOLD = 0x10"
definition FNM_PREFIX_DIRS :: "32 word" where "FNM_PREFIX_DIRS = 0x20"

lemmas fnm_flags = FNM_NOMATCH_def FNM_NOESCAPE_def FNM_PATHNAME_def FNM_PERIOD_def
  FNM_LEADING_DIR_def FNM_CASEFOLD_def FNM_PREFIX_DIRS_def

text \<open>\<^verbatim>\<open>flags & f\<close> as a condition.\<close>

definition has_flag :: "32 word \<Rightarrow> 32 word \<Rightarrow> bool" where
  "has_flag flags f \<longleftrightarrow> flags AND f \<noteq> 0"

section \<open>Bracket expressions\<close>

datatype range_result = Range_Invalid | Range_Null | Range_Pattern bool string

text \<open>\<^verbatim>\<open>c = (char)tolower((unsigned char)c)\<close>, when the case is folded.\<close>

definition fold_case :: "32 word \<Rightarrow> char \<Rightarrow> char" where
  "fold_case flags c = (if has_flag flags FNM_CASEFOLD then c_tolower c else c)"

text \<open>
  The character \<open>c\<close> has been read and the pattern is at \<open>p\<close>: a backslash is replaced by the
  character that it quotes. \<open>None\<close> is the terminator.
\<close>

definition unquote :: "32 word \<Rightarrow> char \<Rightarrow> string \<Rightarrow> (char \<times> string) option" where
  "unquote flags c p =
     (if c = CHR 0x5C \<and> \<not> has_flag flags FNM_NOESCAPE
      then (case p of [] \<Rightarrow> None | d # q \<Rightarrow> Some (d, q))
      else Some (c, p))"

lemma unquote_shorter: "unquote flags c p = Some (d, q) \<Longrightarrow> length q \<le> length p"
  by (auto simp: unquote_def split: if_splits list.splits)

lemma unquote_subset: "unquote flags c p = Some (d, q) \<Longrightarrow> set q \<subseteq> set p"
  by (auto simp: unquote_def split: if_splits list.splits)

text \<open>\<^verbatim>\<open>*pattern\<close>\<close>

definition first_char :: "string \<Rightarrow> char" where
  "first_char p = (case p of [] \<Rightarrow> NUL | c # _ \<Rightarrow> c)"

lemma first_char_simps [simp]: "first_char [] = NUL" "first_char (c # p) = c"
  by (simp_all add: first_char_def)

text \<open>
  The loop of \<^verbatim>\<open>rangematch\<close>. The character after the next one is read before the next one is
  compared with the terminator.
\<close>

function range_loop :: "32 word \<Rightarrow> char \<Rightarrow> bool \<Rightarrow> string \<Rightarrow> range_result" where
  "range_loop flags test ok [] = Range_Null"
| "range_loop flags test ok (c # p) =
     (if c = CHR '']'' then Range_Pattern ok p
      else case unquote flags c p of
        None \<Rightarrow> Range_Null
      | Some (c, p) \<Rightarrow>
          (case p of
             [] \<Rightarrow> Range_Invalid
           | d # q \<Rightarrow>
               let c = fold_case flags c; c2 = first_char q
               in if d = CHR ''-'' \<and> c2 \<noteq> NUL \<and> c2 \<noteq> CHR '']''
                  then (case unquote flags c2 (tl q) of
                          None \<Rightarrow> Range_Null
                        | Some (c2, r) \<Rightarrow>
                            let c2 = fold_case flags c2
                            in range_loop flags test
                                 (ok \<or> (of_char c :: nat) \<le> of_char test \<and>
                                        (of_char test :: nat) \<le> of_char c2) r)
                  else range_loop flags test (ok \<or> c = test) p))"
  by pat_completeness auto
termination
  by (relation "measure (\<lambda>(flags, test, ok, p). length p)")
     (auto dest!: unquote_shorter)

definition rangematch :: "string \<Rightarrow> char \<Rightarrow> 32 word \<Rightarrow> range_result" where
  "rangematch pattern test flags =
     (let negate = (first_char pattern \<in> {CHR ''!'', CHR ''^''});
          pattern = (if negate then tl pattern else pattern)
      in case range_loop flags (fold_case flags test) False pattern of
           Range_Pattern ok p \<Rightarrow> if ok = negate then Range_Null else Range_Pattern ok p
         | r \<Rightarrow> r)"

lemma range_loop_shorter:
  "range_loop flags test ok p = Range_Pattern ok' q \<Longrightarrow> length q < length p"
proof (induction flags test ok p rule: range_loop.induct)
  case (1 flags test ok)
  then show ?case by simp
next
  case (2 flags test ok c p)
  show ?case
  proof (cases "c = CHR '']''")
    case True
    with 2(3) show ?thesis by simp
  next
    case nb: False
    with 2(3) obtain d e r where u: "unquote flags c p = Some (d, e # r)"
      by (auto split: option.splits list.splits)
    then have le: "Suc (length r) \<le> length p" using unquote_shorter by fastforce
    show ?thesis
    proof (cases "e = CHR ''-'' \<and> first_char r \<noteq> NUL \<and> first_char r \<noteq> CHR '']''")
      case True
      with 2(3) nb u obtain c2 t where v: "unquote flags (first_char r) (tl r) = Some (c2, t)"
        by (auto simp: Let_def split: option.splits)
      have "length q < length t" using 2(1) [OF nb u _ _ refl refl True v] 2(3) nb u v True
        by (simp add: Let_def)
      then show ?thesis using unquote_shorter [OF v] le by simp
    next
      case False
      have "length q < length (e # r)" using 2(2) [OF nb u _ _ refl refl False] 2(3) nb u False
        by (simp add: Let_def)
      then show ?thesis using le by simp
    qed
  qed
qed

declare range_loop.simps(2) [simp del]

lemma rangematch_shorter: "rangematch p test flags = Range_Pattern ok q \<Longrightarrow> length q < length p"
  by (cases p) (auto simp: rangematch_def Let_def split: range_result.splits if_splits
                     dest: range_loop_shorter)

section \<open>The matching loop\<close>

text \<open>
  The search of a position for the rest of the pattern after \<^verbatim>\<open>*\<close>; \<open>matches\<close> is the recursive call.
\<close>

fun star_loop :: "(string \<Rightarrow> int option) \<Rightarrow> bool \<Rightarrow> string \<Rightarrow> int option" where
  "star_loop matches pathname [] = Some FNM_NOMATCH"
| "star_loop matches pathname (test # string) =
     (case matches (test # string) of
        None \<Rightarrow> None
      | Some r \<Rightarrow>
          if r = 0 then Some 0
          else if test = CHR ''/'' \<and> pathname then Some FNM_NOMATCH
          else star_loop matches pathname string)"

lemma star_loop_cong [fundef_cong]:
  assumes "s = s'" "pn = pn'" "\<And>t. m t = m' t"
  shows "star_loop m pn s = star_loop m' pn' s'"
  using assms(3) by (simp only: assms(1,2) ext [of m m'])

text \<open>The test for a leading period at the position of the string.\<close>

definition leading_period :: "32 word \<Rightarrow> string \<Rightarrow> string \<Rightarrow> bool" where
  "leading_period flags before string \<longleftrightarrow>
     first_char string = CHR ''.'' \<and> has_flag flags FNM_PERIOD \<and>
     (before = [] \<or> has_flag flags FNM_PATHNAME \<and> hd before = CHR ''/'')"

text \<open>The comparison of an ordinary character: \<open>None\<close> goes on behind it.\<close>

definition match_char :: "32 word \<Rightarrow> string \<Rightarrow> char \<Rightarrow> string \<Rightarrow> int option" where
  "match_char flags before c string =
     (if c = first_char string then None
      else if has_flag flags FNM_CASEFOLD \<and> c_tolower c = c_tolower (first_char string) then None
      else if has_flag flags FNM_PREFIX_DIRS \<and> string = [] \<and>
              (c = CHR ''/'' \<and> before \<noteq> [] \<or> before = [CHR ''/'']) then Some 0
      else Some FNM_NOMATCH)"

function fnmatch_loop :: "32 word \<Rightarrow> string \<Rightarrow> string \<Rightarrow> string \<Rightarrow> int option" where
  "fnmatch_loop flags before [] string =
     (if has_flag flags FNM_LEADING_DIR \<and> first_char string = CHR ''/'' then Some 0
      else Some (if string = [] then 0 else FNM_NOMATCH))"
| "fnmatch_loop flags before (c # pattern) string =
     (if c = CHR ''?'' then
        (if string = [] then Some FNM_NOMATCH
         else if first_char string = CHR ''/'' \<and> has_flag flags FNM_PATHNAME then Some FNM_NOMATCH
         else if leading_period flags before string then Some FNM_NOMATCH
         else fnmatch_loop flags (hd string # before) pattern (tl string))
      else if c = CHR ''*'' then
        (let pattern = dropWhile (\<lambda>c. c = CHR ''*'') pattern
         in if leading_period flags before string then Some FNM_NOMATCH
            else if pattern = [] then
              (if has_flag flags FNM_PATHNAME
               then Some (if has_flag flags FNM_LEADING_DIR \<or> strchr (CHR ''/'') string = None
                          then 0 else FNM_NOMATCH)
               else Some 0)
            else if first_char pattern = CHR ''/'' \<and> has_flag flags FNM_PATHNAME then
              (case strchr (CHR ''/'') string of
                 None \<Rightarrow> Some FNM_NOMATCH
               | Some k \<Rightarrow>
                   fnmatch_loop flags (rev (take k string) @ before) pattern (drop k string))
            else star_loop (fnmatch_loop (flags AND NOT FNM_PERIOD) [] pattern)
                   (has_flag flags FNM_PATHNAME) string)
      else if c = CHR ''['' then
        (if string = [] then Some FNM_NOMATCH
         else if first_char string = CHR ''/'' \<and> has_flag flags FNM_PATHNAME then Some FNM_NOMATCH
         else case rangematch pattern (hd string) flags of
                Range_Invalid \<Rightarrow> None
              | Range_Null \<Rightarrow> Some FNM_NOMATCH
              | Range_Pattern _ p \<Rightarrow> fnmatch_loop flags (hd string # before) p (tl string))
      else
        (let (c, pattern) =
           (case unquote flags c pattern of None \<Rightarrow> (CHR 0x5C, pattern) | Some r \<Rightarrow> r)
         in case match_char flags before c string of
              Some r \<Rightarrow> Some r
            | None \<Rightarrow> fnmatch_loop flags (hd string # before) pattern (tl string)))"
  by pat_completeness auto
termination
proof (relation "measure (\<lambda>(flags, before, pattern, string). length pattern)", goal_cases)
  case (5 flags before c pattern string ok p)
  then show ?case by (auto dest: rangematch_shorter)
next
  case (6 flags before c pattern string x d p)
  then show ?case by (auto split: option.splits dest: unquote_shorter)
qed (simp_all add: le_imp_less_Suc length_dropWhile_le)

text \<open>\<^verbatim>\<open>fnmatch\<close>, which the header renames.\<close>

definition wpdk_fnmatch :: "string \<Rightarrow> string \<Rightarrow> 32 word \<Rightarrow> int option" where
  "wpdk_fnmatch pattern string flags = fnmatch_loop flags [] pattern string"

section \<open>The reference\<close>

datatype token = Literal char | Single | Many | Bracket bool "(char \<times> char) list"

text \<open>
  The elements of a bracket expression up to its closing bracket, as pairs of their bounds, and
  the pattern behind it. There is no result for an expression that is not closed.
\<close>

function bracket_items :: "32 word \<Rightarrow> string \<Rightarrow> ((char \<times> char) list \<times> string) option" where
  "bracket_items flags [] = None"
| "bracket_items flags (c # p) =
     (if c = CHR '']'' then Some ([], p)
      else case unquote flags c p of
        None \<Rightarrow> None
      | Some (lo, p) \<Rightarrow>
          if first_char p = CHR ''-'' \<and> first_char (tl p) \<notin> {NUL, CHR '']''}
          then (case unquote flags (first_char (tl p)) (tl (tl p)) of
                  None \<Rightarrow> None
                | Some (hi, q) \<Rightarrow>
                    map_option (apfst (Cons (lo, hi))) (bracket_items flags q))
          else map_option (apfst (Cons (lo, lo))) (bracket_items flags p))"
  by pat_completeness auto
termination
  by (relation "measure (\<lambda>(flags, p). length p)") (auto dest!: unquote_shorter)

declare bracket_items.simps(2) [simp del]

lemma bracket_items_shorter: "bracket_items flags p = Some (is, q) \<Longrightarrow>
    length q < length p \<and> set q \<subseteq> set p"
proof (induction flags p arbitrary: "is" rule: bracket_items.induct)
  case (2 flags c p)
  show ?case
  proof (cases "c = CHR '']''")
    case True
    with 2(3) show ?thesis by (auto simp: bracket_items.simps(2))
  next
    case nb: False
    with 2(3) obtain lo r where u: "unquote flags c p = Some (lo, r)"
      by (auto simp: bracket_items.simps(2) split: option.splits)
    let ?P = "first_char r = CHR ''-'' \<and> first_char (tl r) \<notin> {NUL, CHR '']''}"
    show ?thesis
    proof (cases ?P)
      case True
      with 2(3) nb u obtain hi t "is'" where v: "unquote flags (first_char (tl r)) (tl (tl r)) = Some (hi, t)"
        and b: "bracket_items flags t = Some (is', q)"
        by (auto simp: bracket_items.simps(2) split: option.splits)
      have "length q < length t \<and> set q \<subseteq> set t" by (rule 2(1) [OF nb u refl True v refl b])
      then show ?thesis using unquote_shorter [OF v] unquote_shorter [OF u] unquote_subset [OF v] unquote_subset [OF u]
        by (cases r; cases "tl r") auto
    next
      case False
      with 2(3) nb u obtain "is'" where b: "bracket_items flags r = Some (is', q)"
        by (auto simp: bracket_items.simps(2) split: option.splits)
      have "length q < length r \<and> set q \<subseteq> set r" by (rule 2(2) [OF nb u refl False b])
      then show ?thesis using unquote_shorter [OF u] unquote_subset [OF u] by auto
    qed
  qed
qed simp

function tokens :: "32 word \<Rightarrow> string \<Rightarrow> token list option" where
  "tokens flags [] = Some []"
| "tokens flags (c # p) =
     (if c = CHR ''?'' then map_option (Cons Single) (tokens flags p)
      else if c = CHR ''*'' then map_option (Cons Many) (tokens flags p)
      else if c = CHR ''['' then
        (let negate = first_char p \<in> {CHR ''!'', CHR ''^''}
         in case bracket_items flags (if negate then tl p else p) of
              None \<Rightarrow> None
            | Some (items, q) \<Rightarrow> map_option (Cons (Bracket negate items)) (tokens flags q))
      else case unquote flags c p of
             None \<Rightarrow> Some [Literal c]
           | Some (d, q) \<Rightarrow> map_option (Cons (Literal d)) (tokens flags q))"
  by pat_completeness auto
termination
  by (relation "measure (\<lambda>(flags, p). length p)")
     (auto dest!: unquote_shorter bracket_items_shorter split: if_splits)

declare tokens.simps(2) [simp del]

text \<open>
  The strings that a list of tokens describes. With \<^verbatim>\<open>FNM_PATHNAME\<close> only a slash matches a slash,
  and with \<^verbatim>\<open>FNM_LEADING_DIR\<close> the pattern may end in front of a slash.
\<close>

definition in_bracket :: "32 word \<Rightarrow> (char \<times> char) list \<Rightarrow> char \<Rightarrow> bool" where
  "in_bracket flags items c \<longleftrightarrow>
     (\<exists>(lo, hi) \<in> set items.
        (of_char (fold_case flags lo) :: nat) \<le> of_char (fold_case flags c) \<and>
        (of_char (fold_case flags c) :: nat) \<le> of_char (fold_case flags hi))"

definition slash_ok :: "32 word \<Rightarrow> char \<Rightarrow> bool" where
  "slash_ok flags c \<longleftrightarrow> \<not> (c = CHR ''/'' \<and> has_flag flags FNM_PATHNAME)"

fun wild :: "32 word \<Rightarrow> token list \<Rightarrow> string \<Rightarrow> bool" where
  "wild flags [] s \<longleftrightarrow> s = [] \<or> has_flag flags FNM_LEADING_DIR \<and> hd s = CHR ''/''"
| "wild flags (Literal d # ts) [] \<longleftrightarrow> False"
| "wild flags (Literal d # ts) (c # s) \<longleftrightarrow> fold_case flags d = fold_case flags c \<and> wild flags ts s"
| "wild flags (Single # ts) [] \<longleftrightarrow> False"
| "wild flags (Single # ts) (c # s) \<longleftrightarrow> slash_ok flags c \<and> wild flags ts s"
| "wild flags (Bracket negate items # ts) [] \<longleftrightarrow> False"
| "wild flags (Bracket negate items # ts) (c # s) \<longleftrightarrow>
     slash_ok flags c \<and> in_bracket flags items c \<noteq> negate \<and> wild flags ts s"
| "wild flags (Many # ts) [] \<longleftrightarrow> wild flags ts []"
| "wild flags (Many # ts) (c # s) \<longleftrightarrow>
     wild flags ts (c # s) \<or> slash_ok flags c \<and> wild flags (Many # ts) s"

text \<open>What a call must return: a pattern with an unclosed bracket expression matches nothing.\<close>

definition outcome :: "32 word \<Rightarrow> token list option \<Rightarrow> string \<Rightarrow> int option \<Rightarrow> bool" where
  "outcome flags t s r \<longleftrightarrow>
     (case t of None \<Rightarrow> r \<noteq> Some 0
      | Some ts \<Rightarrow> r = Some (if wild flags ts s then 0 else FNM_NOMATCH))"

section \<open>Bracket expressions are matched as read\<close>

lemma of_char_eq: "(of_char c :: nat) = of_char d \<longleftrightarrow> c = d"
  by (rule of_char_eq_iff)

lemma NUL_unquote: "unquote flags c p = Some (d, q) \<Longrightarrow> NUL \<notin> set (c # p) \<Longrightarrow> NUL \<notin> set (d # q)"
  by (auto simp: unquote_def split: if_splits list.splits)

lemma NUL_first_char: "NUL \<notin> set p \<Longrightarrow> first_char p = NUL \<longleftrightarrow> p = []"
  by (cases p) (auto simp: first_char_def)

definition covers :: "32 word \<Rightarrow> char \<Rightarrow> char \<times> char \<Rightarrow> bool" where
  "covers flags test i \<longleftrightarrow>
     (of_char (fold_case flags (fst i)) :: nat) \<le> of_char test \<and>
     (of_char test :: nat) \<le> of_char (fold_case flags (snd i))"

lemma covers_single: "covers flags test (c, c) \<longleftrightarrow> fold_case flags c = test"
  unfolding covers_def using of_char_eq [of "fold_case flags c" test] by auto

lemma in_bracket_covers:
  "in_bracket flags items c \<longleftrightarrow> (\<exists>i\<in>set items. covers flags (fold_case flags c) i)"
  by (simp add: in_bracket_def covers_def split_beta)

text \<open>
  The loop of \<^verbatim>\<open>rangematch\<close> finds the end of a closed expression and whether one of its elements
  covers the character; it reports no success for an expression that is not closed.
\<close>

definition range_outcome ::
  "32 word \<Rightarrow> char \<Rightarrow> bool \<Rightarrow> ((char \<times> char) list \<times> string) option \<Rightarrow> range_result \<Rightarrow> bool" where
  "range_outcome flags test ok b r \<longleftrightarrow>
     (case b of
        None \<Rightarrow> r \<in> {Range_Null, Range_Invalid}
      | Some (items, q) \<Rightarrow> r = Range_Pattern (ok \<or> (\<exists>i\<in>set items. covers flags test i)) q)"

lemma range_outcome_Cons:
  assumes "range_outcome flags test (ok \<or> covers flags test i) b r"
  shows "range_outcome flags test ok (map_option (apfst (Cons i)) b) r"
  using assms by (cases b) (auto simp: range_outcome_def)

lemma range_loop_outcome:
  "NUL \<notin> set p \<Longrightarrow> range_outcome flags test ok (bracket_items flags p) (range_loop flags test ok p)"
proof (induction flags p arbitrary: ok rule: bracket_items.induct)
  case (1 flags)
  show ?case by (simp add: range_outcome_def)
next
  case (2 flags c p)
  show ?case
  proof (cases "c = CHR '']'' \<or> unquote flags c p = None")
    case True
    then show ?thesis
      by (auto simp: range_outcome_def bracket_items.simps(2) [of flags c p] range_loop.simps(2) [of flags test ok c p])
  next
    case False
    then obtain lo r where nb: "c \<noteq> CHR '']''" and u: "unquote flags c p = Some (lo, r)" by auto
    from NUL_unquote [OF u 2(3)] have nul: "NUL \<notin> set r" by simp
    show ?thesis
    proof (cases r)
      case Nil
      then show ?thesis using nb u
        by (simp add: range_outcome_def bracket_items.simps(2) [of flags c p] range_loop.simps(2) [of flags test ok c p] first_char_def)
    next
      case (Cons d q)
      let ?P = "first_char r = CHR ''-'' \<and> first_char (tl r) \<notin> {NUL, CHR '']''}"
      show ?thesis
      proof (cases ?P)
        case range: True
        show ?thesis
        proof (cases "unquote flags (first_char q) (tl q)")
          case None
          then show ?thesis using nb u Cons range
            by (simp add: range_outcome_def bracket_items.simps(2) [of flags c p] range_loop.simps(2) [of flags test ok c p] Let_def)
        next
          case (Some a)
          then obtain hi t where v: "unquote flags (first_char (tl r)) (tl (tl r)) = Some (hi, t)"
            using Cons by (cases a) simp
          have "NUL \<notin> set (first_char q # tl q)"
            using nul Cons range by (cases q) (auto simp: first_char_def)
          then have "NUL \<notin> set t" using NUL_unquote [OF v] Cons by simp
          from 2(1) [OF nb u refl range v refl this, of "ok \<or> covers flags test (lo, hi)"]
          have "range_outcome flags test ok (map_option (apfst (Cons (lo, hi))) (bracket_items flags t))
                  (range_loop flags test (ok \<or> covers flags test (lo, hi)) t)"
            by (rule range_outcome_Cons)
          then show ?thesis using nb u Cons range v
            by (simp add: bracket_items.simps(2) [of flags c p] range_loop.simps(2) [of flags test ok c p] Let_def covers_def)
        qed
      next
        case single: False
        from 2(2) [OF nb u refl single nul, of "ok \<or> covers flags test (lo, lo)"]
        have "range_outcome flags test ok (map_option (apfst (Cons (lo, lo))) (bracket_items flags r))
                (range_loop flags test (ok \<or> covers flags test (lo, lo)) r)"
          by (rule range_outcome_Cons)
        then show ?thesis using nb u Cons single
          by (auto simp: bracket_items.simps(2) [of flags c p] range_loop.simps(2) [of flags test ok c p]
                     Let_def covers_single)
      qed
    qed
  qed
qed

lemma rangematch_outcome:
  fixes p
  defines "negate \<equiv> first_char p \<in> {CHR ''!'', CHR ''^''}"
  assumes "NUL \<notin> set p"
  shows "(case bracket_items flags (if negate then tl p else p) of
            None \<Rightarrow> rangematch p c flags \<in> {Range_Null, Range_Invalid}
          | Some (items, q) \<Rightarrow>
              rangematch p c flags =
                (if in_bracket flags items c \<noteq> negate then Range_Pattern (in_bracket flags items c) q
                 else Range_Null))"
proof -
  let ?p = "if negate then tl p else p"
  have "NUL \<notin> set ?p" using assms(2) by (cases p) auto
  from range_loop_outcome [OF this, of flags "fold_case flags c" False]
  show ?thesis
    unfolding rangematch_def negate_def [symmetric] Let_def range_outcome_def in_bracket_covers
    by (cases negate; cases "bracket_items flags ?p") (auto split: range_result.splits)
qed

section \<open>The loop decides the reference\<close>

lemma outcome_Invalid [simp]: "outcome flags None s (Some FNM_NOMATCH)" "outcome flags None s None"
  by (simp_all add: outcome_def FNM_NOMATCH_def)

lemma outcome_consume:
  assumes "outcome flags t s r" "\<And>ts. wild flags (k # ts) (c # s) \<longleftrightarrow> wild flags ts s"
  shows "outcome flags (map_option (Cons k) t) (c # s) r"
  using assms by (cases t) (auto simp: outcome_def)

lemma outcome_nomatch:
  assumes "\<And>ts. \<not> wild flags (k # ts) s"
  shows "outcome flags (map_option (Cons k) t) s (Some FNM_NOMATCH)"
  using assms by (cases t) (auto simp: outcome_def FNM_NOMATCH_def)

text \<open>Several stars in a row are one.\<close>

lemma wild_Many_Many: "wild flags (Many # Many # ts) s \<longleftrightarrow> wild flags (Many # ts) s"
  by (induction s) auto

lemma wild_Many_end:
  "wild flags [Many] s \<longleftrightarrow>
     \<not> has_flag flags FNM_PATHNAME \<or> has_flag flags FNM_LEADING_DIR \<or> CHR ''/'' \<notin> set s"
  by (induction s) (auto simp: slash_ok_def)

text \<open>A pattern after the stars starts with a token that needs a character.\<close>

lemma tokens_nonempty:
  assumes "tokens flags p = Some ts" "p \<noteq> []" "first_char p \<noteq> CHR ''*''"
  shows "\<not> wild flags ts []"
  using assms by (cases p) (auto simp: tokens.simps(2) Let_def split: if_splits option.splits)

lemma tokens_slash:
  assumes "first_char p = CHR ''/''"
  shows "\<exists>q. p = CHR ''/'' # q \<and> tokens flags p = map_option (Cons (Literal (CHR ''/''))) (tokens flags q)"
  using assms by (cases p) (auto simp: tokens.simps(2) unquote_def)

lemma tokens_stars:
  "tokens flags (CHR ''*'' # p) =
     (case tokens flags (dropWhile (\<lambda>c. c = CHR ''*'') p) of
        None \<Rightarrow> None
      | Some ts \<Rightarrow> Some (Many # replicate (length (takeWhile (\<lambda>c. c = CHR ''*'') p)) Many @ ts))"
  by (induction p) (auto simp: tokens.simps(2) split: option.splits)

lemma wild_stars: "wild flags (Many # replicate n Many @ ts) s \<longleftrightarrow> wild flags (Many # ts) s"
  by (induction n) (simp_all add: wild_Many_Many)

lemma outcome_stars:
  "outcome flags (tokens flags (CHR ''*'' # p)) s r \<longleftrightarrow>
   outcome flags (map_option (Cons Many) (tokens flags (dropWhile (\<lambda>c. c = CHR ''*'') p))) s r"
  by (auto simp: tokens_stars outcome_def wild_stars split: option.splits)

lemma star_loop_outcome:
  assumes "\<And>t. NUL \<notin> set t \<Longrightarrow> outcome flags ts t (m t)" "NUL \<notin> set s"
    and "\<And>us. ts = Some us \<Longrightarrow> \<not> wild flags us []"
  shows "outcome flags (map_option (Cons Many) ts) s (star_loop m (has_flag flags FNM_PATHNAME) s)"
  using assms(2)
proof (induction s)
  case Nil
  then show ?case using assms(3) by (cases ts) (auto simp: outcome_def FNM_NOMATCH_def)
next
  case (Cons c s)
  then show ?case using assms(1) [of "c # s"]
    by (cases ts) (auto simp: outcome_def FNM_NOMATCH_def slash_ok_def split: option.splits if_splits)
qed

lemma tolower_slash: "c_tolower c = CHR ''/'' \<longleftrightarrow> c = CHR ''/''"
  by (auto simp: c_tolower_def dest: arg_cong [where f = "of_char :: char \<Rightarrow> nat"])

text \<open>Before a slash of the pattern the stars take everything up to the next slash.\<close>

lemma wild_Many_slash:
  assumes "has_flag flags FNM_PATHNAME"
  shows "wild flags (Many # Literal (CHR ''/'') # ts) s \<longleftrightarrow>
           (case strchr (CHR ''/'') s of
              None \<Rightarrow> False | Some k \<Rightarrow> wild flags (Literal (CHR ''/'') # ts) (drop k s))"
proof (induction s)
  case (Cons c s)
  have "fold_case flags (CHR ''/'') = fold_case flags c \<longleftrightarrow> c = CHR ''/''"
    using tolower_slash [of c] by (auto simp: fold_case_def c_tolower_def [of "CHR ''/''"])
  with Cons assms show ?case by (auto simp: slash_ok_def split: option.splits)
qed simp

declare fnmatch_loop.simps(2) [simp del]

lemma clear_flag: "\<not> has_flag flags f \<Longrightarrow> flags AND NOT f = flags"
  by (simp add: has_flag_def bit_eq_iff bit_simps) blast

text \<open>One lemma for each kind of pattern character, with the calls for shorter patterns assumed.\<close>

definition decided :: "32 word \<Rightarrow> string \<Rightarrow> bool" where
  "decided flags p \<longleftrightarrow>
     (\<forall>before s. NUL \<notin> set s \<longrightarrow> outcome flags (tokens flags p) s (fnmatch_loop flags before p s))"

lemma decidedD: "decided flags p \<Longrightarrow> NUL \<notin> set s \<Longrightarrow>
    outcome flags (tokens flags p) s (fnmatch_loop flags before p s)"
  by (simp add: decided_def)

lemma decided_question:
  assumes "\<not> has_flag flags FNM_PERIOD" "decided flags p"
  shows "decided flags (CHR ''?'' # p)"
  unfolding decided_def
proof (intro allI impI)
  fix before s
  assume nul: "NUL \<notin> set s"
  show "outcome flags (tokens flags (CHR ''?'' # p)) s (fnmatch_loop flags before (CHR ''?'' # p) s)"
  proof (cases s)
    case Nil
    then show ?thesis by (simp add: tokens.simps(2) fnmatch_loop.simps(2) outcome_nomatch)
  next
    case (Cons c t)
    then show ?thesis
      using nul assms(1) decidedD [OF assms(2), of t "c # before"]
      by (auto simp: tokens.simps(2) fnmatch_loop.simps(2) leading_period_def slash_ok_def
               intro: outcome_nomatch outcome_consume)
  qed
qed

lemma decided_bracket:
  assumes "NUL \<notin> set p" "\<And>q. length q < length p \<Longrightarrow> NUL \<notin> set q \<Longrightarrow> decided flags q"
  shows "decided flags (CHR ''['' # p)"
  unfolding decided_def
proof (intro allI impI)
  fix before s
  assume nul: "NUL \<notin> set s"
  show "outcome flags (tokens flags (CHR ''['' # p)) s (fnmatch_loop flags before (CHR ''['' # p) s)"
  proof (cases "bracket_items flags (if first_char p \<in> {CHR ''!'', CHR ''^''} then tl p else p)")
    case None
    then have "rangematch p (hd s) flags \<in> {Range_Null, Range_Invalid}"
      using rangematch_outcome [OF assms(1), where flags = flags and c = "hd s"] by (simp split: if_splits)
    with None show ?thesis by (auto simp: tokens.simps(2) fnmatch_loop.simps(2) Let_def)
  next
    case (Some a)
    then obtain items q
      where b: "bracket_items flags (if first_char p \<in> {CHR ''!'', CHR ''^''} then tl p else p) = Some (items, q)"
      by (cases a) auto
    let ?neg = "first_char p \<in> {CHR ''!'', CHR ''^''}"
    have t: "tokens flags (CHR ''['' # p) = map_option (Cons (Bracket ?neg items)) (tokens flags q)"
      using b by (simp add: tokens.simps(2) Let_def split: if_splits)
    have r: "rangematch p c flags =
               (if in_bracket flags items c \<noteq> ?neg then Range_Pattern (in_bracket flags items c) q
                else Range_Null)" for c
      using rangematch_outcome [OF assms(1), where flags = flags and c = c] b by simp
    have "length q < length p \<and> set q \<subseteq> set p"
      using bracket_items_shorter [OF b] by (cases p) (auto split: if_splits)
    then have q: "decided flags q" using assms by auto
    show ?thesis
    proof (cases s)
      case Nil
      then show ?thesis by (simp add: t fnmatch_loop.simps(2) outcome_nomatch)
    next
      case (Cons c u)
      have "outcome flags (tokens flags q) u (fnmatch_loop flags (c # before) q u)"
        using decidedD [OF q] nul Cons by simp
      then show ?thesis unfolding t Cons
        by (auto simp: fnmatch_loop.simps(2) r slash_ok_def intro: outcome_nomatch outcome_consume)
    qed
  qed
qed

lemma decided_char:
  assumes "\<not> has_flag flags FNM_PREFIX_DIRS" "c \<notin> {CHR ''?'', CHR ''*'', CHR ''[''}"
    and "NUL \<notin> set (c # p)" "\<And>q. length q \<le> length p \<Longrightarrow> NUL \<notin> set q \<Longrightarrow> decided flags q"
  shows "decided flags (c # p)"
  unfolding decided_def
proof (intro allI impI)
  fix before s
  assume nul: "NUL \<notin> set s"
  obtain d q where u: "(case unquote flags c p of None \<Rightarrow> (CHR 0x5C, p) | Some r \<Rightarrow> r) = (d, q)"
    by (metis surj_pair)
  have *: "tokens flags (c # p) = map_option (Cons (Literal d)) (tokens flags q) \<and>
           NUL \<notin> set (d # q) \<and> length q \<le> length p"
  proof (cases "unquote flags c p")
    case None
    then have "c = CHR 0x5C" "p = []" by (auto simp: unquote_def split: if_splits list.splits)
    then show ?thesis using u None by (auto simp: tokens.simps(2))
  next
    case (Some r)
    then have r: "unquote flags c p = Some (d, q)" using u by simp
    then show ?thesis using NUL_unquote [OF r assms(3)] unquote_shorter [OF r] assms(2)
      by (simp add: tokens.simps(2))
  qed
  then have t: "tokens flags (c # p) = map_option (Cons (Literal d)) (tokens flags q)"
    and q: "decided flags q" and d: "d \<noteq> NUL" using assms(4) [of q] by auto
  show "outcome flags (tokens flags (c # p)) s (fnmatch_loop flags before (c # p) s)"
  proof (cases s)
    case Nil
    have "c_tolower d \<noteq> c_tolower NUL" using d tolower_NUL by (auto simp: c_tolower_def [of NUL])
    then show ?thesis using Nil assms(1,2) d
      by (simp add: t fnmatch_loop.simps(2) u match_char_def outcome_nomatch)
  next
    case (Cons e r)
    have w: "wild flags (Literal d # ts) s \<longleftrightarrow>
               match_char flags before d s = None \<and> wild flags ts r" for ts
      using Cons by (auto simp: match_char_def fold_case_def)
    show ?thesis
    proof (cases "match_char flags before d s")
      case None
      then show ?thesis using Cons assms(2) w nul decidedD [OF q, of r "e # before"]
        by (simp add: t fnmatch_loop.simps(2) u outcome_consume)
    next
      case (Some x)
      then have "x = FNM_NOMATCH" using Cons by (auto simp: match_char_def split: if_splits)
      then show ?thesis using Some assms(2) w
        by (simp add: t fnmatch_loop.simps(2) u outcome_nomatch)
    qed
  qed
qed

lemma decided_stars:
  assumes "\<not> has_flag flags FNM_PERIOD" "NUL \<notin> set p"
    and "\<And>q. length q \<le> length p \<Longrightarrow> NUL \<notin> set q \<Longrightarrow> decided flags q"
  shows "decided flags (CHR ''*'' # p)"
  unfolding decided_def outcome_stars
proof (intro allI impI)
  fix before s
  assume nul: "NUL \<notin> set s"
  define q where "q = dropWhile (\<lambda>c. c = CHR ''*'') p"
  have "NUL \<notin> set q" using assms(2) set_dropWhileD unfolding q_def by fastforce
  then have q: "decided flags q" using assms(3) [of q] by (simp add: q_def length_dropWhile_le)
  have np: "flags AND NOT FNM_PERIOD = flags" using assms(1) by (rule clear_flag)
  have star: "q \<noteq> [] \<Longrightarrow> first_char q \<noteq> CHR ''*''"
    using hd_dropWhile [of "\<lambda>c. c = CHR ''*''" p] by (cases q) (auto simp: q_def)
  have s: "outcome flags (map_option (Cons Many) (tokens flags q)) s
             (fnmatch_loop flags before (CHR ''*'' # p) s)"
  proof (cases "q = [] \<or> first_char q = CHR ''/'' \<and> has_flag flags FNM_PATHNAME")
    case False
    have "outcome flags (map_option (Cons Many) (tokens flags q)) s
            (star_loop (fnmatch_loop flags [] q) (has_flag flags FNM_PATHNAME) s)"
      by (rule star_loop_outcome) (use q nul star False tokens_nonempty decidedD in auto)
    then show ?thesis using False assms(1)
      by (auto simp: fnmatch_loop.simps(2) q_def [symmetric] Let_def leading_period_def np)
  next
    case True
    then show ?thesis
    proof (cases "q = []")
      case nil: True
      then show ?thesis using assms(1)
        by (auto simp: fnmatch_loop.simps(2) q_def [symmetric] Let_def leading_period_def outcome_def
                       wild_Many_end strchr_None FNM_NOMATCH_def)
    next
      case False
      with True have sl: "first_char q = CHR ''/''" "has_flag flags FNM_PATHNAME" by auto
      from tokens_slash [OF sl(1), of flags] obtain r where
        t: "tokens flags q = map_option (Cons (Literal (CHR ''/''))) (tokens flags r)" by blast
      have "outcome flags (tokens flags q) (drop k s)
              (fnmatch_loop flags (rev (take k s) @ before) q (drop k s))" for k
        by (rule decidedD [OF q]) (use nul in_set_dropD in fastforce)
      then show ?thesis using False sl assms(1)
        by (cases "tokens flags r"; cases "strchr (CHR ''/'') s")
           (auto simp: fnmatch_loop.simps(2) q_def [symmetric] Let_def leading_period_def outcome_def t
                       wild_Many_slash FNM_NOMATCH_def simp del: wild.simps)
    qed
  qed
  then show "outcome flags (map_option (Cons Many) (tokens flags (dropWhile (\<lambda>c. c = CHR ''*'') p))) s
               (fnmatch_loop flags before (CHR ''*'' # p) s)"
    by (simp add: q_def)
qed

lemma fnmatch_loop_decided:
  assumes "\<not> has_flag flags FNM_PERIOD" "\<not> has_flag flags FNM_PREFIX_DIRS"
  shows "NUL \<notin> set p \<Longrightarrow> decided flags p"
proof (induction p rule: length_induct)
  case (1 p)
  then have IH: "\<And>q. length q < length p \<Longrightarrow> NUL \<notin> set q \<Longrightarrow> decided flags q" by blast
  show ?case
  proof (cases p)
    case Nil
    then show ?thesis by (auto simp: decided_def outcome_def first_char_def split: list.splits)
  next
    case (Cons c q)
    with 1(2) have q: "NUL \<notin> set q" by simp
    consider "c = CHR ''?''" | "c = CHR ''*''" | "c = CHR ''[''" | "c \<notin> {CHR ''?'', CHR ''*'', CHR ''[''}"
      by blast
    then show ?thesis
    proof cases
      case 1
      then show ?thesis using decided_question [OF assms(1) IH [OF _ q]] Cons by simp
    next
      case 2
      then show ?thesis using decided_stars [OF assms(1) q] IH Cons by (simp add: le_imp_less_Suc)
    next
      case 3
      then show ?thesis using decided_bracket [OF q] IH Cons by simp
    next
      case 4
      then show ?thesis using decided_char [OF assms(2) 4, of q] IH Cons 1(2)
        by (simp add: le_imp_less_Suc)
    qed
  qed
qed

text \<open>
  C10. Matching decides exactly the strings that the pattern describes: for all flags but
  \<^verbatim>\<open>FNM_PERIOD\<close> and \<^verbatim>\<open>FNM_PREFIX_DIRS\<close>, a pattern whose bracket expressions are closed yields 0 for
  the strings of its language and \<^verbatim>\<open>FNM_NOMATCH\<close> for all others, without reading beyond its end, and
  a pattern with an unclosed bracket expression matches nothing.
\<close>

theorem fnmatch_decides_wildcards:
  assumes "cstring pattern" "cstring string"
    and "\<not> has_flag flags FNM_PERIOD" "\<not> has_flag flags FNM_PREFIX_DIRS"
  shows "case tokens flags pattern of
           Some ts \<Rightarrow> wpdk_fnmatch pattern string flags = Some (if wild flags ts string then 0 else FNM_NOMATCH)
         | None \<Rightarrow> wpdk_fnmatch pattern string flags \<noteq> Some 0"
  using decidedD [OF fnmatch_loop_decided [OF assms(3,4), of pattern], of string "[]"] assms(1,2)
  by (auto simp: cstring_def wpdk_fnmatch_def outcome_def split: option.splits)

theorem fnmatch_decides_wildcards_witness:
  "tokens FNM_PATHNAME ''*.[ch]'' = Some [Many, Literal CHR ''.'', Bracket False [(CHR ''c'', CHR ''c''), (CHR ''h'', CHR ''h'')]] \<and>
   wpdk_fnmatch ''*.[ch]'' ''a.h'' FNM_PATHNAME = Some 0 \<and>
   wpdk_fnmatch ''*.[ch]'' ''b/a.h'' FNM_PATHNAME = Some FNM_NOMATCH"
  using fnmatch_decides_wildcards [of "''*.[ch]''" "''a.h''" FNM_PATHNAME]
    fnmatch_decides_wildcards [of "''*.[ch]''" "''b/a.h''" FNM_PATHNAME]
  by (simp add: tokens.simps bracket_items.simps unquote_def cstring_def has_flag_def fnm_flags
      in_bracket_def fold_case_def slash_ok_def)

text \<open>
  A bracket expression that ends with the pattern is read beyond the terminator.
\<close>

lemma unclosed_bracket_overrun: "wpdk_fnmatch ''[a'' ''a'' 0 = None"
  by code_simp

text \<open>
  The search for the rest of a pattern drops \<^verbatim>\<open>FNM_PERIOD\<close>, so that a period after a later slash is
  matched by \<^verbatim>\<open>*\<close>, which the same pattern without the leading star refuses.
\<close>

lemma period_after_star:
  "wpdk_fnmatch ''*a/*'' ''xa/.b'' (FNM_PATHNAME OR FNM_PERIOD) = Some 0"
  "wpdk_fnmatch ''xa/*'' ''xa/.b'' (FNM_PATHNAME OR FNM_PERIOD) = Some FNM_NOMATCH"
  by code_simp+

text \<open>A closing bracket at the start of a bracket expression closes it.\<close>

lemma empty_bracket: "wpdk_fnmatch ''[]]'' '']'' 0 = Some FNM_NOMATCH"
  by code_simp

end
