(* ===== verification/Descriptors.thy ===== *)
theory Descriptors
  imports Epoll
begin

unbundle bit_operations_syntax

text \<open>
  Files and descriptors: the part of \<^verbatim>\<open>src/unistd.c\<close> that works on descriptors and paths,
  \<^verbatim>\<open>src/uio.c\<close>, \<^verbatim>\<open>src/stat.c\<close>, \<^verbatim>\<open>src/termios.c\<close>, \<^verbatim>\<open>wpdk_open\<close> of \<^verbatim>\<open>src/fcntl.c\<close>, the shared memory
  names of \<^verbatim>\<open>src/mman.c\<close> and the streams of \<^verbatim>\<open>src/stdio.c\<close> that only pass a path on.

  A descriptor belongs to the table of epoll instances, to the table of sockets or to the C
  runtime, whose file functions are the parameter \<open>file_api\<close>. The theorems state that the three
  kinds are kept apart, and what a transfer with several segments does to the file.
\<close>

section \<open>The C runtime\<close>

text \<open>
  A file function of the C runtime returns its result, and the \<^verbatim>\<open>errno\<close> that it sets, if any.
\<close>

type_synonym ('a, 'w) crt = "'w \<Rightarrow> ('a \<times> int option) \<times> 'w"

definition crt_call :: "('a, 'w) crt \<Rightarrow> ('w, 'z) sys_scheme \<Rightarrow> 'a \<times> ('w, 'z) sys_scheme" where
  "crt_call f s =
     (case f (world s) of
        ((r, e), w) \<Rightarrow> (r, s\<lparr>world := w, errno := (case e of None \<Rightarrow> errno s | Some x \<Rightarrow> x)\<rparr>))"

record 'w file_api =
  fa_open :: "string \<Rightarrow> int \<Rightarrow> int \<Rightarrow> (int, 'w) crt"
  fa_close :: "int \<Rightarrow> (int, 'w) crt"
  fa_read :: "int \<Rightarrow> ptr \<Rightarrow> int \<Rightarrow> (int, 'w) crt"
  fa_write :: "int \<Rightarrow> ptr \<Rightarrow> int \<Rightarrow> (int, 'w) crt"
  fa_lseek :: "int \<Rightarrow> int \<Rightarrow> int \<Rightarrow> (int, 'w) crt"
  fa_chsize :: "int \<Rightarrow> int \<Rightarrow> (int, 'w) crt"
  fa_isatty :: "int \<Rightarrow> (int, 'w) crt"
  fa_unlink :: "string \<Rightarrow> (int, 'w) crt"
  fa_access :: "string \<Rightarrow> int \<Rightarrow> (int, 'w) crt"
  fa_chmod :: "string \<Rightarrow> int \<Rightarrow> (int, 'w) crt"
  fa_mkdir :: "string \<Rightarrow> (int, 'w) crt"
  fa_stat :: "string \<Rightarrow> ptr \<Rightarrow> (int, 'w) crt"
  fa_fstat :: "int \<Rightarrow> ptr \<Rightarrow> (int, 'w) crt"
  fa_osfhandle :: "int \<Rightarrow> (nat option, 'w) crt"
  fa_flush :: "nat \<Rightarrow> 'w \<Rightarrow> bool \<times> 'w"
  fa_last_error :: "'w \<Rightarrow> win_error"
  fa_fopen :: "string \<Rightarrow> string \<Rightarrow> (ptr, 'w) crt"
  fa_fdopen :: "int \<Rightarrow> string \<Rightarrow> (ptr, 'w) crt"
  fa_dup :: "int \<Rightarrow> (int, 'w) crt"
  fa_vfprintf :: "ptr \<Rightarrow> string \<Rightarrow> (int, 'w) crt"
  fa_fclose :: "ptr \<Rightarrow> (int, 'w) crt"
  fa_fileno :: "ptr \<Rightarrow> (int, 'w) crt"

definition O_RDONLY :: int where [errno_simps]: "O_RDONLY = 0"
definition O_WRONLY :: int where [errno_simps]: "O_WRONLY = 1"
definition O_RDWR :: int where [errno_simps]: "O_RDWR = 2"
definition O_APPEND :: int where [errno_simps]: "O_APPEND = 0x8"
definition O_CREAT :: int where [errno_simps]: "O_CREAT = 0x100"
definition O_TRUNC :: int where [errno_simps]: "O_TRUNC = 0x200"
definition O_EXCL :: int where [errno_simps]: "O_EXCL = 0x400"
definition O_BINARY :: int where [errno_simps]: "O_BINARY = 0x8000"
definition S_IFMT :: int where [errno_simps]: "S_IFMT = 0xF000"
definition S_IFREG :: int where [errno_simps]: "S_IFREG = 0x8000"
definition S_IREAD :: int where [errno_simps]: "S_IREAD = 0x100"
definition S_IWRITE :: int where [errno_simps]: "S_IWRITE = 0x80"

text \<open>The bits for reading and for writing of the owner, the group and all others.\<close>

definition S_IRALL :: int where [errno_simps]: "S_IRALL = 0x124"
definition S_IWALL :: int where [errno_simps]: "S_IWALL = 0x92"

definition S_ISREG :: "int \<Rightarrow> bool" where
  "S_ISREG mode \<longleftrightarrow> mode AND S_IFMT = S_IFREG"

section \<open>Paths\<close>

text \<open>
  The calls that take a path map it into a local buffer and refuse what cannot be mapped. A
  pointer to a buffer that no longer exists must not be passed on.
\<close>

definition with_path_or ::
  "'a \<Rightarrow> 'w path_api \<Rightarrow> string option
    \<Rightarrow> (string \<Rightarrow> ('w, 'z) path_sys_scheme \<Rightarrow> 'a \<times> ('w, 'z) path_sys_scheme)
    \<Rightarrow> ('w, 'z) path_sys_scheme \<Rightarrow> 'a \<times> ('w, 'z) path_sys_scheme" where
  "with_path_or failed pa pathname f s =
     (case wpdk_get_path pa pathname MAX_PATH s of
        (PNull _, s1) \<Rightarrow> (failed, set_errno EINVAL s1)
      | (PArg, s1) \<Rightarrow> (case pathname of None \<Rightarrow> (failed, set_fault s1) | Some p \<Rightarrow> f p s1)
      | (PBuf p, s1) \<Rightarrow> f p s1
      | (PDangling _, s1) \<Rightarrow> (failed, set_fault s1)
      | (PFault, s1) \<Rightarrow> (failed, set_fault s1))"

abbreviation "with_path \<equiv> with_path_or (- 1 :: int)"

text \<open>The permissions that Windows knows.\<close>

definition crt_mode :: "int \<Rightarrow> int" where
  "crt_mode m = (if m AND S_IRALL \<noteq> 0 then S_IREAD else 0) OR (if m AND S_IWALL \<noteq> 0 then S_IWRITE else 0)"

definition wpdk_open ::
  "'w path_api \<Rightarrow> 'w file_api \<Rightarrow> string option \<Rightarrow> int \<Rightarrow> int \<Rightarrow> ('w, 'z) path_sys_scheme
    \<Rightarrow> int \<times> ('w, 'z) path_sys_scheme" where
  "wpdk_open pa fa pathname flags m =
     (let mode = (if flags AND O_CREAT \<noteq> 0 then crt_mode m else 0);
          flags = (flags AND (O_RDONLY OR O_WRONLY OR O_RDWR OR O_APPEND OR O_CREAT OR O_TRUNC OR O_EXCL))
                  OR O_BINARY
      in with_path pa pathname (\<lambda>path. crt_call (fa_open fa path flags mode)))"

definition wpdk_truncate ::
  "'w path_api \<Rightarrow> 'w file_api \<Rightarrow> string option \<Rightarrow> int \<Rightarrow> ('w, 'z) path_sys_scheme
    \<Rightarrow> int \<times> ('w, 'z) path_sys_scheme" where
  "wpdk_truncate pa fa pathname len = with_path pa pathname (\<lambda>path s.
     let (fd, s1) = crt_call (fa_open fa path O_RDWR 0) s
     in if fd = - 1 then (- 1, s1)
        else
          (let (rc, s2) = crt_call (fa_chsize fa fd len) s1; s3 = snd (crt_call (fa_close fa fd) s2)
           in if rc \<noteq> 0 then wpdk_posix_error (errno s2) s3 else (0, s3)))"

definition wpdk_unlink ::
  "'w path_api \<Rightarrow> 'w file_api \<Rightarrow> string option \<Rightarrow> ('w, 'z) path_sys_scheme
    \<Rightarrow> int \<times> ('w, 'z) path_sys_scheme" where
  "wpdk_unlink pa fa pathname = with_path pa pathname (\<lambda>path s.
     crt_call (fa_unlink fa path) (snd (crt_call (fa_chmod fa path (S_IREAD OR S_IWRITE)) s)))"

definition wpdk_access ::
  "'w path_api \<Rightarrow> 'w file_api \<Rightarrow> string option \<Rightarrow> int \<Rightarrow> ('w, 'z) path_sys_scheme
    \<Rightarrow> int \<times> ('w, 'z) path_sys_scheme" where
  "wpdk_access pa fa pathname mode = with_path pa pathname (\<lambda>path. crt_call (fa_access fa path mode))"

definition wpdk_mknod ::
  "'w path_api \<Rightarrow> 'w file_api \<Rightarrow> string option \<Rightarrow> int \<Rightarrow> int \<Rightarrow> ('w, 'z) path_sys_scheme
    \<Rightarrow> int \<times> ('w, 'z) path_sys_scheme" where
  "wpdk_mknod pa fa pathname mode dev s =
     (if \<not> S_ISREG mode \<or> dev \<noteq> 0 then wpdk_posix_error ENOSYS s
      else with_path pa pathname (\<lambda>path s.
        let (fd, s1) = crt_call (fa_open fa path (O_CREAT OR O_EXCL OR O_RDONLY) (crt_mode mode)) s
        in if fd < 0 then (- 1, s1) else (0, snd (crt_call (fa_close fa fd) s1))) s)"

definition wpdk_stat64 ::
  "'w path_api \<Rightarrow> 'w file_api \<Rightarrow> string option \<Rightarrow> ptr \<Rightarrow> ('w, 'z) path_sys_scheme
    \<Rightarrow> int \<times> ('w, 'z) path_sys_scheme" where
  "wpdk_stat64 pa fa pathname stbuf s =
     (if pathname = None \<or> stbuf = 0 then wpdk_posix_error EINVAL s
      else with_path pa pathname (\<lambda>path s.
        let (rc, s1) = crt_call (fa_stat fa path stbuf) s in (if rc = 0 then 0 else - 1, s1)) s)"

definition wpdk_chmod ::
  "'w path_api \<Rightarrow> 'w file_api \<Rightarrow> string option \<Rightarrow> int \<Rightarrow> ('w, 'z) path_sys_scheme
    \<Rightarrow> int \<times> ('w, 'z) path_sys_scheme" where
  "wpdk_chmod pa fa filename pmode =
     (let mode = (if pmode AND S_IREAD \<noteq> 0 then S_IREAD else 0) OR (if pmode AND S_IWRITE \<noteq> 0 then S_IWRITE else 0)
      in with_path pa filename (\<lambda>path. crt_call (fa_chmod fa path mode)))"

definition wpdk_mkdir ::
  "'w path_api \<Rightarrow> 'w file_api \<Rightarrow> string option \<Rightarrow> int \<Rightarrow> ('w, 'z) path_sys_scheme
    \<Rightarrow> int \<times> ('w, 'z) path_sys_scheme" where
  "wpdk_mkdir pa fa pathname mode = with_path pa pathname (\<lambda>path. crt_call (fa_mkdir fa path))"

definition wpdk_shm_open ::
  "'w path_api \<Rightarrow> 'w file_api \<Rightarrow> string option \<Rightarrow> int \<Rightarrow> int \<Rightarrow> ('w, 'z) path_sys_scheme
    \<Rightarrow> int \<times> ('w, 'z) path_sys_scheme" where
  "wpdk_shm_open pa fa name oflag mode = with_path pa name (\<lambda>path. crt_call (fa_open fa path oflag mode))"

definition wpdk_shm_unlink ::
  "'w path_api \<Rightarrow> 'w file_api \<Rightarrow> string option \<Rightarrow> ('w, 'z) path_sys_scheme
    \<Rightarrow> int \<times> ('w, 'z) path_sys_scheme" where
  "wpdk_shm_unlink pa fa name = with_path pa name (\<lambda>path. crt_call (fa_unlink fa path))"

definition wpdk_fopen ::
  "'w path_api \<Rightarrow> 'w file_api \<Rightarrow> string option \<Rightarrow> string \<Rightarrow> ('w, 'z) path_sys_scheme
    \<Rightarrow> ptr \<times> ('w, 'z) path_sys_scheme" where
  "wpdk_fopen pa fa filename mode = with_path_or 0 pa filename (\<lambda>path. crt_call (fa_fopen fa path mode))"

section \<open>Descriptors\<close>

definition wpdk_is_fd :: "int \<Rightarrow> bool" where
  "wpdk_is_fd fildes \<longleftrightarrow> \<not> wpdk_is_epoll fildes \<and> \<not> wpdk_is_socket fildes"

definition wpdk_ftruncate ::
  "'w file_api \<Rightarrow> int \<Rightarrow> int \<Rightarrow> ('w, 'z) epoll_sys_scheme \<Rightarrow> int \<times> ('w, 'z) epoll_sys_scheme" where
  "wpdk_ftruncate fa fd len s =
     (let (rc, s1) = crt_call (fa_chsize fa fd len) s
      in if rc \<noteq> 0 \<and> errno s1 = EACCES then wpdk_posix_error EBADF s1
         else (if rc = 0 then 0 else - 1, s1))"

definition wpdk_isatty ::
  "'w file_api \<Rightarrow> int \<Rightarrow> ('w, 'z) epoll_sys_scheme \<Rightarrow> int \<times> ('w, 'z) epoll_sys_scheme" where
  "wpdk_isatty fa fildes s =
     (if \<not> wpdk_is_fd fildes then (0, set_errno ENOTTY s)
      else
        (let (rc, s1) = crt_call (fa_isatty fa fildes) (set_errno 0 s)
         in if rc = 0
            then (0, if errno s1 = 0 \<or> errno s1 \<noteq> EBADF then set_errno ENOTTY s1 else s1)
            else (1, s1)))"

text \<open>The name is \<open>None\<close> for NULL.\<close>

definition wpdk_ttyname ::
  "'w file_api \<Rightarrow> int \<Rightarrow> ('w, 'z) epoll_sys_scheme \<Rightarrow> string option \<times> ('w, 'z) epoll_sys_scheme" where
  "wpdk_ttyname fa fildes s =
     (let (rc, s1) = wpdk_isatty fa fildes s
      in (if rc = 0 then None else Some ''/dev/pts/0'', s1))"

definition wpdk_read ::
  "'w winsock \<Rightarrow> 'w file_api \<Rightarrow> int \<Rightarrow> ptr \<Rightarrow> int \<Rightarrow> ('w, 'z) epoll_sys_scheme
    \<Rightarrow> int \<times> ('w, 'z) epoll_sys_scheme" where
  "wpdk_read ws fa fildes buf nbyte s =
     (if INT_MAX < nbyte then wpdk_posix_error EINVAL s
      else if wpdk_is_epoll fildes then wpdk_posix_error EBADF s
      else if wpdk_is_socket fildes then wpdk_socket_read ws fildes buf nbyte s
      else crt_call (fa_read fa fildes buf nbyte) s)"

definition wpdk_write ::
  "'w winsock \<Rightarrow> 'w file_api \<Rightarrow> int \<Rightarrow> ptr \<Rightarrow> int \<Rightarrow> ('w, 'z) epoll_sys_scheme
    \<Rightarrow> int \<times> ('w, 'z) epoll_sys_scheme" where
  "wpdk_write ws fa fildes buf nbyte s =
     (if INT_MAX < nbyte then wpdk_posix_error EINVAL s
      else if wpdk_is_epoll fildes then wpdk_posix_error EBADF s
      else if wpdk_is_socket fildes then wpdk_socket_write ws fildes buf nbyte s
      else crt_call (fa_write fa fildes buf nbyte) s)"

definition wpdk_lseek ::
  "'w file_api \<Rightarrow> int \<Rightarrow> int \<Rightarrow> int \<Rightarrow> ('w, 'z) epoll_sys_scheme \<Rightarrow> int \<times> ('w, 'z) epoll_sys_scheme" where
  "wpdk_lseek fa fildes offset whence s =
     (if \<not> wpdk_is_fd fildes then wpdk_posix_error EBADF s
      else crt_call (fa_lseek fa fildes offset whence) s)"

definition wpdk_close ::
  "'w winsock \<Rightarrow> 'w file_api \<Rightarrow> int \<Rightarrow> ('w, 'z) epoll_sys_scheme \<Rightarrow> int \<times> ('w, 'z) epoll_sys_scheme" where
  "wpdk_close ws fa fildes s =
     (if wpdk_is_epoll fildes then wpdk_close_epoll fildes s
      else if wpdk_is_socket fildes then wpdk_close_socket ws fildes s
      else crt_call (fa_close fa fildes) s)"

definition wpdk_fsync ::
  "'w file_api \<Rightarrow> int \<Rightarrow> ('w, 'z) epoll_sys_scheme \<Rightarrow> int \<times> ('w, 'z) epoll_sys_scheme" where
  "wpdk_fsync fa fildes s =
     (if \<not> wpdk_is_fd fildes then wpdk_posix_error EBADF s
      else
        (case crt_call (fa_osfhandle fa fildes) s of
           (None, s1) \<Rightarrow> wpdk_posix_error EBADF s1
         | (Some h, s1) \<Rightarrow>
             (let (ok, s2) = os_call (fa_flush fa h) s1; rc = fa_last_error fa (world s2)
              in if ok then (0, s2)
                 else if rc = Werr2 ERROR_INVALID_HANDLE then (0, s2)
                 else wpdk_windows_error rc s2)))"

text \<open>
  \<^verbatim>\<open>wpdk_fstat64\<close> of the native build; the buffer is filled by the C runtime.
\<close>

definition wpdk_fstat64 ::
  "'w file_api \<Rightarrow> int \<Rightarrow> ptr \<Rightarrow> ('w, 'z) epoll_sys_scheme \<Rightarrow> int \<times> ('w, 'z) epoll_sys_scheme" where
  "wpdk_fstat64 fa fildes buf s =
     (if buf = 0 then wpdk_posix_error EINVAL s
      else (let (rc, s1) = crt_call (fa_fstat fa fildes buf) s in (if rc = 0 then 0 else - 1, s1)))"

section \<open>Streams and terminals\<close>

definition wpdk_fdopen ::
  "'w file_api \<Rightarrow> int \<Rightarrow> string \<Rightarrow> ('w, 'z) epoll_sys_scheme \<Rightarrow> ptr \<times> ('w, 'z) epoll_sys_scheme" where
  "wpdk_fdopen fa fildes mode = crt_call (fa_fdopen fa fildes mode)"

text \<open>The format string and its arguments are one parameter.\<close>

definition wpdk_vdprintf ::
  "'w file_api \<Rightarrow> int \<Rightarrow> string \<Rightarrow> ('w, 'z) epoll_sys_scheme \<Rightarrow> int \<times> ('w, 'z) epoll_sys_scheme" where
  "wpdk_vdprintf fa fd format s =
     (let (newfd, s1) = crt_call (fa_dup fa fd) s
      in if newfd = - 1 then wpdk_posix_error EBADF s1
         else
           (let (fp, s2) = crt_call (fa_fdopen fa newfd ''r+'') s1
            in if fp = 0 then (- 1, s2)
               else
                 (let (rc, s3) = crt_call (fa_vfprintf fa fp format) s2;
                      s4 = snd (crt_call (fa_fclose fa fp) s3)
                  in (rc, set_errno (errno s3) s4))))"

definition wpdk_fileno ::
  "'w file_api \<Rightarrow> ptr \<Rightarrow> ('w, 'z) epoll_sys_scheme \<Rightarrow> int \<times> ('w, 'z) epoll_sys_scheme" where
  "wpdk_fileno fa stream s =
     (if stream = 0 then wpdk_posix_error EINVAL s else crt_call (fa_fileno fa stream) s)"

definition TCSANOW :: int where [errno_simps]: "TCSANOW = 1"
definition TCSADRAIN :: int where [errno_simps]: "TCSADRAIN = 2"
definition TCSAFLUSH :: int where [errno_simps]: "TCSAFLUSH = 4"

definition wpdk_tcsetattr ::
  "'w file_api \<Rightarrow> int \<Rightarrow> int \<Rightarrow> ptr \<Rightarrow> ('w, 'z) epoll_sys_scheme \<Rightarrow> int \<times> ('w, 'z) epoll_sys_scheme" where
  "wpdk_tcsetattr fa fildes optional_actions termios_p s =
     (if termios_p = 0 then wpdk_posix_error EINVAL s
      else
        (let (tty, s1) = wpdk_isatty fa fildes s
         in if tty = 0 then (- 1, s1)
            else if optional_actions \<in> {TCSANOW, TCSADRAIN, TCSAFLUSH} then (0, s1)
            else wpdk_posix_error EINVAL s1))"

text \<open>The result says whether the structure has been cleared.\<close>

definition wpdk_tcgetattr ::
  "'w file_api \<Rightarrow> int \<Rightarrow> ptr \<Rightarrow> ('w, 'z) epoll_sys_scheme \<Rightarrow> int \<times> bool \<times> ('w, 'z) epoll_sys_scheme" where
  "wpdk_tcgetattr fa fildes termios_p s =
     (if termios_p = 0 then (- 1, False, set_errno EINVAL s)
      else
        (let (tty, s1) = wpdk_isatty fa fildes s
         in if tty = 0 then (- 1, False, s1) else (0, True, s1)))"

section \<open>Segments\<close>

text \<open>
  The check of the segments: \<open>None\<close> is a read beyond the array.
\<close>

fun check_segments :: "nat \<Rightarrow> iovec list \<Rightarrow> int \<Rightarrow> bool option" where
  "check_segments 0 vs len = Some True"
| "check_segments (Suc n) [] len = None"
| "check_segments (Suc n) (v # vs) len =
     (if UINT_MAX < iov_len v then Some False
      else if SSIZE_MAX - len < iov_len v then Some False
      else check_segments n vs (len + iov_len v))"

definition wpdk_uio_check_iovec :: "iovec list option \<Rightarrow> int \<Rightarrow> bool option" where
  "wpdk_uio_check_iovec iov iovcnt =
     (case iov of
        None \<Rightarrow> Some False
      | Some vs \<Rightarrow> if iovcnt < 0 \<or> IOV_MAX < iovcnt then Some False
                   else check_segments (nat iovcnt) vs 0)"

text \<open>
  The loop over the segments; \<open>io\<close> is \<^verbatim>\<open>_read\<close> or \<^verbatim>\<open>_write\<close>.
\<close>

fun transfer ::
  "(int \<Rightarrow> ptr \<Rightarrow> int \<Rightarrow> (int, 'w) crt) \<Rightarrow> int \<Rightarrow> iovec list \<Rightarrow> int \<Rightarrow> ('w, 'z) sys_scheme
    \<Rightarrow> int \<times> ('w, 'z) sys_scheme" where
  "transfer io fildes [] nbytes s = (nbytes, s)"
| "transfer io fildes (v # vs) nbytes s =
     (let len = iov_len v; (rc, s1) = crt_call (io fildes (iov_base v) (to_uint32 len)) s
      in if rc < 0 then (- 1, s1)
         else if rc \<noteq> len then (nbytes + rc, s1)
         else transfer io fildes vs (nbytes + rc) s1)"

definition wpdk_writev ::
  "'w winsock \<Rightarrow> 'w file_api \<Rightarrow> int \<Rightarrow> iovec list option \<Rightarrow> int \<Rightarrow> ('w, 'z) epoll_sys_scheme
    \<Rightarrow> int \<times> ('w, 'z) epoll_sys_scheme" where
  "wpdk_writev ws fa fildes iov iovcnt s =
     (case wpdk_uio_check_iovec iov iovcnt of
        None \<Rightarrow> (- 1, set_fault s)
      | Some False \<Rightarrow> wpdk_posix_error EINVAL s
      | Some True \<Rightarrow>
          if wpdk_is_socket fildes then wpdk_socket_writev ws fildes iov iovcnt s
          else if \<not> wpdk_is_fd fildes then wpdk_posix_error EBADF s
          else transfer (fa_write fa) fildes (take (nat iovcnt) (the iov)) 0 s)"

definition wpdk_readv ::
  "'w winsock \<Rightarrow> 'w file_api \<Rightarrow> int \<Rightarrow> iovec list option \<Rightarrow> int \<Rightarrow> ('w, 'z) epoll_sys_scheme
    \<Rightarrow> int \<times> ('w, 'z) epoll_sys_scheme" where
  "wpdk_readv ws fa fildes iov iovcnt s =
     (case wpdk_uio_check_iovec iov iovcnt of
        None \<Rightarrow> (- 1, set_fault s)
      | Some False \<Rightarrow> wpdk_posix_error EINVAL s
      | Some True \<Rightarrow>
          if wpdk_is_socket fildes then wpdk_socket_readv ws fildes iov iovcnt s
          else if \<not> wpdk_is_fd fildes then wpdk_posix_error EBADF s
          else transfer (fa_read fa) fildes (take (nat iovcnt) (the iov)) 0 s)"

section \<open>The three kinds of descriptors\<close>

lemma kinds_disjoint: "\<not> (wpdk_is_epoll fd \<and> wpdk_is_socket fd)"
  by (auto simp: wpdk_is_epoll_def wpdk_is_socket_def errno_simps)

lemma crt_call_tables:
  "snd (crt_call f s) = s\<lparr>world := world (snd (crt_call f s)), errno := errno (snd (crt_call f s))\<rparr>"
  by (simp add: crt_call_def split_beta)

text \<open>The operations that look at the kind of their descriptor.\<close>

datatype fd_op =
    Fd_Read ptr int
  | Fd_Write ptr int
  | Fd_Readv "iovec list option" int
  | Fd_Writev "iovec list option" int
  | Fd_Lseek int int
  | Fd_Fsync
  | Fd_Isatty
  | Fd_Close

fun fd_run ::
  "'w winsock \<Rightarrow> 'w file_api \<Rightarrow> int \<Rightarrow> fd_op \<Rightarrow> ('w, 'z) epoll_sys_scheme \<Rightarrow> int \<times> ('w, 'z) epoll_sys_scheme" where
  "fd_run ws fa fd (Fd_Read buf n) = wpdk_read ws fa fd buf n"
| "fd_run ws fa fd (Fd_Write buf n) = wpdk_write ws fa fd buf n"
| "fd_run ws fa fd (Fd_Readv iov n) = wpdk_readv ws fa fd iov n"
| "fd_run ws fa fd (Fd_Writev iov n) = wpdk_writev ws fa fd iov n"
| "fd_run ws fa fd (Fd_Lseek offset whence) = wpdk_lseek fa fd offset whence"
| "fd_run ws fa fd Fd_Fsync = wpdk_fsync fa fd"
| "fd_run ws fa fd Fd_Isatty = wpdk_isatty fa fd"
| "fd_run ws fa fd Fd_Close = wpdk_close ws fa fd"

lemmas fd_ops = wpdk_read_def wpdk_write_def wpdk_readv_def wpdk_writev_def wpdk_lseek_def
  wpdk_fsync_def wpdk_isatty_def wpdk_close_def

text \<open>What no file operation changes: the tables of the library, which extend the basic state.\<close>

definition same_tables :: "('w, 'z) epoll_sys_scheme \<Rightarrow> ('w, 'z) epoll_sys_scheme \<Rightarrow> bool" where
  "same_tables s t \<longleftrightarrow> sys.more t = sys.more s"

lemma more_crt_call [simp]: "sys.more (snd (crt_call f s)) = sys.more s"
  by (simp add: crt_call_def split_beta)

lemma more_os_call [simp]: "sys.more (snd (os_call f s)) = sys.more s"
  by (simp add: os_call_def split_beta)

lemma more_set_errno [simp]: "sys.more (set_errno e s) = sys.more s" "sys.more (set_fault s) = sys.more s"
  by (simp_all add: set_errno_def set_fault_def)

lemma more_posix_error [simp]: "sys.more (snd (wpdk_posix_error e s)) = sys.more s"
  by simp

lemma more_windows_error [simp]: "sys.more (snd (wpdk_windows_error e s)) = sys.more s"
  by (simp add: wpdk_windows_error_def)

lemma more_transfer: "sys.more (snd (transfer io fd vs n s)) = sys.more s"
  by (induction vs arbitrary: n s) (simp_all add: Let_def split_beta)

lemma file_keeps_tables:
  assumes "wpdk_is_fd fd"
  shows "same_tables s (snd (fd_run ws fa fd op s))"
  using assms
  by (cases op) (simp_all add: fd_ops same_tables_def wpdk_is_fd_def split_beta Let_def more_transfer
                   split: option.splits bool.splits)

lemma runtime_not_asked:
  assumes "\<not> wpdk_is_fd fd"
  shows "fd_run ws fa fd op s = fd_run ws fa' fd op s"
  using assms
  by (cases op) (auto simp: fd_ops wpdk_is_fd_def split: option.splits bool.splits)

lemma winsock_not_asked:
  assumes "\<not> wpdk_is_socket fd"
  shows "fd_run ws fa fd op s = fd_run ws' fa fd op s"
  using assms
  by (cases op) (simp_all add: fd_ops split: option.splits bool.splits)

lemma epoll_not_transferred:
  assumes "wpdk_is_epoll fd" "op \<noteq> Fd_Close"
  shows "fst (fd_run ws fa fd op s) \<le> 0 \<and> same_tables s (snd (fd_run ws fa fd op s))"
  using assms kinds_disjoint [of fd]
  by (cases op) (auto simp: fd_ops wpdk_is_fd_def same_tables_def split: option.splits bool.splits)


section \<open>Transfers with several segments\<close>

type_synonym memory = "ptr \<Rightarrow> 8 word"

definition segment :: "memory \<Rightarrow> iovec \<Rightarrow> 8 word list" where
  "segment m v = map m [iov_base v ..< iov_base v + nat (iov_len v)]"

definition gather :: "memory \<Rightarrow> iovec list \<Rightarrow> 8 word list" where
  "gather m vs = concat (map (segment m) vs)"

definition store :: "ptr \<Rightarrow> 8 word list \<Rightarrow> memory \<Rightarrow> memory" where
  "store p bs m = (\<lambda>a. if p \<le> a \<and> a < p + length bs then bs ! (a - p) else m a)"

text \<open>
  \<^verbatim>\<open>_write\<close> takes up to \<open>n\<close> bytes from the memory to the end of the output of the descriptor, and none
  when it fails. \<^verbatim>\<open>_read\<close> moves up to \<open>n\<close> bytes from the input of the descriptor to the memory.
\<close>

definition write_contract ::
  "'w file_api \<Rightarrow> int \<Rightarrow> ('w \<Rightarrow> memory) \<Rightarrow> ('w \<Rightarrow> 8 word list) \<Rightarrow> bool" where
  "write_contract fa fd mem out \<longleftrightarrow>
     (\<forall>p n w. case fa_write fa fd p n w of
        ((rc, e), w') \<Rightarrow>
          mem w' = mem w \<and>
          (if rc < 0 then out w' = out w
           else rc \<le> n \<and> out w' = out w @ map (mem w) [p ..< p + nat rc]))"

definition read_contract ::
  "'w file_api \<Rightarrow> int \<Rightarrow> ('w \<Rightarrow> memory) \<Rightarrow> ('w \<Rightarrow> 8 word list) \<Rightarrow> bool" where
  "read_contract fa fd mem inp \<longleftrightarrow>
     (\<forall>p n w. case fa_read fa fd p n w of
        ((rc, e), w') \<Rightarrow>
          if rc < 0 then mem w' = mem w \<and> inp w' = inp w
          else rc \<le> n \<and> nat rc \<le> length (inp w) \<and> inp w' = drop (nat rc) (inp w) \<and>
               mem w' = store p (take (nat rc) (inp w)) (mem w))"

lemma write_contractD:
  assumes "write_contract fa fd mem out" "crt_call (fa_write fa fd p n) s = (rc, s1)"
  shows "mem (world s1) = mem (world s)"
    and "rc < 0 \<Longrightarrow> out (world s1) = out (world s)"
    and "0 \<le> rc \<Longrightarrow> rc \<le> n \<and> out (world s1) = out (world s) @ map (mem (world s)) [p ..< p + nat rc]"
proof -
  have "case fa_write fa fd p n (world s) of ((rc, e), w') \<Rightarrow>
      mem w' = mem (world s) \<and>
      (if rc < 0 then out w' = out (world s)
       else rc \<le> n \<and> out w' = out (world s) @ map (mem (world s)) [p ..< p + nat rc])"
    by (rule assms(1) [unfolded write_contract_def, THEN spec, THEN spec, THEN spec])
  then show "mem (world s1) = mem (world s)" "rc < 0 \<Longrightarrow> out (world s1) = out (world s)"
    "0 \<le> rc \<Longrightarrow> rc \<le> n \<and> out (world s1) = out (world s) @ map (mem (world s)) [p ..< p + nat rc]"
    using assms(2) by (auto simp: crt_call_def split: prod.splits if_splits)
qed

lemma read_contractD:
  assumes "read_contract fa fd mem inp" "crt_call (fa_read fa fd p n) s = (rc, s1)"
  shows "rc < 0 \<Longrightarrow> mem (world s1) = mem (world s) \<and> inp (world s1) = inp (world s)"
    and "0 \<le> rc \<Longrightarrow> rc \<le> n \<and> nat rc \<le> length (inp (world s)) \<and>
           inp (world s1) = drop (nat rc) (inp (world s)) \<and>
           mem (world s1) = store p (take (nat rc) (inp (world s))) (mem (world s))"
proof -
  have "case fa_read fa fd p n (world s) of ((rc, e), w') \<Rightarrow>
      if rc < 0 then mem w' = mem (world s) \<and> inp w' = inp (world s)
      else rc \<le> n \<and> nat rc \<le> length (inp (world s)) \<and> inp w' = drop (nat rc) (inp (world s)) \<and>
           mem w' = store p (take (nat rc) (inp (world s))) (mem (world s))"
    by (rule assms(1) [unfolded read_contract_def, THEN spec, THEN spec, THEN spec])
  then show "rc < 0 \<Longrightarrow> mem (world s1) = mem (world s) \<and> inp (world s1) = inp (world s)"
    "0 \<le> rc \<Longrightarrow> rc \<le> n \<and> nat rc \<le> length (inp (world s)) \<and>
           inp (world s1) = drop (nat rc) (inp (world s)) \<and>
           mem (world s1) = store p (take (nat rc) (inp (world s))) (mem (world s))"
    using assms(2) by (auto simp: crt_call_def split: prod.splits if_splits)
qed

lemma length_segment [simp]: "length (segment m v) = nat (iov_len v)"
  by (simp add: segment_def)

lemma take_segment: "n \<le> nat (iov_len v) \<Longrightarrow> take n (segment m v) = map m [iov_base v ..< iov_base v + n]"
  by (simp add: segment_def take_map)

lemma gather_Cons [simp]: "gather m (v # vs) = segment m v @ gather m vs"
  by (simp add: gather_def)

lemma check_segments_lengths:
  "check_segments n vs len = Some True \<Longrightarrow> v \<in> set (take n vs) \<Longrightarrow> iov_len v \<le> UINT_MAX"
  by (induction n vs len rule: check_segments.induct) (auto split: if_splits)

lemma checked_lengths:
  assumes "wpdk_uio_check_iovec (Some vs) n = Some True" "\<forall>v\<in>set vs. 0 \<le> iov_len v"
  shows "\<forall>v\<in>set (take (nat n) vs). 0 \<le> iov_len v \<and> iov_len v \<le> UINT_MAX"
proof -
  have "check_segments (nat n) vs 0 = Some True"
    using assms(1) by (simp add: wpdk_uio_check_iovec_def split: if_splits)
  then show ?thesis using check_segments_lengths assms(2) by (meson in_set_takeD)
qed

lemma world_crt_call: "world (snd (crt_call f s)) = snd (f (world s))" "fst (crt_call f s) = fst (fst (f (world s)))"
  by (simp_all add: crt_call_def split_beta)

text \<open>
  The loop moves a prefix of the segments, all of it unless a segment falls short.
\<close>

lemma transfer_write:
  assumes "write_contract fa fd mem out" "\<forall>v\<in>set vs. 0 \<le> iov_len v \<and> iov_len v \<le> UINT_MAX"
    and "transfer (fa_write fa) fd vs n s = (r, s')" "0 \<le> n"
  shows "\<exists>k\<le>length (gather (mem (world s)) vs).
           out (world s') = out (world s) @ take k (gather (mem (world s)) vs) \<and>
           mem (world s') = mem (world s) \<and> (r = - 1 \<or> r = n + int k) \<and>
           ((\<forall>p n w. fst (fst (fa_write fa fd p n w)) = n) \<longrightarrow>
              r = n + int (length (gather (mem (world s)) vs)))"
  using assms(2-)
proof (induction vs arbitrary: n s)
  case Nil
  then show ?case by (simp add: gather_def)
next
  case (Cons v vs)
  let ?m = "mem (world s)"
  obtain rc s1 where c: "crt_call (fa_write fa fd (iov_base v) (to_uint32 (iov_len v))) s = (rc, s1)"
    by fastforce
  have len: "to_uint32 (iov_len v) = iov_len v" "0 \<le> iov_len v"
    using Cons.prems(1) by (simp_all add: to_uint32_id UINT_MAX_def)
  have w: "mem (world s1) = ?m"
    "rc < 0 \<Longrightarrow> out (world s1) = out (world s)"
    "0 \<le> rc \<Longrightarrow> rc \<le> iov_len v \<and> out (world s1) = out (world s) @ take (nat rc) (segment ?m v)"
    using write_contractD [OF assms(1) c] len take_segment [of "nat rc" v ?m] by auto
  have full: "(\<forall>p n w. fst (fst (fa_write fa fd p n w)) = n) \<Longrightarrow> rc = iov_len v"
    using c len world_crt_call(2) by (metis fst_conv)
  consider (failed) "rc < 0" "r = - 1" "s' = s1" | (short) "0 \<le> rc" "rc \<noteq> iov_len v" "r = n + rc" "s' = s1"
    | (full) "rc = iov_len v" "transfer (fa_write fa) fd vs (n + rc) s1 = (r, s')"
    using Cons.prems(2) c len by (auto simp: Let_def split: if_splits)
  then show ?case
  proof cases
    case failed
    then show ?thesis using w full len by (intro exI [of _ 0]) auto
  next
    case short
    then show ?thesis using w full by (intro exI [of _ "nat rc"]) auto
  next
    case 3: full
    from Cons.IH [OF _ 3(2)] Cons.prems(1,3) len 3(1) obtain k where
      k: "k \<le> length (gather (mem (world s1)) vs)"
      "out (world s') = out (world s1) @ take k (gather (mem (world s1)) vs)"
      "mem (world s') = mem (world s1)" "r = - 1 \<or> r = n + rc + int k"
      "(\<forall>p n w. fst (fst (fa_write fa fd p n w)) = n) \<longrightarrow> r = n + rc + int (length (gather (mem (world s1)) vs))"
      by auto
    then show ?thesis using w(1) w(3) 3(1) len by (intro exI [of _ "nat rc + k"]) auto
  qed
qed

text \<open>The addresses of a segment; different segments of a read must not overlap.\<close>

definition range_of_segment :: "iovec \<Rightarrow> nat set" where
  "range_of_segment v = {iov_base v ..< iov_base v + nat (iov_len v)}"

definition separate :: "iovec list \<Rightarrow> bool" where
  "separate vs \<longleftrightarrow> sorted_wrt (\<lambda>v w. range_of_segment v \<inter> range_of_segment w = {}) vs"

definition unchanged_outside :: "iovec list \<Rightarrow> memory \<Rightarrow> memory \<Rightarrow> bool" where
  "unchanged_outside vs m m' \<longleftrightarrow> (\<forall>a. a \<notin> (\<Union>v\<in>set vs. range_of_segment v) \<longrightarrow> m' a = m a)"

lemma take_segment_store:
  assumes "n \<le> nat (iov_len v)" "n \<le> length bs"
  shows "take n (segment (store (iov_base v) (take n bs) m) v) = take n bs"
  using assms by (auto simp: take_segment store_def intro: nth_equalityI)

lemma segment_cong: "(\<And>a. a \<in> range_of_segment v \<Longrightarrow> m a = m' a) \<Longrightarrow> segment m v = segment m' v"
  by (auto simp: segment_def range_of_segment_def)

lemma store_outside: "a \<notin> range_of_segment v \<Longrightarrow> length bs \<le> nat (iov_len v) \<Longrightarrow> store (iov_base v) bs m a = m a"
  by (auto simp: store_def range_of_segment_def)

lemma transfer_read:
  assumes "read_contract fa fd mem inp"
    and "\<forall>v\<in>set vs. 0 \<le> iov_len v \<and> iov_len v \<le> UINT_MAX" "separate vs"
    and "transfer (fa_read fa) fd vs n s = (r, s')"
  shows "\<exists>k\<le>length (gather (mem (world s)) vs).
           k \<le> length (inp (world s)) \<and> inp (world s') = drop k (inp (world s)) \<and>
           take k (gather (mem (world s')) vs) = take k (inp (world s)) \<and>
           unchanged_outside vs (mem (world s)) (mem (world s')) \<and> (r = - 1 \<or> r = n + int k)"
  using assms(2-)
proof (induction vs arbitrary: n s)
  case Nil
  then show ?case by (simp add: gather_def unchanged_outside_def)
next
  case (Cons v vs)
  let ?i = "inp (world s)"
  obtain rc s1 where c: "crt_call (fa_read fa fd (iov_base v) (to_uint32 (iov_len v))) s = (rc, s1)"
    by fastforce
  have len: "to_uint32 (iov_len v) = iov_len v" "0 \<le> iov_len v"
    using Cons.prems(1) by (simp_all add: to_uint32_id UINT_MAX_def)
  note w = read_contractD [OF assms(1) c, unfolded len(1)]
  consider (failed) "rc < 0" "r = - 1" "s' = s1" | (short) "0 \<le> rc" "r = n + rc" "s' = s1"
    | (full) "rc = iov_len v" "transfer (fa_read fa) fd vs (n + rc) s1 = (r, s')"
    using Cons.prems(3) c len by (auto simp: Let_def split: if_splits)
  then show ?case
  proof cases
    case failed
    then show ?thesis using w(1) by (intro exI [of _ 0]) (auto simp: unchanged_outside_def)
  next
    case short
    then show ?thesis using w(2) len take_segment_store [of "nat rc" v ?i "mem (world s)"]
      by (intro exI [of _ "nat rc"]) (auto simp: unchanged_outside_def min_def store_outside)
  next
    case full
    let ?n = "nat (iov_len v)"
    from full(1) w(2) len have w': "?n \<le> length ?i" "inp (world s1) = drop ?n ?i"
      "mem (world s1) = store (iov_base v) (take ?n ?i) (mem (world s))" by auto
    from Cons.IH [OF _ _ full(2)] Cons.prems(1,2) obtain k where
      k: "k \<le> length (gather (mem (world s1)) vs)" "k \<le> length (drop ?n ?i)"
      "inp (world s') = drop k (drop ?n ?i)" "take k (gather (mem (world s')) vs) = take k (drop ?n ?i)"
      "unchanged_outside vs (mem (world s1)) (mem (world s'))" "r = - 1 \<or> r = n + rc + int k"
      by (auto simp: separate_def w'(2))
    have "segment (mem (world s')) v = segment (mem (world s1)) v"
      by (rule segment_cong) (use k(5) Cons.prems(2) in \<open>auto simp: unchanged_outside_def separate_def\<close>)
    also have "\<dots> = take ?n ?i"
      using take_segment_store [of ?n v ?i "mem (world s)"] w' by simp
    finally have "take (?n + k) (gather (mem (world s')) (v # vs)) = take (?n + k) ?i"
      using k(4) w'(1) by (simp add: take_add)
    moreover have "unchanged_outside (v # vs) (mem (world s)) (mem (world s'))"
      using k(5) w' by (auto simp: unchanged_outside_def store_outside)
    ultimately show ?thesis using k w' full(1) len
      by (intro exI [of _ "?n + k"]) (auto simp: add.commute gather_def length_concat comp_def)
  qed
qed



section \<open>An instance\<close>

text \<open>A C runtime with one open file, an endless output and an input; only descriptor 3 is open.\<close>

type_synonym demo_world = "memory \<times> 8 word list \<times> 8 word list"

definition demo_read :: "int \<Rightarrow> ptr \<Rightarrow> int \<Rightarrow> (int, demo_world) crt" where
  "demo_read fd p n w =
     (case w of (m, inp, out) \<Rightarrow>
        if n < 0 \<or> fd \<noteq> 3 then ((- 1, Some EBADF), w)
        else (let bs = take (nat n) inp
              in ((int (length bs), None), store p bs m, drop (nat n) inp, out)))"

definition demo_write :: "int \<Rightarrow> ptr \<Rightarrow> int \<Rightarrow> (int, demo_world) crt" where
  "demo_write fd p n w =
     (case w of (m, inp, out) \<Rightarrow> ((n, None), m, inp, out @ map m [p ..< p + nat n]))"

definition demo_file_api :: "demo_world file_api" where
  "demo_file_api =
     \<lparr>fa_open = (\<lambda>path flags mode. Pair (3, None)), fa_close = (\<lambda>fd. Pair (0, None)),
      fa_read = demo_read, fa_write = demo_write, fa_lseek = (\<lambda>fd x y. Pair (0, None)),
      fa_chsize = (\<lambda>fd n. Pair (0, None)), fa_isatty = (\<lambda>fd. Pair (0, Some ENOTTY)),
      fa_unlink = (\<lambda>p. Pair (0, None)), fa_access = (\<lambda>p m. Pair (0, None)),
      fa_chmod = (\<lambda>p m. Pair (0, None)), fa_mkdir = (\<lambda>p. Pair (0, None)),
      fa_stat = (\<lambda>p b. Pair (0, None)), fa_fstat = (\<lambda>fd b. Pair (0, None)),
      fa_osfhandle = (\<lambda>fd. Pair (Some 100, None)), fa_flush = (\<lambda>h. Pair True),
      fa_last_error = (\<lambda>w. Werr1 ERROR_SUCCESS), fa_fopen = (\<lambda>p m. Pair (200, None)),
      fa_fdopen = (\<lambda>fd m. Pair (0, Some EINVAL)), fa_dup = (\<lambda>fd. Pair (4, None)),
      fa_vfprintf = (\<lambda>fp f. Pair (0, None)), fa_fclose = (\<lambda>fp. Pair (0, None)),
      fa_fileno = (\<lambda>fp. Pair (3, None))\<rparr>"

definition demo_fd_sys :: "demo_world epoll_sys" where
  "demo_fd_sys = \<lparr>errno = 0, fault = False, world = (\<lambda>a. of_nat a, [7, 8, 9], []), map_init = False,
     path_map = [], socket_ready = 0, socket_fds = None, epoll_fds = None\<rparr>"

definition demo_iov :: "iovec list" where
  "demo_iov = [\<lparr>iov_base = 16, iov_len = 2\<rparr>, \<lparr>iov_base = 32, iov_len = 1\<rparr>]"

lemma demo_contracts:
  "write_contract demo_file_api 3 fst (\<lambda>w. snd (snd w))" "read_contract demo_file_api 3 fst (\<lambda>w. fst (snd w))"
  by (auto simp: write_contract_def read_contract_def demo_file_api_def demo_write_def demo_read_def
      Let_def min_def)


lemma demo_iov_checked: "wpdk_uio_check_iovec (Some demo_iov) 2 = Some True"
  by (simp add: wpdk_uio_check_iovec_def demo_iov_def errno_simps numeral_2_eq_2)



text \<open>
  After an error in a later segment the result does not tell how much has been written, although
  the earlier segments are in the file.
\<close>

lemma writev_error_hides_progress:
  assumes "fa_write fa fd = (\<lambda>p n w. case w of (m, inp, out) \<Rightarrow>
             if out = [] then ((n, None), m, inp, map m [p ..< p + nat n]) else ((- 1, Some ENOSPC), w))"
    and "wpdk_is_fd fd"
  shows "fst (wpdk_writev ws fa fd (Some demo_iov) 2 demo_fd_sys) = - 1 \<and>
         snd (snd (world (snd (wpdk_writev ws fa fd (Some demo_iov) 2 demo_fd_sys)))) = [16, 17]"
  using assms
  by (simp add: wpdk_writev_def demo_iov_checked wpdk_is_fd_def)
     (simp add: demo_iov_def demo_fd_sys_def crt_call_def Let_def to_uint32_def numeral_2_eq_2 upt_rec)

text \<open>
  When the duplicated descriptor cannot be given a stream it is not closed: the only calls are
  \<^verbatim>\<open>_dup\<close> and \<^verbatim>\<open>_fdopen\<close>.
\<close>

lemma vdprintf_leaks:
  assumes "fst (crt_call (fa_dup fa fd) s) \<noteq> - 1"
    and "fst (crt_call (fa_fdopen fa (fst (crt_call (fa_dup fa fd) s)) ''r+'') (snd (crt_call (fa_dup fa fd) s))) = 0"
  shows "wpdk_vdprintf fa fd format s =
           (- 1, snd (crt_call (fa_fdopen fa (fst (crt_call (fa_dup fa fd) s)) ''r+'') (snd (crt_call (fa_dup fa fd) s))))"
  using assms by (simp add: wpdk_vdprintf_def split_beta)

end
