(* ===== verification/Process.thy ===== *)
theory Process
  imports Clock "HOL-Library.Monad_Syntax"
begin

text \<open>
  The rest of \<^verbatim>\<open>src/unistd.c\<close>: sleeping, the identity of the process and the system parameters, and
  the calls of \<^verbatim>\<open>src/wait.c\<close> and \<^verbatim>\<open>src/pwd.c\<close>.

  The loops may run forever, when the counter stands still or when Windows keeps failing; they are
  partial functions, and the theorems state when they return.
\<close>

section \<open>Sleeping\<close>

text \<open>
  \<^verbatim>\<open>QueryPerformanceFrequency\<close>, \<^verbatim>\<open>QueryPerformanceCounter\<close>, \<^verbatim>\<open>SwitchToThread\<close>, \<^verbatim>\<open>YieldProcessor\<close>,
  \<^verbatim>\<open>SleepEx\<close> and \<^verbatim>\<open>GetTickCount64\<close>. The frequency is kept in a static variable.
\<close>

record 'w sleep_api =
  sl_frequency :: "'w \<Rightarrow> int"
  sl_counter :: "'w \<Rightarrow> int \<times> 'w"
  sl_switch :: "'w \<Rightarrow> bool \<times> 'w"
  sl_yield :: "'w \<Rightarrow> 'w"
  sl_sleep :: "int \<Rightarrow> 'w \<Rightarrow> 'w"
  sl_ticks :: "'w \<Rightarrow> int \<times> 'w"

record 'w sleep_sys = "'w sys" +
  us_freq :: int

text \<open>One round of the loop: yield the processor and read the counter.\<close>

definition yield_round :: "'w sleep_api \<Rightarrow> ('w, 'z) sys_scheme \<Rightarrow> int \<times> ('w, 'z) sys_scheme" where
  "yield_round api s =
     (let (switched, s1) = os_call (sl_switch api) s;
          s2 = (if switched then s1 else s1\<lparr>world := sl_yield api (world s1)\<rparr>)
      in os_call (sl_counter api) s2)"

partial_function (option) usleep_loop ::
  "'w sleep_api \<Rightarrow> int \<Rightarrow> int \<Rightarrow> ('w, 'z) sys_scheme \<Rightarrow> ('w, 'z) sys_scheme option" where
  "usleep_loop api stop now s =
     (if now < stop then usleep_loop api stop (fst (yield_round api s)) (snd (yield_round api s))
      else Some s)"

definition wpdk_usleep ::
  "'w sleep_api \<Rightarrow> int \<Rightarrow> ('w, 'z) sleep_sys_scheme \<Rightarrow> (int \<times> ('w, 'z) sleep_sys_scheme) option" where
  "wpdk_usleep api useconds s =
     (if 10000 \<le> useconds then Some (0, s\<lparr>world := sl_sleep api (useconds div 1000) (world s)\<rparr>)
      else
        (let s1 = (if us_freq s = 0 then s\<lparr>us_freq := sl_frequency api (world s)\<rparr> else s);
             (now, s2) = os_call (sl_counter api) s1;
             stop = to_int64 (now + c_div (to_int64 (useconds * us_freq s1)) 1000000)
         in Option.bind (usleep_loop api stop now s2) (\<lambda>s3. Some (0, s3))))"

text \<open>
  \<^verbatim>\<open>wpdk_sleep\<close> returns the seconds that are left; the argument is an \<^verbatim>\<open>unsigned int\<close>.
\<close>

definition wpdk_sleep ::
  "'w sleep_api \<Rightarrow> int \<Rightarrow> ('w, 'z) sys_scheme \<Rightarrow> int \<times> ('w, 'z) sys_scheme" where
  "wpdk_sleep api seconds s =
     (if seconds = 0 then (0, s)
      else
        (let seconds = (if LONG_MAX div 1000 < seconds then LONG_MAX div 1000 else seconds);
             (start, s1) = os_call (sl_ticks api) s;
             s2 = s1\<lparr>world := sl_sleep api (seconds * 1000) (world s1)\<rparr>;
             (now, s3) = os_call (sl_ticks api) s2;
             elapsed = to_uint64 (to_uint64 (now - start) + 500) div 1000
         in (if elapsed < seconds then seconds - elapsed else 0, s3)))"

section \<open>Processors\<close>

text \<open>
  An element of the buffer that \<^verbatim>\<open>GetLogicalProcessorInformationEx\<close> fills: its kind, its size, and the
  maximum and active number of processors of each of its groups. The call is given whether there
  is a buffer and its length; it returns whether it succeeded, the length and the contents of the
  buffer by offset.
\<close>

record processor_info =
  pi_relationship :: int
  pi_size :: int
  pi_groups :: "(int \<times> int) list"

record 'w system_api =
  sy_processors :: "bool \<Rightarrow> int \<Rightarrow> 'w \<Rightarrow> (bool \<times> int \<times> (int \<Rightarrow> processor_info)) \<times> 'w"
  sy_malloc :: "int \<Rightarrow> 'w \<Rightarrow> bool \<times> 'w"
  sy_free :: "'w \<Rightarrow> 'w"
  sy_number :: "'w \<Rightarrow> int"
  sy_page_size :: "'w \<Rightarrow> int"
  sy_pid :: "'w \<Rightarrow> int"
  sy_open_token :: "'w \<Rightarrow> nat option \<times> 'w"
  sy_elevation :: "nat \<Rightarrow> 'w \<Rightarrow> bool option"
  sy_close_handle :: "nat \<Rightarrow> 'w \<Rightarrow> 'w"

definition RelationGroup :: int where [errno_simps]: "RelationGroup = 4"

text \<open>The loop that grows the buffer; the value \<open>None\<close> inside is a failed allocation.\<close>

partial_function (option) processor_buffer ::
  "'w system_api \<Rightarrow> bool \<Rightarrow> int \<Rightarrow> ('w, 'z) sys_scheme
    \<Rightarrow> ((int \<times> (int \<Rightarrow> processor_info)) option \<times> ('w, 'z) sys_scheme) option" where
  "processor_buffer api buffer len s =
     (case os_call (sy_processors api buffer len) s of
        ((ok, len', entries), s1) \<Rightarrow>
          if ok then Some (Some (len', entries), s1)
          else
            (case os_call (sy_malloc api len') (if buffer then s1\<lparr>world := sy_free api (world s1)\<rparr> else s1) of
               (allocated, s2) \<Rightarrow>
                 if allocated then processor_buffer api True len' s2 else Some (None, s2)))"

text \<open>The loop over the elements, with the two sums as \<^verbatim>\<open>DWORD\<close>s.\<close>

definition count_groups :: "(int \<times> int) list \<Rightarrow> int \<times> int \<Rightarrow> int \<times> int" where
  "count_groups gs ns = fold (\<lambda>(m, a) (c, d). (to_uint32 (c + m), to_uint32 (d + a))) gs ns"

partial_function (option) count_loop ::
  "(int \<Rightarrow> processor_info) \<Rightarrow> int \<Rightarrow> int \<Rightarrow> int \<times> int \<Rightarrow> (int \<times> int) option" where
  "count_loop entries len offset ns =
     (if offset < len
      then count_loop entries len (to_uint32 (offset + pi_size (entries offset)))
             (if pi_relationship (entries offset) = RelationGroup
              then count_groups (pi_groups (entries offset)) ns else ns)
      else Some ns)"

definition wpdk_get_processor_count ::
  "'w system_api \<Rightarrow> ('w, 'z) sys_scheme \<Rightarrow> ((int \<times> int) option \<times> ('w, 'z) sys_scheme) option" where
  "wpdk_get_processor_count api s =
     do { (r, s1) \<leftarrow> processor_buffer api False 0 s;
          case r of
            None \<Rightarrow> Some (None, s1)
          | Some (len, entries) \<Rightarrow>
              do { ns \<leftarrow> count_loop entries len 0 (0, 0);
                   Some (Some ns, s1\<lparr>world := sy_free api (world s1)\<rparr>) } }"

definition SC_NPROCESSORS_CONF :: int where [errno_simps]: "SC_NPROCESSORS_CONF = 1"
definition SC_NPROCESSORS_ONLN :: int where [errno_simps]: "SC_NPROCESSORS_ONLN = 2"
definition SC_PAGESIZE :: int where [errno_simps]: "SC_PAGESIZE = 3"
definition SC_IOV_MAX :: int where [errno_simps]: "SC_IOV_MAX = 4"

definition wpdk_sysconf ::
  "'w system_api \<Rightarrow> int \<Rightarrow> ('w, 'z) sys_scheme \<Rightarrow> (int \<times> ('w, 'z) sys_scheme) option" where
  "wpdk_sysconf api name s =
     (if name = SC_NPROCESSORS_CONF \<or> name = SC_NPROCESSORS_ONLN
      then do { (r, s1) \<leftarrow> wpdk_get_processor_count api s;
                case r of
                  Some (config, online) \<Rightarrow>
                    Some (to_int32 (if name = SC_NPROCESSORS_CONF then config else online), s1)
                | None \<Rightarrow> Some (to_int32 (sy_number api (world s1)), s1) }
      else if name = SC_PAGESIZE then Some (to_int32 (sy_page_size api (world s)), s)
      else if name = SC_IOV_MAX then Some (1024, s)
      else Some (wpdk_posix_error EINVAL s))"

section \<open>The process\<close>

text \<open>\<open>None\<close> is the end of the program by \<^verbatim>\<open>wpdk_fatal\<close>.\<close>

definition wpdk_getpid :: "'w system_api \<Rightarrow> ('w, 'z) sys_scheme \<Rightarrow> int option" where
  "wpdk_getpid api s = (if INT_MAX < sy_pid api (world s) then None else Some (sy_pid api (world s)))"

definition wpdk_getuid :: "'w system_api \<Rightarrow> ('w, 'z) sys_scheme \<Rightarrow> int \<times> ('w, 'z) sys_scheme" where
  "wpdk_getuid api s =
     (case os_call (sy_open_token api) s of
        (None, s1) \<Rightarrow> (1000, s1)
      | (Some h, s1) \<Rightarrow>
          (if sy_elevation api h (world s1) = Some True then 0 else 1000,
           s1\<lparr>world := sy_close_handle api h (world s1)\<rparr>))"

definition wpdk_fork :: "('w, 'z) sys_scheme \<Rightarrow> int \<times> ('w, 'z) sys_scheme" where
  "wpdk_fork s = wpdk_posix_error ENOSYS s"

definition wpdk_daemon :: "int \<Rightarrow> int \<Rightarrow> ('w, 'z) sys_scheme \<Rightarrow> int \<times> ('w, 'z) sys_scheme" where
  "wpdk_daemon nochdir noclose s = wpdk_posix_error ENOSYS s"

definition wpdk_wait :: "ptr \<Rightarrow> ('w, 'z) sys_scheme \<Rightarrow> int \<times> ('w, 'z) sys_scheme" where
  "wpdk_wait stat_loc s = wpdk_posix_error ENOSYS s"

definition wpdk_waitpid :: "int \<Rightarrow> ptr \<Rightarrow> int \<Rightarrow> ('w, 'z) sys_scheme \<Rightarrow> int \<times> ('w, 'z) sys_scheme" where
  "wpdk_waitpid pid stat_loc options s = wpdk_posix_error ENOSYS s"

text \<open>
  The two accounts of \<^verbatim>\<open>src/pwd.c\<close>; the second one is a static structure that the call changes.
\<close>

record passwd =
  pw_name :: string
  pw_uid :: int
  pw_gid :: int
  pw_dir :: string
  pw_shell :: string

definition root :: passwd where
  "root = \<lparr>pw_name = ''root'', pw_uid = 0, pw_gid = 0, pw_dir = ''/root'', pw_shell = ''/bin/bash''\<rparr>"

definition guest :: passwd where
  "guest = \<lparr>pw_name = ''guest'', pw_uid = 1000, pw_gid = 1000, pw_dir = ''/home/guest'',
            pw_shell = ''/bin/bash''\<rparr>"

definition wpdk_getpwuid :: "int \<Rightarrow> passwd \<Rightarrow> passwd \<times> passwd" where
  "wpdk_getpwuid uid g =
     (if uid = 0 then (root, g) else (g\<lparr>pw_uid := uid\<rparr>, g\<lparr>pw_uid := uid\<rparr>))"

section \<open>Short sleeps end\<close>

text \<open>
  The counter shows a time that never goes back, and passes at last while the processor is yielded.
\<close>

definition counter_contract :: "'w sleep_api \<Rightarrow> ('w \<Rightarrow> int) \<Rightarrow> bool" where
  "counter_contract api time \<longleftrightarrow>
     (\<forall>w. time w \<le> fst (sl_counter api w) \<and> fst (sl_counter api w) \<le> time (snd (sl_counter api w))) \<and>
     (\<forall>w. time w \<le> time (snd (sl_switch api w))) \<and> (\<forall>w. time w \<le> time (sl_yield api w))"

definition world_round :: "'w sleep_api \<Rightarrow> 'w \<Rightarrow> 'w" where
  "world_round api w =
     (let (switched, w1) = sl_switch api w; w2 = (if switched then w1 else sl_yield api w1)
      in snd (sl_counter api w2))"

definition time_passes :: "'w sleep_api \<Rightarrow> ('w \<Rightarrow> int) \<Rightarrow> bool" where
  "time_passes api time \<longleftrightarrow> (\<forall>w. \<exists>n. time w < time ((world_round api ^^ n) w))"

lemma world_yield_round [simp]: "world (snd (yield_round api s)) = world_round api (world s)"
  by (simp add: yield_round_def world_round_def os_call_def split_beta Let_def)

lemma errno_yield_round [simp]:
  "errno (snd (yield_round api s)) = errno s" "sys.more (snd (yield_round api s)) = sys.more s"
  "fault (snd (yield_round api s)) = fault s"
  by (simp_all add: yield_round_def os_call_def split_beta Let_def)

lemma yield_round_reads:
  assumes "counter_contract api time"
  shows "time (world s) \<le> fst (yield_round api s)"
    and "fst (yield_round api s) \<le> time (world (snd (yield_round api s)))"
proof -
  let ?w1 = "snd (sl_switch api (world s))"
  let ?w2 = "if fst (sl_switch api (world s)) then ?w1 else sl_yield api ?w1"
  have y: "fst (yield_round api s) = fst (sl_counter api ?w2)"
    "world (snd (yield_round api s)) = snd (sl_counter api ?w2)"
    by (simp_all add: yield_round_def os_call_def split_beta Let_def)
  have "time (world s) \<le> time ?w1" "time ?w1 \<le> time ?w2" using assms by (simp_all add: counter_contract_def)
  moreover have "time ?w2 \<le> fst (sl_counter api ?w2)" "fst (sl_counter api ?w2) \<le> time (snd (sl_counter api ?w2))"
    using assms by (simp_all only: counter_contract_def)
  ultimately show "time (world s) \<le> fst (yield_round api s)"
    "fst (yield_round api s) \<le> time (world (snd (yield_round api s)))" using y by simp_all
qed

text \<open>The loop returns from the state, whatever counter value it starts with.\<close>

definition returns_at :: "'w sleep_api \<Rightarrow> ('w \<Rightarrow> int) \<Rightarrow> int \<Rightarrow> ('w, 'z) sys_scheme \<Rightarrow> bool" where
  "returns_at api time stop s \<longleftrightarrow>
     (\<forall>now\<le>time (world s). \<exists>s'. usleep_loop api stop now s = Some s' \<and> stop \<le> time (world s') \<and>
        errno s' = errno s \<and> fault s' = fault s \<and> sys.more s' = sys.more s)"

lemma returns_at_round:
  assumes "counter_contract api time" "returns_at api time stop (snd (yield_round api s))"
  shows "returns_at api time stop s"
  unfolding returns_at_def
proof (intro allI impI)
  fix now
  assume now: "now \<le> time (world s)"
  show "\<exists>s'. usleep_loop api stop now s = Some s' \<and> stop \<le> time (world s') \<and>
        errno s' = errno s \<and> fault s' = fault s \<and> sys.more s' = sys.more s"
    using assms(2) yield_round_reads(2) [OF assms(1), of s] now
    unfolding returns_at_def by (auto simp: usleep_loop.simps [of api stop now s])
qed

lemma returns_at_rounds:
  assumes "counter_contract api time" "\<And>s' :: ('w, 'z) sys_scheme. T < time (world s') \<Longrightarrow> returns_at api time stop s'"
  shows "T < time ((world_round api ^^ n) (world s)) \<Longrightarrow> returns_at api time stop (s :: ('w, 'z) sys_scheme)"
proof (induction n arbitrary: s)
  case 0
  then show ?case using assms(2) by simp
next
  case (Suc n)
  have "returns_at api time stop (snd (yield_round api s))"
    by (rule Suc.IH) (use Suc.prems in \<open>simp add: funpow_swap1\<close>)
  then show ?case by (rule returns_at_round [OF assms(1)])
qed

lemma returns_at_late:
  assumes "counter_contract api time" "stop \<le> time (world s)"
  shows "returns_at api time stop s"
  unfolding returns_at_def
proof (intro allI impI)
  fix now
  assume "now \<le> time (world s)"
  let ?s = "snd (yield_round api s)"
  have "usleep_loop api stop (fst (yield_round api s)) ?s = Some ?s" "stop \<le> time (world ?s)"
    using yield_round_reads [OF assms(1), of s] assms(2)
    by (simp_all add: usleep_loop.simps [of api stop "fst (yield_round api s)"])
  then show "\<exists>s'. usleep_loop api stop now s = Some s' \<and> stop \<le> time (world s') \<and>
        errno s' = errno s \<and> fault s' = fault s \<and> sys.more s' = sys.more s"
    using assms(2) by (cases "now < stop") (simp_all add: usleep_loop.simps [of api stop now s])
qed

lemma usleep_loop_returns:
  assumes "counter_contract api time" "time_passes api time"
  shows "returns_at api time stop s"
proof (induction "nat (stop - time (world s))" arbitrary: s rule: less_induct)
  case less
  show ?case
  proof (cases "time (world s) < stop")
    case False
    then show ?thesis using returns_at_late [OF assms(1), of stop s] by simp
  next
    case True
    obtain n where n: "time (world s) < time ((world_round api ^^ n) (world s))"
      using assms(2) by (auto simp: time_passes_def)
    show ?thesis
    proof (rule returns_at_rounds [OF assms(1) _ n])
      fix s' :: "('a, 'b) sys_scheme"
      assume "time (world s) < time (world s')"
      then show "returns_at api time stop s'" using less True by simp
    qed
  qed
qed

text \<open>
  C35. A sleep of less than 10 milliseconds returns, although it waits in a loop, and not before the
  requested time has passed on the performance counter; it changes neither \<^verbatim>\<open>errno\<close> nor anything but
  the stored frequency.
\<close>

theorem usleep_returns_after_interval:
  assumes "counter_contract api time" "time_passes api time"
    and "0 \<le> us" "us < 10000" "us_freq s = 0 \<or> us_freq s = freq" "sl_frequency api (world s) = freq"
    and "0 < freq" "freq \<le> 10 ^ 12" "0 \<le> time (world s)"
    and "fst (sl_counter api (world s)) \<le> 2 ^ 62"
  shows "\<exists>s'. wpdk_usleep api us s = Some (0, s') \<and>
           time (world s) + us * freq div 1000000 \<le> time (world s') \<and>
           errno s' = errno s \<and> fault s' = fault s \<and> us_freq s' = freq"
proof -
  define s1 where "s1 = (if us_freq s = 0 then s\<lparr>us_freq := sl_frequency api (world s)\<rparr> else s)"
  have s1: "us_freq s1 = freq" "world s1 = world s" "errno s1 = errno s" "fault s1 = fault s"
    using assms(5,6) by (auto simp: s1_def)
  obtain now s2 where c: "os_call (sl_counter api) s1 = (now, s2)" by fastforce
  then have s2: "now = fst (sl_counter api (world s))" "world s2 = snd (sl_counter api (world s))"
    "errno s2 = errno s" "fault s2 = fault s" "us_freq s2 = freq"
    using s1 by (auto simp: os_call_def split: prod.splits)
  have now: "time (world s) \<le> now" "now \<le> time (world s2)"
    using assms(1) s2 by (auto simp: counter_contract_def)
  have p: "0 \<le> us * freq" "us * freq \<le> 10 ^ 16"
    using assms(3,4,7,8) mult_mono [of us 10000 freq "10 ^ 12"] by auto
  then have d: "c_div (to_int64 (us * freq)) 1000000 = us * freq div 1000000"
    by (simp add: to_int64_id c_div_nonneg)
  have q: "us * freq div 1000000 \<le> 10 ^ 16" "0 \<le> us * freq div 1000000" using p by auto
  then have stop: "to_int64 (now + us * freq div 1000000) = now + us * freq div 1000000"
    using now assms(9,10) s2(1) by (intro to_int64_id) auto
  obtain s3 where s3: "usleep_loop api (now + us * freq div 1000000) now s2 = Some s3"
    "now + us * freq div 1000000 \<le> time (world s3)" "errno s3 = errno s2" "fault s3 = fault s2"
    "sys.more s3 = sys.more s2"
    using usleep_loop_returns [OF assms(1,2), of "now + us * freq div 1000000" s2] now(2)
    unfolding returns_at_def by blast
  have "us_freq s3 = us_freq s2" using s3(5) by (cases s2; cases s3) auto
  moreover have "wpdk_usleep api us s = Some (0, s3)"
    using assms(4) s3(1) stop d s1(1) c by (simp add: wpdk_usleep_def s1_def [symmetric])
  ultimately show ?thesis using s3 s2 now by auto
qed

definition demo_sleep_api :: "int sleep_api" where
  "demo_sleep_api = \<lparr>sl_frequency = (\<lambda>w. 10000000), sl_counter = (\<lambda>w. (w, w + 1)), sl_switch = (\<lambda>w. (False, w)),
     sl_yield = (\<lambda>w. w), sl_sleep = (\<lambda>ms w. w + ms * 10000), sl_ticks = (\<lambda>w. (w div 10000, w))\<rparr>"

definition demo_sleep_sys :: "int sleep_sys" where
  "demo_sleep_sys = \<lparr>errno = 0, fault = False, world = 100, us_freq = 0\<rparr>"

theorem usleep_returns_after_interval_witness:
  "\<exists>s'. wpdk_usleep demo_sleep_api 2 demo_sleep_sys = Some (0, s') \<and> 120 \<le> world s'"
proof -
  have c: "counter_contract demo_sleep_api (\<lambda>w. w)"
    by (simp add: counter_contract_def demo_sleep_api_def)
  have t: "time_passes demo_sleep_api (\<lambda>w. w)"
    unfolding time_passes_def
    by (intro allI exI [of _ 1]) (simp add: world_round_def demo_sleep_api_def)
  from usleep_returns_after_interval [OF c t, of 2 demo_sleep_sys 10000000]
  show ?thesis by (auto simp: demo_sleep_sys_def demo_sleep_api_def)
qed

text \<open>A longer sleep is rounded down to milliseconds.\<close>

lemma usleep_rounds_down: "wpdk_usleep api 10999 s = wpdk_usleep api 10000 s"
  by (simp add: wpdk_usleep_def)

text \<open>
  The seconds that are left never exceed the seconds asked for. A sleep that has been shortened to
  avoid an overflow reports nothing left.
\<close>

lemma sleep_remaining:
  assumes "0 \<le> seconds"
  shows "0 \<le> fst (wpdk_sleep api seconds s) \<and> fst (wpdk_sleep api seconds s) \<le> seconds"
proof (cases "seconds = 0")
  case True
  then show ?thesis by (simp add: wpdk_sleep_def)
next
  case False
  let ?t = "if LONG_MAX div 1000 < seconds then LONG_MAX div 1000 else seconds"
  obtain x where x: "fst (wpdk_sleep api seconds s) =
      (if to_uint64 x div 1000 < ?t then ?t - to_uint64 x div 1000 else 0)"
    using False by (simp only: wpdk_sleep_def Let_def split_beta if_False fst_conv)
  have "0 \<le> to_uint64 x div 1000" by (simp add: to_uint64_def)
  moreover have "0 \<le> ?t" "?t \<le> seconds" using assms by (simp_all add: LONG_MAX_def)
  ultimately show ?thesis unfolding x by (simp only: split: if_split) linarith
qed

lemma sleep_shortened:
  "fst (wpdk_sleep demo_sleep_api 4000000 s) = fst (wpdk_sleep demo_sleep_api 2147483 s)"
  by (simp add: wpdk_sleep_def LONG_MAX_def)

section \<open>Counting processors\<close>

fun laid_out :: "(int \<Rightarrow> processor_info) \<Rightarrow> int \<Rightarrow> processor_info list \<Rightarrow> bool" where
  "laid_out entries offset [] \<longleftrightarrow> True"
| "laid_out entries offset (e # es) \<longleftrightarrow>
     entries offset = e \<and> 0 < pi_size e \<and> laid_out entries (offset + pi_size e) es"

definition info_length :: "processor_info list \<Rightarrow> int" where
  "info_length es = sum_list (map pi_size es)"

text \<open>The processors of all groups, by the maximum (\<open>fst\<close>) or the active (\<open>snd\<close>) number.\<close>

definition processors :: "(int \<times> int \<Rightarrow> int) \<Rightarrow> processor_info list \<Rightarrow> int" where
  "processors f es =
     sum_list (map (\<lambda>e. if pi_relationship e = RelationGroup then sum_list (map f (pi_groups e)) else 0) es)"

text \<open>
  The documented behaviour: without a buffer that is large enough the call fails and returns the
  length that is needed, otherwise it fills the buffer. Allocations succeed.
\<close>

definition processors_contract :: "'w system_api \<Rightarrow> processor_info list \<Rightarrow> bool" where
  "processors_contract api es \<longleftrightarrow>
     (\<forall>b n w. case sy_processors api b n w of
        ((ok, len, entries), w') \<Rightarrow>
          len = info_length es \<and> (ok \<longleftrightarrow> b \<and> info_length es \<le> n) \<and> (ok \<longrightarrow> laid_out entries 0 es)) \<and>
     (\<forall>n w. fst (sy_malloc api n w))"

lemma count_groups_sum:
  assumes "\<forall>g\<in>set gs. 0 \<le> fst g \<and> 0 \<le> snd g" "0 \<le> c" "0 \<le> d"
    and "c + sum_list (map fst gs) < 2 ^ 32" "d + sum_list (map snd gs) < 2 ^ 32"
  shows "count_groups gs (c, d) = (c + sum_list (map fst gs), d + sum_list (map snd gs))"
  using assms
proof (induction gs arbitrary: c d)
  case Nil
  then show ?case by (simp add: count_groups_def)
next
  case (Cons g gs)
  have "0 \<le> sum_list (map fst gs)" "0 \<le> sum_list (map snd gs)"
    using Cons.prems(1) by (auto intro!: sum_list_nonneg)
  then have "to_uint32 (c + fst g) = c + fst g" "to_uint32 (d + snd g) = d + snd g"
    using Cons.prems by (auto intro!: to_uint32_id)
  then show ?case using Cons.IH [of "c + fst g" "d + snd g"] Cons.prems
    by (simp add: count_groups_def split_beta add.assoc)
qed

lemma processors_nonneg:
  assumes "\<forall>e\<in>set es. \<forall>g\<in>set (pi_groups e). 0 \<le> f g"
  shows "0 \<le> processors f es"
  using assms unfolding processors_def by (auto intro!: sum_list_nonneg)

lemma laid_out_sizes: "laid_out entries offset es \<Longrightarrow> 0 \<le> info_length es"
  by (induction es arbitrary: offset) (auto simp: info_length_def add_nonneg_nonneg less_imp_le)

lemma count_loop_sum:
  assumes "laid_out entries offset es" "0 \<le> offset" "offset + info_length es < 2 ^ 32"
    and "\<forall>e\<in>set es. \<forall>g\<in>set (pi_groups e). 0 \<le> fst g \<and> 0 \<le> snd g" "0 \<le> c" "0 \<le> d"
    and "c + processors fst es < 2 ^ 32" "d + processors snd es < 2 ^ 32"
  shows "count_loop entries (offset + info_length es) offset (c, d)
           = Some (c + processors fst es, d + processors snd es)"
  using assms
proof (induction es arbitrary: offset c d)
  case Nil
  then show ?case by (simp add: count_loop.simps [of entries] info_length_def processors_def)
next
  case (Cons e es)
  let ?sum = "\<lambda>f. if pi_relationship e = RelationGroup then sum_list (map f (pi_groups e)) else 0"
  have len: "info_length (e # es) = pi_size e + info_length es"
    and pr: "processors f (e # es) = ?sum f + processors f es" for f
    by (simp_all add: info_length_def processors_def)
  have nn: "0 \<le> info_length es" "0 \<le> processors fst es" "0 \<le> processors snd es" "0 \<le> ?sum fst" "0 \<le> ?sum snd"
    using Cons.prems laid_out_sizes processors_nonneg [of es fst] processors_nonneg [of es snd]
    by (auto intro!: sum_list_nonneg)
  have off: "to_uint32 (offset + pi_size e) = offset + pi_size e"
    using Cons.prems nn len by (intro to_uint32_id) auto
  have cg: "(if pi_relationship e = RelationGroup then count_groups (pi_groups e) (c, d) else (c, d)) = (c + ?sum fst, d + ?sum snd)"
    using count_groups_sum [of "pi_groups e" c d] Cons.prems nn pr by (auto split: if_splits)
  have "count_loop entries (offset + info_length (e # es)) offset (c, d)
          = count_loop entries (offset + pi_size e + info_length es) (offset + pi_size e) (c + ?sum fst, d + ?sum snd)"
    using Cons.prems(1) nn off cg
    by (cases "pi_relationship e = RelationGroup")
       (simp_all add: count_loop.simps [of entries _ offset] len add.assoc)
  also have "\<dots> = Some (c + ?sum fst + processors fst es, d + ?sum snd + processors snd es)"
    using Cons.prems nn pr len by (intro Cons.IH) auto
  finally show ?case by (simp add: pr)
qed

lemma processors_call:
  assumes "processors_contract api es" "os_call (sy_processors api b n) s = ((ok, len, entries), s1)"
  shows "len = info_length es" "ok \<longleftrightarrow> b \<and> info_length es \<le> n" "ok \<longrightarrow> laid_out entries 0 es"
proof -
  have "case sy_processors api b n (world s) of
        ((ok, len, entries), w') \<Rightarrow>
          len = info_length es \<and> (ok \<longleftrightarrow> b \<and> info_length es \<le> n) \<and> (ok \<longrightarrow> laid_out entries 0 es)"
    by (rule assms(1) [unfolded processors_contract_def, THEN conjunct1, THEN spec, THEN spec, THEN spec])
  then show "len = info_length es" "ok \<longleftrightarrow> b \<and> info_length es \<le> n" "ok \<longrightarrow> laid_out entries 0 es"
    using assms(2) by (auto simp: os_call_def split: prod.splits)
qed

text \<open>The second call at the latest succeeds.\<close>

lemma buffer_filled:
  assumes "processors_contract api es" "info_length es \<le> n"
  shows "\<exists>entries s'. processor_buffer api True n s = Some (Some (info_length es, entries), s') \<and> laid_out entries 0 es"
proof -
  obtain ok len entries s1 where c: "os_call (sy_processors api True n) s = ((ok, len, entries), s1)"
    by (metis surj_pair)
  show ?thesis using processors_call [OF assms(1) c] assms(2) c
    by (simp add: processor_buffer.simps [of api True n s])
qed

lemma buffer_returns:
  assumes "processors_contract api es"
  shows "\<exists>entries s'. processor_buffer api False n s = Some (Some (info_length es, entries), s') \<and> laid_out entries 0 es"
proof -
  obtain ok len entries s1 where c: "os_call (sy_processors api False n) s = ((ok, len, entries), s1)"
    by (metis surj_pair)
  obtain a s2 where m: "os_call (sy_malloc api len) s1 = (a, s2)" by fastforce
  then have "a" using assms by (auto simp: processors_contract_def os_call_def split: prod.splits) (metis fst_conv)
  then show ?thesis using processors_call [OF assms(1) c] c m buffer_filled [OF assms, of len s2]
    by (simp add: processor_buffer.simps [of api False n s])
qed

text \<open>
  Any other failure, which leaves the length as it is, is repeated forever.
\<close>

definition always_failing :: "'w system_api \<Rightarrow> bool" where
  "always_failing api \<longleftrightarrow> (\<forall>b n w. \<not> fst (fst (sy_processors api b n w))) \<and> (\<forall>n w. fst (sy_malloc api n w))"

lemma processor_buffer_Some:
  assumes "processor_buffer api b n s = Some r"
  shows "\<not> always_failing api"
proof (rule processor_buffer.raw_induct [OF _ assms])
  fix f :: "'a system_api \<Rightarrow> bool \<Rightarrow> int \<Rightarrow> ('a, 'b) sys_scheme
       \<Rightarrow> ((int \<times> (int \<Rightarrow> processor_info)) option \<times> ('a, 'b) sys_scheme) option" and api b n s r
  assume IH: "\<And>api b n s r. f api b n s = Some r \<Longrightarrow> \<not> always_failing api"
    and run: "(case os_call (sy_processors api b n) s of
        ((ok, len', entries), s1) \<Rightarrow>
          if ok then Some (Some (len', entries), s1)
          else
            (case os_call (sy_malloc api len') (if b then s1\<lparr>world := sy_free api (world s1)\<rparr> else s1) of
               (allocated, s2) \<Rightarrow> if allocated then f api True len' s2 else Some (None, s2))) = Some r"
  show "\<not> always_failing api"
  proof
    assume a: "always_failing api"
    then have "\<not> fst (fst (os_call (sy_processors api b n) s))" "\<And>n s. fst (os_call (sy_malloc api n) s)"
      by (simp_all add: always_failing_def os_call_eq)
    then obtain len' s2 where "f api True len' s2 = Some r"
      using run by (auto simp: split_beta split: if_splits)
    then show False using IH a by blast
  qed
qed

lemma processor_buffer_diverges: "always_failing api \<Longrightarrow> processor_buffer api b n s = None"
  using processor_buffer_Some [of api b n s] by (cases "processor_buffer api b n s") auto

text \<open>
  C36. The number of processors is the sum over all processor groups: configured processors are
  counted by the maximum of each group and online processors by its active number, and the calls
  return.
\<close>

theorem sysconf_counts_processors:
  assumes "processors_contract api es" "info_length es < 2 ^ 32"
    and "\<forall>e\<in>set es. \<forall>g\<in>set (pi_groups e). 0 \<le> fst g \<and> 0 \<le> snd g"
    and "processors fst es < 2 ^ 31" "processors snd es < 2 ^ 31"
  shows "(\<exists>s'. wpdk_sysconf api SC_NPROCESSORS_CONF s = Some (processors fst es, s')) \<and>
         (\<exists>s'. wpdk_sysconf api SC_NPROCESSORS_ONLN s = Some (processors snd es, s'))"
proof -
  obtain entries s1 where b: "processor_buffer api False 0 s = Some (Some (info_length es, entries), s1)"
    and l: "laid_out entries 0 es" using buffer_returns [OF assms(1)] by blast
  have nn: "0 \<le> processors fst es" "0 \<le> processors snd es"
    using processors_nonneg [of es fst] processors_nonneg [of es snd] assms(3) by auto
  have "count_loop entries (info_length es) 0 (0, 0) = Some (processors fst es, processors snd es)"
    using count_loop_sum [OF l _ _ assms(3), of 0 0] assms(2,4,5) by simp
  then show ?thesis using b nn assms(4,5)
    by (simp add: wpdk_sysconf_def wpdk_get_processor_count_def errno_simps to_int32_id)
qed

definition demo_info :: "processor_info list" where
  "demo_info = [\<lparr>pi_relationship = RelationGroup, pi_size = 80, pi_groups = [(8, 6), (4, 4)]\<rparr>]"

definition demo_system_api :: "unit system_api" where
  "demo_system_api = \<lparr>sy_processors = (\<lambda>b n. Pair (b \<and> info_length demo_info \<le> n, info_length demo_info, \<lambda>x. hd demo_info)),
     sy_malloc = (\<lambda>n. Pair True), sy_free = id, sy_number = (\<lambda>w. 8), sy_page_size = (\<lambda>w. 4096),
     sy_pid = (\<lambda>w. 42), sy_open_token = Pair None, sy_elevation = (\<lambda>h w. None), sy_close_handle = (\<lambda>h. id)\<rparr>"

theorem sysconf_counts_processors_witness:
  "(\<exists>s'. wpdk_sysconf demo_system_api SC_NPROCESSORS_CONF \<lparr>errno = 0, fault = False, world = ()\<rparr> = Some (12, s')) \<and>
   (\<exists>s'. wpdk_sysconf demo_system_api SC_NPROCESSORS_ONLN \<lparr>errno = 0, fault = False, world = ()\<rparr> = Some (10, s'))"
proof -
  have "processors_contract demo_system_api demo_info"
    by (simp add: processors_contract_def demo_system_api_def demo_info_def info_length_def)
  moreover have "processors fst demo_info = 12" "processors snd demo_info = 10" "info_length demo_info = 80"
    by (simp_all add: processors_def demo_info_def info_length_def)
  ultimately show ?thesis
    using sysconf_counts_processors [of demo_system_api demo_info "\<lparr>errno = 0, fault = False, world = ()\<rparr>"]
    by (simp add: demo_info_def)
qed

end
