(* ===== verification/Dirent.thy ===== *)
theory Dirent
  imports Descriptors
begin

unbundle bit_operations_syntax

text \<open>
  Directory streams, \<^verbatim>\<open>src/dirent.c\<close>.

  A stream holds a search handle, a descriptor of the directory and the entry that the search has
  found last. The theorems state that a stream yields the entries of its directory in order,
  however it is rewound, and that neither a failed \<^verbatim>\<open>opendir\<close> nor a closed stream leaves a handle, a
  descriptor or memory behind.
\<close>

section \<open>State and Windows\<close>

text \<open>The name and the attributes of a \<^verbatim>\<open>struct _finddata_t\<close>.\<close>

record finddata =
  fi_name :: string
  fi_attrib :: int

record dirent =
  d_ino :: int
  d_type :: int
  d_name :: string

record DIR =
  dir_h :: int
  dir_fd :: int
  dir_first :: bool
  dir_info :: finddata
  dir_spec :: string

text \<open>
  \<^verbatim>\<open>calloc\<close> and \<^verbatim>\<open>free\<close> of the structure, \<^verbatim>\<open>CreateFile\<close>, \<^verbatim>\<open>GetLastError\<close>, \<^verbatim>\<open>CloseHandle\<close>,
  \<^verbatim>\<open>_open_osfhandle\<close>, \<^verbatim>\<open>_close\<close>, \<^verbatim>\<open>_findfirst\<close>, \<^verbatim>\<open>_findnext\<close> (\<open>None\<close> is \<open>-1\<close>) and \<^verbatim>\<open>_findclose\<close>.
\<close>

record 'w dir_api =
  di_calloc :: "'w \<Rightarrow> bool \<times> 'w"
  di_free :: "'w \<Rightarrow> 'w"
  di_create_file :: "string \<Rightarrow> 'w \<Rightarrow> nat option \<times> 'w"
  di_last_error :: "'w \<Rightarrow> win_error"
  di_close_handle :: "nat \<Rightarrow> 'w \<Rightarrow> 'w"
  di_open_osfhandle :: "nat \<Rightarrow> (int, 'w) crt"
  di_close :: "int \<Rightarrow> (int, 'w) crt"
  di_findfirst :: "string \<Rightarrow> (int \<times> finddata, 'w) crt"
  di_findnext :: "int \<Rightarrow> (finddata option, 'w) crt"
  di_findclose :: "int \<Rightarrow> (int, 'w) crt"

definition DT_REG :: int where [errno_simps]: "DT_REG = 1"
definition DT_DIR :: int where [errno_simps]: "DT_DIR = 2"
definition A_SUBDIR :: int where [errno_simps]: "A_SUBDIR = 0x10"

text \<open>A call without a result.\<close>

definition dir_void :: "('w \<Rightarrow> 'w) \<Rightarrow> ('w, 'z) sys_scheme \<Rightarrow> ('w, 'z) sys_scheme" where
  "dir_void f s = s\<lparr>world := f (world s)\<rparr>"

section \<open>The operations\<close>

definition wpdk_closedir ::
  "'w dir_api \<Rightarrow> DIR option \<Rightarrow> ('w, 'z) path_sys_scheme \<Rightarrow> int \<times> ('w, 'z) path_sys_scheme" where
  "wpdk_closedir api dirp s =
     (case dirp of
        None \<Rightarrow> wpdk_posix_error EBADF s
      | Some d \<Rightarrow>
          (let s1 = (if dir_fd d \<noteq> - 1 then snd (crt_call (di_close api (dir_fd d)) s) else s);
               s2 = (if dir_h d \<noteq> - 1 then snd (crt_call (di_findclose api (dir_h d)) s1) else s1)
           in (0, dir_void (di_free api) s2)))"

text \<open>The structure as \<^verbatim>\<open>calloc\<close> returns it, with the path in it.\<close>

definition new_DIR :: "string \<Rightarrow> DIR" where
  "new_DIR spec = \<lparr>dir_h = 0, dir_fd = 0, dir_first = False, dir_info = \<lparr>fi_name = [], fi_attrib = 0\<rparr>,
     dir_spec = spec\<rparr>"

text \<open>The search pattern; the last character of an empty path is outside of the structure.\<close>

definition search_pattern :: "string \<Rightarrow> string option" where
  "search_pattern spec =
     (if spec = [] then None
      else Some (spec @ (if last spec \<in> {CHR ''/'', CHR 0x5C} then ''*'' else [CHR 0x5C, CHR ''*''])))"

text \<open>The second half of \<^verbatim>\<open>wpdk_opendir\<close>, from \<^verbatim>\<open>CreateFile\<close> on.\<close>

definition open_search ::
  "'w dir_api \<Rightarrow> string \<Rightarrow> ('w, 'z) path_sys_scheme \<Rightarrow> DIR option \<times> ('w, 'z) path_sys_scheme" where
  "open_search api spec s =
     (case os_call (di_create_file api spec) s of
        (None, s1) \<Rightarrow> (None, snd (wpdk_last_error (di_last_error api) (dir_void (di_free api) s1)))
      | (Some h, s1) \<Rightarrow>
          (case crt_call (di_open_osfhandle api h) s1 of
             (fd, s2) \<Rightarrow>
               if fd = - 1
               then
                 (let s3 = dir_void (di_close_handle api h) s2;
                      s4 = snd (wpdk_closedir api (Some ((new_DIR spec)\<lparr>dir_fd := - 1\<rparr>)) s3)
                  in (None, set_errno (errno s2) s4))
               else
                 (case search_pattern spec of
                    None \<Rightarrow> (None, set_fault s2)
                  | Some pattern \<Rightarrow>
                      (case crt_call (di_findfirst api pattern) s2 of
                         ((fh, info), s3) \<Rightarrow>
                           let d = (new_DIR pattern)\<lparr>dir_fd := fd, dir_h := fh, dir_info := info\<rparr>
                           in if fh = - 1
                              then (None, set_errno (errno s3) (snd (wpdk_closedir api (Some d) s3)))
                              else (Some (d\<lparr>dir_first := True\<rparr>), s3)))))"

definition wpdk_opendir ::
  "'w path_api \<Rightarrow> 'w dir_api \<Rightarrow> string option \<Rightarrow> ('w, 'z) path_sys_scheme
    \<Rightarrow> DIR option \<times> ('w, 'z) path_sys_scheme" where
  "wpdk_opendir pa api dirname s =
     (case dirname of
        None \<Rightarrow> (None, set_errno EINVAL s)
      | Some name \<Rightarrow>
          if name = [] then (None, set_errno EINVAL s)
          else if MAX_PATH \<le> length name + 2 then (None, set_errno ENAMETOOLONG s)
          else
            (let (ok, s1) = os_call (di_calloc api) s
             in if \<not> ok then (None, set_errno ENOMEM s1)
                else
                  (case wpdk_copy_path pa (PATH_MAX - 2) (Some name) s1 of
                     (CFault, s2) \<Rightarrow> (None, set_fault s2)
                   | (CNull, s2) \<Rightarrow> (None, set_errno ENAMETOOLONG (dir_void (di_free api) s2))
                   | (CBuf b, s2) \<Rightarrow> open_search api (case b of None \<Rightarrow> [] | Some p \<Rightarrow> p) s2)))"

definition dirent_of :: "finddata \<Rightarrow> dirent" where
  "dirent_of info =
     \<lparr>d_ino = 0, d_type = (if fi_attrib info AND A_SUBDIR \<noteq> 0 then DT_DIR else DT_REG),
      d_name = take MAX_PATH (fi_name info)\<rparr>"

text \<open>The entry (\<open>None\<close> is NULL), the stream after the call and the state.\<close>

definition wpdk_readdir ::
  "'w dir_api \<Rightarrow> DIR option \<Rightarrow> ('w, 'z) path_sys_scheme
    \<Rightarrow> dirent option \<times> DIR option \<times> ('w, 'z) path_sys_scheme" where
  "wpdk_readdir api dirp s =
     (case dirp of
        None \<Rightarrow> (None, None, set_errno EBADF s)
      | Some d \<Rightarrow>
          if dir_h d = - 1 then (None, dirp, set_errno EBADF s)
          else if dir_first d
          then (Some (dirent_of (dir_info d)), Some (d\<lparr>dir_first := False\<rparr>), s)
          else
            (case crt_call (di_findnext api (dir_h d)) s of
               (None, s1) \<Rightarrow> (None, dirp, if errno s1 = ENOENT then set_errno (errno s) s1 else s1)
             | (Some info, s1) \<Rightarrow>
                 (Some (dirent_of info), Some (d\<lparr>dir_info := info, dir_first := False\<rparr>), s1)))"

definition wpdk_rewinddir ::
  "'w dir_api \<Rightarrow> DIR option \<Rightarrow> ('w, 'z) path_sys_scheme \<Rightarrow> DIR option \<times> ('w, 'z) path_sys_scheme" where
  "wpdk_rewinddir api dirp s =
     (case dirp of
        None \<Rightarrow> (None, s)
      | Some d \<Rightarrow>
          (let s1 = (if dir_h d \<noteq> - 1 then snd (crt_call (di_findclose api (dir_h d)) s) else s);
               ((fh, info), s2) = crt_call (di_findfirst api (dir_spec d)) s1
           in (Some (d\<lparr>dir_h := fh, dir_info := info, dir_first := True\<rparr>), s2)))"

definition wpdk_dirfd ::
  "DIR option \<Rightarrow> ('w, 'z) path_sys_scheme \<Rightarrow> int \<times> ('w, 'z) path_sys_scheme" where
  "wpdk_dirfd dirp s =
     (case dirp of
        None \<Rightarrow> wpdk_posix_error EINVAL s
      | Some d \<Rightarrow> if dir_fd d = - 1 then wpdk_posix_error EINVAL s else (dir_fd d, s))"

section \<open>What Windows promises\<close>

text \<open>
  What the process holds: the entries that each open search has still to return, the open
  descriptors, the open file handles and the allocated structures.
\<close>

record dir_ghost =
  gh_finds :: "int \<Rightarrow> finddata list option"
  gh_files :: "int set"
  gh_handles :: "nat set"
  gh_blocks :: nat

text \<open>
  \<^verbatim>\<open>CreateFile\<close> opens a new handle or none. The descriptor of a handle takes the handle over.
\<close>

definition opens_handle :: "'w dir_api \<Rightarrow> ('w \<Rightarrow> dir_ghost) \<Rightarrow> string \<Rightarrow> 'w \<Rightarrow> bool" where
  "opens_handle api g p w \<longleftrightarrow>
     (case di_create_file api p w of
        (None, w') \<Rightarrow> g w' = g w
      | (Some h, w') \<Rightarrow> h \<notin> gh_handles (g w) \<and> g w' = (g w)\<lparr>gh_handles := insert h (gh_handles (g w))\<rparr>)"

definition opens_file :: "'w dir_api \<Rightarrow> ('w \<Rightarrow> dir_ghost) \<Rightarrow> nat \<Rightarrow> 'w \<Rightarrow> bool" where
  "opens_file api g h w \<longleftrightarrow>
     (case di_open_osfhandle api h w of
        ((fd, e), w') \<Rightarrow>
          if fd = - 1 then g w' = g w
          else fd \<notin> gh_files (g w) \<and>
               g w' = (g w)\<lparr>gh_files := insert fd (gh_files (g w)), gh_handles := gh_handles (g w) - {h}\<rparr>)"

text \<open>
  A search returns the entries of a fixed listing one after the other and then fails with
  \<^verbatim>\<open>ENOENT\<close>.
\<close>

definition starts_search ::
  "'w dir_api \<Rightarrow> ('w \<Rightarrow> dir_ghost) \<Rightarrow> (string \<Rightarrow> finddata list) \<Rightarrow> string \<Rightarrow> 'w \<Rightarrow> bool" where
  "starts_search api g listing p w \<longleftrightarrow>
     (case di_findfirst api p w of
        (((fh, info), e), w') \<Rightarrow>
          if fh = - 1 then g w' = g w \<and> listing p = []
          else gh_finds (g w) fh = None \<and> listing p \<noteq> [] \<and> info = hd (listing p) \<and>
               g w' = (g w)\<lparr>gh_finds := (gh_finds (g w))(fh \<mapsto> tl (listing p))\<rparr>)"

definition goes_on :: "'w dir_api \<Rightarrow> ('w \<Rightarrow> dir_ghost) \<Rightarrow> int \<Rightarrow> 'w \<Rightarrow> bool" where
  "goes_on api g fh w \<longleftrightarrow>
     (case gh_finds (g w) fh of
        Some (x # xs) \<Rightarrow> \<exists>e w'. di_findnext api fh w = ((Some x, e), w') \<and>
                               g w' = (g w)\<lparr>gh_finds := (gh_finds (g w))(fh \<mapsto> xs)\<rparr>
      | Some [] \<Rightarrow> \<exists>w'. di_findnext api fh w = ((None, Some ENOENT), w') \<and> g w' = g w
      | None \<Rightarrow> True)"

definition dir_contract :: "'w dir_api \<Rightarrow> ('w \<Rightarrow> dir_ghost) \<Rightarrow> (string \<Rightarrow> finddata list) \<Rightarrow> bool" where
  "dir_contract api g listing \<longleftrightarrow>
     (\<forall>w. g (snd (di_calloc api w)) =
        (if fst (di_calloc api w) then (g w)\<lparr>gh_blocks := Suc (gh_blocks (g w))\<rparr> else g w)) \<and>
     (\<forall>w. g (di_free api w) = (g w)\<lparr>gh_blocks := gh_blocks (g w) - 1\<rparr>) \<and>
     (\<forall>p w. opens_handle api g p w) \<and>
     (\<forall>h w. g (di_close_handle api h w) = (g w)\<lparr>gh_handles := gh_handles (g w) - {h}\<rparr>) \<and>
     (\<forall>h w. opens_file api g h w) \<and>
     (\<forall>fd w. g (snd (di_close api fd w)) = (g w)\<lparr>gh_files := gh_files (g w) - {fd}\<rparr>) \<and>
     (\<forall>p w. starts_search api g listing p w) \<and>
     (\<forall>fh w. goes_on api g fh w) \<and>
     (\<forall>fh w. g (snd (di_findclose api fh w)) = (g w)\<lparr>gh_finds := (gh_finds (g w))(fh := None)\<rparr>)"

section \<open>The calls in terms of what the process holds\<close>

abbreviation held :: "('w \<Rightarrow> dir_ghost) \<Rightarrow> ('w, 'z) sys_scheme \<Rightarrow> dir_ghost" where
  "held g s \<equiv> g (world s)"

lemma world_dir_void [simp]: "world (dir_void f s) = f (world s)" "fault (dir_void f s) = fault s"
  by (simp_all add: dir_void_def)

lemma fault_calls [simp]:
  "fault (snd (crt_call f s)) = fault s" "fault (snd (os_call h s)) = fault s" "fault (set_fault s)"
  "fault (set_errno e s) = fault s" "world (set_errno e s) = world s"
  by (simp_all add: crt_call_def os_call_def split_beta set_fault_def set_errno_def)

lemma dir_contract_calls:
  assumes "dir_contract api g listing"
  shows held_calloc: "held g (snd (os_call (di_calloc api) s)) =
          (if fst (os_call (di_calloc api) s) then (held g s)\<lparr>gh_blocks := Suc (gh_blocks (held g s))\<rparr> else held g s)"
    and held_free: "held g (dir_void (di_free api) s) = (held g s)\<lparr>gh_blocks := gh_blocks (held g s) - 1\<rparr>"
    and held_close_handle: "held g (dir_void (di_close_handle api h) s) =
          (held g s)\<lparr>gh_handles := gh_handles (held g s) - {h}\<rparr>"
    and held_close: "held g (snd (crt_call (di_close api fd) s)) =
          (held g s)\<lparr>gh_files := gh_files (held g s) - {fd}\<rparr>"
    and held_findclose: "held g (snd (crt_call (di_findclose api fh) s)) =
          (held g s)\<lparr>gh_finds := (gh_finds (held g s))(fh := None)\<rparr>"
  using assms by (simp_all add: dir_contract_def os_call_eq crt_call_def split_beta)

lemma held_create_file:
  assumes "dir_contract api g listing" "os_call (di_create_file api p) s = (r, s1)"
  shows "case r of None \<Rightarrow> held g s1 = held g s
         | Some h \<Rightarrow> h \<notin> gh_handles (held g s) \<and>
                     held g s1 = (held g s)\<lparr>gh_handles := insert h (gh_handles (held g s))\<rparr>"
proof -
  have "opens_handle api g p (world s)"
    using assms(1) by (simp add: dir_contract_def)
  then show ?thesis using assms(2) by (auto simp: opens_handle_def os_call_def split: prod.splits option.splits)
qed

lemma held_open_osfhandle:
  assumes "dir_contract api g listing" "crt_call (di_open_osfhandle api h) s = (fd, s1)"
  shows "if fd = - 1 then held g s1 = held g s
         else fd \<notin> gh_files (held g s) \<and>
              held g s1 = (held g s)\<lparr>gh_files := insert fd (gh_files (held g s)),
                                     gh_handles := gh_handles (held g s) - {h}\<rparr>"
proof -
  have "opens_file api g h (world s)"
    using assms(1) by (simp add: dir_contract_def)
  then show ?thesis using assms(2) by (auto simp: opens_file_def crt_call_def split: prod.splits if_splits)
qed

lemma held_findfirst:
  assumes "dir_contract api g listing" "crt_call (di_findfirst api p) s = ((fh, info), s1)"
  shows "if fh = - 1 then held g s1 = held g s \<and> listing p = []
         else gh_finds (held g s) fh = None \<and> listing p \<noteq> [] \<and> info = hd (listing p) \<and>
              held g s1 = (held g s)\<lparr>gh_finds := (gh_finds (held g s))(fh \<mapsto> tl (listing p))\<rparr>"
proof -
  have "starts_search api g listing p (world s)"
    using assms(1) by (simp add: dir_contract_def)
  then show ?thesis using assms(2) by (auto simp: starts_search_def crt_call_def split: prod.splits if_splits)
qed

lemma held_findnext:
  assumes "dir_contract api g listing" "crt_call (di_findnext api fh) s = (r, s1)"
    and "gh_finds (held g s) fh = Some xs"
  shows "case xs of
           [] \<Rightarrow> r = None \<and> errno s1 = ENOENT \<and> held g s1 = held g s
         | x # ys \<Rightarrow> r = Some x \<and> held g s1 = (held g s)\<lparr>gh_finds := (gh_finds (held g s))(fh \<mapsto> ys)\<rparr>"
proof -
  have "goes_on api g fh (world s)"
    using assms(1) by (simp add: dir_contract_def)
  then show ?thesis using assms(2,3) by (auto simp: goes_on_def crt_call_def split: prod.splits list.splits)
qed

lemma held_closedir:
  assumes "dir_contract api g listing"
  shows "held g (snd (wpdk_closedir api (Some d) s)) =
     (held g s)\<lparr>gh_files := (if dir_fd d = - 1 then gh_files (held g s) else gh_files (held g s) - {dir_fd d}),
                gh_finds := (if dir_h d = - 1 then gh_finds (held g s) else (gh_finds (held g s))(dir_h d := None)),
                gh_blocks := gh_blocks (held g s) - 1\<rparr>"
  by (simp add: wpdk_closedir_def Let_def held_free [OF assms, simplified] held_close [OF assms] held_findclose [OF assms])

lemma fault_closedir [simp]: "fault (snd (wpdk_closedir api (Some d) s)) = fault s"
  by (simp add: wpdk_closedir_def Let_def)

text \<open>
  A search that is not opened leaves nothing behind but has released the structure; one that is
  opened holds one new descriptor and one new search, positioned behind the first entry.
\<close>

lemma held_open_search_None:
  assumes "dir_contract api g listing" "gh_finds (held g s) 0 = None" "open_search api spec s = (None, s')" "\<not> fault s'"
  shows "held g s' = (held g s)\<lparr>gh_blocks := gh_blocks (held g s) - 1\<rparr>"
proof -
  obtain r s1 where c: "os_call (di_create_file api spec) s = (r, s1)" by fastforce
  note hc = held_create_file [OF assms(1) c]
  show ?thesis
  proof (cases r)
    case None
    then show ?thesis using assms(3) c hc held_free [OF assms(1), of s1]
      by (auto simp: open_search_def wpdk_last_error_def wpdk_windows_error_def)
  next
    case (Some h)
    obtain fd s2 where o: "crt_call (di_open_osfhandle api h) s1 = (fd, s2)" by fastforce
    note ho = held_open_osfhandle [OF assms(1) o]
    show ?thesis
    proof (cases "fd = - 1")
      case True
      let ?s3 = "dir_void (di_close_handle api h) s2"
      have "held g ?s3 = held g s"
        using hc ho Some True held_close_handle [OF assms(1), of h s2] by auto
      then show ?thesis
        using assms(2,3) c o Some True held_closedir [OF assms(1), of "(new_DIR spec)\<lparr>dir_fd := - 1\<rparr>" ?s3]
        by (auto simp: open_search_def new_DIR_def fun_upd_idem)
    next
      case False
      then have h2: "fd \<notin> gh_files (held g s)" "held g s2 = (held g s)\<lparr>gh_files := insert fd (gh_files (held g s))\<rparr>"
        using hc ho Some by auto
      obtain pat where p: "search_pattern spec = Some pat"
        using assms(3,4) c o Some False by (cases "search_pattern spec") (auto simp: open_search_def)
      obtain fh info s3 where f: "crt_call (di_findfirst api pat) s2 = ((fh, info), s3)" by (metis surj_pair)
      have fh: "fh = - 1" using assms(3) c o Some False p f by (auto simp: open_search_def Let_def split: if_splits)
      then have "held g s3 = held g s2" using held_findfirst [OF assms(1) f] by simp
      then show ?thesis
        using assms(3) c o Some False p f fh h2
          held_closedir [OF assms(1), of "(new_DIR pat)\<lparr>dir_fd := fd, dir_h := - 1, dir_info := info\<rparr>" s3]
        by (auto simp: open_search_def Let_def)
    qed
  qed
qed

lemma held_open_search_Some:
  assumes "dir_contract api g listing" "open_search api spec s = (Some d, s')"
  shows "dir_h d \<noteq> - 1 \<and> dir_fd d \<noteq> - 1 \<and> dir_first d \<and> gh_finds (held g s) (dir_h d) = None \<and>
         dir_fd d \<notin> gh_files (held g s) \<and> listing (dir_spec d) \<noteq> [] \<and> dir_info d = hd (listing (dir_spec d)) \<and>
         held g s' = (held g s)\<lparr>gh_files := insert (dir_fd d) (gh_files (held g s)),
                                gh_finds := (gh_finds (held g s))(dir_h d \<mapsto> tl (listing (dir_spec d)))\<rparr>"
proof -
  obtain r s1 where c: "os_call (di_create_file api spec) s = (r, s1)" by fastforce
  with assms(2) obtain h where h: "r = Some h" by (cases r) (auto simp: open_search_def)
  obtain fd s2 where o: "crt_call (di_open_osfhandle api h) s1 = (fd, s2)" by fastforce
  have fd: "fd \<noteq> - 1" using assms(2) c h o by (auto simp: open_search_def Let_def)
  then have h2: "fd \<notin> gh_files (held g s)" "held g s2 = (held g s)\<lparr>gh_files := insert fd (gh_files (held g s))\<rparr>"
    using held_create_file [OF assms(1) c] held_open_osfhandle [OF assms(1) o] h by auto
  obtain pat where p: "search_pattern spec = Some pat"
    using assms(2) c o h fd by (cases "search_pattern spec") (auto simp: open_search_def)
  obtain fh info s3 where f: "crt_call (di_findfirst api pat) s2 = ((fh, info), s3)" by (metis surj_pair)
  have fh: "fh \<noteq> - 1" "d = (new_DIR pat)\<lparr>dir_fd := fd, dir_h := fh, dir_info := info, dir_first := True\<rparr>" "s' = s3"
    using assms(2) c o h fd p f by (auto simp: open_search_def Let_def split: if_splits)
  then show ?thesis using held_findfirst [OF assms(1) f] h2 fd by (simp add: new_DIR_def)
qed

lemma held_copy_path:
  assumes "\<forall>p. keeps g (pa_strdup pa p)"
  shows "held g (snd (wpdk_copy_path pa n path s)) = held g s"
proof -
  have "path_invariant pa (\<lambda>t. held g t = held g s)"
    by unfold_locales (use assms in \<open>simp_all add: os_call_eq keeps_def\<close>)
  then show ?thesis by (rule path_invariant.copy_path) simp
qed

lemma opendir_search:
  assumes "dir_contract api g listing" "\<forall>p. keeps g (pa_strdup pa p)"
    and "wpdk_opendir pa api dirname s = (r, s')" "\<not> fault s'"
  shows "r = None \<and> held g s' = held g s \<or>
         (\<exists>spec s2. open_search api spec s2 = (r, s') \<and> held g s2 = (held g s)\<lparr>gh_blocks := Suc (gh_blocks (held g s))\<rparr>)"
proof (cases "dirname = None \<or> the dirname = [] \<or> MAX_PATH \<le> length (the dirname) + 2")
  case True
  then show ?thesis using assms(3) by (cases dirname) (auto simp: wpdk_opendir_def split: if_splits)
next
  case False
  then obtain name where n: "dirname = Some name" "name \<noteq> []" "\<not> MAX_PATH \<le> length name + 2"
    by (cases dirname) auto
  obtain ok s1 where c: "os_call (di_calloc api) s = (ok, s1)" by fastforce
  note hc = held_calloc [OF assms(1), of s, unfolded c]
  obtain cr s2 where p: "wpdk_copy_path pa (PATH_MAX - 2) (Some name) s1 = (cr, s2)" by fastforce
  have hp: "held g s2 = held g s1" using held_copy_path [OF assms(2), of "PATH_MAX - 2" "Some name" s1] p by simp
  show ?thesis
  proof (cases "ok")
    case False
    then show ?thesis using n c hc assms(3) by (auto simp: wpdk_opendir_def)
  next
    case ok: True
    show ?thesis
    proof (cases cr)
      case CNull
      then show ?thesis using n c hc p hp ok assms(3) held_free [OF assms(1), of s2]
        by (auto simp: wpdk_opendir_def)
    next
      case (CBuf b)
      then have "open_search api (case b of None \<Rightarrow> [] | Some p \<Rightarrow> p) s2 = (r, s')"
        using n c p ok assms(3) by (simp add: wpdk_opendir_def)
      then show ?thesis using hc hp ok by auto
    next
      case CFault
      then show ?thesis using n c p ok assms(3,4) by (auto simp: wpdk_opendir_def)
    qed
  qed
qed

text \<open>
  C18. Directory streams are balanced: an \<^verbatim>\<open>opendir\<close> that fails leaves no handle, descriptor, search or
  memory behind, and closing a stream that it returns gives back exactly what it holds.
\<close>

theorem opendir_closedir_balanced:
  assumes "dir_contract api g listing" "\<forall>p. keeps g (pa_strdup pa p)"
    and "gh_finds (held g s) 0 = None" "wpdk_opendir pa api dirname s = (r, s')" "\<not> fault s'"
  shows "case r of
           None \<Rightarrow> held g s' = held g s
         | Some d \<Rightarrow> held g s' \<noteq> held g s \<and> fst (wpdk_closedir api r s') = 0 \<and>
                     held g (snd (wpdk_closedir api r s')) = held g s"
proof -
  from opendir_search [OF assms(1,2,4,5)]
  consider "r = None" "held g s' = held g s"
    | spec s2 where "open_search api spec s2 = (r, s')" "held g s2 = (held g s)\<lparr>gh_blocks := Suc (gh_blocks (held g s))\<rparr>"
    by blast
  then show ?thesis
  proof cases
    case 1
    then show ?thesis by simp
  next
    case 2
    show ?thesis
    proof (cases r)
      case None
      then show ?thesis using held_open_search_None [OF assms(1) _ _ assms(5), of s2 spec] 2 assms(3) by simp
    next
      case (Some d)
      have st: "held g s' = (held g s)\<lparr>gh_files := insert (dir_fd d) (gh_files (held g s)),
            gh_finds := (gh_finds (held g s))(dir_h d \<mapsto> tl (listing (dir_spec d))),
            gh_blocks := Suc (gh_blocks (held g s))\<rparr>" "dir_fd d \<notin> gh_files (held g s)"
        "gh_finds (held g s) (dir_h d) = None" "dir_fd d \<noteq> - 1" "dir_h d \<noteq> - 1"
        using held_open_search_Some [OF assms(1), of spec s2 d s'] 2 Some by simp_all
      have "gh_blocks (held g s') \<noteq> gh_blocks (held g s)" using st(1) by simp
      then have "held g s' \<noteq> held g s" by auto
      moreover have "held g (snd (wpdk_closedir api r s')) = held g s"
        unfolding Some held_closedir [OF assms(1)] using st by (simp add: fun_upd_idem)
      ultimately show ?thesis using Some by (simp add: wpdk_closedir_def Let_def)
    qed
  qed
qed

section \<open>A stream is the list of the entries\<close>

datatype dir_op = Read_Entry | Rewind

fun dir_run ::
  "'w dir_api \<Rightarrow> dir_op list \<Rightarrow> DIR option \<Rightarrow> ('w, 'z) path_sys_scheme
    \<Rightarrow> dirent option list \<times> DIR option \<times> ('w, 'z) path_sys_scheme" where
  "dir_run api [] d s = ([], d, s)"
| "dir_run api (Read_Entry # ops) d s =
     (let (e, d1, s1) = wpdk_readdir api d s; (es, d2, s2) = dir_run api ops d1 s1 in (e # es, d2, s2))"
| "dir_run api (Rewind # ops) d s = (let (d1, s1) = wpdk_rewinddir api d s in dir_run api ops d1 s1)"

text \<open>The specification: a position in a list.\<close>

fun list_run :: "'a list \<Rightarrow> dir_op list \<Rightarrow> 'a list \<Rightarrow> 'a option list" where
  "list_run all [] rest = []"
| "list_run all (Read_Entry # ops) [] = None # list_run all ops []"
| "list_run all (Read_Entry # ops) (x # rest) = Some x # list_run all ops rest"
| "list_run all (Rewind # ops) rest = list_run all ops all"

definition pending :: "(int \<Rightarrow> finddata list option) \<Rightarrow> DIR \<Rightarrow> finddata list \<Rightarrow> bool" where
  "pending finds d xs \<longleftrightarrow>
     dir_h d \<noteq> - 1 \<and>
     (if dir_first d then finds (dir_h d) = Some (tl xs) \<and> xs \<noteq> [] \<and> dir_info d = hd xs
      else finds (dir_h d) = Some xs)"

lemma readdir_pending:
  assumes "dir_contract api g listing" "pending (gh_finds (held g s)) d xs"
    and "wpdk_readdir api (Some d) s = (e, d', s')"
  shows "\<exists>d1. d' = Some d1 \<and> dir_spec d1 = dir_spec d \<and>
           (case xs of
              [] \<Rightarrow> e = None \<and> pending (gh_finds (held g s')) d1 [] \<and> errno s' = errno s
            | x # ys \<Rightarrow> e = Some (dirent_of x) \<and> pending (gh_finds (held g s')) d1 ys)"
proof (cases "dir_first d")
  case True
  then show ?thesis using assms(2,3) by (cases xs) (auto simp: wpdk_readdir_def pending_def)
next
  case False
  obtain r s1 where c: "crt_call (di_findnext api (dir_h d)) s = (r, s1)" by fastforce
  have "gh_finds (held g s) (dir_h d) = Some xs" using assms(2) False by (simp add: pending_def)
  note nx = held_findnext [OF assms(1) c this]
  have h: "dir_h d \<noteq> - 1" using assms(2) by (simp add: pending_def)
  show ?thesis
  proof (cases xs)
    case Nil
    then have "r = None" "errno s1 = ENOENT" "held g s1 = held g s" using nx by simp_all
    then show ?thesis using assms(2,3) False c h Nil
      by (simp add: wpdk_readdir_def set_errno_def) (auto simp: pending_def)
  next
    case (Cons x ys)
    then have r: "r = Some x" "gh_finds (held g s1) (dir_h d) = Some ys" using nx by simp_all
    then have "e = Some (dirent_of x) \<and> d' = Some (d\<lparr>dir_info := x, dir_first := False\<rparr>) \<and> s' = s1"
      using assms(3) False c h by (simp add: wpdk_readdir_def)
    then show ?thesis using r h Cons by (simp add: pending_def)
  qed
qed

lemma rewinddir_pending:
  assumes "dir_contract api g listing" "pending (gh_finds (held g s)) d xs" "listing (dir_spec d) \<noteq> []"
    and "wpdk_rewinddir api (Some d) s = (d', s')"
  shows "\<exists>d1. d' = Some d1 \<and> dir_spec d1 = dir_spec d \<and> pending (gh_finds (held g s')) d1 (listing (dir_spec d))"
proof -
  let ?s1 = "snd (crt_call (di_findclose api (dir_h d)) s)"
  obtain fh info s2 where f: "crt_call (di_findfirst api (dir_spec d)) ?s1 = ((fh, info), s2)" by (metis surj_pair)
  have h: "dir_h d \<noteq> - 1" using assms(2) by (simp add: pending_def)
  have fh: "fh \<noteq> - 1" "info = hd (listing (dir_spec d))" "gh_finds (held g s2) fh = Some (tl (listing (dir_spec d)))"
    using held_findfirst [OF assms(1) f] assms(3) by (simp_all split: if_splits)
  have "d' = Some (d\<lparr>dir_h := fh, dir_info := info, dir_first := True\<rparr>) \<and> s' = s2"
    using assms(4) f h by (simp add: wpdk_rewinddir_def)
  then show ?thesis using fh assms(3) by (simp add: pending_def)
qed

lemma dir_run_pending:
  assumes "dir_contract api g listing" "listing (dir_spec d) \<noteq> []" "pending (gh_finds (held g s)) d xs"
  shows "fst (dir_run api ops (Some d) s) =
           list_run (map dirent_of (listing (dir_spec d))) ops (map dirent_of xs)"
  using assms(2,3)
proof (induction ops arbitrary: d s xs)
  case (Cons op ops)
  note IH = Cons.IH and prems = Cons.prems
  show ?case
  proof (cases op)
    case Read_Entry
    obtain e d' s' where r: "wpdk_readdir api (Some d) s = (e, d', s')" by (metis surj_pair)
    from readdir_pending [OF assms(1) prems(2) r] obtain d1 where d1: "d' = Some d1" "dir_spec d1 = dir_spec d"
      "case xs of [] \<Rightarrow> e = None \<and> pending (gh_finds (held g s')) d1 [] \<and> errno s' = errno s
       | x # ys \<Rightarrow> e = Some (dirent_of x) \<and> pending (gh_finds (held g s')) d1 ys" by blast
    show ?thesis
    proof (cases xs)
      case Nil
      then have "fst (dir_run api ops (Some d1) s') = list_run (map dirent_of (listing (dir_spec d))) ops []"
        using IH [of d1 s' "[]"] prems(1) d1 by simp
      then show ?thesis using r d1 Nil Read_Entry by (simp add: split_beta)
    next
      case (Cons x ys)
      then have "fst (dir_run api ops (Some d1) s') =
          list_run (map dirent_of (listing (dir_spec d))) ops (map dirent_of ys)"
        using IH [of d1 s' ys] prems(1) d1 by simp
      then show ?thesis using r d1 Cons Read_Entry by (simp add: split_beta)
    qed
  next
    case Rewind
    obtain d' s' where r: "wpdk_rewinddir api (Some d) s = (d', s')" by fastforce
    from rewinddir_pending [OF assms(1) prems(2,1) r] obtain d1 where d1: "d' = Some d1"
      "dir_spec d1 = dir_spec d" "pending (gh_finds (held g s')) d1 (listing (dir_spec d))" by blast
    from IH [OF _ d1(3)] prems(1) d1 r Rewind show ?thesis by simp
  qed
qed simp

text \<open>
  C17. A directory stream is a list with a position: whatever sequence of \<^verbatim>\<open>readdir\<close> and
  \<^verbatim>\<open>rewinddir\<close> follows a successful \<^verbatim>\<open>opendir\<close>, the calls return the entries that the same sequence
  returns for the list of all entries of the directory, and NULL exactly at its end.
\<close>

theorem directory_stream_refines_list:
  assumes "dir_contract api g listing" "\<forall>p. keeps g (pa_strdup pa p)"
    and "wpdk_opendir pa api dirname s = (Some d, s')" "\<not> fault s'"
  shows "fst (dir_run api ops (Some d) s') =
           (let entries = map dirent_of (listing (dir_spec d)) in list_run entries ops entries)"
proof -
  obtain spec s2 where o: "open_search api spec s2 = (Some d, s')"
    using opendir_search [OF assms] by blast
  from held_open_search_Some [OF assms(1) o]
  have "listing (dir_spec d) \<noteq> []" "pending (gh_finds (held g s')) d (listing (dir_spec d))"
    by (simp_all add: pending_def)
  then show ?thesis using dir_run_pending [OF assms(1)] by (simp add: Let_def)
qed

section \<open>An instance\<close>

text \<open>A system with one directory of two entries.\<close>

definition demo_listing :: "finddata list" where
  "demo_listing = [\<lparr>fi_name = ''a.txt'', fi_attrib = 0x20\<rparr>, \<lparr>fi_name = ''sub'', fi_attrib = 0x10\<rparr>]"

record dir_world =
  dw_finds :: "(int \<times> finddata list) list"
  dw_files :: "int list"
  dw_handles :: "nat list"
  dw_blocks :: nat

definition demo_held :: "dir_world \<Rightarrow> dir_ghost" where
  "demo_held w = \<lparr>gh_finds = map_of (dw_finds w), gh_files = set (dw_files w),
     gh_handles = set (dw_handles w), gh_blocks = dw_blocks w\<rparr>"

definition unused :: "int list \<Rightarrow> int" where
  "unused xs = 1 + sum_list (map abs xs)"

definition demo_findnext :: "int \<Rightarrow> (finddata option, dir_world) crt" where
  "demo_findnext x w =
     (case map_of (dw_finds w) x of
        Some (y # ys) \<Rightarrow> ((Some y, None), w\<lparr>dw_finds := (x, ys) # dw_finds w\<rparr>)
      | _ \<Rightarrow> ((None, Some ENOENT), w))"

definition demo_dir_api :: "dir_world dir_api" where
  "demo_dir_api =
     \<lparr>di_calloc = (\<lambda>w. (True, w\<lparr>dw_blocks := Suc (dw_blocks w)\<rparr>)),
      di_free = (\<lambda>w. w\<lparr>dw_blocks := dw_blocks w - 1\<rparr>),
      di_create_file = (\<lambda>p w. (Some (Suc (sum_list (dw_handles w))),
                          w\<lparr>dw_handles := Suc (sum_list (dw_handles w)) # dw_handles w\<rparr>)),
      di_last_error = (\<lambda>w. Werr1 ERROR_SUCCESS),
      di_close_handle = (\<lambda>x w. w\<lparr>dw_handles := filter (\<lambda>y. y \<noteq> x) (dw_handles w)\<rparr>),
      di_open_osfhandle = (\<lambda>x w. ((unused (dw_files w), None),
                          w\<lparr>dw_files := unused (dw_files w) # dw_files w,
                            dw_handles := filter (\<lambda>y. y \<noteq> x) (dw_handles w)\<rparr>)),
      di_close = (\<lambda>x w. ((0, None), w\<lparr>dw_files := filter (\<lambda>y. y \<noteq> x) (dw_files w)\<rparr>)),
      di_findfirst = (\<lambda>p w. let h = unused (map fst (dw_finds w))
                        in (((h, hd demo_listing), None), w\<lparr>dw_finds := (h, tl demo_listing) # dw_finds w\<rparr>)),
      di_findnext = demo_findnext,
      di_findclose = (\<lambda>x w. ((0, None), w\<lparr>dw_finds := filter (\<lambda>y. fst y \<noteq> x) (dw_finds w)\<rparr>))\<rparr>"

lemma sum_abs_nonneg: "0 \<le> sum_list (map abs (xs :: int list))"
  by (induction xs) auto

lemma unused_new: "x \<in> set xs \<Longrightarrow> x < unused xs"
proof (induction xs)
  case (Cons y ys)
  then show ?case using sum_abs_nonneg [of ys] by (auto simp: unused_def)
qed simp

lemma unused_pos: "0 < unused xs"
  using sum_abs_nonneg [of xs] by (simp add: unused_def)

lemma map_of_filter_key: "map_of (filter (\<lambda>y. fst y \<noteq> x) f) = (map_of f)(x := None)"
  by (induction f) (auto simp: fun_eq_iff)

lemma Suc_sum_list_new: "Suc (sum_list h) \<notin> set h"
  using member_le_sum_list [of "Suc (sum_list h)" h] by auto

lemma demo_dir_contract: "dir_contract demo_dir_api demo_held (\<lambda>p. demo_listing)"
proof -
  have 1: "opens_handle demo_dir_api demo_held p w" for p w
    using Suc_sum_list_new by (simp add: opens_handle_def demo_dir_api_def demo_held_def)
  have "unused (dw_files w) \<notin> set (dw_files w)" for w using unused_new by blast
  then have 2: "opens_file demo_dir_api demo_held h w" for h w
    using unused_pos [of "dw_files w"]
    by (auto simp add: opens_file_def demo_dir_api_def demo_held_def)
  have 3: "starts_search demo_dir_api demo_held (\<lambda>p. demo_listing) p w" for p w
  proof -
    let ?h = "unused (map fst (dw_finds w))"
    have "?h \<noteq> - 1" using unused_pos [of "map fst (dw_finds w)"] by simp
    moreover have "map_of (dw_finds w) ?h = None"
      using unused_new [of _ "map fst (dw_finds w)"] by (auto simp: map_of_eq_None_iff)
    ultimately show ?thesis
      by (simp add: starts_search_def demo_dir_api_def demo_held_def demo_listing_def Let_def)
  qed
  have 4: "goes_on demo_dir_api demo_held fh w" for fh w
    by (auto simp: goes_on_def demo_dir_api_def demo_held_def demo_findnext_def split: option.splits list.splits)
  show ?thesis unfolding dir_contract_def
    by (intro conjI allI 1 2 3 4)
       (auto simp: demo_dir_api_def demo_held_def map_of_filter_key)
qed

definition demo_dir_sys :: "dir_world path_sys" where
  "demo_dir_sys = \<lparr>errno = 0, fault = False, world = \<lparr>dw_finds = [], dw_files = [], dw_handles = [], dw_blocks = 0\<rparr>, map_init = True, path_map = []\<rparr>"

definition demo_dir :: DIR where
  "demo_dir = \<lparr>dir_h = 1, dir_fd = 1, dir_first = True, dir_info = hd demo_listing, dir_spec = ''/d/e'' @ [CHR 0x5C, CHR ''*'']\<rparr>"

definition demo_dir_opened :: "dir_world path_sys" where
  "demo_dir_opened = demo_dir_sys\<lparr>world :=
     \<lparr>dw_finds = [(1, tl demo_listing)], dw_files = [1], dw_handles = [], dw_blocks = 1\<rparr>\<rparr>"

lemma demo_copy_path:
  assumes "map_init s" "path_map s = []"
  shows "wpdk_copy_path demo_path_api (PATH_MAX - 2) (Some ''/d/e'') s = (CBuf (Some ''/d/e''), s)"
  using assms by (simp add: wpdk_copy_path_def wpdk_get_path.simps is_root_file_def errno_simps strcpy_s_def)

lemma demo_open_search:
  assumes "world s = \<lparr>dw_finds = [], dw_files = [], dw_handles = [], dw_blocks = 1\<rparr>"
  shows "open_search demo_dir_api ''/d/e'' s =
     (Some demo_dir, s\<lparr>world := \<lparr>dw_finds = [(1, tl demo_listing)], dw_files = [1], dw_handles = [], dw_blocks = 1\<rparr>\<rparr>)"
  using assms by (simp add: open_search_def os_call_def crt_call_def demo_dir_api_def unused_def
      search_pattern_def new_DIR_def demo_dir_def Let_def)

lemma demo_opendir:
  "wpdk_opendir demo_path_api demo_dir_api (Some ''/d/e'') demo_dir_sys = (Some demo_dir, demo_dir_opened)"
proof -
  let ?s1 = "demo_dir_sys\<lparr>world := \<lparr>dw_finds = [], dw_files = [], dw_handles = [], dw_blocks = 1\<rparr>\<rparr>"
  have "os_call (di_calloc demo_dir_api) demo_dir_sys = (True, ?s1)"
    by (simp add: os_call_def demo_dir_api_def demo_dir_sys_def)
  moreover have "wpdk_copy_path demo_path_api (PATH_MAX - 2) (Some ''/d/e'') ?s1 = (CBuf (Some ''/d/e''), ?s1)"
    by (rule demo_copy_path) (simp_all add: demo_dir_sys_def)
  moreover have "open_search demo_dir_api ''/d/e'' ?s1 = (Some demo_dir, demo_dir_opened)"
    by (simp add: demo_open_search demo_dir_opened_def)
  moreover have "\<not> MAX_PATH \<le> length ''/d/e'' + 2" by (simp add: errno_simps)
  ultimately show ?thesis by (simp add: wpdk_opendir_def)
qed

theorem opendir_closedir_balanced_witness:
  "held demo_held (snd (wpdk_closedir demo_dir_api (Some demo_dir)
     (demo_dir_opened))) = held demo_held demo_dir_sys"
  using opendir_closedir_balanced [OF demo_dir_contract _ _ demo_opendir]
  by (simp add: demo_path_api_def keeps_def demo_dir_opened_def demo_dir_sys_def demo_held_def)

theorem directory_stream_refines_list_witness:
  "fst (dir_run demo_dir_api [Read_Entry, Read_Entry, Read_Entry, Rewind, Read_Entry] (Some demo_dir)
     (demo_dir_opened)) =
   [Some \<lparr>d_ino = 0, d_type = DT_REG, d_name = ''a.txt''\<rparr>, Some \<lparr>d_ino = 0, d_type = DT_DIR, d_name = ''sub''\<rparr>,
    None, Some \<lparr>d_ino = 0, d_type = DT_REG, d_name = ''a.txt''\<rparr>]"
  using directory_stream_refines_list [OF demo_dir_contract _ demo_opendir,
      of "[Read_Entry, Read_Entry, Read_Entry, Rewind, Read_Entry]"]
  by (simp add: demo_path_api_def keeps_def demo_dir_opened_def demo_dir_sys_def demo_listing_def dirent_of_def errno_simps)

text \<open>
  The search pattern fits into the structure. When there is no descriptor for the handle, the stream
  is closed with a search handle \<open>0\<close> that it has never opened.
\<close>

fun result_fits :: "nat \<Rightarrow> path_result \<Rightarrow> bool" where
  "result_fits n (PBuf b) \<longleftrightarrow> length b < n"
| "result_fits n (PNull (Some b)) \<longleftrightarrow> b = []"
| "result_fits n r \<longleftrightarrow> True"

lemma lookup_fits: "result_fits n (lookup_mapping p n m)"
  by (induction m) (auto split: option.splits bool.splits)

lemma get_path_fits_file:
  assumes "\<not> is_root_file p"
  shows "result_fits n (fst (wpdk_get_path pa (Some p) n s))"
  using assms lookup_fits [of n p]
  by (simp add: wpdk_get_path.simps [of pa "Some p" n s] Let_def)

lemma get_path_fits: "result_fits n (fst (wpdk_get_path pa path n s))"
proof (cases path)
  case None
  then show ?thesis by (simp add: wpdk_get_path.simps)
next
  case (Some p)
  show ?thesis
  proof (cases "is_root_file p")
    case False
    then show ?thesis using get_path_fits_file Some by simp
  next
    case True
    define s1 where "s1 = (if map_init s then s else wpdk_init_map pa s)"
    obtain r t where r: "wpdk_get_path pa (Some (''/tmp'' @ p)) n s1 = (r, t)" by fastforce
    then have "result_fits n r"
      using get_path_fits_file [OF is_root_file_tmp [OF True], of n pa s1] by simp
    then show ?thesis using True r
      by (cases r) (simp_all add: Some wpdk_get_path.simps [of pa "Some p" n s] s1_def [symmetric]
                      Let_def strcpy_s_def strcat_s_def)
  qed
qed

lemma copy_path_fits:
  assumes "wpdk_copy_path pa n path s = (CBuf (Some p), s')"
  shows "length p < n \<or> p = []"
proof -
  obtain r t where r: "wpdk_get_path pa path n s = (r, t)" by fastforce
  then have "result_fits n r" using get_path_fits [of n pa path s] by simp
  then show ?thesis using assms r
    by (cases r) (auto simp: wpdk_copy_path_def bind_eq_Some_conv split: option.splits)
qed

lemma search_pattern_fits:
  assumes "wpdk_copy_path pa (PATH_MAX - 2) path s = (CBuf (Some p), s')" "search_pattern p = Some q"
  shows "length q < PATH_MAX \<or> p = []"
  using assms copy_path_fits [of pa "PATH_MAX - 2" path s p s'] 
  by (auto simp: search_pattern_def errno_simps split: if_splits)

lemma opendir_closes_unopened:
  assumes "os_call (di_create_file api spec) s = (Some h, s1)" "crt_call (di_open_osfhandle api h) s1 = (- 1, s2)"
  shows "snd (open_search api spec s) =
     set_errno (errno s2) (dir_void (di_free api)
       (snd (crt_call (di_findclose api 0) (dir_void (di_close_handle api h) s2))))"
  using assms by (simp add: open_search_def wpdk_closedir_def new_DIR_def Let_def)

end
