(* ===== verification/Stdlib.thy ===== *)
theory Stdlib
  imports Descriptors
begin

unbundle bit_operations_syntax

text \<open>
  Memory, random numbers, temporary files and the checked conversions of \<^verbatim>\<open>src/stdlib.c\<close>.

  The theorems state that a random number takes every 31-bit value for exactly one combination of
  the bits that are drawn, and that the name which \<^verbatim>\<open>mkstemp\<close> hands back is mapped to the file that
  it has created.
\<close>

section \<open>Memory\<close>

text \<open>
  \<^verbatim>\<open>_aligned_malloc\<close>, \<^verbatim>\<open>_aligned_realloc\<close> and \<^verbatim>\<open>_aligned_free\<close>; \<open>0\<close> is NULL. \<^verbatim>\<open>memset\<close> clears the given
  number of bytes.
\<close>

record 'w memory_api =
  me_malloc :: "int \<Rightarrow> int \<Rightarrow> 'w \<Rightarrow> ptr \<times> 'w"
  me_realloc :: "ptr \<Rightarrow> int \<Rightarrow> int \<Rightarrow> 'w \<Rightarrow> ptr \<times> 'w"
  me_free :: "ptr \<Rightarrow> 'w \<Rightarrow> 'w"
  me_clear :: "ptr \<Rightarrow> int \<Rightarrow> 'w \<Rightarrow> 'w"

definition default_alignment :: int where "default_alignment = 16"
definition sizeof_int :: int where "sizeof_int = 4"

definition wpdk_malloc :: "'w memory_api \<Rightarrow> int \<Rightarrow> ('w, 'z) sys_scheme \<Rightarrow> ptr \<times> ('w, 'z) sys_scheme" where
  "wpdk_malloc api n = os_call (me_malloc api (if n \<noteq> 0 then n else sizeof_int) default_alignment)"

definition wpdk_calloc :: "'w memory_api \<Rightarrow> int \<Rightarrow> int \<Rightarrow> ('w, 'z) sys_scheme \<Rightarrow> ptr \<times> ('w, 'z) sys_scheme" where
  "wpdk_calloc api nelem elsize s =
     (let n = to_uint64 (nelem * elsize);
          n = (if n = 0 then sizeof_int else n);
          (cp, s1) = os_call (me_malloc api n default_alignment) s
      in (cp, if cp \<noteq> 0 then s1\<lparr>world := me_clear api cp n (world s1)\<rparr> else s1))"

definition wpdk_free :: "'w memory_api \<Rightarrow> ptr \<Rightarrow> ('w, 'z) sys_scheme \<Rightarrow> ('w, 'z) sys_scheme" where
  "wpdk_free api p s = s\<lparr>world := me_free api p (world s)\<rparr>"

definition wpdk_realloc :: "'w memory_api \<Rightarrow> ptr \<Rightarrow> int \<Rightarrow> ('w, 'z) sys_scheme \<Rightarrow> ptr \<times> ('w, 'z) sys_scheme" where
  "wpdk_realloc api p n = os_call (me_realloc api p (if n \<noteq> 0 then n else sizeof_int) default_alignment)"

text \<open>The error number, the value stored through \<^verbatim>\<open>memptr\<close>, if any, and the state.\<close>

definition wpdk_posix_memalign ::
  "'w memory_api \<Rightarrow> bool \<Rightarrow> int \<Rightarrow> int \<Rightarrow> ('w, 'z) sys_scheme \<Rightarrow> int \<times> ptr option \<times> ('w, 'z) sys_scheme" where
  "wpdk_posix_memalign api memptr alignment n s =
     (if \<not> memptr \<or> n = 0 then (EINVAL, None, s)
      else (let (p, s1) = os_call (me_malloc api (if n \<noteq> 0 then n else sizeof_int) alignment) s
            in (if p = 0 then ENOMEM else 0, Some p, s1)))"

text \<open>\<^verbatim>\<open>wpdk_strdup\<close> of \<^verbatim>\<open>src/string.c\<close>; \<open>copy\<close> stores a string and its terminator.\<close>

definition wpdk_strdup ::
  "'w memory_api \<Rightarrow> (ptr \<Rightarrow> string \<Rightarrow> 'w \<Rightarrow> 'w) \<Rightarrow> string \<Rightarrow> ('w, 'z) sys_scheme \<Rightarrow> ptr \<times> ('w, 'z) sys_scheme" where
  "wpdk_strdup api copy str s =
     (let (cp, s1) = wpdk_malloc api (int (length str) + 1) s
      in (cp, if cp \<noteq> 0 then s1\<lparr>world := copy cp str (world s1)\<rparr> else s1))"

text \<open>
  A product that overflows is reduced modulo \<open>2\<^sup>6\<^sup>4\<close>, and a block that is too small is returned as if
  it had the requested size.
\<close>

lemma calloc_overflow:
  "wpdk_calloc api (2 ^ 32) (2 ^ 32 + 1) s = wpdk_calloc api 1 (2 ^ 32) s"
  by (simp add: wpdk_calloc_def to_uint64_def)

section \<open>Random numbers\<close>

definition random_value :: "int \<Rightarrow> int \<Rightarrow> int \<Rightarrow> int" where
  "random_value r1 r2 r3 = push_bit 16 r1 OR push_bit 1 r2 OR r3"

definition wpdk_random :: "('w \<Rightarrow> int \<times> 'w) \<Rightarrow> ('w, 'z) sys_scheme \<Rightarrow> int \<times> ('w, 'z) sys_scheme" where
  "wpdk_random rand s =
     (let (a, s1) = os_call rand s; (b, s2) = os_call rand s1; (c, s3) = os_call rand s2
      in (random_value (a AND 0x7fff) (b AND 0x7fff) (c AND 1), s3))"

definition wpdk_rand :: "('w \<Rightarrow> int \<times> 'w) \<Rightarrow> ('w, 'z) sys_scheme \<Rightarrow> int \<times> ('w, 'z) sys_scheme" where
  "wpdk_rand rand s = (let (r, s1) = wpdk_random rand s in (to_int32 r, s1))"

definition wpdk_rand_r :: "('w \<Rightarrow> int \<times> 'w) \<Rightarrow> ptr \<Rightarrow> ('w, 'z) sys_scheme \<Rightarrow> int \<times> ('w, 'z) sys_scheme" where
  "wpdk_rand_r rand seedp s = (let (r, s1) = wpdk_random rand s in (to_int32 r, s1))"

definition wpdk_srand :: "(int \<Rightarrow> 'w \<Rightarrow> 'w) \<Rightarrow> int \<Rightarrow> ('w, 'z) sys_scheme \<Rightarrow> ('w, 'z) sys_scheme" where
  "wpdk_srand srand seed s = s\<lparr>world := srand seed (world s)\<rparr>"

definition wpdk_srandom :: "(int \<Rightarrow> 'w \<Rightarrow> 'w) \<Rightarrow> int \<Rightarrow> ('w, 'z) sys_scheme \<Rightarrow> ('w, 'z) sys_scheme" where
  "wpdk_srandom srand seed s = s\<lparr>world := srand seed (world s)\<rparr>"

text \<open>\<open>strto\<close> is \<^verbatim>\<open>strtol\<close> or \<^verbatim>\<open>strtoll\<close>.\<close>

definition wpdk_strtol :: "(string \<Rightarrow> int \<Rightarrow> (int, 'w) crt) \<Rightarrow> string \<Rightarrow> int \<Rightarrow> ('w, 'z) sys_scheme \<Rightarrow> int \<times> ('w, 'z) sys_scheme" where
  "wpdk_strtol strto str base s =
     (if base = 1 \<or> 36 < base then (0, set_errno EINVAL s) else crt_call (strto str base) s)"

definition wpdk_strtoll :: "(string \<Rightarrow> int \<Rightarrow> (int, 'w) crt) \<Rightarrow> string \<Rightarrow> int \<Rightarrow> ('w, 'z) sys_scheme \<Rightarrow> int \<times> ('w, 'z) sys_scheme" where
  "wpdk_strtoll strto str base s =
     (if base = 1 \<or> 36 < base then (0, set_errno EINVAL s) else crt_call (strto str base) s)"

lemma push_bit_or:
  assumes "0 \<le> x" "x < 2 ^ n"
  shows "push_bit n a OR x = a * 2 ^ n + (x :: int)"
proof -
  have x: "take_bit n x = x" using assms by (simp add: take_bit_int_eq_self)
  have "push_bit n a AND take_bit n x = 0"
    by (rule bit_eqI) (auto simp: bit_simps)
  then have "push_bit n a AND x = 0" using x by simp
  then show ?thesis by (simp add: disjunctive_add_eq_or [symmetric] push_bit_eq_mult)
qed

lemma random_value_sum:
  assumes "0 \<le> b" "b < 2 ^ 15" "0 \<le> c" "c < 2"
  shows "random_value a b c = a * 65536 + b * 2 + c"
proof -
  have "push_bit 1 b OR c = b * 2 + c" using push_bit_or [of c 1 b] assms by simp
  moreover have "push_bit 16 a OR (b * 2 + c) = a * 65536 + (b * 2 + c)"
    using push_bit_or [of "b * 2 + c" 16 a] assms by simp
  ultimately show ?thesis by (simp add: random_value_def or.assoc)
qed

lemma split_halves:
  fixes a b c :: int
  assumes "0 \<le> b" "b < 32768" "0 \<le> c" "c < 2"
  shows "(a * 65536 + b * 2 + c) mod 65536 div 2 = b" "(a * 65536 + b * 2 + c) mod 2 = c"
proof -
  have "(a * 65536 + b * 2 + c) mod 65536 = (b * 2 + c + a * 65536) mod 65536" by (simp add: ac_simps)
  also have "\<dots> = b * 2 + c" using assms by simp
  finally show "(a * 65536 + b * 2 + c) mod 65536 div 2 = b" using assms by simp
  have "a * 65536 + b * 2 + c = c + 2 * (a * 32768 + b)" by simp
  then have "(a * 65536 + b * 2 + c) mod 2 = c mod 2" by (metis mod_mult_self2)
  then show "(a * 65536 + b * 2 + c) mod 2 = c" using assms by simp
qed

lemma join_halves: "x div 65536 * 65536 + x mod 65536 div 2 * 2 + x mod 2 = (x :: int)"
proof -
  have "x mod 2 = x mod 65536 mod 2" by (rule mod_mod_cancel [symmetric]) simp
  then have "x mod 65536 div 2 * 2 + x mod 2 = x mod 65536" by (metis div_mult_mod_eq)
  then show ?thesis using div_mult_mod_eq [of x 65536] by linarith
qed

text \<open>
  A random number has 31 bits and loses nothing of what is drawn: the combinations of two
  15-bit numbers and a bit correspond one to one to the numbers below \<open>2\<^sup>3\<^sup>1\<close>, and whatever the
  C runtime returns, \<^verbatim>\<open>wpdk_random\<close> returns one of them.
\<close>

theorem random_31_bits:
  "bij_betw (\<lambda>(a, b, c). random_value a b c) ({0 ..< 2 ^ 15} \<times> {0 ..< 2 ^ 15} \<times> {0 ..< 2}) {0 ..< 2 ^ 31} \<and>
   fst (wpdk_random rand s) \<in> {0 ..< 2 ^ 31} \<and> wpdk_rand rand s = wpdk_random rand s"
proof (intro conjI)
  show "bij_betw (\<lambda>(a, b, c). random_value a b c) ({0 ..< 2 ^ 15} \<times> {0 ..< 2 ^ 15} \<times> {0 ..< 2}) {0 ..< 2 ^ 31}"
    by (rule bij_betw_byWitness [where f' = "\<lambda>x. (x div 65536, x mod 65536 div 2, x mod 2)"])
       (auto simp: random_value_sum split_halves join_halves)
  have m: "x AND 0x7fff = x mod 2 ^ 15" "x AND 1 = x mod 2" for x :: int
    using take_bit_eq_mask [of 15 x] by (simp_all add: take_bit_eq_mod mask_eq_exp_minus_1 and_one_eq)
  have "random_value (a mod 2 ^ 15) (b mod 2 ^ 15) (c mod 2) \<in> {0 ..< 2 ^ 31}" for a b c :: int
  proof -
    have "0 \<le> a mod 2 ^ 15" "a mod 2 ^ 15 < 2 ^ 15" "0 \<le> b mod 2 ^ 15" "b mod 2 ^ 15 < 2 ^ 15"
      "0 \<le> c mod 2" "c mod 2 < 2" by simp_all
    then show ?thesis unfolding random_value_sum [OF \<open>0 \<le> b mod 2 ^ 15\<close> \<open>b mod 2 ^ 15 < 2 ^ 15\<close> \<open>0 \<le> c mod 2\<close> \<open>c mod 2 < 2\<close>]
      by simp
  qed
  then show *: "fst (wpdk_random rand s) \<in> {0 ..< 2 ^ 31}"
    by (simp add: wpdk_random_def split_beta m del: atLeastLessThan_iff)
  then show "wpdk_rand rand s = wpdk_random rand s"
    by (simp add: wpdk_rand_def split_beta to_int32_id)
qed

section \<open>Temporary files\<close>

text \<open>
  \<open>mktemp\<close> is \<^verbatim>\<open>_mktemp\<close>, which changes the path in place. The result is the descriptor, the template
  after the call and the state.
\<close>

abbreviation "temp_flags \<equiv> O_CREAT OR O_EXCL OR O_RDWR OR O_BINARY"
abbreviation "temp_mode \<equiv> S_IREAD OR S_IWRITE"

fun mkstemp_loop ::
  "'w path_api \<Rightarrow> 'w file_api \<Rightarrow> (string \<Rightarrow> (string option, 'w) crt) \<Rightarrow> string \<Rightarrow> nat
    \<Rightarrow> ('w, 'z) path_sys_scheme \<Rightarrow> int \<times> string \<times> ('w, 'z) path_sys_scheme" where
  "mkstemp_loop pa fa mktemp template 0 s = (- 1, template, set_errno EEXIST s)"
| "mkstemp_loop pa fa mktemp template (Suc n) s =
     (case wpdk_copy_path pa PATH_MAX (Some template) s of
        (CFault, s1) \<Rightarrow> (- 1, template, set_fault s1)
      | (CNull, s1) \<Rightarrow> (- 1, template, set_errno EINVAL s1)
      | (CBuf None, s1) \<Rightarrow> (- 1, template, set_fault s1)
      | (CBuf (Some buf), s1) \<Rightarrow>
          (case crt_call (mktemp buf) s1 of
             (None, s2) \<Rightarrow> (- 1, template, s2)
           | (Some path, s2) \<Rightarrow>
               (case crt_call (fa_open fa path temp_flags temp_mode) s2 of
                  (fd, s3) \<Rightarrow>
                    if fd \<noteq> - 1
                    then if 6 \<le> length path \<and> length path < PATH_MAX
                         then (fd, take (length template - 6) template @ drop (length path - 6) path, s3)
                         else (- 1, template,
                               set_errno EINVAL (snd (crt_call (fa_unlink fa path) (snd (crt_call (fa_close fa fd) s3)))))
                    else if errno s3 \<noteq> EEXIST then (- 1, template, s3)
                    else mkstemp_loop pa fa mktemp template n s3)))"

definition wpdk_mkstemp ::
  "'w path_api \<Rightarrow> 'w file_api \<Rightarrow> (string \<Rightarrow> (string option, 'w) crt) \<Rightarrow> string option
    \<Rightarrow> ('w, 'z) path_sys_scheme \<Rightarrow> int \<times> string option \<times> ('w, 'z) path_sys_scheme" where
  "wpdk_mkstemp pa fa mktemp template s =
     (case template of
        None \<Rightarrow> (- 1, None, set_errno EINVAL s)
      | Some t \<Rightarrow>
          if length t < 6 \<or> PATH_MAX \<le> length t \<or> drop (length t - 6) t \<noteq> ''XXXXXX''
          then (- 1, template, set_errno EINVAL s)
          else (let (fd, t', s1) = mkstemp_loop pa fa mktemp t 26 s in (fd, Some t', s1)))"

text \<open>The documented behaviour of \<^verbatim>\<open>_mktemp\<close>: the last six characters are replaced.\<close>

definition mktemp_contract :: "(string \<Rightarrow> (string option, 'w) crt) \<Rightarrow> bool" where
  "mktemp_contract mktemp \<longleftrightarrow>
     (\<forall>q w path. fst (fst (mktemp q w)) = Some path \<longrightarrow>
        6 \<le> length q \<and>
        (\<exists>suf. length suf = 6 \<and> CHR ''/'' \<notin> set suf \<and> path = take (length q - 6) q @ suf))"

text \<open>A table of directories that are stored as they were given.\<close>

definition plain_table :: "path_mapping list \<Rightarrow> bool" where
  "plain_table m \<longleftrightarrow> (\<forall>e \<in> set m. cstring (pm_dir e) \<and> pm_len e = length (pm_dir e))"

text \<open>The last component of a path does not decide about its mapping.\<close>

lemma mapping_matches_suffix:
  assumes "cstring (pm_dir e)" "pm_len e = length (pm_dir e)"
    and "CHR ''/'' \<notin> set x" "CHR ''/'' \<notin> set y" "length x = length y"
  shows "mapping_matches (pre @ x) e = mapping_matches (pre @ y) e"
    and "mapping_matches (pre @ x) e = Some True \<Longrightarrow> pm_len e \<le> length pre"
proof -
  let ?d = "pm_dir e"
  have m: "mapping_matches p e = (if starts_with ?d p then map_option (\<lambda>c. c = CHR ''/'') (char_at p (length ?d)) else Some False)" for p
    using assms(1,2) by (simp add: mapping_matches_def strncmp_eq_prefix)
  have far: "mapping_matches (pre @ z) e = Some False" if "CHR ''/'' \<notin> set z" "length pre \<le> length ?d" for z
  proof (cases "starts_with ?d (pre @ z)")
    case True
    then have "length ?d \<le> length (pre @ z)" by (auto simp: starts_with_def dest: arg_cong [where f = length])
    moreover have "k < length z \<Longrightarrow> z ! k \<noteq> CHR ''/''" for k using that(1) nth_mem by metis
    then have "length ?d < length pre + length z \<Longrightarrow> z ! (length ?d - length pre) \<noteq> CHR ''/''"
      using that(2) by (simp add: less_diff_conv2)
    ultimately show ?thesis using that True by (auto simp: m char_at_def nth_append)
  qed (simp add: m)
  show "mapping_matches (pre @ x) e = mapping_matches (pre @ y) e"
  proof (cases "length pre \<le> length ?d")
    case True
    then show ?thesis using far assms(3,4) by simp
  next
    case False
    then show ?thesis by (simp add: m starts_with_def char_at_def nth_append)
  qed
  show "mapping_matches (pre @ x) e = Some True \<Longrightarrow> pm_len e \<le> length pre"
    using far [of x] assms(2,3) by (cases "length pre \<le> length ?d") auto
qed

definition replace_suffix :: "string \<Rightarrow> path_result \<Rightarrow> path_result" where
  "replace_suffix y r = (case r of PBuf b \<Rightarrow> PBuf (take (length b - length y) b @ y) | _ \<Rightarrow> r)"

lemma lookup_suffix:
  assumes "plain_table m" "CHR ''/'' \<notin> set x" "CHR ''/'' \<notin> set y" "length x = length y"
  shows "lookup_mapping (pre @ y) n m = replace_suffix y (lookup_mapping (pre @ x) n m)"
  using assms(1)
proof (induction m)
  case Nil
  then show ?case by (simp add: replace_suffix_def)
next
  case (Cons e m)
  then have e: "cstring (pm_dir e)" "pm_len e = length (pm_dir e)" and IH: "lookup_mapping (pre @ y) n m = replace_suffix y (lookup_mapping (pre @ x) n m)"
    by (auto simp: plain_table_def)
  note match = mapping_matches_suffix [OF e assms(2-4), of pre]
  show ?case
  proof (cases "mapping_matches (pre @ x) e = Some True")
    case True
    then have le: "pm_len e \<le> length pre" by (rule match(2))
    then show ?thesis using True match(1) assms(4)
      by (auto simp: replace_suffix_def split: option.splits)
  next
    case False
    then show ?thesis using match(1) IH
      by (auto simp: replace_suffix_def split: option.splits bool.splits)
  qed
qed

lemma lookup_PNull: "lookup_mapping p n m = PNull b \<Longrightarrow> b = Some []"
  by (induction m) (auto split: option.splits bool.splits)

lemma root_file_suffix:
  assumes "CHR ''/'' \<notin> set x" "CHR ''/'' \<notin> set y" "length x = length y"
  shows "is_root_file (pre @ x) \<longleftrightarrow> is_root_file (pre @ y)"
  using assms by (simp add: is_root_file_def strrchr_append strrchr_None [THEN iffD2])

lemma get_path_root:
  assumes "map_init s" "is_root_file p"
  shows "wpdk_get_path pa (Some p) n s =
           (if PATH_MAX \<le> length p \<or> MAX_PATH \<le> length p + 4 then (PNull None, s)
            else case wpdk_get_path pa (Some (''/tmp'' @ p)) n s of
                   (PArg, s2) \<Rightarrow> (PDangling (''/tmp'' @ p), s2) | r \<Rightarrow> r)"
proof -
  have "p \<noteq> []" using assms(2) by (auto simp: is_root_file_def)
  moreover obtain r t where "wpdk_get_path pa (Some (''/tmp'' @ p)) n s = (r, t)" by fastforce
  ultimately show ?thesis using assms
    by (cases r) (simp_all add: wpdk_get_path.simps [of pa "Some p" n s] strcpy_s_def strcat_s_def add.commute)
qed

text \<open>The path that a call gets to see, for an initialised table.\<close>

lemma get_path_suffix:
  assumes "map_init s" "plain_table (path_map s)" "pre @ x \<noteq> []"
    and "CHR ''/'' \<notin> set x" "CHR ''/'' \<notin> set y" "length x = length y"
  shows "(case wpdk_get_path pa (Some (pre @ x)) n s of
            (PArg, t) \<Rightarrow> t = s \<and> wpdk_get_path pa (Some (pre @ y)) n s = (PArg, s)
          | (PBuf b, t) \<Rightarrow> t = s \<and> wpdk_get_path pa (Some (pre @ y)) n s = (PBuf (take (length b - length y) b @ y), s)
          | (PNull b, t) \<Rightarrow> b = None \<or> b = Some []
          | _ \<Rightarrow> True)"
proof -
  have ne: "pre @ y \<noteq> []" using assms(3,6) by auto
  have plain: "wpdk_get_path pa (Some (z @ x)) n s = (if PATH_MAX \<le> length (z @ x) then (PNull None, s) else (lookup_mapping (z @ x) n (path_map s), s))"
    "wpdk_get_path pa (Some (z @ y)) n s = (if PATH_MAX \<le> length (z @ x) then (PNull None, s) else (replace_suffix y (lookup_mapping (z @ x) n (path_map s)), s))"
    if "\<not> is_root_file (z @ x)" "z @ x \<noteq> []" for z
    using that assms root_file_suffix [OF assms(4-6), of z] lookup_suffix [OF assms(2,4-6), of z n]
    by (auto simp: wpdk_get_path.simps [of pa "Some (z @ x)" n s] wpdk_get_path.simps [of pa "Some (z @ y)" n s])
  show ?thesis
  proof (cases "is_root_file (pre @ x)")
    case False
    show ?thesis using plain [OF False assms(3)] lookup_PNull [of "pre @ x" n "path_map s"]
      by (cases "lookup_mapping (pre @ x) n (path_map s)") (simp_all add: replace_suffix_def split: if_splits)
  next
    case True
    have r2: "\<not> is_root_file ((''/tmp'' @ pre) @ x)" using is_root_file_tmp [OF True] by simp
    have y: "is_root_file (pre @ y)" using True root_file_suffix [OF assms(4-6)] by simp
    let ?r = "lookup_mapping ((''/tmp'' @ pre) @ x) n (path_map s)"
    show ?thesis
      using plain [OF r2] lookup_PNull [of "(''/tmp'' @ pre) @ x" n "path_map s"] assms(6)
      unfolding get_path_root [OF assms(1) True] get_path_root [OF assms(1) y] append_assoc
      by (cases ?r) (simp_all add: replace_suffix_def split: if_splits)
  qed
qed

lemma copy_path_suffix:
  assumes "map_init s" "plain_table (path_map s)" "pre @ x \<noteq> []"
    and "CHR ''/'' \<notin> set x" "CHR ''/'' \<notin> set y" "length x = length y"
    and "wpdk_copy_path pa n (Some (pre @ x)) s = (CBuf (Some q), t)" "q \<noteq> []"
  shows "t = s \<and> wpdk_copy_path pa n (Some (pre @ y)) s = (CBuf (Some (take (length q - length y) q @ y)), s)"
proof -
  obtain r u where r: "wpdk_get_path pa (Some (pre @ x)) n s = (r, u)" by fastforce
  show ?thesis
    using get_path_suffix [OF assms(1-6), of pa n] assms(6-8) r
    by (cases r) (auto simp: wpdk_copy_path_def split: option.splits)
qed

text \<open>A lookup initialises the table at most, and depends on nothing else.\<close>

lemma get_path_plain:
  assumes "map_init s" "\<not> is_root_file p"
  shows "wpdk_get_path pa (Some p) n s =
     (if p = [] then PArg else if PATH_MAX \<le> length p then PNull None else lookup_mapping p n (path_map s), s)"
  using assms by (simp add: wpdk_get_path.simps [of pa "Some p" n s])

lemma get_path_same_table:
  assumes "map_init s" "map_init t" "path_map s = path_map t"
  shows "wpdk_get_path pa (Some p) n t = (fst (wpdk_get_path pa (Some p) n s), t)"
proof (cases "is_root_file p")
  case False
  then show ?thesis using assms by (simp add: get_path_plain)
next
  case True
  have r: "\<not> is_root_file (''/tmp'' @ p)" using True by (rule is_root_file_tmp)
  show ?thesis
    unfolding get_path_root [OF assms(1) True] get_path_root [OF assms(2) True]
      get_path_plain [OF assms(1) r] get_path_plain [OF assms(2) r] assms(3)
    by (cases "lookup_mapping (''/tmp'' @ p) n (path_map t)") simp_all
qed

lemma get_path_init:
  assumes "p \<noteq> []" "length p < PATH_MAX" "\<not> map_init s"
  shows "wpdk_get_path pa (Some p) n s = wpdk_get_path pa (Some p) n (wpdk_init_map pa s)"
  using assms by (simp add: wpdk_get_path.simps [of pa "Some p" n s] wpdk_get_path.simps [of pa "Some p" n "wpdk_init_map pa s"])

lemma copy_path_again:
  assumes "p \<noteq> []" "length p < PATH_MAX" "wpdk_copy_path pa n (Some p) s = (r, s1)"
    and "map_init t = map_init s1" "path_map t = path_map s1"
  shows "map_init s1 \<and> wpdk_copy_path pa n (Some p) t = (r, t)"
proof -
  define s0 where "s0 = (if map_init s then s else wpdk_init_map pa s)"
  have s0: "map_init s0" "wpdk_get_path pa (Some p) n s = wpdk_get_path pa (Some p) n s0"
    using get_path_init [OF assms(1,2), of s pa n] by (simp_all add: s0_def)
  obtain g where g: "wpdk_get_path pa (Some p) n s0 = (g, s0)"
    using get_path_same_table [OF s0(1) s0(1) refl, of pa p n] by blast
  have "s1 = s0" using assms(3) g s0(2) by (auto simp: wpdk_copy_path_def split: path_result.splits option.splits)
  then have "wpdk_get_path pa (Some p) n t = (g, t)"
    using get_path_same_table [OF s0(1), of t pa p n] assms(4,5) s0(1) g by simp
  then show ?thesis using assms(3) g s0 \<open>s1 = s0\<close>
    by (cases g) (auto simp: wpdk_copy_path_def split: option.splits)
qed

lemma mkstemp_loop_created:
  assumes "mktemp_contract mktemp" "template = pre @ ''XXXXXX''" "length template < PATH_MAX"
    and "mkstemp_loop pa fa mktemp template n s = (fd, t', s')" "fd \<noteq> - 1" "plain_table (path_map s')"
  shows "\<exists>suf path s2.
     length suf = 6 \<and> t' = pre @ suf \<and>
     crt_call (fa_open fa path temp_flags temp_mode) s2 = (fd, s') \<and>
     wpdk_copy_path pa PATH_MAX (Some t') s' = (CBuf (Some path), s')"
  using assms(4-6)
proof (induction n arbitrary: s)
  case 0
  then show ?case by simp
next
  case (Suc n)
  obtain cr s1 where c: "wpdk_copy_path pa PATH_MAX (Some template) s = (cr, s1)" by fastforce
  obtain q where q: "cr = CBuf (Some q)"
    using Suc.prems(1,2) c by (auto split: copy_result.splits option.splits)
  obtain pq s2 where m: "crt_call (mktemp q) s1 = (pq, s2)" by fastforce
  obtain path where path: "pq = Some path" using Suc.prems(1,2) c q m by (cases pq) auto
  obtain fd' s3 where o: "crt_call (fa_open fa path temp_flags temp_mode) s2 = (fd', s3)" by fastforce
  show ?case
  proof (cases "fd' = - 1")
    case True
    then have "mkstemp_loop pa fa mktemp template n s3 = (fd, t', s')"
      using Suc.prems(1,2) c q m path o by (simp split: if_splits)
    then show ?thesis using Suc.IH Suc.prems(2,3) by blast
  next
    case False
    then have r: "fd = fd'" "s' = s3" "t' = take (length template - 6) template @ drop (length path - 6) path"
      using Suc.prems(1,2) c q m path o by (auto split: if_splits)
    have "fst (fst (mktemp q (world s1))) = Some path" using m path by (auto simp: crt_call_def split: prod.splits)
    with assms(1) obtain suf where suf: "6 \<le> length q" "length suf = 6" "CHR ''/'' \<notin> set suf"
      "path = take (length q - 6) q @ suf" unfolding mktemp_contract_def by blast
    have t': "t' = pre @ suf" using r(3) suf assms(2) by simp
    have tab: "map_init s3 = map_init s1" "path_map s3 = path_map s1"
      using m o by (auto simp: crt_call_def split: prod.splits)
    have "template \<noteq> []" using assms(2) by simp
    from copy_path_again [OF this assms(3) c tab] q
    have again: "map_init s3" "wpdk_copy_path pa PATH_MAX (Some (pre @ ''XXXXXX'')) s3 = (CBuf (Some q), s3)"
      using tab assms(2) by simp_all
    have "wpdk_copy_path pa PATH_MAX (Some (pre @ suf)) s3 = (CBuf (Some (take (length q - length suf) q @ suf)), s3)"
      using copy_path_suffix [OF again(1) _ _ _ suf(3) _ again(2)] Suc.prems(3) r(2) suf by (cases q) auto
    then show ?thesis using o r suf t' by auto
  qed
qed

text \<open>
  C37. The name that \<^verbatim>\<open>mkstemp\<close> hands back is the name of its file: when it returns a descriptor, this
  descriptor comes from creating, exclusively, exactly the file to which the changed template is
  mapped, and the template has been changed in its last six characters only.
\<close>

theorem mkstemp_names_created_file:
  assumes "mktemp_contract mktemp" "wpdk_mkstemp pa fa mktemp (Some t) s = (fd, Some t', s')"
    and "fd \<noteq> - 1" "plain_table (path_map s')"
  shows "length t' = length t \<and> take (length t - 6) t' = take (length t - 6) t \<and>
         (\<exists>path s2. crt_call (fa_open fa path temp_flags temp_mode) s2 = (fd, s') \<and>
                    wpdk_copy_path pa PATH_MAX (Some t') s' = (CBuf (Some path), s'))"
proof -
  have t: "\<not> length t < 6" "length t < PATH_MAX" "drop (length t - 6) t = ''XXXXXX''"
    and loop: "mkstemp_loop pa fa mktemp t 26 s = (fd, t', s')"
    using assms(2,3) by (auto simp: wpdk_mkstemp_def split: if_splits prod.splits)
  have "t = take (length t - 6) t @ ''XXXXXX''" using t(3) append_take_drop_id by metis
  from mkstemp_loop_created [OF assms(1) this t(2) loop assms(3,4)] t(1) show ?thesis by auto
qed

definition demo_mktemp :: "string \<Rightarrow> (string option, demo_world) crt" where
  "demo_mktemp q w = (((if 6 \<le> length q then Some (take (length q - 6) q @ ''a01234'') else None), None), w)"

definition demo_temp_sys :: "demo_world epoll_sys" where
  "demo_temp_sys = demo_fd_sys\<lparr>map_init := True, path_map := [\<lparr>pm_dir = ''/var/tmp'', pm_dest = ''D:'', pm_len = 8\<rparr>]\<rparr>"

theorem mkstemp_names_created_file_witness:
  "\<exists>path. wpdk_copy_path demo_path_api PATH_MAX (Some ''/var/tmp/fa01234'') demo_temp_sys = (CBuf (Some path), demo_temp_sys)"
proof -
  have "mktemp_contract demo_mktemp" by (auto simp: mktemp_contract_def demo_mktemp_def)
  moreover have "wpdk_mkstemp demo_path_api demo_file_api demo_mktemp (Some ''/var/tmp/fXXXXXX'') demo_temp_sys
      = (3, Some ''/var/tmp/fa01234'', demo_temp_sys)"
  proof -
    have "wpdk_copy_path demo_path_api PATH_MAX (Some ''/var/tmp/fXXXXXX'') demo_temp_sys = (CBuf (Some ''D:/fXXXXXX''), demo_temp_sys)"
      by (simp add: wpdk_copy_path_def wpdk_get_path.simps demo_temp_sys_def is_root_file_def mapping_matches_def
          strncmp_eq_def char_at_def errno_simps strcpy_s_def strcat_s_def)
    then have "mkstemp_loop demo_path_api demo_file_api demo_mktemp ''/var/tmp/fXXXXXX'' (Suc 25) demo_temp_sys
        = (3, ''/var/tmp/fa01234'', demo_temp_sys)"
      unfolding mkstemp_loop.simps by (simp add: crt_call_def demo_mktemp_def demo_file_api_def PATH_MAX_def)
    then show ?thesis by (simp add: wpdk_mkstemp_def PATH_MAX_def)
  qed
  moreover have "plain_table (path_map demo_temp_sys)"
    by (simp add: plain_table_def demo_temp_sys_def cstring_def)
  ultimately show ?thesis using mkstemp_names_created_file by fastforce
qed

end
