(* ===== verification/Stdio.thy ===== *)
theory Stdio
  imports Descriptors
begin

text \<open>
  Reading records, \<^verbatim>\<open>wpdk_getdelim\<close> and \<^verbatim>\<open>wpdk_getline\<close> of \<^verbatim>\<open>src/stdio.c\<close>, and the string functions of
  \<^verbatim>\<open>src/string.c\<close> and \<^verbatim>\<open>src/strings.c\<close>.

  The buffer of the caller is the list of its bytes, and \<^verbatim>\<open>*n\<close> is what the caller says about its
  length. The loop reads until the delimiter comes or the stream ends, so it is a partial function;
  the theorem states that it returns the next record, in a buffer that is large enough for it.
\<close>

section \<open>Records\<close>

text \<open>
  \<^verbatim>\<open>realloc\<close> (\<open>None\<close> is NULL), \<^verbatim>\<open>getc\<close> and \<^verbatim>\<open>feof\<close>.
\<close>

record 'w stream_api =
  st_realloc :: "string option \<Rightarrow> int \<Rightarrow> 'w \<Rightarrow> string option \<times> 'w"
  st_getc :: "'w \<Rightarrow> int \<times> 'w"
  st_feof :: "'w \<Rightarrow> bool"

definition EOF :: int where [errno_simps]: "EOF = - 1"
definition BUFSIZ :: int where [errno_simps]: "BUFSIZ = 512"

text \<open>What a call leaves behind: its result, \<^verbatim>\<open>*lineptr\<close>, \<^verbatim>\<open>*n\<close> and the state.\<close>

type_synonym ('w, 'z) line_result = "int \<times> string option \<times> int \<times> ('w, 'z) sys_scheme"

text \<open>\<^verbatim>\<open>buf[i] = c\<close>; \<open>None\<close> is a store out of bounds.\<close>

definition store_char :: "string option \<Rightarrow> nat \<Rightarrow> char \<Rightarrow> string option" where
  "store_char buf i c = (case buf of None \<Rightarrow> None | Some b \<Rightarrow> if i < length b then Some (b[i := c]) else None)"

definition finish_line :: "string option \<Rightarrow> int \<Rightarrow> nat \<Rightarrow> ('w, 'z) sys_scheme \<Rightarrow> ('w, 'z) line_result" where
  "finish_line buf n len s =
     (case store_char buf len NUL of
        None \<Rightarrow> (int len, buf, n, set_fault s)
      | Some b \<Rightarrow> (int len, Some b, n, s))"

text \<open>
  The test at the start of the body: the buffer and its length, or \<open>None\<close> when \<^verbatim>\<open>realloc\<close> fails.
\<close>

definition grow ::
  "'w stream_api \<Rightarrow> string option \<Rightarrow> int \<Rightarrow> nat \<Rightarrow> ('w, 'z) sys_scheme
    \<Rightarrow> (string option \<times> int) option \<times> ('w, 'z) sys_scheme" where
  "grow api buf n len s =
     (if buf = None \<or> n \<le> int len + 2
      then
        (let newlen = (if buf \<noteq> None \<and> n \<noteq> 0 then to_uint64 (n * 2) else BUFSIZ);
             (b, s1) = os_call (st_realloc api buf newlen) s
         in (case b of None \<Rightarrow> None | Some x \<Rightarrow> Some (Some x, newlen), s1))
      else (Some (buf, n), s))"

partial_function (option) getdelim_loop ::
  "'w stream_api \<Rightarrow> int \<Rightarrow> string option \<Rightarrow> int \<Rightarrow> nat \<Rightarrow> int \<Rightarrow> ('w, 'z) sys_scheme
    \<Rightarrow> ('w, 'z) line_result option" where
  "getdelim_loop api delim buf n len ch s =
     (if ch = delim then Some (finish_line buf n len s)
      else
        (case grow api buf n len s of
           (None, s1) \<Rightarrow> Some (- 1, buf, n, s1)
         | (Some (b, n1), s1) \<Rightarrow>
             (case os_call (st_getc api) s1 of
                (c, s2) \<Rightarrow>
                  if c = EOF
                  then (if st_feof api (world s2) \<and> len \<noteq> 0 then Some (finish_line b n1 len s2)
                        else Some (- 1, b, n1, s2))
                  else
                    (case store_char b len (char_of c) of
                       None \<Rightarrow> Some (- 1, b, n1, set_fault s2)
                     | Some b' \<Rightarrow> getdelim_loop api delim (Some b') n1 (Suc len) c s2))))"

text \<open>\<open>None\<close> for the arguments \<open>lineptr\<close> and \<open>n\<close> is a NULL pointer.\<close>

definition wpdk_getdelim ::
  "'w stream_api \<Rightarrow> string option option \<Rightarrow> int option \<Rightarrow> int \<Rightarrow> bool \<Rightarrow> ('w, 'z) sys_scheme
    \<Rightarrow> ('w, 'z) line_result option" where
  "wpdk_getdelim api lineptr n delim stream s =
     (case (lineptr, n, stream) of
        (Some buf, Some m, True) \<Rightarrow> getdelim_loop api delim buf m 0 0 s
      | _ \<Rightarrow> Some (- 1, None, 0, set_errno EINVAL s))"

definition wpdk_getline ::
  "'w stream_api \<Rightarrow> string option option \<Rightarrow> int option \<Rightarrow> bool \<Rightarrow> ('w, 'z) sys_scheme
    \<Rightarrow> ('w, 'z) line_result option" where
  "wpdk_getline api lineptr n stream s = wpdk_getdelim api lineptr n 10 stream s"

text \<open>
  The stream has a finite rest of characters, and \<^verbatim>\<open>realloc\<close> keeps the contents and returns the
  size that was asked for.
\<close>

definition stream_contract :: "'w stream_api \<Rightarrow> ('w \<Rightarrow> string) \<Rightarrow> bool" where
  "stream_contract api inp \<longleftrightarrow>
     (\<forall>w. case inp w of
        [] \<Rightarrow> fst (st_getc api w) = EOF \<and> inp (snd (st_getc api w)) = [] \<and> st_feof api (snd (st_getc api w))
      | c # cs \<Rightarrow> fst (st_getc api w) = of_char c \<and> inp (snd (st_getc api w)) = cs) \<and>
     (\<forall>buf n w. 0 \<le> n \<longrightarrow> (\<exists>b. fst (st_realloc api buf n w) = Some b \<and> inp (snd (st_realloc api buf n w)) = inp w \<and>
        int (length b) = n \<and> (\<forall>old. buf = Some old \<longrightarrow> take (length old) b = take (nat n) old)))"

text \<open>The next record: everything up to the delimiter and the delimiter itself.\<close>

definition next_record :: "char \<Rightarrow> string \<Rightarrow> string" where
  "next_record d cs = takeWhile (\<lambda>c. c \<noteq> d) cs @ (if d \<in> set cs then [d] else [])"

lemma next_record_Cons: "next_record d (c # cs) = c # (if c = d then [] else next_record d cs)"
  by (simp add: next_record_def)

lemma next_record_Nil [simp]: "next_record d [] = []"
  by (simp add: next_record_def)

text \<open>The buffer is valid, holds what has been read, and can grow.\<close>

definition line_buffer :: "string option \<Rightarrow> int \<Rightarrow> string \<Rightarrow> bool" where
  "line_buffer buf n read \<longleftrightarrow>
     0 \<le> n \<and>
     (case buf of
        None \<Rightarrow> read = []
      | Some b \<Rightarrow> n \<le> int (length b) \<and> length read \<le> length b \<and> take (length read) b = read)"

lemma realloc_ok:
  assumes "stream_contract api inp" "0 \<le> n" "os_call (st_realloc api buf n) s = (r, s1)"
  shows "\<exists>b. r = Some b \<and> inp (world s1) = inp (world s) \<and> int (length b) = n \<and>
             (\<forall>old. buf = Some old \<longrightarrow> take (length old) b = take (nat n) old) \<and> fault s1 = fault s"
proof -
  have "\<exists>b. fst (st_realloc api buf n (world s)) = Some b \<and> inp (snd (st_realloc api buf n (world s))) = inp (world s) \<and>
        int (length b) = n \<and> (\<forall>old. buf = Some old \<longrightarrow> take (length old) b = take (nat n) old)"
    using assms(1,2) unfolding stream_contract_def by simp
  then show ?thesis using assms(3) by (auto simp: os_call_eq)
qed

lemma getc_ok:
  assumes "stream_contract api inp" "os_call (st_getc api) s = (c, s1)"
  shows "fault s1 = fault s"
    and "inp (world s) = [] \<Longrightarrow> c = EOF \<and> inp (world s1) = [] \<and> st_feof api (world s1)"
    and "inp (world s) = x # xs \<Longrightarrow> c = of_char x \<and> inp (world s1) = xs"
proof -
  have c: "case inp (world s) of
        [] \<Rightarrow> fst (st_getc api (world s)) = EOF \<and> inp (snd (st_getc api (world s))) = [] \<and> st_feof api (snd (st_getc api (world s)))
      | c # cs \<Rightarrow> fst (st_getc api (world s)) = of_char c \<and> inp (snd (st_getc api (world s))) = cs"
    using assms(1) unfolding stream_contract_def by simp
  have s1: "s1 = s\<lparr>world := snd (st_getc api (world s))\<rparr>" "c = fst (st_getc api (world s))"
    using assms(2) by (auto simp: os_call_eq)
  show "fault s1 = fault s" using s1 by simp
  show "inp (world s) = [] \<Longrightarrow> c = EOF \<and> inp (world s1) = [] \<and> st_feof api (world s1)"
    "inp (world s) = x # xs \<Longrightarrow> c = of_char x \<and> inp (world s1) = xs"
    using c s1 by simp_all
qed

text \<open>After the test there is room for one more character and the terminator.\<close>

lemma grow_ok:
  assumes "stream_contract api inp" "line_buffer buf n read" "read = [] \<or> int (length read) < n"
    and "int (length read) + 2 < 2 ^ 62" "grow api buf n (length read) s = (r, s1)"
  shows "\<exists>b n1. r = Some (Some b, n1) \<and> int (length read) + 1 < n1 \<and> n1 \<le> int (length b) \<and>
           take (length read) b = read \<and> inp (world s1) = inp (world s) \<and> fault s1 = fault s"
proof (cases "buf = None \<or> n \<le> int (length read) + 2")
  case False
  then obtain b where "buf = Some b" "\<not> n \<le> int (length read) + 2" by (cases buf) auto
  then show ?thesis using assms(2,5) by (auto simp: grow_def line_buffer_def)
next
  case True
  define m where "m = (if buf \<noteq> None \<and> n \<noteq> 0 then to_uint64 (n * 2) else BUFSIZ)"
  obtain x s2 where x: "os_call (st_realloc api buf m) s = (x, s2)" by fastforce
  have "0 \<le> m" by (simp add: m_def to_uint64_def BUFSIZ_def)
  from realloc_ok [OF assms(1) this x] obtain b where b: "x = Some b" "inp (world s2) = inp (world s)" "int (length b) = m"
    "\<forall>old. buf = Some old \<longrightarrow> take (length old) b = take (nat m) old" "fault s2 = fault s" by blast
  have g: "r = Some (Some b, m)" "s1 = s2" using assms(5) True x b(1) by (auto simp: grow_def m_def Let_def)
  have m: "int (length read) + 1 < m"
  proof (cases "buf \<noteq> None \<and> n \<noteq> 0")
    case True2: True
    then have "m = n * 2" using assms(2,4) True
      by (auto simp: m_def to_uint64_def line_buffer_def)
    moreover have "0 < n" using True2 assms(2) by (auto simp: line_buffer_def)
    ultimately show ?thesis using assms(3) by auto
  next
    case False
    then have "m = BUFSIZ" "read = []" using assms(2,3) by (auto simp: m_def line_buffer_def split: option.splits)
    then show ?thesis by (simp add: BUFSIZ_def)
  qed
  have "take (length read) b = read"
  proof (cases buf)
    case None
    then show ?thesis using assms(2) by (simp add: line_buffer_def)
  next
    case (Some old)
    then have old: "take (length read) old = read" "length read \<le> length old"
      "take (length old) b = take (nat m) old" using assms(2) b(4) by (auto simp: line_buffer_def)
    have "take (length read) b = take (length read) (take (length old) b)" using old(2) by (simp add: min_def)
    also have "\<dots> = take (length read) old"
    proof -
      have "length read \<le> nat m" using m by linarith
      then show ?thesis using old(3) by (simp add: min_def)
    qed
    finally show ?thesis using old(1) by simp
  qed
  then show ?thesis using g m b by auto
qed

lemma finish_line_ok:
  assumes "len < length b" "take len b = read" "length read = len"
  shows "\<exists>b'. finish_line (Some b) n len s = (int len, Some b', n, s) \<and> length b' = length b \<and>
           take (Suc len) b' = read @ [NUL]"
  using assms by (auto simp: finish_line_def store_char_def take_Suc_conv_app_nth)

lemma getdelim_loop_record:
  assumes "stream_contract api inp" "of_char d \<noteq> (ch :: int)"
    and "line_buffer buf n read" "read = [] \<or> int (length read) < n"
    and "int (length read + length (inp (world s))) + 2 < 2 ^ 62" "read \<noteq> [] \<or> inp (world s) \<noteq> []"
  shows "\<exists>b n' s'. getdelim_loop api (of_char d) buf n (length read) ch s =
             Some (int (length (read @ next_record d (inp (world s)))), Some b, n', s') \<and>
           take (Suc (length (read @ next_record d (inp (world s))))) b = read @ next_record d (inp (world s)) @ [NUL] \<and>
           n' \<le> int (length b) \<and> int (length (read @ next_record d (inp (world s)))) < n' \<and>
           inp (world s') = drop (length (next_record d (inp (world s)))) (inp (world s)) \<and> fault s' = fault s"
  using assms(2-)
proof (induction "inp (world s)" arbitrary: ch buf n read s)
  case Nil
  obtain r s1 where g: "grow api buf n (length read) s = (r, s1)" by fastforce
  from grow_ok [OF assms(1) Nil.prems(2,3) _ g] Nil.prems(4) Nil.hyps obtain b n1 where
    b: "r = Some (Some b, n1)" "int (length read) + 1 < n1" "n1 \<le> int (length b)" "take (length read) b = read"
    "inp (world s1) = inp (world s)" "fault s1 = fault s" by auto
  obtain c s2 where c: "os_call (st_getc api) s1 = (c, s2)" by fastforce
  have e: "c = EOF" "inp (world s2) = []" "st_feof api (world s2)" "fault s2 = fault s"
    using getc_ok(1,2) [OF assms(1) c] b(5,6) Nil.hyps by auto
  have "read \<noteq> []" using Nil.prems(5) Nil.hyps by simp
  then have "getdelim_loop api (of_char d) buf n (length read) ch s = Some (finish_line (Some b) n1 (length read) s2)"
    using Nil.prems(1) g b(1) c e by (simp add: getdelim_loop.simps [of api "of_char d" buf n])
  moreover from finish_line_ok [OF _ b(4) refl, of n1 s2] b(2,3) obtain b' where
    "finish_line (Some b) n1 (length read) s2 = (int (length read), Some b', n1, s2)" "length b' = length b"
    "take (Suc (length read)) b' = read @ [NUL]" by auto
  ultimately show ?case using e b(2,3) Nil.hyps [symmetric] by auto
next
  case (Cons x xs)
  obtain r s1 where g: "grow api buf n (length read) s = (r, s1)" by fastforce
  from grow_ok [OF assms(1) Cons.prems(2,3) _ g] Cons.prems(4) obtain b n1 where
    b: "r = Some (Some b, n1)" "int (length read) + 1 < n1" "n1 \<le> int (length b)" "take (length read) b = read"
    "inp (world s1) = inp (world s)" "fault s1 = fault s" by auto
  obtain c s2 where c: "os_call (st_getc api) s1 = (c, s2)" by fastforce
  have e: "c = of_char x" "inp (world s2) = xs" "fault s2 = fault s"
    using getc_ok(1) [OF assms(1) c] getc_ok(3) [OF assms(1) c, of x xs] b(5,6) Cons.hyps(2) [symmetric]
    by simp_all
  define b1 where "b1 = b[length read := x]"
  have b1: "length b1 = length b" "take (Suc (length read)) b1 = read @ [x]"
    using b(2-4) by (auto simp: b1_def take_Suc_conv_app_nth)
  have "c \<noteq> EOF" "char_of c = x" using e(1) of_char_nonneg [of x] by (auto simp: EOF_def)
  then have step: "getdelim_loop api (of_char d) buf n (length read) ch s =
      getdelim_loop api (of_char d) (Some b1) n1 (length (read @ [x])) c s2"
    using Cons.prems(1) g b(1-3) c by (simp add: getdelim_loop.simps [of api "of_char d" buf n] store_char_def b1_def)
  show ?case
  proof (cases "x = d")
    case True
    then have "getdelim_loop api (of_char d) buf n (length read) ch s = Some (finish_line (Some b1) n1 (length (read @ [x])) s2)"
      using step e(1) by (simp add: getdelim_loop.simps [of api "of_char d" "Some b1"])
    moreover from finish_line_ok [of "length (read @ [x])" b1 "read @ [x]" n1 s2] b1 b(2,3) obtain b' where
      "finish_line (Some b1) n1 (length (read @ [x])) s2 = (int (length (read @ [x])), Some b', n1, s2)"
      "length b' = length b" "take (Suc (length (read @ [x]))) b' = read @ [x] @ [NUL]" by auto
    ultimately show ?thesis using e b(2,3) Cons.hyps(2) [symmetric] True by (auto simp: next_record_Cons)
  next
    case False
    have len: "length (inp (world s)) = Suc (length (inp (world s2)))" using Cons.hyps(2) [symmetric] e(2) by simp
    have "line_buffer (Some b1) n1 (read @ [x])" using b1 b(2,3) by (auto simp: line_buffer_def)
    moreover have "of_char d \<noteq> c" using False e(1) by simp
    ultimately have "\<exists>b n' s'. getdelim_loop api (of_char d) (Some b1) n1 (length (read @ [x])) c s2 =
             Some (int (length ((read @ [x]) @ next_record d (inp (world s2)))), Some b, n', s') \<and>
           take (Suc (length ((read @ [x]) @ next_record d (inp (world s2))))) b = (read @ [x]) @ next_record d (inp (world s2)) @ [NUL] \<and>
           n' \<le> int (length b) \<and> int (length ((read @ [x]) @ next_record d (inp (world s2)))) < n' \<and>
           inp (world s') = drop (length (next_record d (inp (world s2)))) (inp (world s2)) \<and> fault s' = fault s2"
      using b(2) Cons.prems(4) e len by (intro Cons.hyps(1)) auto
    then show ?thesis using step e Cons.hyps(2) [symmetric] False by (auto simp: next_record_Cons)
  qed
qed

text \<open>
  C16. Reading a record returns the next record: for any delimiter but NUL, any valid buffer of the
  caller and a stream that is not at its end, \<^verbatim>\<open>getdelim\<close> returns, and it returns the length of the
  next record, consumes exactly its characters, and leaves them with a terminator at the start of a
  buffer that is larger than the record and at least as long as it reports. It makes no access
  outside of the buffer.
\<close>

theorem getdelim_returns_record:
  assumes "stream_contract api inp" "d \<noteq> NUL" "line_buffer buf n []" "int (length (inp (world s))) + 2 < 2 ^ 62"
  defines "line \<equiv> next_record d (inp (world s))"
  shows "if inp (world s) = [] then (\<exists>buf' n' s'. wpdk_getdelim api (Some buf) (Some n) (of_char d) True s = Some (- 1, buf', n', s') \<and> fault s' = fault s)
         else (\<exists>b n' s'. wpdk_getdelim api (Some buf) (Some n) (of_char d) True s = Some (int (length line), Some b, n', s') \<and>
                 take (Suc (length line)) b = line @ [NUL] \<and> int (length line) < n' \<and> n' \<le> int (length b) \<and>
                 inp (world s') = drop (length line) (inp (world s)) \<and> fault s' = fault s)"
proof (cases "inp (world s) = []")
  case False
  have "(of_char d :: int) \<noteq> 0" using assms(2) of_char_eq_iff [of d NUL, where ?'a = int] by auto
  then show ?thesis
    using getdelim_loop_record [OF assms(1), of d 0 buf n "[]" s] assms(3,4) False
    by (auto simp: wpdk_getdelim_def line_def)
next
  case True
  have d: "(of_char d :: int) \<noteq> 0" using assms(2) of_char_eq_iff [of d NUL, where ?'a = int] by auto
  obtain r s1 where g: "grow api buf n 0 s = (r, s1)" by fastforce
  from grow_ok [OF assms(1,3) _ _ , of s r s1] g obtain b n1 where
    b: "r = Some (Some b, n1)" "inp (world s1) = inp (world s)" "fault s1 = fault s" by auto
  obtain c s2 where c: "os_call (st_getc api) s1 = (c, s2)" by fastforce
  have "c = EOF" "fault s2 = fault s" using getc_ok(1,2) [OF assms(1) c] b True by auto
  then show ?thesis using True d g b(1) c
    by (simp add: wpdk_getdelim_def getdelim_loop.simps [of api "of_char d" buf n])
qed

definition demo_stream_api :: "string stream_api" where
  "demo_stream_api =
     \<lparr>st_realloc = (\<lambda>buf n w. (Some (case buf of None \<Rightarrow> replicate (nat n) NUL
                                      | Some b \<Rightarrow> take (nat n) b @ replicate (nat n - length b) NUL), w)),
      st_getc = (\<lambda>w. case w of [] \<Rightarrow> (EOF, []) | c # cs \<Rightarrow> (of_char c, cs)), st_feof = (\<lambda>w. w = [])\<rparr>"

theorem getdelim_returns_record_witness:
  "\<exists>b n' s'. wpdk_getdelim demo_stream_api (Some None) (Some 0) (of_char (CHR '';'')) True
      \<lparr>errno = 0, fault = False, world = ''ab;c''\<rparr> = Some (3, Some b, n', s') \<and> take 4 b = ''ab;'' @ [NUL] \<and> world s' = ''c''"
proof -
  have "stream_contract demo_stream_api (\<lambda>w. w)"
    by (auto simp: stream_contract_def demo_stream_api_def min_def split: list.splits option.splits)
  moreover have "next_record (CHR '';'') ''ab;c'' = ''ab;''" by (simp add: next_record_def)
  moreover have "line_buffer None 0 []" by (simp add: line_buffer_def)
  ultimately show ?thesis
    using getdelim_returns_record [of demo_stream_api "\<lambda>w. w" "CHR '';''" None 0 "\<lparr>errno = 0, fault = False, world = ''ab;c''\<rparr>"]
    by (simp add: eval_nat_numeral) blast
qed

text \<open>
  A delimiter of \<open>0\<close> is taken for the first character: nothing is read, and without a buffer the
  terminator is stored through a NULL pointer.
\<close>

lemma getdelim_nul:
  "wpdk_getdelim api (Some None) (Some n) 0 True s = Some (0, None, n, set_fault s)"
  by (simp add: wpdk_getdelim_def getdelim_loop.simps finish_line_def store_char_def)

section \<open>Strings\<close>

text \<open>
  \<^verbatim>\<open>_strnicmp\<close> and \<^verbatim>\<open>_stricmp\<close> compare without regard to case, as numbers, up to the terminator; the
  result is the difference of the first two characters that differ.
\<close>

fun c_strnicmp :: "nat \<Rightarrow> string \<Rightarrow> string \<Rightarrow> int" where
  "c_strnicmp 0 a b = 0"
| "c_strnicmp (Suc n) [] [] = 0"
| "c_strnicmp (Suc n) (x # a) [] = of_char (c_tolower x)"
| "c_strnicmp (Suc n) [] (y # b) = - of_char (c_tolower y)"
| "c_strnicmp (Suc n) (x # a) (y # b) =
     (if c_tolower x = c_tolower y then c_strnicmp n a b
      else of_char (c_tolower x) - of_char (c_tolower y))"

definition c_stricmp :: "string \<Rightarrow> string \<Rightarrow> int" where
  "c_stricmp a b = c_strnicmp (Suc (max (length a) (length b))) a b"

definition wpdk_strcasecmp :: "string option \<Rightarrow> string option \<Rightarrow> ('w, 'z) sys_scheme \<Rightarrow> int \<times> ('w, 'z) sys_scheme" where
  "wpdk_strcasecmp s1 s2 s =
     (case (s1, s2) of (Some a, Some b) \<Rightarrow> (c_stricmp a b, s) | _ \<Rightarrow> wpdk_posix_error EINVAL s)"

definition wpdk_strncasecmp ::
  "string option \<Rightarrow> string option \<Rightarrow> nat \<Rightarrow> ('w, 'z) sys_scheme \<Rightarrow> int \<times> ('w, 'z) sys_scheme" where
  "wpdk_strncasecmp s1 s2 n s =
     (case (s1, s2) of (Some a, Some b) \<Rightarrow> (c_strnicmp n a b, s) | _ \<Rightarrow> wpdk_posix_error EINVAL s)"

text \<open>The position in the haystack, or \<open>None\<close> for NULL.\<close>

fun strcasestr_loop :: "string \<Rightarrow> nat \<Rightarrow> string \<Rightarrow> nat option" where
  "strcasestr_loop needle i [] = None"
| "strcasestr_loop needle i (c # cp) =
     (if c_strnicmp (length needle) (c # cp) needle = 0 then Some i else strcasestr_loop needle (Suc i) cp)"

definition wpdk_strcasestr :: "string option \<Rightarrow> string option \<Rightarrow> nat option" where
  "wpdk_strcasestr haystack needle =
     (case (haystack, needle) of (Some h, Some n) \<Rightarrow> strcasestr_loop n 0 h | _ \<Rightarrow> None)"

text \<open>\<^verbatim>\<open>strncpy(buf, src, n)\<close>: the \<open>n\<close> bytes of the buffer.\<close>

definition c_strncpy :: "nat \<Rightarrow> string \<Rightarrow> string" where
  "c_strncpy n src = take n (src @ replicate n NUL)"

text \<open>The messages that the library adds; \<open>strerror\<close> is \<^verbatim>\<open>strerror_s\<close>.\<close>

definition wpdk_messages :: "(int \<times> string) list" where
  "wpdk_messages =
     [(ESHUTDOWN, ''The socket has been shut down''), (ETOOMANYREFS, ''Too many references to kernel object''),
      (EHOSTDOWN, ''Host is down''), (EUSERS, ''Too many users''), (EDQUOT, ''Disk quota exceeded''),
      (ESTALE, ''Stale file handle''), (EREMOTE, ''Item is not available locally''),
      (EPROCLIM, ''Too many processes'')]"

text \<open>The result, the bytes written to the buffer, if any, and the state.\<close>

definition wpdk_strerror_r ::
  "(nat \<Rightarrow> int \<Rightarrow> int \<times> string) \<Rightarrow> int \<Rightarrow> bool \<Rightarrow> nat \<Rightarrow> ('w, 'z) sys_scheme
    \<Rightarrow> int \<times> string option \<times> ('w, 'z) sys_scheme" where
  "wpdk_strerror_r strerror errnum buf buflen s =
     (if \<not> buf then (EINVAL, None, set_errno EINVAL s)
      else (case map_of wpdk_messages errnum of
              Some m \<Rightarrow> (0, Some (c_strncpy buflen m), s)
            | None \<Rightarrow> (let (rc, m) = strerror buflen errnum in (rc, Some m, s))))"

definition wpdk_strerror_r_gnu ::
  "(nat \<Rightarrow> int \<Rightarrow> int \<times> string) \<Rightarrow> int \<Rightarrow> bool \<Rightarrow> nat \<Rightarrow> ('w, 'z) sys_scheme
    \<Rightarrow> string option \<times> ('w, 'z) sys_scheme" where
  "wpdk_strerror_r_gnu strerror errnum buf buflen s =
     (let (rc, m, s1) = wpdk_strerror_r strerror errnum buf buflen s in (if rc \<noteq> 0 then None else m, s1))"

text \<open>Two strings compare equal for a count exactly when they agree up to case.\<close>

lemma strnicmp_prefix:
  assumes "cstring a" "cstring b"
  shows "c_strnicmp (length b) a b = 0 \<longleftrightarrow> map c_tolower (take (length b) a) = map c_tolower b"
  using assms
proof (induction b arbitrary: a)
  case (Cons y b)
  have ne: "(of_char (c_tolower z) :: int) \<noteq> 0" if "z \<noteq> NUL" for z
    using that tolower_NUL [of z] of_char_eq_iff [of "c_tolower z" NUL, where ?'a = int] by auto
  show ?case
  proof (cases a)
    case Nil
    then show ?thesis using Cons.prems(2) ne [of y] by (auto simp: cstring_def)
  next
    case (Cons x xs)
    then show ?thesis using Cons.IH [of xs] Cons.prems by (auto simp: cstring_def)
  qed
qed simp

definition starts_with_nocase :: "string \<Rightarrow> string \<Rightarrow> bool" where
  "starts_with_nocase needle h \<longleftrightarrow> map c_tolower (take (length needle) h) = map c_tolower needle"

lemma strcasestr_loop_Some:
  assumes "strcasestr_loop needle i h = Some k" "cstring h" "cstring needle"
  shows "\<exists>m<length h. k = i + m \<and> starts_with_nocase needle (drop m h) \<and>
           (\<forall>j<m. \<not> starts_with_nocase needle (drop j h))"
  using assms(1,2)
proof (induction h arbitrary: i)
  case (Cons c h)
  note p = strnicmp_prefix [OF Cons.prems(2) assms(3), folded starts_with_nocase_def]
  show ?case
  proof (cases "starts_with_nocase needle (c # h)")
    case True
    then show ?thesis using p Cons.prems(1) by (intro exI [of _ 0]) simp
  next
    case False
    with Cons.IH [of "Suc i"] Cons.prems p obtain m where
      "m < length h" "k = Suc i + m" "starts_with_nocase needle (drop m h)"
      "\<forall>j<m. \<not> starts_with_nocase needle (drop j h)" by (auto simp: cstring_def)
    then show ?thesis using False by (intro exI [of _ "Suc m"]) (auto simp: less_Suc_eq_0_disj)
  qed
qed simp

lemma strcasestr_loop_None:
  assumes "strcasestr_loop needle i h = None" "cstring h" "cstring needle" "m < length h"
  shows "\<not> starts_with_nocase needle (drop m h)"
  using assms(1,2,4)
proof (induction h arbitrary: i m)
  case (Cons c h)
  note p = strnicmp_prefix [OF Cons.prems(2) assms(3), folded starts_with_nocase_def]
  then have "\<not> starts_with_nocase needle (c # h)" "strcasestr_loop needle (Suc i) h = None"
    using Cons.prems(1) by (auto split: if_splits)
  then show ?case using Cons.IH [of "Suc i" "m - 1"] Cons.prems by (cases m) (auto simp: cstring_def)
qed simp

text \<open>
  The search finds the first occurrence that starts before the end of the haystack; the empty
  string is not found in an empty haystack.
\<close>

lemma strcasestr_first:
  assumes "cstring h" "cstring needle"
  shows "case wpdk_strcasestr (Some h) (Some needle) of
           Some k \<Rightarrow> k < length h \<and> starts_with_nocase needle (drop k h) \<and>
                     (\<forall>j<k. \<not> starts_with_nocase needle (drop j h))
         | None \<Rightarrow> (\<forall>k<length h. \<not> starts_with_nocase needle (drop k h))"
  using strcasestr_loop_Some [of needle 0 h] strcasestr_loop_None [of needle 0 h] assms
  by (auto simp: wpdk_strcasestr_def split: option.splits)

lemma strcasestr_empty: "wpdk_strcasestr (Some []) (Some []) = None"
  by (simp add: wpdk_strcasestr_def)

text \<open>A message that does not fit is stored without a terminator.\<close>

lemma strerror_unterminated:
  "wpdk_strerror_r strerror EHOSTDOWN True 4 s = (0, Some ''Host'', s)"
  by (simp add: wpdk_strerror_r_def wpdk_messages_def errno_simps c_strncpy_def)

end
