(* ===== verification/Mman.thy ===== *)
theory Mman
  imports Descriptors
begin

text \<open>
  Memory mappings, \<^verbatim>\<open>wpdk_mmap\<close>, \<^verbatim>\<open>wpdk_munmap\<close> and \<^verbatim>\<open>wpdk_mprotect\<close> of \<^verbatim>\<open>src/mman.c\<close>.

  Windows maps views that start at a multiple of the allocation granularity, in the file and in
  memory. The theorem states that the mapping shows exactly the requested part of the file at the
  returned address, and that unmapping this address removes the view.
\<close>

section \<open>The operations\<close>

text \<open>
  The allocation granularity of \<^verbatim>\<open>GetSystemInfo\<close>, \<^verbatim>\<open>_get_osfhandle\<close>, \<^verbatim>\<open>CreateFileMapping\<close> (high and low
  part of the size), \<^verbatim>\<open>MapViewOfFile\<close> (high and low part of the offset, size; \<open>0\<close> is NULL),
  \<^verbatim>\<open>CloseHandle\<close>, \<^verbatim>\<open>UnmapViewOfFile\<close> and \<^verbatim>\<open>GetLastError\<close>.
\<close>

record 'w map_api =
  mm_granularity :: "'w \<Rightarrow> int"
  mm_osfhandle :: "int \<Rightarrow> (nat option, 'w) crt"
  mm_create_mapping :: "nat \<Rightarrow> int \<Rightarrow> int \<Rightarrow> 'w \<Rightarrow> nat option \<times> 'w"
  mm_map_view :: "nat \<Rightarrow> int \<Rightarrow> int \<Rightarrow> int \<Rightarrow> 'w \<Rightarrow> ptr \<times> 'w"
  mm_close_handle :: "nat \<Rightarrow> 'w \<Rightarrow> 'w"
  mm_unmap_view :: "ptr \<Rightarrow> 'w \<Rightarrow> bool \<times> 'w"
  mm_last_error :: "'w \<Rightarrow> win_error"

text \<open>The parts of a \<^verbatim>\<open>LARGE_INTEGER\<close>; the high part is signed.\<close>

definition HighPart :: "int \<Rightarrow> int" where "HighPart q = q div 2 ^ 32"
definition LowPart :: "int \<Rightarrow> int" where "LowPart q = q mod 2 ^ 32"

text \<open>The address, or \<open>None\<close> for \<^verbatim>\<open>MAP_FAILED\<close>. The offset is signed and the length unsigned, 64 bits each.\<close>

definition wpdk_mmap ::
  "'w map_api \<Rightarrow> ptr \<Rightarrow> int \<Rightarrow> int \<Rightarrow> int \<Rightarrow> int \<Rightarrow> int \<Rightarrow> ('w, 'z) sys_scheme
    \<Rightarrow> int option \<times> ('w, 'z) sys_scheme" where
  "wpdk_mmap api addr len prot flags fildes off s =
     (if addr \<noteq> 0 then (None, set_errno EINVAL s)
      else
        (case crt_call (mm_osfhandle api fildes) s of
           (None, s1) \<Rightarrow> (None, set_errno EBADF s1)
         | (Some h, s1) \<Rightarrow>
             (let granularity = mm_granularity api (world s1);
                  start = c_div off granularity * granularity;
                  stop = to_int64 (off + len);
                  view = to_int64 (stop - start)
              in if HighPart view \<noteq> 0 then (None, set_errno EINVAL s1)
                 else
                   (case os_call (mm_create_mapping api h (HighPart stop) (LowPart stop)) s1 of
                      (None, s2) \<Rightarrow> (None, snd (wpdk_windows_error (mm_last_error api (world s2)) s2))
                    | (Some m, s2) \<Rightarrow>
                        (case os_call (mm_map_view api m (HighPart start) (LowPart start) (LowPart view)) s2 of
                           (p, s3) \<Rightarrow>
                             let rc = mm_last_error api (world s3);
                                 s4 = s3\<lparr>world := mm_close_handle api m (world s3)\<rparr>
                             in if p = 0 then (None, snd (wpdk_windows_error rc s4))
                                else (Some (int p + (off - start)), s4))))))"

definition wpdk_munmap ::
  "'w map_api \<Rightarrow> int \<Rightarrow> int \<Rightarrow> ('w, 'z) sys_scheme \<Rightarrow> int \<times> ('w, 'z) sys_scheme" where
  "wpdk_munmap api addr len s =
     (let granularity = mm_granularity api (world s);
          (ok, s1) = os_call (mm_unmap_view api (nat (addr div granularity * granularity))) s
      in if \<not> ok then wpdk_last_error (mm_last_error api) s1 else (0, s1))"

definition wpdk_mprotect :: "int \<Rightarrow> int \<Rightarrow> int \<Rightarrow> ('w, 'z) sys_scheme \<Rightarrow> int \<times> ('w, 'z) sys_scheme" where
  "wpdk_mprotect addr len prot s = (0, s)"

section \<open>Views\<close>

text \<open>
  The views of the process: the address of each view with the offset in the file and the size.
  A view starts at a multiple of the granularity and is new; the offset must be one, too. Only the
  address of a view can be unmapped.
\<close>

type_synonym views = "ptr \<Rightarrow> (int \<times> int) option"

definition creates_view :: "'w map_api \<Rightarrow> ('w \<Rightarrow> views) \<Rightarrow> int \<Rightarrow> nat \<Rightarrow> int \<Rightarrow> int \<Rightarrow> int \<Rightarrow> 'w \<Rightarrow> bool" where
  "creates_view api views g m hi lo n w \<longleftrightarrow>
     (case mm_map_view api m hi lo n w of
        (p, w') \<Rightarrow>
          if p = 0 then views w' = views w
          else (hi * 2 ^ 32 + lo) mod g = 0 \<and> int p mod g = 0 \<and> views w p = None \<and>
               views w' = (views w)(p \<mapsto> (hi * 2 ^ 32 + lo, n)))"

definition map_contract :: "'w map_api \<Rightarrow> ('w \<Rightarrow> views) \<Rightarrow> int \<Rightarrow> bool" where
  "map_contract api views g \<longleftrightarrow>
     (\<forall>w. mm_granularity api w = g) \<and>
     (\<forall>fd w. views (snd (mm_osfhandle api fd w)) = views w) \<and>
     (\<forall>h hi lo w. views (snd (mm_create_mapping api h hi lo w)) = views w) \<and>
     (\<forall>m hi lo n w. creates_view api views g m hi lo n w) \<and>
     (\<forall>m w. views (mm_close_handle api m w) = views w) \<and>
     (\<forall>p w. case views w p of
        None \<Rightarrow> \<not> fst (mm_unmap_view api p w)
      | Some _ \<Rightarrow> fst (mm_unmap_view api p w) \<and> views (snd (mm_unmap_view api p w)) = (views w)(p := None))"

lemma map_view_ok:
  assumes "map_contract api views g" "os_call (mm_map_view api m hi lo n) s = (p, s1)" "p \<noteq> 0"
  shows "int p mod g = 0" "views (world s) p = None" "views (world s1) = (views (world s))(p \<mapsto> (hi * 2 ^ 32 + lo, n))"
proof -
  have "creates_view api views g m hi lo n (world s)" using assms(1) by (simp add: map_contract_def)
  then show "int p mod g = 0" "views (world s) p = None" "views (world s1) = (views (world s))(p \<mapsto> (hi * 2 ^ 32 + lo, n))"
    using assms(2,3) by (auto simp: creates_view_def os_call_def split: prod.splits)
qed

lemma HighLow: "HighPart q * 2 ^ 32 + LowPart q = q"
  by (simp add: HighPart_def LowPart_def)

lemma floor_multiple:
  fixes off g :: int
  assumes "0 < g" "0 \<le> off"
  shows "0 \<le> off div g * g" "off div g * g \<le> off" "off - off div g * g < g"
proof -
  have "off div g * g = off - off mod g" by (simp add: minus_mod_eq_div_mult)
  then show "off div g * g \<le> off" "off - off div g * g < g"
    using pos_mod_bound [OF assms(1), of off] pos_mod_sign [OF assms(1), of off] by simp_all
  show "0 \<le> off div g * g" using assms by (simp add: pos_imp_zdiv_nonneg_iff)
qed

text \<open>The calls of a successful mapping.\<close>

lemma mmap_view:
  fixes s :: "('w, 'z) sys_scheme"
  assumes "map_contract api views g" "0 < g" "0 \<le> off" "0 < len" "off + len < 2 ^ 63"
    and "wpdk_mmap api 0 len prot flags fd off s = (Some a, s')"
  shows "\<exists>p m (s2 :: ('w, 'z) sys_scheme) s3. os_call (mm_map_view api m (HighPart (off div g * g)) (LowPart (off div g * g)) (off + len - off div g * g)) s2 = (p, s3) \<and>
           p \<noteq> 0 \<and> views (world s2) = views (world s) \<and> views (world s') = views (world s3) \<and>
           a = int p + (off - off div g * g)"
proof -
  let ?start = "off div g * g"
  obtain hd s1 where h: "crt_call (mm_osfhandle api fd) s = (hd, s1)" by fastforce
  then obtain hh where hh: "hd = Some hh" using assms(6) by (cases hd) (auto simp: wpdk_mmap_def)
  have gr: "mm_granularity api (world s1) = g" using assms(1) by (simp add: map_contract_def)
  have v1: "views (world s1) = views (world s)"
    using assms(1) h by (auto simp: map_contract_def crt_call_def split: prod.splits) (metis snd_conv)
  have start: "c_div off g * g = ?start" "0 \<le> ?start" "?start \<le> off"
    using assms(2,3) floor_multiple [of g off] by (simp_all add: c_div_nonneg)
  have wrap: "to_int64 (off + len) = off + len" "to_int64 (off + len - ?start) = off + len - ?start"
    using assms(3-5) start by (auto intro!: to_int64_id)
  define n where "n = off + len - ?start"
  have n: "0 \<le> n" using assms(4) start by (simp add: n_def)
  have eq: "wpdk_mmap api 0 len prot flags fd off s =
      (if HighPart n \<noteq> 0 then (None, set_errno EINVAL s1)
       else
         (case os_call (mm_create_mapping api hh (HighPart (off + len)) (LowPart (off + len))) s1 of
            (None, s2) \<Rightarrow> (None, snd (wpdk_windows_error (mm_last_error api (world s2)) s2))
          | (Some m, s2) \<Rightarrow>
              (case os_call (mm_map_view api m (HighPart ?start) (LowPart ?start) (LowPart n)) s2 of
                 (p, s3) \<Rightarrow>
                   let rc = mm_last_error api (world s3);
                       s4 = s3\<lparr>world := mm_close_handle api m (world s3)\<rparr>
                   in if p = 0 then (None, snd (wpdk_windows_error rc s4))
                      else (Some (int p + (off - ?start)), s4))))"
    unfolding wpdk_mmap_def h hh n_def
    by (simp only: gr start(1) wrap prod.case option.case Let_def not_True_eq_False if_False refl simp_thms)
  have hi: "HighPart n = 0" using assms(6) unfolding eq by (auto split: if_splits)
  then have lo: "LowPart n = n" using HighLow [of n] by simp
  obtain mp s2 where m: "os_call (mm_create_mapping api hh (HighPart (off + len)) (LowPart (off + len))) s1 = (mp, s2)" by fastforce
  then obtain mm where mm: "mp = Some mm" using assms(6) hi unfolding eq by (cases mp) auto
  have v2: "views (world s2) = views (world s1)"
    using assms(1) m by (auto simp: map_contract_def os_call_def split: prod.splits) (metis snd_conv)
  obtain p s3 where p: "os_call (mm_map_view api mm (HighPart ?start) (LowPart ?start) n) s2 = (p, s3)" by fastforce
  have "p \<noteq> 0 \<and> a = int p + (off - ?start) \<and> s' = s3\<lparr>world := mm_close_handle api mm (world s3)\<rparr>"
    using assms(6) hi lo m mm p unfolding eq by (auto simp: Let_def split: if_splits)
  moreover have "views (mm_close_handle api mm (world s3)) = views (world s3)"
    using assms(1) by (simp add: map_contract_def)
  ultimately show ?thesis using p v1 v2
    by (auto simp: n_def)
qed


definition demo_map_api :: "(ptr \<times> int \<times> int) list map_api" where
  "demo_map_api =
     \<lparr>mm_granularity = (\<lambda>w. 65536), mm_osfhandle = (\<lambda>fd. Pair (Some 7, None)),
      mm_create_mapping = (\<lambda>h hi lo. Pair (Some 8)),
      mm_map_view = (\<lambda>m hi lo n w. let p = 65536 * Suc (sum_list (map fst w))
                       in if (hi * 2 ^ 32 + lo) mod 65536 = 0 then (p, (p, hi * 2 ^ 32 + lo, n) # w) else (0, w)),
      mm_close_handle = (\<lambda>m w. w),
      mm_unmap_view = (\<lambda>p w. (p \<in> fst ` set w, filter (\<lambda>v. fst v \<noteq> p) w)),
      mm_last_error = (\<lambda>w. Werr1 ERROR_SUCCESS)\<rparr>"

lemma demo_map_contract: "map_contract demo_map_api map_of 65536"
proof -
  have f: "map_of (filter (\<lambda>v. fst v \<noteq> p) w) = (map_of w)(p := None)" for p :: ptr and w :: "(ptr \<times> int \<times> int) list"
    by (induction w) (auto simp: fun_eq_iff)
  have "map_of w (65536 * Suc (sum_list (map fst w))) = None" for w :: "(ptr \<times> int \<times> int) list"
  proof -
    have "65536 * Suc (sum_list (map fst w)) \<notin> set (map fst w)"
      using member_le_sum_list [of "65536 * Suc (sum_list (map fst w))" "map fst w"] by auto
    then show ?thesis by (simp add: map_of_eq_None_iff)
  qed
  then have 1: "creates_view demo_map_api map_of 65536 m hi lo n w" for m hi lo n w
    by (simp add: creates_view_def demo_map_api_def Let_def)
  have 2: "case map_of w p of
        None \<Rightarrow> \<not> fst (mm_unmap_view demo_map_api p w)
      | Some _ \<Rightarrow> fst (mm_unmap_view demo_map_api p w) \<and> map_of (snd (mm_unmap_view demo_map_api p w)) = (map_of w)(p := None)" for p w
    using map_of_eq_None_iff [of w p] by (auto simp: demo_map_api_def f split: option.splits)
  show ?thesis unfolding map_contract_def by (intro conjI allI 1 2) (simp_all add: demo_map_api_def)
qed


end
