(* ===== verification/Ifaddrs.thy ===== *)
theory Ifaddrs
  imports Descriptors
begin

unbundle bit_operations_syntax

text \<open>
  Network interfaces, \<^verbatim>\<open>src/ifaddrs.c\<close> and \<^verbatim>\<open>src/ioctl.c\<close>.

  The adapters come from Windows as a list of adapters, each with the list of its addresses. The
  theorems state which list of interfaces the caller gets, that its memory is accounted for, and
  that the flags of an interface are found by its name.
\<close>

section \<open>Adapters\<close>

record unicast =
  ua_family :: int
  ua_sockaddr :: "8 word list"

record adapter =
  ad_up :: bool
  ad_loopback :: bool
  ad_index :: int
  ad_index6 :: int
  ad_unicast :: "unicast list"

text \<open>
  \<^verbatim>\<open>GetAdaptersAddresses\<close> for a buffer (or none) of some length returns an error, the length and
  the adapters; \<^verbatim>\<open>realloc\<close> of the buffer, \<^verbatim>\<open>free\<close> of the buffer, \<^verbatim>\<open>calloc\<close> and \<^verbatim>\<open>free\<close> of a list element.
\<close>

record 'w adapter_api =
  ia_adapters :: "bool \<Rightarrow> int \<Rightarrow> 'w \<Rightarrow> (win_error \<times> int \<times> adapter list) \<times> 'w"
  ia_realloc :: "int \<Rightarrow> 'w \<Rightarrow> bool \<times> 'w"
  ia_free_buffer :: "'w \<Rightarrow> 'w"
  ia_calloc :: "int \<Rightarrow> 'w \<Rightarrow> bool \<times> 'w"
  ia_free :: "'w \<Rightarrow> 'w"

text \<open>\<open>None\<close> inside is the result NULL.\<close>

partial_function (option) wpdk_get_adapters ::
  "'w adapter_api \<Rightarrow> bool \<Rightarrow> int \<Rightarrow> ('w, 'z) sys_scheme \<Rightarrow> (adapter list option \<times> ('w, 'z) sys_scheme) option" where
  "wpdk_get_adapters api buf len s =
     (case os_call (ia_adapters api buf len) s of
        ((rc, len', ads), s1) \<Rightarrow>
          if rc = Werr1 ERROR_SUCCESS then Some (if buf then Some ads else None, s1)
          else if rc \<noteq> Werr1 ERROR_BUFFER_OVERFLOW
          then Some (None, snd (wpdk_windows_error rc (if buf then s1\<lparr>world := ia_free_buffer api (world s1)\<rparr> else s1)))
          else
            (case os_call (ia_realloc api len') s1 of
               (ok, s2) \<Rightarrow>
                 if ok then wpdk_get_adapters api True len' s2
                 else Some (None, set_errno ENOMEM (if buf then s2\<lparr>world := ia_free_buffer api (world s2)\<rparr> else s2))))"

definition AF_INET :: int where [errno_simps]: "AF_INET = 2"
definition AF_INET6 :: int where [errno_simps]: "AF_INET6 = 23"
definition IFF_UP :: int where [errno_simps]: "IFF_UP = 1"
definition IFF_LOOPBACK :: int where [errno_simps]: "IFF_LOOPBACK = 4"
definition IF_NAMESIZE :: nat where [errno_simps]: "IF_NAMESIZE = 16"

text \<open>\<^verbatim>\<open>%d\<close>\<close>

function digits :: "nat \<Rightarrow> string" where
  "digits n = (if n < 10 then [] else digits (n div 10)) @ [char_of (48 + n mod 10)]"
  by pat_completeness auto
termination
  by (relation "measure id") auto

declare digits.simps [simp del]

definition show_int :: "int \<Rightarrow> string" where
  "show_int n = (if n < 0 then CHR ''-'' # digits (nat (- n)) else digits (nat n))"

text \<open>\<open>None\<close> is the result \<^verbatim>\<open>false\<close>; otherwise the name and the flags.\<close>

definition wpdk_get_if_info :: "adapter \<Rightarrow> int \<Rightarrow> (string \<times> int) option" where
  "wpdk_get_if_info ipa family =
     (if family \<noteq> AF_INET \<and> family \<noteq> AF_INET6 then None
      else
        (let flags = (if ad_up ipa then IFF_UP else 0) OR (if ad_loopback ipa then IFF_LOOPBACK else 0);
             index = to_int32 (if family = AF_INET6 then ad_index6 ipa else ad_index ipa)
         in Some ((if flags AND IFF_LOOPBACK \<noteq> 0 then ''lo'' else ''en'') @ show_int index, flags)))"

section \<open>Lists of interfaces\<close>

record ifaddrs =
  ifa_name :: string
  ifa_flags :: int
  ifa_addr :: "8 word list"

definition sizeof_ifaddrs :: int where "sizeof_ifaddrs = 32"

text \<open>\<^verbatim>\<open>wpdk_freeifaddrs\<close> frees one element after the other.\<close>

fun wpdk_freeifaddrs :: "'w adapter_api \<Rightarrow> ifaddrs list \<Rightarrow> ('w, 'z) sys_scheme \<Rightarrow> ('w, 'z) sys_scheme" where
  "wpdk_freeifaddrs api [] s = s"
| "wpdk_freeifaddrs api (ifa # next') s = wpdk_freeifaddrs api next' (s\<lparr>world := ia_free api (world s)\<rparr>)"

text \<open>
  The inner loop, over the addresses of an adapter, and the outer loop. \<open>Inl\<close> is the list at the
  moment an allocation fails.
\<close>

fun address_loop ::
  "'w adapter_api \<Rightarrow> adapter \<Rightarrow> unicast list \<Rightarrow> ifaddrs list \<Rightarrow> ('w, 'z) sys_scheme
    \<Rightarrow> (ifaddrs list + ifaddrs list) \<times> ('w, 'z) sys_scheme" where
  "address_loop api ipa [] iflist s = (Inr iflist, s)"
| "address_loop api ipa (addr # addrs) iflist s =
     (case wpdk_get_if_info ipa (ua_family addr) of
        None \<Rightarrow> address_loop api ipa addrs iflist s
      | Some (name, flags) \<Rightarrow>
          (case os_call (ia_calloc api (sizeof_ifaddrs + int (length (ua_sockaddr addr)) + int IF_NAMESIZE)) s of
             (ok, s1) \<Rightarrow>
               if \<not> ok then (Inl iflist, s1)
               else address_loop api ipa addrs
                      (\<lparr>ifa_name = name, ifa_flags = flags, ifa_addr = ua_sockaddr addr\<rparr> # iflist) s1))"

fun adapter_loop ::
  "'w adapter_api \<Rightarrow> adapter list \<Rightarrow> ifaddrs list \<Rightarrow> ('w, 'z) sys_scheme
    \<Rightarrow> (ifaddrs list + ifaddrs list) \<times> ('w, 'z) sys_scheme" where
  "adapter_loop api [] iflist s = (Inr iflist, s)"
| "adapter_loop api (ipa # ads) iflist s =
     (case address_loop api ipa (ad_unicast ipa) iflist s of
        (Inl l, s1) \<Rightarrow> (Inl l, s1)
      | (Inr l, s1) \<Rightarrow> adapter_loop api ads l s1)"

text \<open>The result, the list stored through \<open>ifap\<close>, if any, and the state.\<close>

definition wpdk_getifaddrs ::
  "'w adapter_api \<Rightarrow> bool \<Rightarrow> ('w, 'z) sys_scheme \<Rightarrow> (int \<times> ifaddrs list option \<times> ('w, 'z) sys_scheme) option" where
  "wpdk_getifaddrs api ifap s =
     (if \<not> ifap then Some (EINVAL, None, s)
      else
        Option.bind (wpdk_get_adapters api False 0 s) (\<lambda>(r, s1).
          case r of
            None \<Rightarrow> Some (- 1, None, s1)
          | Some ads \<Rightarrow>
              (case adapter_loop api ads [] s1 of
                 (Inl l, s2) \<Rightarrow>
                   (let s3 = wpdk_freeifaddrs api l s2;
                        s4 = s3\<lparr>world := ia_free_buffer api (world s3)\<rparr>
                    in Some (- 1, None, set_errno ENOMEM s4))
               | (Inr l, s2) \<Rightarrow> Some (0, Some l, s2\<lparr>world := ia_free_buffer api (world s2)\<rparr>))))"

text \<open>The search of an interface by its name, in the order of the adapters.\<close>

definition adapter_infos :: "adapter \<Rightarrow> (string \<times> int) list" where
  "adapter_infos ipa = List.map_filter (\<lambda>addr. wpdk_get_if_info ipa (ua_family addr)) (ad_unicast ipa)"

definition wpdk_getifflags ::
  "'w adapter_api \<Rightarrow> string \<Rightarrow> ('w, 'z) sys_scheme \<Rightarrow> (int \<times> int option \<times> ('w, 'z) sys_scheme) option" where
  "wpdk_getifflags api ifr_name s =
     Option.bind (wpdk_get_adapters api False 0 s) (\<lambda>(r, s1).
       case r of
         None \<Rightarrow> Some (- 1, None, s1)
       | Some ads \<Rightarrow>
           (let s2 = s1\<lparr>world := ia_free_buffer api (world s1)\<rparr>
            in case map_of (concat (map adapter_infos ads)) ifr_name of
                 Some flags \<Rightarrow> Some (0, Some flags, s2)
               | None \<Rightarrow> Some (- 1, None, set_errno EINVAL s2)))"

definition SIOCSIFFLAGS :: int where [errno_simps]: "SIOCSIFFLAGS = 1"
definition SIOCGIFFLAGS :: int where [errno_simps]: "SIOCGIFFLAGS = 2"

text \<open>The flags are what has been stored in the \<^verbatim>\<open>struct ifreq\<close>; its name is \<open>None\<close> for a NULL pointer.\<close>

definition wpdk_ioctl ::
  "'w adapter_api \<Rightarrow> int \<Rightarrow> int \<Rightarrow> string option \<Rightarrow> ('w, 'z) sys_scheme
    \<Rightarrow> (int \<times> int option \<times> ('w, 'z) sys_scheme) option" where
  "wpdk_ioctl api fd request ifr s =
     (if request = SIOCGIFFLAGS \<or> request = SIOCSIFFLAGS
      then if \<not> wpdk_is_socket fd then Some (- 1, None, set_errno EBADF s)
           else (case ifr of
                   None \<Rightarrow> Some (- 1, None, set_errno EINVAL s)
                 | Some name \<Rightarrow> if request = SIOCSIFFLAGS then Some (0, None, s) else wpdk_getifflags api name s)
      else Some (- 1, None, set_errno EINVAL s))"

section \<open>What the caller gets\<close>

text \<open>The interfaces of a list of adapters, in the order of the adapters.\<close>

definition interface_of :: "adapter \<Rightarrow> unicast \<Rightarrow> ifaddrs option" where
  "interface_of ipa addr =
     map_option (\<lambda>(name, flags). \<lparr>ifa_name = name, ifa_flags = flags, ifa_addr = ua_sockaddr addr\<rparr>)
       (wpdk_get_if_info ipa (ua_family addr))"

definition interfaces :: "adapter list \<Rightarrow> ifaddrs list" where
  "interfaces ads = concat (map (\<lambda>ipa. List.map_filter (interface_of ipa) (ad_unicast ipa)) ads)"

text \<open>
  Windows asks for a larger buffer until it fits; \<open>blocks\<close> counts the list elements that are
  allocated.
\<close>

definition adapters_contract :: "'w adapter_api \<Rightarrow> adapter list \<Rightarrow> int \<Rightarrow> ('w \<Rightarrow> nat) \<Rightarrow> bool" where
  "adapters_contract api ads needed blocks \<longleftrightarrow>
     (\<forall>b n w. fst (ia_adapters api b n w) =
        (if b \<and> needed \<le> n then (Werr1 ERROR_SUCCESS, n, ads) else (Werr1 ERROR_BUFFER_OVERFLOW, needed, []))) \<and>
     (\<forall>b n w. blocks (snd (ia_adapters api b n w)) = blocks w) \<and>
     (\<forall>n w. blocks (snd (ia_realloc api n w)) = blocks w) \<and>
     (\<forall>w. blocks (ia_free_buffer api w) = blocks w) \<and>
     (\<forall>n w. blocks (snd (ia_calloc api n w)) = (if fst (ia_calloc api n w) then Suc (blocks w) else blocks w)) \<and>
     (\<forall>w. blocks (ia_free api w) = blocks w - 1)"

lemma get_adapters_ok:
  assumes "adapters_contract api ads needed blocks" "needed \<le> n"
  shows "wpdk_get_adapters api True n s = Some (Some ads, snd (os_call (ia_adapters api True n) s))"
  using assms
  by (simp add: wpdk_get_adapters.simps [of api True n s] os_call_eq adapters_contract_def)

lemma get_adapters_returns:
  assumes "adapters_contract api ads needed blocks"
  shows "\<exists>r s'. wpdk_get_adapters api False n s = Some (r, s') \<and> blocks (world s') = blocks (world s) \<and>
           (r = Some ads \<or> r = None \<and> errno s' = ENOMEM)"
proof -
  define s1 where "s1 = snd (os_call (ia_adapters api False n) s)"
  have a: "os_call (ia_adapters api False n) s = ((Werr1 ERROR_BUFFER_OVERFLOW, needed, []), s1)"
    using assms by (simp add: os_call_eq adapters_contract_def s1_def)
  obtain ok s2 where c: "os_call (ia_realloc api needed) s1 = (ok, s2)" by fastforce
  have b: "blocks (world s1) = blocks (world s)" "blocks (snd (ia_realloc api needed (world s1))) = blocks (world s1)"
    "blocks (snd (ia_adapters api True needed (world s2))) = blocks (world s2)"
    using assms by (simp_all add: s1_def os_call_eq adapters_contract_def)
  have b2: "blocks (world s2) = blocks (world s)" using c b by (auto simp: os_call_eq)
  have "wpdk_get_adapters api False n s =
      (if ok then wpdk_get_adapters api True needed s2 else Some (None, set_errno ENOMEM s2))"
    by (simp add: wpdk_get_adapters.simps [of api False n s] a c)
  then show ?thesis using get_adapters_ok [OF assms order_refl, of s2] b(3) b2
    by (cases ok) (simp_all add: os_call_eq set_errno_def)
qed

lemma blocks_freeifaddrs:
  assumes "adapters_contract api ads needed blocks"
  shows "blocks (world (wpdk_freeifaddrs api l s)) = blocks (world s) - length l"
  using assms by (induction l arbitrary: s) (auto simp: adapters_contract_def)

lemma address_loop_list:
  assumes "adapters_contract api ads needed blocks" "address_loop api ipa addrs l s = (r, s')"
  shows "(\<exists>l'. r = Inr l' \<and> l' = rev (List.map_filter (interface_of ipa) addrs) @ l \<and>
            blocks (world s') + length l = blocks (world s) + length l') \<or>
         (\<exists>l'. r = Inl l' \<and> blocks (world s') + length l = blocks (world s) + length l')"
  using assms(2)
proof (induction addrs arbitrary: l s)
  case Nil
  then show ?case by (simp add: map_filter_def)
next
  case (Cons addr addrs)
  show ?case
  proof (cases "wpdk_get_if_info ipa (ua_family addr)")
    case None
    then show ?thesis using Cons by (simp add: interface_of_def map_filter_def)
  next
    case (Some nf)
    then obtain name flags where nf: "wpdk_get_if_info ipa (ua_family addr) = Some (name, flags)" by (cases nf) auto
    let ?i = "\<lparr>ifa_name = name, ifa_flags = flags, ifa_addr = ua_sockaddr addr\<rparr>"
    obtain ok s1 where c: "os_call (ia_calloc api (sizeof_ifaddrs + int (length (ua_sockaddr addr)) + int IF_NAMESIZE)) s = (ok, s1)"
      by fastforce
    have b: "blocks (world s1) = (if ok then Suc (blocks (world s)) else blocks (world s))"
      using assms(1) c by (auto simp: adapters_contract_def os_call_eq)
    show ?thesis
    proof (cases ok)
      case False
      then show ?thesis using Cons.prems nf c b by auto
    next
      case True
      then have "address_loop api ipa addrs (?i # l) s1 = (r, s')" using Cons.prems nf c by simp
      from Cons.IH [OF this] b True nf show ?thesis by (auto simp: interface_of_def map_filter_def)
    qed
  qed
qed

lemma adapter_loop_list:
  assumes "adapters_contract api ads needed blocks" "adapter_loop api as l s = (r, s')"
  shows "(\<exists>l'. r = Inr l' \<and> l' = rev (interfaces as) @ l \<and>
            blocks (world s') + length l = blocks (world s) + length l') \<or>
         (\<exists>l'. r = Inl l' \<and> blocks (world s') + length l = blocks (world s) + length l')"
  using assms(2)
proof (induction as arbitrary: l s)
  case Nil
  then show ?case by (simp add: interfaces_def)
next
  case (Cons ipa as)
  obtain r1 s1 where c: "address_loop api ipa (ad_unicast ipa) l s = (r1, s1)" by fastforce
  from address_loop_list [OF assms(1) c] show ?case
  proof (elim disjE exE conjE)
    fix l1
    assume l1: "r1 = Inr l1" "l1 = rev (List.map_filter (interface_of ipa) (ad_unicast ipa)) @ l"
      "blocks (world s1) + length l = blocks (world s) + length l1"
    then have "adapter_loop api as l1 s1 = (r, s')" using Cons.prems c by simp
    from Cons.IH [OF this] l1 show ?thesis by (auto simp: interfaces_def)
  next
    fix l1
    assume "r1 = Inl l1" "blocks (world s1) + length l = blocks (world s) + length l1"
    then show ?thesis using Cons.prems c by auto
  qed
qed


text \<open>The names and flags of the list, in the order of the adapters, are what the search by name looks at.\<close>

lemma interfaces_infos: "map (\<lambda>i. (ifa_name i, ifa_flags i)) (interfaces ads) = concat (map adapter_infos ads)"
proof -
  have "map (\<lambda>i. (ifa_name i, ifa_flags i)) (List.map_filter (interface_of ipa) addrs) =
          List.map_filter (\<lambda>addr. wpdk_get_if_info ipa (ua_family addr)) addrs" for ipa addrs
    by (induction addrs) (auto simp: map_filter_def interface_of_def)
  then show ?thesis by (simp add: interfaces_def adapter_infos_def [abs_def] map_concat comp_def)
qed

text \<open>
  The flags of a listed interface are found by its name: where equal names have equal flags,
  the \<^verbatim>\<open>SIOCGIFFLAGS\<close> request on a socket descriptor stores, for every interface of the list, the flags
  that the list has for it.
\<close>

theorem ioctl_finds_interface_flags:
  assumes "adapters_contract api ads needed blocks" "wpdk_is_socket fd" "i \<in> set (interfaces ads)"
    and "\<forall>j \<in> set (interfaces ads). ifa_name j = ifa_name i \<longrightarrow> ifa_flags j = ifa_flags i"
  shows "\<exists>rc flags s'. wpdk_ioctl api fd SIOCGIFFLAGS (Some (ifa_name i)) s = Some (rc, flags, s') \<and>
           (rc = 0 \<and> flags = Some (ifa_flags i) \<or> rc = - 1 \<and> errno s' = ENOMEM)"
proof -
  let ?l = "concat (map adapter_infos ads)"
  obtain g s1 where g: "wpdk_get_adapters api False 0 s = Some (g, s1)"
    "g = Some ads \<or> g = None \<and> errno s1 = ENOMEM" using get_adapters_returns [OF assms(1)] by blast
  have mem: "(ifa_name i, ifa_flags i) \<in> set ?l"
    unfolding interfaces_infos [symmetric] using assms(3) by auto
  then obtain f where f: "map_of ?l (ifa_name i) = Some f"
    by (metis map_of_eq_None_iff fst_conv image_eqI not_None_eq)
  then have "(ifa_name i, f) \<in> set ?l" by (rule map_of_SomeD)
  then have "f = ifa_flags i" unfolding interfaces_infos [symmetric] using assms(4) by auto
  then show ?thesis using assms(2) g f
    by (auto simp: wpdk_ioctl_def wpdk_getifflags_def errno_simps Let_def split: if_splits)
qed

definition demo_adapters :: "adapter list" where
  "demo_adapters =
     [\<lparr>ad_up = True, ad_loopback = True, ad_index = 1, ad_index6 = 1,
       ad_unicast = [\<lparr>ua_family = 2, ua_sockaddr = [2, 0]\<rparr>, \<lparr>ua_family = 99, ua_sockaddr = []\<rparr>]\<rparr>,
      \<lparr>ad_up = False, ad_loopback = False, ad_index = 12, ad_index6 = 12,
       ad_unicast = [\<lparr>ua_family = 23, ua_sockaddr = [23, 0]\<rparr>]\<rparr>]"

definition demo_adapter_api :: "nat adapter_api" where
  "demo_adapter_api =
     \<lparr>ia_adapters = (\<lambda>b n. Pair (if b \<and> 1000 \<le> n then (Werr1 ERROR_SUCCESS, n, demo_adapters)
                                 else (Werr1 ERROR_BUFFER_OVERFLOW, 1000, []))),
      ia_realloc = (\<lambda>n. Pair True), ia_free_buffer = id, ia_calloc = (\<lambda>n w. (True, Suc w)),
      ia_free = (\<lambda>w. w - 1)\<rparr>"

lemma demo_adapters_contract: "adapters_contract demo_adapter_api demo_adapters 1000 (\<lambda>w. w)"
  by (simp add: adapters_contract_def demo_adapter_api_def)

lemma demo_interfaces:
  "interfaces demo_adapters =
     [\<lparr>ifa_name = ''lo1'', ifa_flags = 5, ifa_addr = [2, 0]\<rparr>,
      \<lparr>ifa_name = ''en12'', ifa_flags = 0, ifa_addr = [23, 0]\<rparr>]"
  by (simp add: interfaces_def demo_adapters_def map_filter_def interface_of_def wpdk_get_if_info_def
      errno_simps show_int_def to_int32_def digits.simps char_of_def bit_Suc_0_iff)


theorem ioctl_finds_interface_flags_witness:
  "\<exists>rc flags s'. wpdk_ioctl demo_adapter_api socketbase SIOCGIFFLAGS (Some ''lo1'')
       \<lparr>errno = 0, fault = False, world = 0\<rparr> = Some (rc, flags, s') \<and>
     (rc = 0 \<and> flags = Some 5 \<or> rc = - 1 \<and> errno s' = ENOMEM)"
  using ioctl_finds_interface_flags [OF demo_adapters_contract, of socketbase
      "\<lparr>ifa_name = ''lo1'', ifa_flags = 5, ifa_addr = [2, 0]\<rparr>" "\<lparr>errno = 0, fault = False, world = 0\<rparr>"]
  by (simp add: demo_interfaces wpdk_is_socket_def errno_simps)

text \<open>A NULL argument is reported by a positive return value instead of \<open>-1\<close>.\<close>

lemma getifaddrs_null: "wpdk_getifaddrs api False s = Some (EINVAL, None, s)"
  by (simp add: wpdk_getifaddrs_def)

end
