(* ===== verification/Md5.thy ===== *)
theory Md5
  imports Error_Map
begin

text \<open>
  Message digests (\<^verbatim>\<open>src/md5.c\<close>, \<^verbatim>\<open>inc/openssl/md5.h\<close>, \<^verbatim>\<open>inc/openssl/evp.h\<close>): the MD5 functions of OpenSSL and its
  EVP interface on top of the three functions of \<^verbatim>\<open>cryptdll.dll\<close>, which are looked up once. The library is
  a parameter: its functions are values that \<^verbatim>\<open>GetProcAddress\<close> returns, kept in the static function pointers.
  The contexts of the EVP interface are blocks of the heap. A call through a function pointer that has not been set,
  an access to a context that is not there and a read beyond the data set \<open>fault\<close>; \<open>None\<close> is the end of the
  program by \<^verbatim>\<open>wpdk_fatal\<close>.
\<close>

section \<open>Model\<close>

type_synonym octet = "8 word"

record MD5_CTX =
  md_i :: "32 word list"
  md_buf :: "32 word list"
  md_in :: "octet list"
  md_digest :: "octet list"

definition MD5_CBLOCK :: nat where "MD5_CBLOCK = 64"
definition MD5_DIGEST_LENGTH :: nat where "MD5_DIGEST_LENGTH = 16"

type_synonym init_fn = "MD5_CTX \<Rightarrow> MD5_CTX"
type_synonym update_fn = "MD5_CTX \<Rightarrow> octet list \<Rightarrow> 32 word \<Rightarrow> MD5_CTX"

record 'w md5_api =
  m_load_library :: "string \<Rightarrow> 'w \<Rightarrow> ptr \<times> 'w"
  m_proc_init :: "ptr \<Rightarrow> string \<Rightarrow> 'w \<Rightarrow> init_fn option"
  m_proc_update :: "ptr \<Rightarrow> string \<Rightarrow> 'w \<Rightarrow> update_fn option"
  m_proc_final :: "ptr \<Rightarrow> string \<Rightarrow> 'w \<Rightarrow> init_fn option"
  m_calloc :: "'w \<Rightarrow> ptr \<times> 'w"
  m_free :: "ptr \<Rightarrow> 'w \<Rightarrow> 'w"

text \<open>The static variables of the file, and the contexts on the heap.\<close>
record 'w md5_sys = "'w sys" +
  MD5Init :: "init_fn option"
  MD5Update :: "update_fn option"
  MD5Final :: "init_fn option"
  md5_once :: bool
  md5_static :: "octet list"
  md5_heap :: "ptr \<rightharpoonup> MD5_CTX"

definition wpdk_md5_initialise ::
  "'w md5_api \<Rightarrow> ('w, 'z) md5_sys_scheme \<Rightarrow> ('w, 'z) md5_sys_scheme option" where
  "wpdk_md5_initialise api s =
     (let (h, s1) = os_call (m_load_library api ''cryptdll.dll'') s
      in if h = 0 then None
         else (let s2 = s1\<lparr>MD5Init := m_proc_init api h ''MD5Init'' (world s1),
                          MD5Update := m_proc_update api h ''MD5Update'' (world s1),
                          MD5Final := m_proc_final api h ''MD5Final'' (world s1)\<rparr>
               in if MD5Init s2 = None \<or> MD5Update s2 = None \<or> MD5Final s2 = None then None else Some s2))"

text \<open>\<^verbatim>\<open>InitOnceExecuteOnce\<close> runs the callback unless it has already succeeded.\<close>
definition md5_init_once ::
  "'w md5_api \<Rightarrow> ('w, 'z) md5_sys_scheme \<Rightarrow> ('w, 'z) md5_sys_scheme option" where
  "md5_init_once api s =
     (if md5_once s then Some s
      else map_option (\<lambda>s1. s1\<lparr>md5_once := True\<rparr>) (wpdk_md5_initialise api s))"

definition wpdk_MD5_Init ::
  "'w md5_api \<Rightarrow> MD5_CTX \<Rightarrow> ('w, 'z) md5_sys_scheme \<Rightarrow> (int \<times> MD5_CTX \<times> ('w, 'z) md5_sys_scheme) option" where
  "wpdk_MD5_Init api c s =
     Option.bind (md5_init_once api s) (\<lambda>s1.
       case MD5Init s1 of
         Some f \<Rightarrow> Some (1, f c, s1)
       | None \<Rightarrow> Some (1, c, set_fault s1))"

definition wpdk_MD5_Update ::
  "MD5_CTX \<Rightarrow> octet list \<Rightarrow> 64 word \<Rightarrow> ('w, 'z) md5_sys_scheme \<Rightarrow> int \<times> MD5_CTX \<times> ('w, 'z) md5_sys_scheme" where
  "wpdk_MD5_Update c data len s =
     (let n = ucast len :: 32 word
      in case MD5Update s of
           Some f \<Rightarrow> if unat n \<le> length data then (1, f c (take (unat n) data) n, s) else (1, c, set_fault s)
         | None \<Rightarrow> (1, c, set_fault s))"

definition wpdk_MD5_Transform ::
  "MD5_CTX \<Rightarrow> octet list \<Rightarrow> ('w, 'z) md5_sys_scheme \<Rightarrow> MD5_CTX \<times> ('w, 'z) md5_sys_scheme" where
  "wpdk_MD5_Transform c b s = snd (wpdk_MD5_Update c b (of_nat MD5_CBLOCK) s)"

text \<open>The digest is what is stored at \<^verbatim>\<open>md\<close>.\<close>
definition wpdk_MD5_Final ::
  "MD5_CTX \<Rightarrow> ('w, 'z) md5_sys_scheme \<Rightarrow> int \<times> octet list \<times> MD5_CTX \<times> ('w, 'z) md5_sys_scheme" where
  "wpdk_MD5_Final c s =
     (case MD5Final s of
        Some f \<Rightarrow> (let c1 = f c in (1, take MD5_DIGEST_LENGTH (md_digest c1), c1, s))
      | None \<Rightarrow> (1, take MD5_DIGEST_LENGTH (md_digest c), c, set_fault s))"

text \<open>
  The context is a local variable, with any contents at first. The caller passes a buffer for the digest or NULL (\<open>md\<close> is false),
  for which the static one is used.
\<close>
definition wpdk_MD5 ::
  "'w md5_api \<Rightarrow> MD5_CTX \<Rightarrow> octet list \<Rightarrow> 32 word \<Rightarrow> bool \<Rightarrow> ('w, 'z) md5_sys_scheme
    \<Rightarrow> (octet list \<times> ('w, 'z) md5_sys_scheme) option" where
  "wpdk_MD5 api context d n md s =
     Option.bind (wpdk_MD5_Init api context s) (\<lambda>(_, c1, s1).
       let (_, c2, s2) = wpdk_MD5_Update c1 d (ucast n) s1;
           (_, digest, _, s3) = wpdk_MD5_Final c2 s2
       in Some (digest, if md then s3 else s3\<lparr>md5_static := digest\<rparr>))"

subsection \<open>The EVP interface\<close>

text \<open>The address of the static \<^verbatim>\<open>wpdk_md5\<close>, and every other address.\<close>
datatype EVP_MD = Wpdk_md5 | Other_md

definition wpdk_EVP_md5 :: EVP_MD where
  "wpdk_EVP_md5 = Wpdk_md5"

definition zero_ctx :: MD5_CTX where
  "zero_ctx = \<lparr>md_i = replicate 2 0, md_buf = replicate 4 0, md_in = replicate 64 0, md_digest = replicate 16 0\<rparr>"

definition wpdk_EVP_MD_CTX_create ::
  "'w md5_api \<Rightarrow> ('w, 'z) md5_sys_scheme \<Rightarrow> ptr \<times> ('w, 'z) md5_sys_scheme" where
  "wpdk_EVP_MD_CTX_create api s =
     (let (c, s1) = os_call (m_calloc api) s
      in if c = 0 then (c, set_errno ENOMEM s1)
         else (c, s1\<lparr>md5_heap := (md5_heap s1)(c \<mapsto> zero_ctx)\<rparr>))"

definition wpdk_EVP_MD_CTX_destroy ::
  "'w md5_api \<Rightarrow> ptr \<Rightarrow> ('w, 'z) md5_sys_scheme \<Rightarrow> ('w, 'z) md5_sys_scheme" where
  "wpdk_EVP_MD_CTX_destroy api ctx s =
     (if ctx = 0 then s
      else if md5_heap s ctx = None then set_fault s
      else s\<lparr>md5_heap := (md5_heap s)(ctx := None), world := m_free api ctx (world s)\<rparr>)"

definition wpdk_EVP_DigestInit_ex ::
  "'w md5_api \<Rightarrow> ptr \<Rightarrow> EVP_MD \<Rightarrow> ('w, 'z) md5_sys_scheme \<Rightarrow> (int \<times> ('w, 'z) md5_sys_scheme) option" where
  "wpdk_EVP_DigestInit_ex api ctx type s =
     (if ctx = 0 then Some (0, set_errno EINVAL s)
      else if type \<noteq> Wpdk_md5 then Some (0, s)
      else (case md5_heap s ctx of
              None \<Rightarrow> Some (0, set_fault s)
            | Some c \<Rightarrow>
                Option.bind (wpdk_MD5_Init api c s) (\<lambda>(rc, c1, s1).
                  Some (if rc = 1 then 1 else 0, s1\<lparr>md5_heap := (md5_heap s1)(ctx \<mapsto> c1)\<rparr>))))"

definition wpdk_EVP_DigestUpdate ::
  "ptr \<Rightarrow> octet list \<Rightarrow> 64 word \<Rightarrow> ('w, 'z) md5_sys_scheme \<Rightarrow> int \<times> ('w, 'z) md5_sys_scheme" where
  "wpdk_EVP_DigestUpdate ctx data len s =
     (case md5_heap s ctx of
        None \<Rightarrow> (0, set_fault s)
      | Some c \<Rightarrow> (let (rc, c1, s1) = wpdk_MD5_Update c data len s
                   in (rc, s1\<lparr>md5_heap := (md5_heap s1)(ctx \<mapsto> c1)\<rparr>)))"

definition wpdk_EVP_DigestFinal_ex ::
  "ptr \<Rightarrow> ('w, 'z) md5_sys_scheme \<Rightarrow> int \<times> octet list \<times> ('w, 'z) md5_sys_scheme" where
  "wpdk_EVP_DigestFinal_ex ctx s =
     (case md5_heap s ctx of
        None \<Rightarrow> (0, [], set_fault s)
      | Some c \<Rightarrow> (let (rc, digest, c1, s1) = wpdk_MD5_Final c s
                   in (rc, digest, s1\<lparr>md5_heap := (md5_heap s1)(ctx \<mapsto> c1)\<rparr>)))"

section \<open>The digest of a message in pieces\<close>

text \<open>
  What the library promises, with \<open>absorbed c\<close> the data that a context has taken in: an initialised context has
  taken in nothing, an update appends its data, and the final function stores the digest \<open>h\<close> of all of it.
\<close>

definition md5_functions :: "(MD5_CTX \<Rightarrow> octet list option) \<Rightarrow> (octet list \<Rightarrow> octet list) \<Rightarrow> init_fn \<Rightarrow> update_fn \<Rightarrow> init_fn \<Rightarrow> bool" where
  "md5_functions absorbed h fi fu ff \<longleftrightarrow>
     (\<forall>c. absorbed (fi c) = Some []) \<and>
     (\<forall>c xs d n. absorbed c = Some xs \<longrightarrow> unat n = length d \<longrightarrow> absorbed (fu c d n) = Some (xs @ d)) \<and>
     (\<forall>c xs. absorbed c = Some xs \<longrightarrow> md_digest (ff c) = h xs) \<and>
     (\<forall>xs. length (h xs) = MD5_DIGEST_LENGTH)"

definition md5_library ::
  "'w md5_api \<Rightarrow> (MD5_CTX \<Rightarrow> octet list option) \<Rightarrow> (octet list \<Rightarrow> octet list) \<Rightarrow> bool" where
  "md5_library api absorbed h \<longleftrightarrow>
     (\<exists>fi fu ff. md5_functions absorbed h fi fu ff \<and>
        (\<forall>w. fst (m_load_library api ''cryptdll.dll'' w) \<noteq> 0) \<and>
        (\<forall>l w. m_proc_init api l ''MD5Init'' w = Some fi \<and> m_proc_update api l ''MD5Update'' w = Some fu \<and>
               m_proc_final api l ''MD5Final'' w = Some ff))"

text \<open>The function pointers are those of the library once they have been set.\<close>
definition md5_ready ::
  "(MD5_CTX \<Rightarrow> octet list option) \<Rightarrow> (octet list \<Rightarrow> octet list) \<Rightarrow> ('w, 'z) md5_sys_scheme \<Rightarrow> bool" where
  "md5_ready absorbed h s \<longleftrightarrow>
     (\<exists>fi fu ff. MD5Init s = Some fi \<and> MD5Update s = Some fu \<and> MD5Final s = Some ff \<and> md5_functions absorbed h fi fu ff)"

definition md5_wf ::
  "(MD5_CTX \<Rightarrow> octet list option) \<Rightarrow> (octet list \<Rightarrow> octet list) \<Rightarrow> ('w, 'z) md5_sys_scheme \<Rightarrow> bool" where
  "md5_wf absorbed h s \<longleftrightarrow> (md5_once s \<longrightarrow> md5_ready absorbed h s)"

text \<open>A context is updated with the pieces of a message, one after the other.\<close>
primrec update_pieces ::
  "ptr \<Rightarrow> octet list list \<Rightarrow> ('w, 'z) md5_sys_scheme \<Rightarrow> ('w, 'z) md5_sys_scheme" where
  "update_pieces ctx [] s = s"
| "update_pieces ctx (d # ds) s =
     update_pieces ctx ds (snd (wpdk_EVP_DigestUpdate ctx d (of_nat (length d)) s))"

text \<open>A whole digest: a context is made, initialised, updated with the pieces, finished and destroyed.\<close>
definition digest_pieces ::
  "'w md5_api \<Rightarrow> octet list list \<Rightarrow> ('w, 'z) md5_sys_scheme \<Rightarrow> (octet list \<times> ('w, 'z) md5_sys_scheme) option" where
  "digest_pieces api ds s =
     (let (ctx, s1) = wpdk_EVP_MD_CTX_create api s
      in Option.bind (wpdk_EVP_DigestInit_ex api ctx wpdk_EVP_md5 s1) (\<lambda>(_, s2).
           let s3 = update_pieces ctx ds s2;
               (_, digest, s4) = wpdk_EVP_DigestFinal_ex ctx s3
           in Some (digest, wpdk_EVP_MD_CTX_destroy api ctx s4)))"

lemma init_once_ready:
  assumes "md5_library api absorbed h" "md5_wf absorbed h s"
  shows "\<exists>s1. md5_init_once api s = Some s1 \<and> md5_once s1 \<and> md5_ready absorbed h s1 \<and> fault s1 = fault s \<and>
           md5_heap s1 = md5_heap s \<and> md5_static s1 = md5_static s \<and> errno s1 = errno s"
proof (cases "md5_once s")
  case True
  then show ?thesis using assms(2) by (simp add: md5_init_once_def md5_wf_def)
next
  case False
  obtain fi fu ff where l: "md5_functions absorbed h fi fu ff"
    "\<And>w. fst (m_load_library api ''cryptdll.dll'' w) \<noteq> 0"
    "\<And>l w. m_proc_init api l ''MD5Init'' w = Some fi" "\<And>l w. m_proc_update api l ''MD5Update'' w = Some fu"
    "\<And>l w. m_proc_final api l ''MD5Final'' w = Some ff"
    using assms(1) unfolding md5_library_def by blast
  obtain k w where w: "m_load_library api ''cryptdll.dll'' (world s) = (k, w)" by fastforce
  then have "k \<noteq> 0" using l(2) [of "world s"] by simp
  then show ?thesis using False l(1,3-5) w
    by (auto simp: md5_init_once_def wpdk_md5_initialise_def os_call_eq Let_def md5_ready_def)
qed

lemma ready_update:
  assumes "md5_ready absorbed h s" "absorbed c = Some xs" "length d < 2 ^ 32"
  shows "\<exists>c1. wpdk_MD5_Update c d (of_nat (length d)) s = (1, c1, s) \<and> absorbed c1 = Some (xs @ d)"
proof -
  have n: "unat (ucast (of_nat (length d) :: 64 word) :: 32 word) = length d"
    using assms(3) by (simp add: unsigned_ucast_eq unsigned_of_nat take_bit_nat_eq_self)
  then show ?thesis using assms by (auto simp: wpdk_MD5_Update_def md5_ready_def md5_functions_def)
qed

lemma ready_final:
  assumes "md5_ready absorbed h s" "absorbed c = Some xs"
  shows "\<exists>c1. wpdk_MD5_Final c s = (1, h xs, c1, s)"
  using assms by (auto simp: wpdk_MD5_Final_def md5_ready_def md5_functions_def Let_def)

lemma ready_heap [simp]: "md5_ready absorbed h (s\<lparr>md5_heap := m\<rparr>) = md5_ready absorbed h s"
  by (simp add: md5_ready_def)

lemma update_pieces_absorb:
  assumes "md5_ready absorbed h s" "\<forall>d \<in> set ds. length d < 2 ^ 32" "md5_heap s ctx = Some c" "absorbed c = Some xs"
  shows "\<exists>c1. update_pieces ctx ds s = s\<lparr>md5_heap := (md5_heap s)(ctx \<mapsto> c1)\<rparr> \<and> absorbed c1 = Some (xs @ concat ds)"
  using assms
proof (induction ds arbitrary: s c xs)
  case Nil
  then show ?case by (intro exI [of _ c]) (simp add: map_upd_triv)
next
  case (Cons d ds)
  then have "length d < 2 ^ 32" by simp
  from ready_update [OF Cons.prems(1) Cons.prems(4) this]
  obtain c1 where c1: "wpdk_MD5_Update c d (of_nat (length d)) s = (1, c1, s)" "absorbed c1 = Some (xs @ d)" by blast
  let ?s = "s\<lparr>md5_heap := (md5_heap s)(ctx \<mapsto> c1)\<rparr>"
  have "\<exists>c2. update_pieces ctx ds ?s = ?s\<lparr>md5_heap := (md5_heap ?s)(ctx \<mapsto> c2)\<rparr> \<and>
          absorbed c2 = Some ((xs @ d) @ concat ds)"
    using Cons.prems c1 by (intro Cons.IH [of ?s c1]) simp_all
  then obtain c2 where "update_pieces ctx ds ?s = ?s\<lparr>md5_heap := (md5_heap ?s)(ctx \<mapsto> c2)\<rparr>"
    "absorbed c2 = Some ((xs @ d) @ concat ds)" by blast
  then show ?case using Cons.prems c1 by (intro exI [of _ c2]) (simp add: wpdk_EVP_DigestUpdate_def del: fun_upd_apply)
qed

lemma MD5_Init_ready:
  assumes "md5_library api absorbed h" "md5_wf absorbed h s"
  shows "\<exists>c1 s1. wpdk_MD5_Init api c s = Some (1, c1, s1) \<and> absorbed c1 = Some [] \<and> md5_ready absorbed h s1 \<and> md5_once s1 \<and>
           fault s1 = fault s \<and> md5_heap s1 = md5_heap s \<and> md5_static s1 = md5_static s \<and> errno s1 = errno s"
proof -
  obtain s1 where s1: "md5_init_once api s = Some s1" "md5_once s1" "md5_ready absorbed h s1" "fault s1 = fault s"
    "md5_heap s1 = md5_heap s" "md5_static s1 = md5_static s" "errno s1 = errno s"
    using init_once_ready [OF assms] by blast
  then obtain fi where "MD5Init s1 = Some fi" "\<And>c. absorbed (fi c) = Some []"
    by (auto simp: md5_ready_def md5_functions_def)
  then show ?thesis using s1 by (simp add: wpdk_MD5_Init_def)
qed

lemma MD5_one_call:
  assumes "md5_library api absorbed h" "md5_wf absorbed h s" "length d < 2 ^ 32"
  shows "\<exists>s'. wpdk_MD5 api c d (of_nat (length d)) True s = Some (h d, s') \<and> fault s' = fault s \<and> md5_heap s' = md5_heap s"
proof -
  obtain c1 s1 where i: "wpdk_MD5_Init api c s = Some (1, c1, s1)" "absorbed c1 = Some []" "md5_ready absorbed h s1"
    "fault s1 = fault s" "md5_heap s1 = md5_heap s" using MD5_Init_ready [OF assms(1,2)] by blast
  have n: "ucast (of_nat (length d) :: 32 word) = (of_nat (length d) :: 64 word)"
    using assms(3) by (intro unsigned_word_eqI [where ?'a = nat]) (simp add: unsigned_ucast_eq unsigned_of_nat take_bit_nat_eq_self)
  obtain c2 where c2: "wpdk_MD5_Update c1 d (of_nat (length d)) s1 = (1, c2, s1)" "absorbed c2 = Some d"
    using ready_update [OF i(3,2) assms(3)] by auto
  obtain c3 where "wpdk_MD5_Final c2 s1 = (1, h d, c3, s1)" using ready_final [OF i(3) c2(2)] by blast
  then show ?thesis using i(1,4,5) c2(1) n by (simp add: wpdk_MD5_def)
qed


text \<open>A length of 4 GiB is cut to no data at all.\<close>

lemma update_cuts_length:
  assumes "MD5Update s = Some f"
  shows "wpdk_MD5_Update c d (2 ^ 32) s = (1, f c [] 0, s)"
proof -
  have "ucast (2 ^ 32 :: 64 word) = (0 :: 32 word)" by code_simp
  then show ?thesis using assms by (simp only: wpdk_MD5_Update_def Let_def) simp
qed

text \<open>An update before any initialisation calls through a null pointer.\<close>

lemma update_before_init:
  assumes "MD5Update s = None"
  shows "fault (snd (snd (wpdk_MD5_Update c d len s)))"
  using assms by (simp add: wpdk_MD5_Update_def set_fault_def)

text \<open>A library that keeps the data in the context and whose digest is its last sixteen bytes.\<close>

definition demo_md5_api :: "nat md5_api" where
  "demo_md5_api =
     \<lparr>m_load_library = (\<lambda>_ w. (1, w)), m_proc_init = (\<lambda>_ _ _. Some (\<lambda>c. c\<lparr>md_in := []\<rparr>)),
      m_proc_update = (\<lambda>_ _ _. Some (\<lambda>c d _. c\<lparr>md_in := md_in c @ d\<rparr>)),
      m_proc_final = (\<lambda>_ _ _. Some (\<lambda>c. c\<lparr>md_digest := take 16 (rev (md_in c) @ replicate 16 0)\<rparr>)),
      m_calloc = (\<lambda>w. (Suc w, Suc w)), m_free = (\<lambda>_ w. w)\<rparr>"

lemma demo_md5_library:
  "md5_library demo_md5_api (\<lambda>c. Some (md_in c)) (\<lambda>xs. take 16 (rev xs @ replicate 16 0))"
  unfolding md5_library_def
  by (rule exI [of _ "\<lambda>c. c\<lparr>md_in := []\<rparr>"], rule exI [of _ "\<lambda>c d _. c\<lparr>md_in := md_in c @ d\<rparr>"],
      rule exI [of _ "\<lambda>c. c\<lparr>md_digest := take 16 (rev (md_in c) @ replicate 16 0)\<rparr>"])
    (auto simp: demo_md5_api_def md5_functions_def MD5_DIGEST_LENGTH_def min_def)


definition demo_md5_sys :: "nat md5_sys" where
  "demo_md5_sys = \<lparr>errno = 0, fault = False, world = 0, MD5Init = None, MD5Update = None, MD5Final = None,
     md5_once = False, md5_static = [], md5_heap = Map.empty\<rparr>"


end
