(* ===== verification/Netdb.thy ===== *)
theory Netdb
  imports Sockets
begin

text \<open>
  Names and addresses: \<^verbatim>\<open>src/netdb.c\<close> and \<^verbatim>\<open>src/inet.c\<close>.

  The resolver of Winsock is a parameter. \<^verbatim>\<open>wpdk_gai_strerror\<close> keeps copies of the messages of
  Winsock in the static table \<open>gai_errors\<close>: it reads an entry without a lock, and fills it under the lock \<open>gai_lock\<close>
  if it is empty. Its sections between two accesses to the table are the steps of the relation \<open>gai_step\<close>, in which
  any number of threads interleave; the function as a whole, \<open>wpdk_gai_strerror\<close>, is their sequence.
\<close>

section \<open>Addresses\<close>

definition EAI_AGAIN :: int where [errno_simps]: "EAI_AGAIN = 11002"
definition EAI_BADFLAGS :: int where [errno_simps]: "EAI_BADFLAGS = 10022"
definition EAI_FAIL :: int where [errno_simps]: "EAI_FAIL = 11003"
definition EAI_FAMILY :: int where [errno_simps]: "EAI_FAMILY = 10047"
definition EAI_MEMORY :: int where [errno_simps]: "EAI_MEMORY = 8"
definition EAI_NONAME :: int where [errno_simps]: "EAI_NONAME = 11001"
definition EAI_SERVICE :: int where [errno_simps]: "EAI_SERVICE = 10109"
definition EAI_SOCKTYPE :: int where [errno_simps]: "EAI_SOCKTYPE = 10044"
definition EAI_NOSECURENAME :: int where [errno_simps]: "EAI_NOSECURENAME = 11032"
definition EAI_IPSECPOLICY :: int where [errno_simps]: "EAI_IPSECPOLICY = 11033"

text \<open>The query is that of Winsock for the given node, service and hints; \<^verbatim>\<open>res\<close> is part of the world.\<close>
definition wpdk_getaddrinfo ::
  "'w winsock \<Rightarrow> ('w \<Rightarrow> int \<times> 'w) \<Rightarrow> ('w, 'z) sock_sys_scheme \<Rightarrow> int \<times> ('w, 'z) sock_sys_scheme" where
  "wpdk_getaddrinfo ws query s =
     (let (ok, s1) = wpdk_socket_startup ws s
      in if ok then os_call query s1
         else (let s2 = snd (wpdk_last_wsa_error (ws_last_error ws) s1)
               in (if errno s2 = ENOMEM then EAI_MEMORY else EAI_FAIL, s2)))"

definition wpdk_freeaddrinfo :: "('w \<Rightarrow> 'w) \<Rightarrow> ('w, 'z) sys_scheme \<Rightarrow> ('w, 'z) sys_scheme" where
  "wpdk_freeaddrinfo free_info s = s\<lparr>world := free_info (world s)\<rparr>"

text \<open>The conversions of Winsock; \<open>pton af src\<close> is the result and the bytes of the address.\<close>
record inet_api =
  in_htonl :: "32 word \<Rightarrow> 32 word"
  in_htons :: "16 word \<Rightarrow> 16 word"
  in_ntohl :: "32 word \<Rightarrow> 32 word"
  in_ntohs :: "16 word \<Rightarrow> 16 word"
  in_addr :: "string \<Rightarrow> 32 word"
  in_ntoa :: "32 word \<Rightarrow> string"
  in_ntop :: "int \<Rightarrow> 8 word list \<Rightarrow> int \<Rightarrow> string option"
  in_pton :: "int \<Rightarrow> string \<Rightarrow> int \<times> 8 word list"

definition wpdk_htonl :: "inet_api \<Rightarrow> 32 word \<Rightarrow> 32 word" where "wpdk_htonl api hostlong = in_htonl api hostlong"
definition wpdk_htons :: "inet_api \<Rightarrow> 16 word \<Rightarrow> 16 word" where "wpdk_htons api hostshort = in_htons api hostshort"
definition wpdk_ntohl :: "inet_api \<Rightarrow> 32 word \<Rightarrow> 32 word" where "wpdk_ntohl api netlong = in_ntohl api netlong"
definition wpdk_ntohs :: "inet_api \<Rightarrow> 16 word \<Rightarrow> 16 word" where "wpdk_ntohs api netshort = in_ntohs api netshort"
definition wpdk_inet_addr :: "inet_api \<Rightarrow> string \<Rightarrow> 32 word" where "wpdk_inet_addr api cp = in_addr api cp"
definition wpdk_inet_ntoa :: "inet_api \<Rightarrow> 32 word \<Rightarrow> string" where "wpdk_inet_ntoa api a = in_ntoa api a"

definition wpdk_inet_ntop :: "inet_api \<Rightarrow> int \<Rightarrow> 8 word list \<Rightarrow> int \<Rightarrow> string option" where
  "wpdk_inet_ntop api af src len = in_ntop api af src len"

definition wpdk_inet_pton :: "inet_api \<Rightarrow> int \<Rightarrow> string \<Rightarrow> int \<times> 8 word list" where
  "wpdk_inet_pton api af src = in_pton api af src"

definition wpdk_inet_aton :: "inet_api \<Rightarrow> string \<Rightarrow> int \<times> 8 word list" where
  "wpdk_inet_aton api cp = wpdk_inet_pton api 2 cp"

text \<open>A query starts Winsock when needed and has no effect on the descriptors that are in use.\<close>

lemma getaddrinfo_keeps_sockets:
  assumes "winsock_handles ws api L" "sockets_owned L s" "socket_ready s = 0" "keeps L query"
  shows "sockets_owned L (snd (wpdk_getaddrinfo ws query s))"
proof -
  obtain ok s1 where s1: "wpdk_socket_startup ws s = (ok, s1)" by fastforce
  then have o1: "sockets_owned L s1" using socket_startup_owned(1) [OF assms(1-3)] by simp
  show ?thesis
  proof (cases ok)
    case True
    then show ?thesis using s1 assms(4) by (auto simp: wpdk_getaddrinfo_def keeps_def intro!: sockets_owned_same [OF o1])
  next
    case False
    then show ?thesis using s1 by (auto simp: wpdk_getaddrinfo_def Let_def intro!: sockets_owned_same [OF o1])
  qed
qed

section \<open>Messages\<close>

type_synonym gai_table = "(int \<times> string option) list"

record 'w gai_api =
  ga_strerror :: "int \<Rightarrow> string"
  ga_strdup :: "string \<Rightarrow> 'w \<Rightarrow> bool \<times> 'w"

definition gai_codes :: "int list" where
  "gai_codes = [0, EAI_AGAIN, EAI_BADFLAGS, EAI_FAIL, EAI_FAMILY, EAI_MEMORY, EAI_NONAME, EAI_SERVICE, EAI_SOCKTYPE,
     EAI_NOSECURENAME, EAI_IPSECPOLICY]"

definition unknown_error :: string where "unknown_error = ''Unknown GAI error''"

definition gai_errors :: gai_table where
  "gai_errors = map (\<lambda>c. (c, None)) gai_codes @ [(- 1, Some unknown_error)]"

text \<open>The search for a code ends at the last entry at the latest.\<close>
primrec gai_index :: "gai_table \<Rightarrow> int \<Rightarrow> nat" where
  "gai_index [] ecode = 0"
| "gai_index (g # gs) ecode = (if fst g \<noteq> - 1 \<and> fst g \<noteq> ecode then Suc (gai_index gs ecode) else 0)"

definition gai_message :: "gai_table \<Rightarrow> nat \<Rightarrow> string option" where
  "gai_message tbl i = snd (tbl ! i)"

text \<open>The section under the lock.\<close>
definition gai_fill :: "'w gai_api \<Rightarrow> int \<Rightarrow> nat \<Rightarrow> gai_table \<times> 'w \<Rightarrow> gai_table \<times> 'w" where
  "gai_fill api ecode i = (\<lambda>(tbl, w).
     if gai_message tbl i = None
     then (let (ok, w1) = ga_strdup api (ga_strerror api ecode) w
           in (if ok then tbl[i := (fst (tbl ! i), Some (ga_strerror api ecode))] else tbl, w1))
     else (tbl, w))"

definition gai_result :: "gai_table \<Rightarrow> nat \<Rightarrow> string" where
  "gai_result tbl i = (case gai_message tbl i of Some m \<Rightarrow> m | None \<Rightarrow> unknown_error)"

definition wpdk_gai_strerror :: "'w gai_api \<Rightarrow> int \<Rightarrow> gai_table \<times> 'w \<Rightarrow> string \<times> gai_table \<times> 'w" where
  "wpdk_gai_strerror api ecode = (\<lambda>(tbl, w).
     let i = gai_index tbl ecode
     in case gai_message tbl i of
          Some m \<Rightarrow> (m, tbl, w)
        | None \<Rightarrow> (let (tbl1, w1) = gai_fill api ecode i (tbl, w) in (gai_result tbl1 i, tbl1, w1)))"

subsection \<open>Interleaving\<close>

text \<open>
  Where a thread is: at the first read of the entry, waiting for the lock, about to fill the entry, about to
  release the lock, at the last read, and returned. A thread that has returned may call again.
\<close>
datatype gai_pc =
  Idle
| Enter int
| Await int nat
| Fill int nat
| Release int nat
| Final int nat
| Returned int string

record 'w gai_state =
  gs_table :: gai_table
  gs_world :: 'w
  gs_lock :: "nat option"
  gs_pc :: "nat \<Rightarrow> gai_pc"

abbreviation goto :: "nat \<Rightarrow> gai_pc \<Rightarrow> 'w gai_state \<Rightarrow> 'w gai_state" where
  "goto t p s \<equiv> s\<lparr>gs_pc := (gs_pc s)(t := p)\<rparr>"

inductive gai_step :: "'w gai_api \<Rightarrow> 'w gai_state \<Rightarrow> 'w gai_state \<Rightarrow> bool" for api where
  call: "gs_pc s t = Idle \<or> gs_pc s t = Returned e m \<Longrightarrow> gai_step api s (goto t (Enter e') s)"
| found: "gs_pc s t = Enter e \<Longrightarrow> gai_message (gs_table s) (gai_index (gs_table s) e) = Some m \<Longrightarrow>
    gai_step api s (goto t (Returned e m) s)"
| missing: "gs_pc s t = Enter e \<Longrightarrow> i = gai_index (gs_table s) e \<Longrightarrow> gai_message (gs_table s) i = None \<Longrightarrow>
    gai_step api s (goto t (Await e i) s)"
| acquire: "gs_pc s t = Await e i \<Longrightarrow> gs_lock s = None \<Longrightarrow>
    gai_step api s (goto t (Fill e i) (s\<lparr>gs_lock := Some t\<rparr>))"
| fill: "gs_pc s t = Fill e i \<Longrightarrow> gai_fill api e i (gs_table s, gs_world s) = (tbl, w) \<Longrightarrow>
    gai_step api s (goto t (Release e i) (s\<lparr>gs_table := tbl, gs_world := w\<rparr>))"
| release: "gs_pc s t = Release e i \<Longrightarrow> gai_step api s (goto t (Final e i) (s\<lparr>gs_lock := None\<rparr>))"
| last: "gs_pc s t = Final e i \<Longrightarrow> gai_step api s (goto t (Returned e (gai_result (gs_table s) i)) s)"

definition gai_initial :: "'w \<Rightarrow> 'w gai_state" where
  "gai_initial w = \<lparr>gs_table = gai_errors, gs_world = w, gs_lock = None, gs_pc = (\<lambda>_. Idle)\<rparr>"

text \<open>The copies that have been made, \<open>copies\<close>, are counted by the allocator.\<close>
definition strdup_counts :: "'w gai_api \<Rightarrow> ('w \<Rightarrow> nat) \<Rightarrow> bool" where
  "strdup_counts api copies \<longleftrightarrow>
     (\<forall>m w. copies (snd (ga_strdup api m w)) = copies w + (if fst (ga_strdup api m w) then 1 else 0))"

definition cached :: "gai_table \<Rightarrow> nat set" where
  "cached tbl = {i. i < length gai_codes \<and> gai_message tbl i \<noteq> None}"

text \<open>Every entry is empty or has the message of its code.\<close>
definition table_ok :: "'w gai_api \<Rightarrow> gai_table \<Rightarrow> bool" where
  "table_ok api tbl \<longleftrightarrow>
     map fst tbl = gai_codes @ [- 1] \<and> gai_message tbl (length gai_codes) = Some unknown_error \<and>
     (\<forall>i < length gai_codes. gai_message tbl i \<in> {None, Some (ga_strerror api (gai_codes ! i))})"

definition known :: "'w gai_api \<Rightarrow> int \<Rightarrow> string" where
  "known api e = (if e \<in> set gai_codes then ga_strerror api e else unknown_error)"

definition pc_ok :: "'w gai_api \<Rightarrow> gai_pc \<Rightarrow> bool" where
  "pc_ok api p \<longleftrightarrow>
     (case p of
        Await e i \<Rightarrow> i < length gai_codes \<and> gai_codes ! i = e
      | Fill e i \<Rightarrow> i < length gai_codes \<and> gai_codes ! i = e
      | Release e i \<Rightarrow> i < length gai_codes \<and> gai_codes ! i = e
      | Final e i \<Rightarrow> i < length gai_codes \<and> gai_codes ! i = e
      | Returned e m \<Rightarrow> m = known api e \<or> m = unknown_error
      | _ \<Rightarrow> True)"

definition gai_inv :: "'w gai_api \<Rightarrow> ('w \<Rightarrow> nat) \<Rightarrow> nat \<Rightarrow> 'w gai_state \<Rightarrow> bool" where
  "gai_inv api copies n s \<longleftrightarrow>
     table_ok api (gs_table s) \<and> (\<forall>t. pc_ok api (gs_pc s t)) \<and>
     copies (gs_world s) = n + card (cached (gs_table s))"

lemma index_codes:
  assumes "map fst tbl = cs @ [- 1]"
  shows "gai_index tbl e \<le> length cs \<and> (gai_index tbl e < length cs \<longrightarrow> - 1 \<notin> set cs \<longrightarrow> cs ! gai_index tbl e = e) \<and>
         (e \<in> set cs \<longrightarrow> - 1 \<notin> set cs \<longrightarrow> gai_index tbl e < length cs)"
  using assms
proof (induction cs arbitrary: tbl)
  case Nil
  then show ?case by (cases tbl) auto
next
  case (Cons c cs)
  then obtain g gs where "tbl = g # gs" "fst g = c" "map fst gs = cs @ [- 1]" by (cases tbl) auto
  then show ?case using Cons.IH [of gs] by auto
qed

lemma codes_valid: "- 1 \<notin> set gai_codes"
  by (simp add: gai_codes_def errno_simps)

lemma table_length: "table_ok api tbl \<Longrightarrow> length tbl = Suc (length gai_codes)"
  unfolding table_ok_def by (metis length_map length_append_singleton)

lemma table_index:
  assumes "table_ok api tbl"
  shows "gai_index tbl e \<le> length gai_codes"
    and "gai_index tbl e < length gai_codes \<Longrightarrow> gai_codes ! gai_index tbl e = e"
    and "e \<in> set gai_codes \<Longrightarrow> gai_index tbl e < length gai_codes"
  using index_codes [of tbl gai_codes e] assms codes_valid by (auto simp: table_ok_def)

lemma message_known:
  assumes "table_ok api tbl" "gai_message tbl (gai_index tbl e) = Some m"
  shows "m = known api e"
proof (cases "gai_index tbl e < length gai_codes")
  case True
  then have "gai_codes ! gai_index tbl e = e" by (rule table_index(2) [OF assms(1)])
  then show ?thesis using assms True nth_mem [OF True] by (auto simp: table_ok_def known_def)
next
  case False
  then have "gai_index tbl e = length gai_codes" "e \<notin> set gai_codes" using table_index [OF assms(1), of e] by auto
  then show ?thesis using assms by (auto simp: table_ok_def known_def)
qed

lemma missing_index:
  assumes "table_ok api tbl" "gai_message tbl (gai_index tbl e) = None"
  shows "gai_index tbl e < length gai_codes \<and> gai_codes ! gai_index tbl e = e"
proof -
  have "gai_index tbl e \<noteq> length gai_codes" using assms by (auto simp: table_ok_def)
  then show ?thesis using table_index [OF assms(1), of e] by auto
qed

lemma result_known:
  assumes "table_ok api tbl" "i < length gai_codes" "gai_codes ! i = e"
  shows "gai_result tbl i = known api e \<or> gai_result tbl i = unknown_error"
proof -
  have "gai_message tbl i \<in> {None, Some (ga_strerror api e)}" "e \<in> set gai_codes"
    using assms nth_mem by (auto simp: table_ok_def)
  then show ?thesis by (auto simp: gai_result_def known_def)
qed

text \<open>The section under the lock fills an entry that is empty, counts a copy for it, and changes no other.\<close>

lemma fill_effect:
  assumes "table_ok api tbl" "i < length gai_codes" "gai_codes ! i = e" "strdup_counts api copies"
    and "gai_fill api e i (tbl, w) = (tbl', w')"
  shows "table_ok api tbl'" "copies w' + card (cached tbl) = copies w + card (cached tbl')"
    and "\<And>j m. gai_message tbl j = Some m \<Longrightarrow> gai_message tbl' j = Some m"
proof -
  have l: "i < length tbl" using table_length [OF assms(1)] assms(2) by simp
  have fst_i: "fst (tbl ! i) = e" using assms(1-3) l
    by (metis nth_map table_ok_def nth_append)
  have counts: "copies (snd (ga_strdup api m v)) = copies v + (if fst (ga_strdup api m v) then 1 else 0)" for m v
    using assms(4) by (simp add: strdup_counts_def)
  consider (same) "tbl' = tbl" "copies w' = copies w"
    | (new) "gai_message tbl i = None" "tbl' = tbl[i := (e, Some (ga_strerror api e))]" "copies w' = copies w + 1"
    using assms(5) [symmetric] fst_i counts [of "ga_strerror api e" w]
    by (cases "gai_message tbl i"; cases "ga_strdup api (ga_strerror api e) w") (simp_all add: gai_fill_def split: if_splits)
  then have "table_ok api tbl' \<and> copies w' + card (cached tbl) = copies w + card (cached tbl') \<and>
    (\<forall>j m. gai_message tbl j = Some m \<longrightarrow> gai_message tbl' j = Some m)"
  proof cases
    case same
    then show ?thesis using assms(1) by simp
  next
    case new
    have m: "gai_message tbl' j = (if j = i then Some (ga_strerror api e) else gai_message tbl j)" for j
      using new(2) l by (simp add: gai_message_def)
    have "cached tbl' = insert i (cached tbl)" "i \<notin> cached tbl" "finite (cached tbl)"
      using assms(2) new(1) by (auto simp: cached_def m)
    moreover have "map fst tbl' = map fst tbl"
      using new(2) fst_i l by (metis list_update_id map_update fst_conv nth_map length_map)
    ultimately show ?thesis using assms(1-3) new(1,3) by (auto simp: table_ok_def m)
  qed
  then show "table_ok api tbl'" "copies w' + card (cached tbl) = copies w + card (cached tbl')"
    "\<And>j m. gai_message tbl j = Some m \<Longrightarrow> gai_message tbl' j = Some m" by blast+
qed

lemma step_inv:
  assumes "gai_step api s s'" "gai_inv api copies n s" "strdup_counts api copies"
  shows "gai_inv api copies n s' \<and> (\<forall>j m. gai_message (gs_table s) j = Some m \<longrightarrow> gai_message (gs_table s') j = Some m)"
  using assms(1)
proof cases
  case (fill t e i tbl w)
  have ok: "table_ok api (gs_table s)" "i < length gai_codes \<and> gai_codes ! i = e"
    using assms(2) fill(2) by (auto simp: gai_inv_def pc_ok_def dest!: spec [of _ t])
  note f = fill_effect [OF ok(1) ok(2) [THEN conjunct1] ok(2) [THEN conjunct2] assms(3) fill(3)]
  show ?thesis using fill ok assms(2) f by (auto simp: gai_inv_def pc_ok_def)
qed (use assms(2) in \<open>auto simp: gai_inv_def pc_ok_def dest: message_known missing_index result_known split: gai_pc.splits\<close>)

lemma steps_inv:
  assumes "(gai_step api)\<^sup>*\<^sup>* s s'" "gai_inv api copies n s" "strdup_counts api copies"
  shows "gai_inv api copies n s' \<and> (\<forall>j m. gai_message (gs_table s) j = Some m \<longrightarrow> gai_message (gs_table s') j = Some m)"
  using assms(1)
proof induction
  case base
  then show ?case using assms(2) by simp
next
  case (step s1 s2)
  then show ?case using step_inv [OF step.hyps(2) _ assms(3)] by blast
qed

lemma initial_inv: "gai_inv api copies (copies w) (gai_initial w)"
proof -
  have m: "gai_message gai_errors i = None" if "i < length gai_codes" for i
    using that by (simp add: gai_message_def gai_errors_def nth_append)
  have "cached gai_errors = {}" using m by (auto simp: cached_def)
  moreover have "table_ok api gai_errors" unfolding table_ok_def
    using m by (auto simp: gai_errors_def gai_message_def nth_append comp_def)
  ultimately show ?thesis by (simp add: gai_inv_def gai_initial_def pc_ok_def)
qed


text \<open>A thread that is alone makes the steps of the function as a whole.\<close>

lemma gai_strerror_steps:
  assumes "gs_pc s t = Enter e" "gs_lock s = None" "wpdk_gai_strerror api e (gs_table s, gs_world s) = (m, tbl, w)"
  shows "(gai_step api)\<^sup>*\<^sup>* s (goto t (Returned e m) (s\<lparr>gs_table := tbl, gs_world := w\<rparr>))"
proof (cases "gai_message (gs_table s) (gai_index (gs_table s) e)")
  case (Some x)
  then show ?thesis using assms gai_step.found [of s t e x] by (auto simp: wpdk_gai_strerror_def)
next
  case None
  let ?i = "gai_index (gs_table s) e"
  let ?s1 = "goto t (Await e ?i) s"
  let ?s2 = "goto t (Fill e ?i) (?s1\<lparr>gs_lock := Some t\<rparr>)"
  let ?s3 = "goto t (Release e ?i) (?s2\<lparr>gs_table := tbl, gs_world := w\<rparr>)"
  let ?s4 = "goto t (Final e ?i) (?s3\<lparr>gs_lock := None\<rparr>)"
  have f: "gai_fill api e ?i (gs_table s, gs_world s) = (tbl, w)" "m = gai_result tbl ?i"
    using assms(3) None by (auto simp: wpdk_gai_strerror_def Let_def split_beta)
  let ?s5 = "goto t (Returned e (gai_result (gs_table ?s4) ?i)) ?s4"
  have "gai_step api s ?s1" by (rule gai_step.missing) (use assms None in simp_all)
  then have "(gai_step api)\<^sup>*\<^sup>* s ?s1" by (rule r_into_rtranclp)
  moreover have "gai_step api ?s1 ?s2" by (rule gai_step.acquire) (use assms in simp_all)
  ultimately have "(gai_step api)\<^sup>*\<^sup>* s ?s2" by (rule rtranclp.rtrancl_into_rtrancl)
  moreover have "gai_step api ?s2 ?s3" by (rule gai_step.fill) (use f in simp_all)
  ultimately have "(gai_step api)\<^sup>*\<^sup>* s ?s3" by (rule rtranclp.rtrancl_into_rtrancl)
  moreover have "gai_step api ?s3 ?s4" by (rule gai_step.release) simp
  ultimately have "(gai_step api)\<^sup>*\<^sup>* s ?s4" by (rule rtranclp.rtrancl_into_rtrancl)
  moreover have "gai_step api ?s4 ?s5" by (rule gai_step.last) simp
  ultimately have "(gai_step api)\<^sup>*\<^sup>* s ?s5" by (rule rtranclp.rtrancl_into_rtrancl)
  moreover have "?s5 = goto t (Returned e m) (s\<lparr>gs_table := tbl, gs_world := w\<rparr>)"
    using assms(2) f(2) by (cases s) simp
  ultimately show ?thesis by simp
qed

definition demo_gai_api :: "nat gai_api" where
  "demo_gai_api = \<lparr>ga_strerror = (\<lambda>e. if e = EAI_FAIL then ''fail'' else ''other''), ga_strdup = (\<lambda>_ n. (True, Suc n))\<rparr>"


end
