(* ===== verification/Kill_Tool.thy ===== *)
theory Kill_Tool
  imports Signals Stdio
begin

text \<open>
  The program \<^verbatim>\<open>wpdk_kill\<close>, \<^verbatim>\<open>tools/kill/kill.c\<close>, on top of \<^verbatim>\<open>wpdk_kill\<close> of \<^verbatim>\<open>src/signal.c\<close>. The process functions of
  Windows are a parameter. \<open>None\<close> as a signal number is the end of the program in \<^verbatim>\<open>usage\<close>, with the exit code 1. The
  messages to \<^verbatim>\<open>stderr\<close> are not modelled.
\<close>

section \<open>Model\<close>

definition SIGKILL :: int where [errno_simps]: "SIGKILL = 9"
definition STILL_ACTIVE :: int where "STILL_ACTIVE = 259"

text \<open>\<^verbatim>\<open>GetExitCodeProcess\<close> returns a \<^verbatim>\<open>BOOL\<close> and stores the exit code.\<close>
record 'w kill_api =
  ki_signals :: "'w sig_api"
  ki_open_process :: "int \<Rightarrow> 'w \<Rightarrow> nat option \<times> 'w"
  ki_exit_code :: "nat \<Rightarrow> 'w \<Rightarrow> (int \<times> int) \<times> 'w"
  ki_sleep :: "int \<Rightarrow> 'w \<Rightarrow> 'w"
  ki_terminate :: "nat \<Rightarrow> int \<Rightarrow> 'w \<Rightarrow> int \<times> 'w"
  ki_close_handle :: "nat \<Rightarrow> 'w \<Rightarrow> 'w"

definition siglist :: "(string \<times> int) list" where
  "siglist = [(''SIGTERM'', SIGTERM), (''SIGKILL'', SIGKILL), (''SIGINT'', SIGINT)]"

primrec exited_loop ::
  "'w kill_api \<Rightarrow> nat \<Rightarrow> nat \<Rightarrow> ('w, 'z) sig_sys_scheme \<Rightarrow> bool \<times> ('w, 'z) sig_sys_scheme" where
  "exited_loop api h 0 s = (False, s)"
| "exited_loop api h (Suc n) s =
     (case os_call (ki_exit_code api h) s of
        ((rc, code), s1) \<Rightarrow>
          if rc \<noteq> STILL_ACTIVE then (True, s1)
          else exited_loop api h n (s1\<lparr>world := ki_sleep api 20 (world s1)\<rparr>))"

definition process_exited ::
  "'w kill_api \<Rightarrow> nat \<Rightarrow> ('w, 'z) sig_sys_scheme \<Rightarrow> bool \<times> ('w, 'z) sig_sys_scheme" where
  "process_exited api h s = exited_loop api h 250 s"

definition terminate ::
  "'w kill_api \<Rightarrow> nat \<Rightarrow> int \<Rightarrow> ('w, 'z) sig_sys_scheme \<Rightarrow> int \<times> ('w, 'z) sig_sys_scheme" where
  "terminate api h sig s =
     (let (ok, s1) = os_call (ki_terminate api h (128 + sig)) s in (if ok \<noteq> 0 then 1 else 0, s1))"

definition send_signal ::
  "'w kill_api \<Rightarrow> nat \<Rightarrow> int \<Rightarrow> int \<Rightarrow> ('w, 'z) sig_sys_scheme \<Rightarrow> int \<times> ('w, 'z) sig_sys_scheme" where
  "send_signal api h pid sig s =
     (if sig = SIGTERM
      then (let (rc, s1) = wpdk_kill (ki_signals api) pid sig s;
                (exited, s2) = (if rc \<noteq> 0 then (False, s1) else process_exited api h s1)
            in if exited then (rc, s2) else terminate api h sig s2)
      else if sig = SIGKILL then terminate api h sig s
      else if sig = SIGINT then wpdk_kill (ki_signals api) pid sig s
      else if sig = 0 then (0, s)
      else (1, s))"

definition notify_process ::
  "'w kill_api \<Rightarrow> int \<Rightarrow> int \<Rightarrow> ('w, 'z) sig_sys_scheme \<Rightarrow> int \<times> ('w, 'z) sig_sys_scheme" where
  "notify_process api pid sig s =
     (case os_call (ki_open_process api (to_uint32 pid)) s of
        (None, s1) \<Rightarrow> (1, s1)
      | (Some h, s1) \<Rightarrow>
          (let (rc, s2) = send_signal api h pid sig s1
           in (rc, s2\<lparr>world := ki_close_handle api h (world s2)\<rparr>)))"

definition isdigit :: "char \<Rightarrow> bool" where
  "isdigit c \<longleftrightarrow> 48 \<le> (of_char c :: int) \<and> (of_char c :: int) \<le> 57"

text \<open>\<^verbatim>\<open>atoi\<close> on a string that starts with a digit; a number that is too large becomes \<^verbatim>\<open>INT_MAX\<close>.\<close>
definition atoi :: "string \<Rightarrow> int" where
  "atoi str = min INT_MAX (foldl (\<lambda>n c. 10 * n + (of_char c - 48)) 0 (takeWhile isdigit str))"

definition arg_to_signum :: "string \<Rightarrow> int option" where
  "arg_to_signum arg =
     (if arg \<noteq> [] \<and> isdigit (hd arg) then Some (atoi arg)
      else map_option snd (List.find (\<lambda>(name, num). c_stricmp arg name = 0 \<or> c_stricmp arg (drop 3 name) = 0) siglist))"

fun main_loop ::
  "'w kill_api \<Rightarrow> string list \<Rightarrow> int \<Rightarrow> bool \<Rightarrow> int \<Rightarrow> ('w, 'z) sig_sys_scheme \<Rightarrow> int \<times> ('w, 'z) sig_sys_scheme" where
  "main_loop api [] sig expectpid rc s = (rc, s)"
| "main_loop api (arg # args) sig expectpid rc s =
     (if arg \<noteq> [] \<and> hd arg = CHR ''-'' \<and> \<not> expectpid
      then if arg \<noteq> ''-s''
           then (case arg_to_signum (tl arg) of
                   None \<Rightarrow> (1, s)
                 | Some n \<Rightarrow> main_loop api args n expectpid rc s)
           else (case args of
                   [] \<Rightarrow> (1, s)
                 | a # rest \<Rightarrow>
                     (case arg_to_signum a of
                        None \<Rightarrow> (1, s)
                      | Some n \<Rightarrow> main_loop api rest n expectpid rc s))
      else if arg \<noteq> [] \<and> isdigit (hd arg)
      then (case notify_process api (atoi arg) sig s of
              (r, s1) \<Rightarrow> main_loop api args sig True (if r = 0 then 0 else rc) s1)
      else (1, s))"

text \<open>The arguments are those after the name of the program; the result is the exit code.\<close>
definition kill_main ::
  "'w kill_api \<Rightarrow> string list \<Rightarrow> ('w, 'z) sig_sys_scheme \<Rightarrow> int \<times> ('w, 'z) sig_sys_scheme" where
  "kill_main api argv s = (if argv = [] then (1, s) else main_loop api argv SIGTERM False 1 s)"

section \<open>The requests of a command line\<close>

text \<open>
  What a command line asks for: the processes to notify, each with its signal, and whether the command line is
  correct to its end.
\<close>

fun requests :: "string list \<Rightarrow> int \<Rightarrow> bool \<Rightarrow> (int \<times> int) list \<times> bool" where
  "requests [] sig expectpid = ([], True)"
| "requests (arg # args) sig expectpid =
     (if arg \<noteq> [] \<and> hd arg = CHR ''-'' \<and> \<not> expectpid
      then if arg \<noteq> ''-s''
           then (case arg_to_signum (tl arg) of None \<Rightarrow> ([], False) | Some n \<Rightarrow> requests args n expectpid)
           else (case args of
                   [] \<Rightarrow> ([], False)
                 | a # rest \<Rightarrow> (case arg_to_signum a of None \<Rightarrow> ([], False) | Some n \<Rightarrow> requests rest n expectpid))
      else if arg \<noteq> [] \<and> isdigit (hd arg)
      then (let (rs, ok) = requests args sig True in ((atoi arg, sig) # rs, ok))
      else ([], False))"

text \<open>Carrying out requests one after the other: the results and the state.\<close>

primrec notify_all ::
  "'w kill_api \<Rightarrow> (int \<times> int) list \<Rightarrow> ('w, 'z) sig_sys_scheme \<Rightarrow> int list \<times> ('w, 'z) sig_sys_scheme" where
  "notify_all api [] s = ([], s)"
| "notify_all api (r # rs) s =
     (let (rc, s1) = notify_process api (fst r) (snd r) s; (rcs, s2) = notify_all api rs s1 in (rc # rcs, s2))"

lemma main_loop_requests:
  assumes "requests args sig expectpid = (rs, ok)" "notify_all api rs s = (rcs, s')"
  shows "main_loop api args sig expectpid rc s = (if ok then if 0 \<in> set rcs then 0 else rc else 1, s')"
  using assms
proof (induction args sig expectpid arbitrary: rs rcs s s' rc rule: requests.induct)
  case (1 sig expectpid)
  then show ?case by auto
next
  case (2 arg args sig expectpid)
  show ?case
  proof (cases "arg \<noteq> [] \<and> hd arg = CHR ''-'' \<and> \<not> expectpid")
    case True
    note cond = True
    show ?thesis
    proof (cases "arg \<noteq> ''-s''")
      case True
      then show ?thesis using 2(1) [OF cond True, of _ rs s rcs s'] 2(4,5) cond
        by (cases "arg_to_signum (tl arg)") simp_all
    next
      case False
      then show ?thesis using 2(2) [OF cond False, of _ _ _ rs s rcs s'] 2(4,5) cond
        by (cases args; cases "arg_to_signum (hd args)") simp_all
    qed
  next
    case False
    then show ?thesis
    proof (cases "arg \<noteq> [] \<and> isdigit (hd arg)")
      case True
      obtain rs' where rs: "requests args sig True = (rs', ok)" "rs = (atoi arg, sig) # rs'"
        using 2(4) False True by (auto split: prod.splits)
      obtain r s1 where n: "notify_process api (atoi arg) sig s = (r, s1)" by fastforce
      obtain rcs' where a: "notify_all api rs' s1 = (rcs', s')" "rcs = r # rcs'"
        using 2(5) rs(2) n by (auto split: prod.splits)
      show ?thesis using 2(3) [OF False True rs(1) a(1)] False True n a(2) by auto
    next
      case no: False
      then show ?thesis using 2(4,5) False by auto
    qed
  qed
qed

text \<open>
  The program carries out exactly the requests of its command line, in their order, up to the first error in the
  command line. Its exit code is 0 if the command line is correct and a notification has returned 0, and 1 otherwise.
\<close>

theorem kill_main_requests:
  assumes "requests argv SIGTERM False = (rs, ok)" "notify_all api rs s = (rcs, s')" 
  shows "kill_main api argv s = (if ok \<and> 0 \<in> set rcs then 0 else 1, s')"
  using main_loop_requests [OF assms, of 1] assms by (auto simp: kill_main_def)

text \<open>
  \<^verbatim>\<open>process_exited\<close> compares the success of the query with the exit code of a running process. It reports the
  end of the process at once, so the program never waits for a process that has got a \<^verbatim>\<open>SIGTERM\<close>, and never
  terminates it.
\<close>

lemma sigterm_never_waits:
  assumes "ki_exit_code api h (world s) = ((rc, code), w)" "rc \<in> {0, 1}"
  shows "process_exited api h s = (True, s\<lparr>world := w\<rparr>)"
proof -
  have "exited_loop api h (Suc n) s = (True, s\<lparr>world := w\<rparr>)" for n
    using assms by (auto simp: os_call_eq STILL_ACTIVE_def)
  from this [of 249] show ?thesis by (simp add: process_exited_def)
qed

text \<open>The exit code of a \<^verbatim>\<open>SIGKILL\<close> is inverted: it is 1 exactly when the process has been terminated.\<close>

lemma sigkill_inverted:
  assumes "ki_open_process api (to_uint32 pid) (world s) = (Some h, w)" "ki_terminate api h (128 + SIGKILL) w = (ok, w')"
  shows "fst (notify_process api pid SIGKILL s) = (if ok \<noteq> 0 then 1 else 0)"
  using assms by (simp add: notify_process_def send_signal_def terminate_def os_call_eq errno_simps)

lemma kill_usage_examples:
  "requests [''-9'', ''12'', ''7''] SIGTERM False = ([(12, 9), (7, 9)], True)"
  "requests [''-s'', ''int'', ''12''] SIGTERM False = ([(12, SIGINT)], True)"
  "requests [''12'', ''-9'', ''7''] SIGTERM False = ([(12, SIGTERM)], False)"
  by code_simp+

end
