(* ===== verification/Spec2Isabelle.thy ===== *)
theory Spec2Isabelle
  imports Epoll Threads Uuid Aio Getopt Clock Pthread_Sync Signals File_Lock Queue_Refine
    Fnmatch Descriptors Process Dirent Stdlib Stdio Mman Ifaddrs Md5 Netdb Kill_Tool
begin

text \<open>
  A verification of the Windows Platform Development Kit, a library that gives POSIX programs the functions
  that Windows lacks. Paths are relative to \<^verbatim>\<open>src/\<close>: the implementation is in \<^verbatim>\<open>src/src\<close>, the headers are in
  \<^verbatim>\<open>src/inc\<close>, the program \<^verbatim>\<open>wpdk_kill\<close> is in \<^verbatim>\<open>src/tools\<close>. Below, \<^verbatim>\<open>src/x.c\<close> and \<^verbatim>\<open>inc/x.h\<close> stand for these files.

  \<^bold>\<open>How the code is modelled.\<close> A C function is a HOL function of the same name. The state that it works on is an
  argument and part of the result: the record \<open>sys\<close> of \<open>WPDK_Prelude\<close> has \<^verbatim>\<open>errno\<close>, the flag \<open>fault\<close>, which an invalid memory
  access sets, and the \<open>world\<close>, which is everything that only Windows can see; a component extends the record by its static variables. The
  Windows API, Winsock and the C runtime are parameters, records of functions on the world. What a theorem needs to know about them is a
  hypothesis that states their documented behaviour (\<open>winsock_handles\<close>, \<open>write_contract\<close>, \<open>dir_contract\<close>, \<open>map_contract\<close> and so
  on, each in the theory that uses it), and every property with such a hypothesis has a witness in which it holds. An error is the returned
  value together with \<^verbatim>\<open>errno\<close>; a NULL pointer is \<open>None\<close> or \<open>0\<close>; integers are unbounded with the wrap-around written
  out (\<open>to_int32\<close>, \<open>to_uint64\<close>) or words where the code works on bits. A loop whose end depends on
  the environment is a \<^theory_text>\<open>partial_function\<close> with the value \<open>None\<close> if it does not end, and that it ends is a theorem.

  \<^bold>\<open>Interfaces.\<close> Six locales state contracts between components; each is interpreted on the definitions of the model.
  \<^item> \<open>slot_table\<close> (\<open>Slot_Table\<close>): a fixed array with free elements; sockets, epoll instances and threads are
    allocated in such tables.
  \<^item> \<open>path_invariant\<close> (\<open>Path_Map\<close>): what every user of the path translation may rely on to stay unchanged.
  \<^item> \<open>set_impl\<close> (\<open>Set_Interface\<close>): sets of small numbers; \<^verbatim>\<open>fd_set\<close>, \<^verbatim>\<open>cpu_set_t\<close> and \<^verbatim>\<open>sigset_t\<close> provide it.
  \<^item> \<open>codec\<close> (\<open>Codec\<close>): two representations of the same values; the two forms of an identifier provide it.
  \<^item> \<open>fifo\<close> (\<open>Fifo\<close>): a bounded queue; the completion ring of \<^verbatim>\<open>src/aio.c\<close> and the \<^verbatim>\<open>STAILQ\<close> macros provide it.
  \<^item> \<open>attribute\<close> (\<open>Attributes\<close>): a variable with a range, read and set through functions.

  \<^bold>\<open>Foundations.\<close> \<open>WPDK_Prelude\<close> has the state, error numbers and shared lemmas; \<open>Error_Map\<close> models \<^verbatim>\<open>src/error.c\<close>, the translation
  of Windows errors, and shows that it yields error numbers only; \<open>C_String\<close> models the string functions of the C
  runtime on strings with their terminator.

  \<^bold>\<open>Descriptors.\<close>
  \<^item> \<open>Path_Map\<close> (\<^verbatim>\<open>src/fcntl.c\<close>, first half): the table of directory mappings, its initialisation and the translation of a path, which every
    call with a path makes. The table stays sorted, bounded and normalised; a path is translated by a longest matching
    directory and fits the buffer.
  \<^item> \<open>Sockets\<close> (\<^verbatim>\<open>src/socket.c\<close>): the descriptor table and the calls on it. Descriptors in use and open Windows sockets
    correspond one to one in every reachable state; what \<^verbatim>\<open>socket\<close> and \<^verbatim>\<open>close\<close> do; scatter/gather arrays are converted
    without loss.
  \<^item> \<open>Poll_Select\<close> (\<^verbatim>\<open>src/select.c\<close>, \<^verbatim>\<open>src/poll.c\<close>) and \<open>Epoll\<close> (\<^verbatim>\<open>src/epoll.c\<close>): waiting for descriptors. An epoll instance implements
    a finite map; both ask for exactly the descriptors of the caller and report what \<^verbatim>\<open>select\<close> has found.
  \<^item> \<open>Descriptors\<close> (\<^verbatim>\<open>src/unistd.c\<close>, \<^verbatim>\<open>src/stat.c\<close>, \<^verbatim>\<open>src/uio.c\<close>, \<^verbatim>\<open>src/termios.c\<close> and parts of \<^verbatim>\<open>src/fcntl.c\<close>, \<^verbatim>\<open>src/stdio.c\<close>,
    \<^verbatim>\<open>src/mman.c\<close>): the calls that take a path or any kind of descriptor. Sockets, epoll instances and files are kept apart; vectored
    input and output transfers a prefix of the segments.
  \<^item> \<open>File_Lock\<close> (\<^verbatim>\<open>src/fcntl.c\<close>, second half, \<^verbatim>\<open>src/file.c\<close>, \<^verbatim>\<open>wpdk_lockf\<close>): locks on ranges, their exact range, and that a
    test leaves the locks alone.
  \<^item> \<open>Dirent\<close> (\<^verbatim>\<open>src/dirent.c\<close>): a directory stream is a list with a position, and gives back what it takes.
  \<^item> \<open>Mman\<close> (\<^verbatim>\<open>src/mman.c\<close>): mapping and unmapping are inverse. \<open>Ifaddrs\<close> (\<^verbatim>\<open>src/ifaddrs.c\<close>, \<^verbatim>\<open>src/ioctl.c\<close>): the list of interfaces, its memory, and the flags by
    name. \<open>Netdb\<close> (\<^verbatim>\<open>src/netdb.c\<close>, \<^verbatim>\<open>src/inet.c\<close>): names, and the cache of messages under interleaving.

  \<^bold>\<open>Threads and time.\<close>
  \<^item> \<open>Threads\<close> (\<^verbatim>\<open>src/pthread.c\<close>, thread table): control blocks on an explicit heap, the critical sections as the steps of an
    interleaving. No block is used after it was freed, freed twice or leaked; a join delivers the result of its thread and
    returns when the system reports its end.
  \<^item> \<open>Attributes\<close>, \<open>Cpuset\<close> (\<^verbatim>\<open>inc/sched.h\<close>), \<open>Pthread_Sync\<close> (the rest of \<^verbatim>\<open>src/pthread.c\<close>): attributes are variables with ranges; the macros on
    processor sets are set operations; affinity and names are read back as set.
  \<^item> \<open>Clock\<close> (\<^verbatim>\<open>src/time.c\<close>, \<^verbatim>\<open>src/semaphore.c\<close>, \<^verbatim>\<open>src/resource.c\<close>): clocks, timeouts accurate to a millisecond, semaphores, resource limits.
  \<^item> \<open>Signals\<close> (\<^verbatim>\<open>src/signal.c\<close>): actions, delivery, signals between processes. \<open>Process\<close> (rest of \<^verbatim>\<open>src/unistd.c\<close>, \<^verbatim>\<open>src/wait.c\<close>, \<^verbatim>\<open>src/pwd.c\<close>): sleeping,
    system parameters, identities. \<open>Kill_Tool\<close> (\<^verbatim>\<open>tools/kill/kill.c\<close>): the program carries out the requests of its command line.
  \<^item> \<open>Aio\<close> (\<^verbatim>\<open>src/aio.c\<close>, \<^verbatim>\<open>inc/libaio.h\<close>): requests complete exactly once and in order, vector requests with one event.

  \<^bold>\<open>Data and text.\<close>
  \<^item> \<open>Queue_Links\<close>, \<open>Queue\<close>, \<open>Queue_Refine\<close> (\<^verbatim>\<open>inc/sys/queue.h\<close>): the macros on a memory of links, and that they implement lists.
  \<^item> \<open>Permute_Args\<close>, \<open>Getopt\<close> (\<^verbatim>\<open>src/getopt.c\<close>): the exchange of blocks in place; the option functions are safe, keep the arguments and end.
  \<^item> \<open>Uuid\<close> (\<^verbatim>\<open>src/uuid.c\<close>): printing and parsing are inverse, comparison is a linear order. \<open>Md5\<close> (\<^verbatim>\<open>src/md5.c\<close>): a digest does not depend on how the
    message is cut.
  \<^item> \<open>Fnmatch\<close> (\<^verbatim>\<open>src/fnmatch.c\<close>): matching decides the language of the pattern. \<open>Stdio\<close> (\<^verbatim>\<open>src/stdio.c\<close>, \<^verbatim>\<open>src/strings.c\<close>, \<^verbatim>\<open>src/string.c\<close>): reading records, strings
    without regard to case, messages. \<open>Stdlib\<close> (\<^verbatim>\<open>src/stdlib.c\<close>): memory, random numbers, temporary files.

  \<^bold>\<open>Bounds and fuel.\<close> Table sizes are those of the code (\<open>maxsockets\<close>, \<open>maxepolls\<close>, \<open>maxthreads\<close>, 20 path mappings, \<open>CPU_SETSIZE\<close> 128). The counted loops of
  the code (26 attempts of \<^verbatim>\<open>mkstemp\<close>, 250 queries of \<^verbatim>\<open>process_exited\<close>) recurse on the number of rounds that are left. No
  other function has fuel: loops over data recurse on the data or have a termination proof, and the loops that wait for Windows are partial functions
  (\<open>wait_loop\<close>, \<open>usleep_loop\<close>, \<open>processor_buffer\<close>, \<open>wpdk_get_adapters\<close>, \<open>getdelim_loop\<close>, the traversals of \<open>Queue\<close>), each with a theorem
  that it returns under the stated contract.

  \<^bold>\<open>Not modelled.\<close>
  \<^item> \<^verbatim>\<open>src/regex.c\<close> and \<^verbatim>\<open>src/syslog.c\<close> are not implemented in the library: their functions return constants or do nothing.
  \<^item> \<^verbatim>\<open>src/log.c\<close>, \<^verbatim>\<open>src/fatal.c\<close> and \<^verbatim>\<open>src/invalid.c\<close> write messages, end the program or install a handler that does nothing. A
    function that can end the program returns an option. \<^verbatim>\<open>wpdk_pthread_testcancel\<close> only logs.
  \<^item> The debugging and kernel variants of the macros in \<^verbatim>\<open>inc/sys/queue.h\<close>, the code of \<^verbatim>\<open>src/aio.c\<close> under \<^verbatim>\<open>WPDK_AIO_TEST\<close>, and the
    variants for MinGW are not compiled into the native library.
  \<^item> The other headers declare types and rename functions; \<^verbatim>\<open>test/\<close> and the build files are not part of the library.
  \<^item> Windows, Winsock, the C runtime and \<^verbatim>\<open>cryptdll.dll\<close> are parameters. Interleaving is modelled where the code shares a table between threads
    under its own locks (threads, messages); elsewhere a call is one step, as its callers are.
\<close>

end
